(* ===== verification/Prelude.thy ===== *)
theory Prelude
  imports Main "HOL-Library.AList" "HOL-Library.Word"
begin

text \<open>
  The shared layer of the development.  It holds the types every component uses (byte strings,
  instants, durations, the errors the services compare with \<open>errors.Is\<close>), the result type, the
  transaction monad in which the store and everything above it is written, its weakest-precondition
  calculus, and generic lemmas on association lists and on 64-bit wrap-around.

  A Go string is a sequence of bytes, which is what \<^typ>\<open>string\<close> is: a \<^typ>\<open>char\<close> has eight bits.
  A \<open>time.Time\<close> is the number of nanoseconds since the Unix epoch; the location a Go time carries
  only matters to calendar fields, which the code reads after converting to UTC.
\<close>

section \<open>Types\<close>

type_synonym bytes = string
type_synonym gotime = int
type_synonym duration = int

text \<open>
  The sentinel errors the code tells apart with \<open>errors.Is\<close>.  The text a wrapping
  \<open>fmt.Errorf("%w: ...")\<close> adds is not modelled, since no code reads it; an error without a sentinel
  is \<open>ErrOther\<close> with a label.  \<open>ErrPanic\<close> is not an error value but a panic: it unwinds every caller,
  and \<open>InTx\<close> does not roll back on it.
\<close>

datatype gerr =
    ErrInvalidIdentifier | ErrInvalidPlanID | ErrInvalidJSON | ErrUnknownField | ErrDuplicateField
  | ErrMissingField | ErrTrailingJSON | ErrInvalidTimestamp | ErrInvalidToken | ErrInvalidSignature
  | ErrExpiredToken | ErrReplayWindow | ErrInvalidPairingRoot | ErrInvalidURL | ErrInvalidEventStatus
  | ErrInvalidStatus | ErrInvalidEventType | ErrIdentityField | ErrUnsupportedVersion
  | ErrInvalidProtocol | ErrUnorderedPeriod | ErrCancelFlagMismatch | ErrBodyTooLarge
  | ErrCheckoutConflict | ErrCheckoutTerminal | ErrUnknownPlan | ErrProtocolNotFound | ErrStaleFence
  | ErrProviderManaged | ErrAutomaticChargeBlocked | ErrFailClosed
  | ErrNotFound | ErrConflict | ErrNotOwned | ErrSchemaMismatch | ErrCheckoutBinding
  | ErrRand | ErrPanic | ErrUnknownStripePrice | ErrManualReview | ErrOther string

section \<open>Signed 64-bit wrap-around\<close>

definition wrap64 :: "int \<Rightarrow> int" where
  "wrap64 x = (x + 2 ^ 63) mod 2 ^ 64 - 2 ^ 63"

lemma wrap64_id: "- (2 ^ 63) \<le> x \<Longrightarrow> x < 2 ^ 63 \<Longrightarrow> wrap64 x = x"
  by (simp add: wrap64_def)

lemma wrap64_range: "- (2 ^ 63) \<le> wrap64 x \<and> wrap64 x < 2 ^ 63"
proof -
  have "0 \<le> (x + 2 ^ 63) mod 2 ^ 64" and "(x + 2 ^ 63) mod 2 ^ 64 < 2 ^ 64"
    by simp_all
  then show ?thesis unfolding wrap64_def by simp
qed

lemma wrap64_word: "wrap64 x = sint (word_of_int x :: 64 word)"
proof -
  have "sint (word_of_int x :: 64 word) = signed_take_bit 63 x"
    by transfer (simp add: signed_take_bit_take_bit)
  also have "\<dots> = wrap64 x"
    by (simp add: wrap64_def signed_take_bit_eq_take_bit_shift take_bit_eq_mod)
  finally show ?thesis by simp
qed

lemma wrap64_Suc_neq: "- (2 ^ 63) \<le> x \<Longrightarrow> x < 2 ^ 63 \<Longrightarrow> wrap64 (x + 1) \<noteq> x"
proof (cases "x = 2 ^ 63 - 1")
  case True
  then show ?thesis by (simp add: wrap64_def)
next
  case False
  assume "- (2 ^ 63) \<le> x" "x < 2 ^ 63"
  with False have "wrap64 (x + 1) = x + 1" by (intro wrap64_id) simp_all
  then show ?thesis by simp
qed

section \<open>Results\<close>

abbreviation Err :: "gerr \<Rightarrow> gerr + 'a" where "Err \<equiv> Inl"
abbreviation Ok :: "'a \<Rightarrow> gerr + 'a" where "Ok \<equiv> Inr"

definition bindR :: "gerr + 'a \<Rightarrow> ('a \<Rightarrow> gerr + 'b) \<Rightarrow> gerr + 'b" where
  "bindR r f = (case r of Inl e \<Rightarrow> Inl e | Inr x \<Rightarrow> f x)"

lemma bindR_simps [simp]: "bindR (Inl e) f = Inl e" "bindR (Inr x) f = f x"
  by (simp_all add: bindR_def)

lemma bindR_eq_Inr: "bindR r f = Inr y \<longleftrightarrow> (\<exists>x. r = Inr x \<and> f x = Inr y)"
  by (cases r) simp_all

text \<open>\<open>guardR b e\<close> is the early return \<open>if !b { return e }\<close>.\<close>

definition guardR :: "bool \<Rightarrow> gerr \<Rightarrow> gerr + unit" where
  "guardR b e = (if b then Inr () else Inl e)"

lemma guardR_simps [simp]: "guardR True e = Inr ()" "guardR False e = Inl e"
  by (simp_all add: guardR_def)

lemma guardR_eq_Inr [simp]: "guardR b e = Inr u \<longleftrightarrow> b"
  by (simp add: guardR_def)

section \<open>The transaction monad\<close>

text \<open>
  A computation over a state \<open>'s\<close> that may return an error.  The state reached so far is kept
  when an error is returned, as Go keeps it; rolling back is the business of \<open>InTx\<close>.
\<close>

type_synonym ('s, 'a) tx = "'s \<Rightarrow> (gerr + 'a) \<times> 's"

definition retT :: "'a \<Rightarrow> ('s, 'a) tx" where
  "retT x = (\<lambda>s. (Inr x, s))"

definition errT :: "gerr \<Rightarrow> ('s, 'a) tx" where
  "errT e = (\<lambda>s. (Inl e, s))"

definition bindT :: "('s, 'a) tx \<Rightarrow> ('a \<Rightarrow> ('s, 'b) tx) \<Rightarrow> ('s, 'b) tx" where
  "bindT m f = (\<lambda>s. case m s of (Inl e, s') \<Rightarrow> (Inl e, s') | (Inr x, s') \<Rightarrow> f x s')"

text \<open>\<open>attemptT m\<close> hands the error to the caller as a value: \<open>x, err := m\<close> with \<open>err\<close> inspected.\<close>

definition attemptT :: "('s, 'a) tx \<Rightarrow> ('s, gerr + 'a) tx" where
  "attemptT m = (\<lambda>s. case m s of (r, s') \<Rightarrow> (Inr r, s'))"

definition liftT :: "gerr + 'a \<Rightarrow> ('s, 'a) tx" where
  "liftT r = (\<lambda>s. (r, s))"

definition readT :: "('s \<Rightarrow> 'a) \<Rightarrow> ('s, 'a) tx" where
  "readT f = (\<lambda>s. (Inr (f s), s))"

definition writeT :: "('s \<Rightarrow> 's) \<Rightarrow> ('s, unit) tx" where
  "writeT f = (\<lambda>s. (Inr (), f s))"

text \<open>\<open>guardT b e\<close> is \<open>if !b { return e }\<close>, \<open>whenT b m\<close> is \<open>if b { m }\<close> with \<open>m\<close>'s error returned.\<close>

definition guardT :: "bool \<Rightarrow> gerr \<Rightarrow> ('s, unit) tx" where
  "guardT b e = (if b then retT () else errT e)"

definition whenT :: "bool \<Rightarrow> ('s, unit) tx \<Rightarrow> ('s, unit) tx" where
  "whenT b m = (if b then m else retT ())"

definition thenT :: "('s, 'a) tx \<Rightarrow> ('s, 'b) tx \<Rightarrow> ('s, 'b) tx" where
  "thenT m n = bindT m (\<lambda>_. n)"

lemmas tx_defs = retT_def errT_def bindT_def attemptT_def liftT_def readT_def writeT_def
  guardT_def whenT_def thenT_def

subsection \<open>Running a computation\<close>

lemma retT_run [simp]: "retT x s = (Inr x, s)" by (simp add: retT_def)
lemma errT_run [simp]: "errT e s = (Inl e, s)" by (simp add: errT_def)
lemma liftT_run [simp]: "liftT r s = (r, s)" by (simp add: liftT_def)
lemma readT_run [simp]: "readT f s = (Inr (f s), s)" by (simp add: readT_def)
lemma writeT_run [simp]: "writeT f s = (Inr (), f s)" by (simp add: writeT_def)
lemma attemptT_run [simp]: "attemptT m s = (Inr (fst (m s)), snd (m s))"
  by (simp add: attemptT_def split: prod.splits)
lemma guardT_run [simp]: "guardT b e s = (if b then (Inr (), s) else (Inl e, s))"
  by (simp add: guardT_def)
lemma whenT_run [simp]: "whenT b m s = (if b then m s else (Inr (), s))"
  by (simp add: whenT_def)
lemma bindT_Inl [simp]: "m s = (Inl e, s') \<Longrightarrow> bindT m f s = (Inl e, s')"
  by (simp add: bindT_def)
lemma bindT_Inr [simp]: "m s = (Inr x, s') \<Longrightarrow> bindT m f s = f x s'"
  by (simp add: bindT_def)
lemma thenT_Inl [simp]: "m s = (Inl e, s') \<Longrightarrow> thenT m n s = (Inl e, s')"
  by (simp add: thenT_def)
lemma thenT_Inr [simp]: "m s = (Inr x, s') \<Longrightarrow> thenT m n s = n s'"
  by (simp add: thenT_def)

lemma bindT_eq_Inr:
  "bindT m f s = (Inr y, t) \<longleftrightarrow> (\<exists>x u. m s = (Inr x, u) \<and> f x u = (Inr y, t))"
  by (auto simp: bindT_def split: prod.splits sum.splits)

lemma thenT_eq_Inr:
  "thenT m n s = (Inr y, t) \<longleftrightarrow> (\<exists>x u. m s = (Inr x, u) \<and> n u = (Inr y, t))"
  by (simp add: thenT_def bindT_eq_Inr)

subsection \<open>Weakest preconditions\<close>

text \<open>
  \<open>wpT m Q s\<close>: if \<open>m\<close> returns from \<open>s\<close> without an error, \<open>Q\<close> holds of its result and state.
  Errors make it true, because the enclosing transaction is then rolled back.
\<close>

named_theorems wp \<open>weakest-precondition equations\<close>

definition wpT :: "('s, 'a) tx \<Rightarrow> ('a \<Rightarrow> 's \<Rightarrow> bool) \<Rightarrow> 's \<Rightarrow> bool" where
  "wpT m Q s = (case m s of (Inl _, _) \<Rightarrow> True | (Inr x, s') \<Rightarrow> Q x s')"

lemma wpT_D: "wpT m Q s \<Longrightarrow> m s = (Inr x, t) \<Longrightarrow> Q x t"
  by (simp add: wpT_def)

lemma wpT_I: "(\<And>x t. m s = (Inr x, t) \<Longrightarrow> Q x t) \<Longrightarrow> wpT m Q s"
  by (auto simp: wpT_def split: prod.splits sum.splits)

lemma wpT_mono: "wpT m Q s \<Longrightarrow> (\<And>x t. Q x t \<Longrightarrow> R x t) \<Longrightarrow> wpT m R s"
  by (auto simp: wpT_def split: prod.splits sum.splits)

lemma wpT_conj: "wpT m (\<lambda>x t. Q x t \<and> R x t) s \<longleftrightarrow> wpT m Q s \<and> wpT m R s"
  by (auto simp: wpT_def split: prod.splits sum.splits)

lemma wpT_ret [wp]: "wpT (retT x) Q s = Q x s" by (simp add: wpT_def)
lemma wpT_err [wp]: "wpT (errT e) Q s" by (simp add: wpT_def)
lemma wpT_bind [wp]: "wpT (bindT m f) Q s = wpT m (\<lambda>x. wpT (f x) Q) s"
  by (auto simp: wpT_def bindT_def split: prod.splits sum.splits)
lemma wpT_then [wp]: "wpT (thenT m n) Q s = wpT m (\<lambda>_. wpT n Q) s"
  by (simp add: thenT_def wpT_bind)
lemma wpT_lift [wp]: "wpT (liftT r) Q s = (case r of Inl _ \<Rightarrow> True | Inr x \<Rightarrow> Q x s)"
  by (simp add: wpT_def)
lemma wpT_read [wp]: "wpT (readT f) Q s = Q (f s) s" by (simp add: wpT_def)
lemma wpT_write [wp]: "wpT (writeT f) Q s = Q () (f s)" by (simp add: wpT_def)
lemma wpT_guard [wp]: "wpT (guardT b e) Q s = (b \<longrightarrow> Q () s)"
  by (simp add: wpT_def)
lemma wpT_when [wp]: "wpT (whenT b m) Q s = (if b then wpT m Q s else Q () s)"
  by (simp add: wpT_def)
lemma wpT_if [wp]: "wpT (if b then m else n) Q s = (if b then wpT m Q s else wpT n Q s)"
  by simp
lemma wpT_attempt: "wpT (attemptT m) Q s = Q (fst (m s)) (snd (m s))"
  by (simp add: wpT_def)

subsection \<open>Invariants of computations\<close>

text \<open>\<open>keepsT I m\<close>: a successful run of \<open>m\<close> from a state where \<open>I\<close> holds ends in one where it holds.\<close>

named_theorems keeps \<open>invariant-preservation rules of the monad and of the store\<close>

definition keepsT :: "('s \<Rightarrow> bool) \<Rightarrow> ('s, 'a) tx \<Rightarrow> bool" where
  "keepsT I m \<longleftrightarrow> (\<forall>s. I s \<longrightarrow> wpT m (\<lambda>_. I) s)"

lemma keepsT_I: "(\<And>s x t. I s \<Longrightarrow> m s = (Inr x, t) \<Longrightarrow> I t) \<Longrightarrow> keepsT I m"
  by (auto simp: keepsT_def intro: wpT_I)

lemma keepsT_D: "keepsT I m \<Longrightarrow> I s \<Longrightarrow> m s = (Inr x, t) \<Longrightarrow> I t"
  unfolding keepsT_def by (drule spec, drule mp, assumption) (drule wpT_D, assumption, simp)

lemma keepsT_ret [keeps]: "keepsT I (retT x)" by (simp add: keepsT_def wp)
lemma keepsT_err [keeps]: "keepsT I (errT e)" by (simp add: keepsT_def wp)
lemma keepsT_lift [keeps]: "keepsT I (liftT r)" by (simp add: keepsT_def wp split: sum.splits)
lemma keepsT_read [keeps]: "keepsT I (readT f)" by (simp add: keepsT_def wp)
lemma keepsT_guard [keeps]: "keepsT I (guardT b e)" by (simp add: keepsT_def wp)

lemma keepsT_bind [keeps]: "keepsT I m \<Longrightarrow> (\<And>x. keepsT I (f x)) \<Longrightarrow> keepsT I (bindT m f)"
  by (rule keepsT_I) (auto simp: bindT_eq_Inr dest: keepsT_D)

lemma keepsT_then [keeps]: "keepsT I m \<Longrightarrow> keepsT I n \<Longrightarrow> keepsT I (thenT m n)"
  by (simp add: thenT_def keepsT_bind)

lemma keepsT_when [keeps]: "keepsT I m \<Longrightarrow> keepsT I (whenT b m)"
  by (simp add: whenT_def keepsT_ret)

lemma keepsT_if [keeps]: "(b \<Longrightarrow> keepsT I m) \<Longrightarrow> (\<not> b \<Longrightarrow> keepsT I n) \<Longrightarrow> keepsT I (if b then m else n)"
  by simp

lemma keepsT_option [keeps]:
  "(r = None \<Longrightarrow> keepsT I m) \<Longrightarrow> (\<And>x. r = Some x \<Longrightarrow> keepsT I (f x)) \<Longrightarrow>
   keepsT I (case r of None \<Rightarrow> m | Some x \<Rightarrow> f x)"
  by (cases r) simp_all

lemma keepsT_sum [keeps]:
  "(\<And>e. r = Inl e \<Longrightarrow> keepsT I (g e)) \<Longrightarrow> (\<And>x. r = Inr x \<Longrightarrow> keepsT I (f x)) \<Longrightarrow>
   keepsT I (case r of Inl e \<Rightarrow> g e | Inr x \<Rightarrow> f x)"
  by (cases r) simp_all

lemma keepsT_prod [keeps]:
  "(\<And>x y. p = (x, y) \<Longrightarrow> keepsT I (f x y)) \<Longrightarrow> keepsT I (case p of (x, y) \<Rightarrow> f x y)"
  by (cases p) simp

section \<open>Association lists\<close>

text \<open>
  A Go map is an association list with distinct keys.  Go leaves the order in which a
  \<open>range\<close> visits a map unspecified; the model visits it in list order, and every theorem is stated
  for an arbitrary list, hence for every order.
\<close>

definition vals :: "('k \<times> 'v) list \<Rightarrow> 'v list" where
  "vals m = map snd m"

definition well_keyed :: "('v \<Rightarrow> 'k) \<Rightarrow> ('k \<times> 'v) list \<Rightarrow> bool" where
  "well_keyed key m \<longleftrightarrow> distinct (map fst m) \<and> (\<forall>(k, v) \<in> set m. key v = k)"

lemma map_of_update [simp]: "map_of (AList.update k v m) = (map_of m)(k \<mapsto> v)"
  by (simp add: update_conv')

lemma well_keyed_Nil [simp]: "well_keyed key []"
  by (simp add: well_keyed_def)

lemma set_update:
  assumes "distinct (map fst m)"
  shows "set (AList.update k v m) = insert (k, v) {p \<in> set m. fst p \<noteq> k}"
  using assms by (induction m) (auto simp: image_iff)

lemma well_keyed_update: "well_keyed key m \<Longrightarrow> key v = k \<Longrightarrow> well_keyed key (AList.update k v m)"
  by (auto simp: well_keyed_def set_update distinct_update)

lemma well_keyed_key: "well_keyed key m \<Longrightarrow> map_of m k = Some v \<Longrightarrow> key v = k"
  by (auto simp: well_keyed_def dest!: map_of_SomeD)

lemma well_keyed_values:
  "well_keyed key m \<Longrightarrow> v \<in> set (vals m) \<longleftrightarrow> map_of m (key v) = Some v"
  by (force simp: well_keyed_def vals_def dest: map_of_SomeD)

lemma values_update:
  assumes "distinct (map fst m)"
  shows "set (vals (AList.update k v m)) = insert v {x. \<exists>j. j \<noteq> k \<and> map_of m j = Some x}"
proof -
  have "set (vals (AList.update k v m)) = snd ` insert (k, v) {p \<in> set m. fst p \<noteq> k}"
    by (simp add: vals_def set_update [OF assms])
  also have "\<dots> = insert v {x. \<exists>j. j \<noteq> k \<and> map_of m j = Some x}"
    using assms by (force simp: map_of_eq_Some_iff)
  finally show ?thesis .
qed

lemma find_values_Some:
  "find p (vals m) = Some v \<Longrightarrow> p v \<and> (\<exists>k. (k, v) \<in> set m)"
  by (auto simp: find_Some_iff vals_def in_set_conv_nth) (metis nth_mem prod.collapse)

lemma find_unique:
  assumes "x \<in> set xs" and "p x" and "\<And>y. y \<in> set xs \<Longrightarrow> p y \<Longrightarrow> y = x"
  shows "find p xs = Some x"
proof (cases "find p xs")
  case None
  with assms(1,2) show ?thesis by (simp add: find_None_iff)
next
  case (Some y)
  then have "y \<in> set xs" and "p y" by (auto simp: find_Some_iff)
  with assms(3) have "y = x" by blast
  with Some show ?thesis by simp
qed

end
