(* ===== verification/Text.thy ===== *)
theory Text
  imports Prelude
begin

text \<open>
  What the program uses of Go's \<open>strings\<close>, \<open>strconv\<close>, \<open>encoding/hex\<close>, \<open>unicode/utf8\<close> and
  \<open>unicode\<close> packages, on byte strings.  \<open>strings.ToLower\<close> and \<open>strings.ToUpper\<close> are modelled on
  ASCII letters; the code only applies them to hexadecimal digests, currency codes and refusal codes.
\<close>

section \<open>Bytes\<close>

definition ord :: "char \<Rightarrow> nat" where
  "ord c = of_char c"

lemma ord_bound [simp]: "ord c < 256"
  by (simp add: ord_def)

lemma ord_inject [simp]: "ord c = ord d \<longleftrightarrow> c = d"
  by (simp add: ord_def)

lemma char_of_ord [simp]: "char_of (ord c) = c"
  by (simp add: ord_def)

lemma ord_char_of [simp]: "ord (char_of n) = n mod 256"
  by (simp add: ord_def)

definition has_prefix :: "string \<Rightarrow> string \<Rightarrow> bool" where
  "has_prefix s p \<longleftrightarrow> take (length p) s = p"

definition has_suffix :: "string \<Rightarrow> string \<Rightarrow> bool" where
  "has_suffix s p \<longleftrightarrow> length p \<le> length s \<and> drop (length s - length p) s = p"

definition trim_prefix :: "string \<Rightarrow> string \<Rightarrow> string" where
  "trim_prefix s p = (if has_prefix s p then drop (length p) s else s)"

definition contains_any :: "string \<Rightarrow> string \<Rightarrow> bool" where
  "contains_any s cs \<longleftrightarrow> list_ex (\<lambda>c. c \<in> set cs) s"

lemma has_prefix_append [simp]: "has_prefix (p @ s) p"
  by (simp add: has_prefix_def)

lemma has_prefix_iff: "has_prefix s p \<longleftrightarrow> (\<exists>t. s = p @ t)"
  by (metis append_take_drop_id has_prefix_append has_prefix_def)

lemma has_suffix_append [simp]: "has_suffix (s @ p) p"
  by (simp add: has_suffix_def)

text \<open>\<open>strings.Count\<close> of a nonempty separator: non-overlapping occurrences from the left.\<close>

function count_sub :: "string \<Rightarrow> string \<Rightarrow> nat" where
  "count_sub s p =
     (if p = [] \<or> length s < length p then 0
      else if has_prefix s p then Suc (count_sub (drop (length p) s) p)
      else count_sub (tl s) p)"
  by pat_completeness auto
termination
  by (relation "measure (\<lambda>(s, p). length s)") (auto simp: not_less neq_Nil_conv)

declare count_sub.simps [simp del]

text \<open>\<open>strings.Split\<close> at a one-byte separator.\<close>

fun split_on :: "char \<Rightarrow> string \<Rightarrow> string list" where
  "split_on d [] = [[]]"
| "split_on d (c # s) =
     (if c = d then [] # split_on d s
      else (case split_on d s of [] \<Rightarrow> [[c]] | w # ws \<Rightarrow> (c # w) # ws))"

lemma split_on_nonempty [simp]: "split_on d s \<noteq> []"
  by (induction s) (auto split: list.splits)

lemma split_on_no_sep: "d \<notin> set s \<Longrightarrow> split_on d s = [s]"
  by (induction s) auto

lemma split_on_append: "d \<notin> set s \<Longrightarrow> split_on d (s @ d # t) = s # split_on d t"
  by (induction s) auto

section \<open>ASCII case\<close>

definition lower_char :: "char \<Rightarrow> char" where
  "lower_char c = (if 65 \<le> ord c \<and> ord c \<le> 90 then char_of (ord c + 32) else c)"

definition upper_char :: "char \<Rightarrow> char" where
  "upper_char c = (if 97 \<le> ord c \<and> ord c \<le> 122 then char_of (ord c - 32) else c)"

definition to_lower :: "string \<Rightarrow> string" where
  "to_lower s = map lower_char s"

definition to_upper :: "string \<Rightarrow> string" where
  "to_upper s = map upper_char s"

lemma lower_char_id: "ord c < 65 \<or> 90 < ord c \<Longrightarrow> lower_char c = c"
  by (auto simp: lower_char_def)

lemma to_lower_id: "(\<And>c. c \<in> set s \<Longrightarrow> ord c < 65 \<or> 90 < ord c) \<Longrightarrow> to_lower s = s"
  by (simp add: to_lower_def lower_char_id map_idI)

section \<open>Hexadecimal\<close>

definition is_lower_hex :: "char \<Rightarrow> bool" where
  "is_lower_hex c \<longleftrightarrow> (48 \<le> ord c \<and> ord c \<le> 57) \<or> (97 \<le> ord c \<and> ord c \<le> 102)"

definition hex_digit :: "nat \<Rightarrow> char" where
  "hex_digit n = (if n < 10 then char_of (48 + n) else char_of (87 + n))"

definition hex_val :: "char \<Rightarrow> nat option" where
  "hex_val c =
     (if 48 \<le> ord c \<and> ord c \<le> 57 then Some (ord c - 48)
      else if 97 \<le> ord c \<and> ord c \<le> 102 then Some (ord c - 87)
      else if 65 \<le> ord c \<and> ord c \<le> 70 then Some (ord c - 55)
      else None)"

definition hex_encode :: "bytes \<Rightarrow> string" where
  "hex_encode b = concat (map (\<lambda>c. [hex_digit (ord c div 16), hex_digit (ord c mod 16)]) b)"

fun hex_decode :: "string \<Rightarrow> bytes option" where
  "hex_decode [] = Some []"
| "hex_decode [c] = None"
| "hex_decode (c # d # s) =
     (case (hex_val c, hex_val d) of
        (Some h, Some l) \<Rightarrow> map_option (\<lambda>b. char_of (16 * h + l) # b) (hex_decode s)
      | _ \<Rightarrow> None)"

lemma ord_hex_digit: "n < 16 \<Longrightarrow> ord (hex_digit n) = (if n < 10 then 48 + n else 87 + n)"
  by (simp add: hex_digit_def)

lemma hex_val_digit [simp]: "n < 16 \<Longrightarrow> hex_val (hex_digit n) = Some n"
  by (auto simp: hex_val_def ord_hex_digit)

lemma lower_hex_digit [simp]: "n < 16 \<Longrightarrow> is_lower_hex (hex_digit n)"
  by (auto simp: is_lower_hex_def ord_hex_digit)

lemma hex_digit_val: "is_lower_hex c \<Longrightarrow> \<exists>n. hex_val c = Some n \<and> n < 16 \<and> hex_digit n = c"
  by (auto simp: is_lower_hex_def hex_val_def hex_digit_def)

lemma length_hex_encode [simp]: "length (hex_encode b) = 2 * length b"
  by (induction b) (simp_all add: hex_encode_def)

lemma hex_encode_simps [simp]:
  "hex_encode [] = []"
  "hex_encode (c # b) = hex_digit (ord c div 16) # hex_digit (ord c mod 16) # hex_encode b"
  by (simp_all add: hex_encode_def)

lemma ord_div_16: "ord c div 16 < 16"
proof -
  have "ord c < 16 * 16" by simp
  then show ?thesis by (rule less_mult_imp_div_less)
qed

lemma hex_encode_lower: "list_all is_lower_hex (hex_encode b)"
  by (induction b) (simp_all add: ord_div_16)

lemma hex_decode_encode [simp]: "hex_decode (hex_encode b) = Some b"
  by (induction b) (simp_all add: ord_div_16)

lemma hex_encode_inject [simp]: "hex_encode a = hex_encode b \<longleftrightarrow> a = b"
  by (metis hex_decode_encode option.inject)

lemma hex_encode_decode:
  "list_all is_lower_hex s \<Longrightarrow> hex_decode s = Some b \<Longrightarrow> hex_encode b = s"
proof (induction s arbitrary: b rule: hex_decode.induct)
  case (3 c d s)
  from 3(2) obtain h l where h: "hex_val c = Some h" "h < 16" "hex_digit h = c"
    and l: "hex_val d = Some l" "l < 16" "hex_digit l = d"
    using hex_digit_val by (metis list.pred_inject(2))
  with 3 obtain t where "hex_decode s = Some t" "b = char_of (16 * h + l) # t"
    by (auto split: option.splits)
  with 3 h l show ?case by simp
qed auto

lemma hex_decode_lower: "list_all is_lower_hex s \<Longrightarrow> even (length s) \<Longrightarrow> \<exists>b. hex_decode s = Some b"
proof (induction s rule: hex_decode.induct)
  case (3 c d s)
  then obtain h l where "hex_val c = Some h" "hex_val d = Some l"
    using hex_digit_val by (metis list.pred_inject(2))
  with 3 show ?case by auto
qed auto

section \<open>Decimal\<close>

text \<open>\<open>strconv.FormatInt(n, 10)\<close>.\<close>

fun dec_nat :: "nat \<Rightarrow> string" where
  "dec_nat n = (if n < 10 then [char_of (48 + n)] else dec_nat (n div 10) @ [char_of (48 + n mod 10)])"

declare dec_nat.simps [simp del]

definition format_int :: "int \<Rightarrow> string" where
  "format_int n = (if n < 0 then CHR ''-'' # dec_nat (nat (- n)) else dec_nat (nat n))"

definition is_digit :: "char \<Rightarrow> bool" where
  "is_digit c \<longleftrightarrow> 48 \<le> ord c \<and> ord c \<le> 57"

definition digits_val :: "string \<Rightarrow> nat" where
  "digits_val s = foldl (\<lambda>n c. 10 * n + (ord c - 48)) 0 s"

text \<open>\<open>strconv.ParseInt(s, 10, 64)\<close>: an optional sign, at least one digit, the 64-bit range.\<close>

definition parse_int64 :: "string \<Rightarrow> int option" where
  "parse_int64 s =
     (let neg = (s \<noteq> [] \<and> hd s = CHR ''-'');
          ds = (if s \<noteq> [] \<and> (hd s = CHR ''-'' \<or> hd s = CHR ''+'') then tl s else s);
          n = int (digits_val ds)
      in if ds = [] \<or> \<not> list_all is_digit ds then None
         else if neg then (if n \<le> 2 ^ 63 then Some (- n) else None)
         else (if n < 2 ^ 63 then Some n else None))"

lemma dec_nat_nonempty [simp]: "dec_nat n \<noteq> []"
  by (subst dec_nat.simps) simp

lemma dec_nat_digits: "list_all is_digit (dec_nat n)"
proof (induction n rule: dec_nat.induct)
  case (1 n)
  then show ?case by (subst dec_nat.simps) (auto simp: is_digit_def list_all_iff)
qed

lemma digits_val_append: "digits_val (s @ [c]) = 10 * digits_val s + (ord c - 48)"
  by (simp add: digits_val_def)

lemma digits_val_dec_nat [simp]: "digits_val (dec_nat n) = n"
proof (induction n rule: dec_nat.induct)
  case (1 n)
  show ?case
  proof (cases "n < 10")
    case True
    then show ?thesis by (subst dec_nat.simps) (simp add: digits_val_def)
  next
    case False
    with 1 show ?thesis by (subst dec_nat.simps) (simp add: digits_val_append)
  qed
qed

lemma hd_dec_nat_digit: "is_digit (hd (dec_nat n))"
  using dec_nat_digits [of n] by (cases "dec_nat n") auto

lemma hd_dec_nat: "0 < n \<Longrightarrow> hd (dec_nat n) \<noteq> CHR ''0''"
proof (induction n rule: dec_nat.induct)
  case (1 n)
  show ?case
  proof (cases "n < 10")
    case True
    then have "ord (char_of (48 + n)) \<noteq> ord (CHR ''0'')"
      using 1(2) by (simp add: ord_def)
    then have "char_of (48 + n) \<noteq> CHR ''0''" by (metis ord_inject)
    with True show ?thesis by (subst dec_nat.simps) simp
  next
    case False
    with 1 show ?thesis by (subst dec_nat.simps) (simp add: hd_append)
  qed
qed

lemma parse_format_int:
  assumes "0 \<le> n" and "n < 2 ^ 63"
  shows "parse_int64 (format_int n) = Some n"
proof -
  have "\<not> is_digit (CHR ''-'')" and "\<not> is_digit (CHR ''+'')"
    by (simp_all add: is_digit_def ord_def)
  then have "hd (dec_nat (nat n)) \<noteq> CHR ''-''" and "hd (dec_nat (nat n)) \<noteq> CHR ''+''"
    by (metis hd_dec_nat_digit)+
  with assms show ?thesis
    by (simp add: parse_int64_def format_int_def dec_nat_digits)
qed

section \<open>UTF-8\<close>

text \<open>
  \<open>utf8.DecodeRune\<close> on a nonempty input: the code point and its width, \<open>None\<close> for an invalid
  encoding (where Go answers \<open>RuneError\<close> with width 1).
\<close>

definition cont :: "nat \<Rightarrow> bool" where
  "cont b \<longleftrightarrow> 128 \<le> b \<and> b \<le> 191"

fun decode_rune :: "nat list \<Rightarrow> (nat \<times> nat) option" where
  "decode_rune [] = None"
| "decode_rune (a # r) =
     (if a < 128 then Some (a, 1)
      else if 194 \<le> a \<and> a \<le> 223 then
        (case r of b # _ \<Rightarrow> if cont b then Some ((a - 192) * 64 + (b - 128), 2) else None
         | _ \<Rightarrow> None)
      else if 224 \<le> a \<and> a \<le> 239 then
        (case r of b # c # _ \<Rightarrow>
           if cont b \<and> cont c \<and> (a = 224 \<longrightarrow> 160 \<le> b) \<and> (a = 237 \<longrightarrow> b \<le> 159)
           then Some ((a - 224) * 4096 + (b - 128) * 64 + (c - 128), 3) else None
         | _ \<Rightarrow> None)
      else if 240 \<le> a \<and> a \<le> 244 then
        (case r of b # c # d # _ \<Rightarrow>
           if cont b \<and> cont c \<and> cont d \<and> (a = 240 \<longrightarrow> 144 \<le> b) \<and> (a = 244 \<longrightarrow> b \<le> 143)
           then Some ((a - 240) * 262144 + (b - 128) * 4096 + (c - 128) * 64 + (d - 128), 4) else None
         | _ \<Rightarrow> None)
      else None)"

lemma decode_rune_width: "decode_rune bs = Some (r, w) \<Longrightarrow> 1 \<le> w"
  by (cases bs rule: decode_rune.cases) (auto split: if_splits list.splits)

text \<open>The code points of a byte string, \<open>None\<close> if it is not valid UTF-8.\<close>

function runes :: "nat list \<Rightarrow> nat list option" where
  "runes bs =
     (if bs = [] then Some []
      else case decode_rune bs of
             None \<Rightarrow> None
           | Some (r, w) \<Rightarrow> map_option ((#) r) (runes (drop w bs)))"
  by pat_completeness auto
termination
  by (relation "measure length") (auto dest: decode_rune_width)

declare runes.simps [simp del]

definition utf8_valid :: "string \<Rightarrow> bool" where
  "utf8_valid s \<longleftrightarrow> runes (map ord s) \<noteq> None"

text \<open>\<open>unicode.IsSpace\<close>.\<close>

definition is_space :: "nat \<Rightarrow> bool" where
  "is_space r \<longleftrightarrow> r \<in> set [9, 10, 11, 12, 13, 32, 133, 160, 5760, 8232, 8233, 8239, 8287, 12288]
     \<or> (8192 \<le> r \<and> r \<le> 8202)"

lemma runes_ascii: "list_all (\<lambda>b. b < 128) bs \<Longrightarrow> runes bs = Some bs"
proof (induction bs)
  case Nil
  show ?case by (simp add: runes.simps)
next
  case (Cons b bs)
  then show ?case by (simp add: runes.simps [of "b # bs"])
qed

lemma utf8_valid_ascii: "list_all (\<lambda>c. ord c < 128) s \<Longrightarrow> utf8_valid s"
proof -
  assume "list_all (\<lambda>c. ord c < 128) s"
  then have "list_all (\<lambda>b. b < 128) (map ord s)" by (simp add: list_all_iff)
  then show ?thesis by (simp add: utf8_valid_def runes_ascii)
qed

declare decode_rune.simps [simp del]

section \<open>White space around a byte string\<close>

text \<open>\<open>strings.TrimSpace(s) != s\<close>: the first or the last character is white space.\<close>

definition starts_space :: "string \<Rightarrow> bool" where
  "starts_space s \<longleftrightarrow> (case decode_rune (map ord s) of Some (r, _) \<Rightarrow> is_space r | None \<Rightarrow> False)"

definition ends_space :: "string \<Rightarrow> bool" where
  "ends_space s \<longleftrightarrow> list_ex (\<lambda>k. k \<le> length s \<and>
     (case decode_rune (map ord (drop (length s - k) s)) of Some (r, n) \<Rightarrow> n = k \<and> is_space r | None \<Rightarrow> False)) [1, 2, 3, 4]"

definition trims :: "string \<Rightarrow> bool" where
  "trims s \<longleftrightarrow> s \<noteq> [] \<and> (starts_space s \<or> ends_space s)"

text \<open>\<open>strings.TrimSpace\<close>.\<close>

lemma decode_rune_Nil: "decode_rune [] = None"
  by (simp add: decode_rune.simps)

function trim_start :: "string \<Rightarrow> string" where
  "trim_start s = (case decode_rune (map ord s) of None \<Rightarrow> s
     | Some (r, n) \<Rightarrow> if is_space r then trim_start (drop n s) else s)"
  by pat_completeness auto
termination
proof (relation "measure length")
  fix s :: string and x r n
  assume *: "decode_rune (map ord s) = Some x" "(r, n) = x" "is_space r"
  then have "1 \<le> n" using decode_rune_width by blast
  moreover have "s \<noteq> []" using * decode_rune_Nil by (cases s) simp_all
  ultimately show "(drop n s, s) \<in> measure length" by simp
qed simp

definition last_space :: "string \<Rightarrow> nat option" where
  "last_space s = find (\<lambda>k. k \<le> length s \<and>
     (case decode_rune (map ord (drop (length s - k) s)) of Some (r, n) \<Rightarrow> n = k \<and> is_space r | None \<Rightarrow> False)) [1, 2, 3, 4]"

function trim_end :: "string \<Rightarrow> string" where
  "trim_end s = (case last_space s of None \<Rightarrow> s | Some k \<Rightarrow> trim_end (take (length s - k) s))"
  by pat_completeness auto
termination
proof (relation "measure length")
  fix s k assume "last_space s = Some k"
  then have "k \<in> set [1, 2, 3, 4]" "k \<le> length s" by (auto simp: last_space_def split: if_split_asm)
  then show "(take (length s - k) s, s) \<in> measure length" by (cases s) auto
qed simp

declare trim_start.simps [simp del] trim_end.simps [simp del]

definition TrimSpace :: "string \<Rightarrow> string" where
  "TrimSpace s = trim_end (trim_start s)"

lemma decode_rune_cont: "decode_rune bs = Some (r, length bs) \<Longrightarrow> 1 < length bs \<Longrightarrow> cont (last bs)"
  by (cases bs rule: decode_rune.cases) (auto simp: decode_rune.simps split: if_split_asm list.splits)

text \<open>A string that ends in an ASCII character other than white space does not end in white space.\<close>

lemma ends_ascii:
  assumes "ord (last s) < 128" "\<not> is_space (ord (last s))" and "s \<noteq> []"
  shows "\<not> ends_space s"
proof
  assume "ends_space s"
  then obtain k r where k: "k \<in> {1, 2, 3, 4}" "k \<le> length s"
    and r: "decode_rune (map ord (drop (length s - k) s)) = Some (r, k)" "is_space r"
    by (auto simp: ends_space_def split: option.splits)
  let ?t = "drop (length s - k) s"
  have t: "length ?t = k" "?t \<noteq> []" "last ?t = last s" using k by auto
  have l: "\<not> cont (ord (last s))" using assms(1) by (auto simp: cont_def)
  show False
  proof (cases "k = 1")
    case True
    then obtain x where "?t = [x]" using t(1) by (metis One_nat_def length_0_conv length_Suc_conv)
    with t(3) have "?t = [last s]" by simp
    with r assms(1,2) show False by (simp add: decode_rune.simps)
  next
    case False
    then have "1 < k" using k(1) by auto
    then have "cont (last (map ord ?t))" using decode_rune_cont [of "map ord ?t" r] r(1) t(1) by simp
    then show False using l t(2,3) by (simp add: last_map)
  qed
qed

lemma last_space_None: "last_space s = None \<longleftrightarrow> \<not> ends_space s"
  by (simp add: last_space_def ends_space_def find_None_iff list_ex_iff)

lemma TrimSpace_ascii:
  assumes "s \<noteq> []" "ord (hd s) < 128" "\<not> is_space (ord (hd s))" "ord (last s) < 128" "\<not> is_space (ord (last s))"
  shows "TrimSpace s = s"
proof -
  have "trim_start s = s" using assms(1-3) by (cases s) (simp_all add: trim_start.simps decode_rune.simps)
  moreover have "trim_end s = s" using ends_ascii [OF assms(4,5,1), folded last_space_None] by (simp add: trim_end.simps)
  ultimately show ?thesis by (simp add: TrimSpace_def)
qed

end
