(* ===== verification/GoTime.thy ===== *)
theory GoTime
  imports Text
begin

text \<open>
  \<^verbatim>\<open>internal/protocol/time.go\<close> and what it uses of Go's \<open>time\<close> package: truncation to whole seconds,
  the proleptic Gregorian calendar, RFC 3339, the token and replay windows, and the anniversary
  arithmetic of renewals.  An instant is a number of nanoseconds since the Unix epoch; the zero
  \<open>time.Time\<close> is 1 January of year 1.
\<close>

section \<open>Instants\<close>

definition second :: duration where "second = 10 ^ 9"
definition minute :: duration where "minute = 60 * 10 ^ 9"
definition hour :: duration where "hour = 3600 * 10 ^ 9"

lemmas duration_defs = second_def minute_def hour_def

definition zero_time :: gotime where
  "zero_time = - 62135596800 * 10 ^ 9"

definition IsZero :: "gotime \<Rightarrow> bool" where
  "IsZero t \<longleftrightarrow> t = zero_time"

definition unix_of :: "gotime \<Rightarrow> int" where
  "unix_of t = t div 10 ^ 9"

definition from_unix :: "int \<Rightarrow> gotime" where
  "from_unix s = s * 10 ^ 9"

definition TruncateUTC :: "gotime \<Rightarrow> gotime" where
  "TruncateUTC t = t - t mod second"

definition whole :: "gotime \<Rightarrow> bool" where
  "whole t \<longleftrightarrow> t mod second = 0"

lemma TruncateUTC_le: "TruncateUTC t \<le> t"
  by (simp add: TruncateUTC_def second_def)

lemma TruncateUTC_gt: "t - second < TruncateUTC t"
  by (simp add: TruncateUTC_def second_def)

lemma whole_TruncateUTC [simp]: "whole (TruncateUTC t)"
  by (simp add: whole_def TruncateUTC_def minus_mod_eq_mult_div)

lemma TruncateUTC_whole [simp]: "whole t \<Longrightarrow> TruncateUTC t = t"
  by (simp add: whole_def TruncateUTC_def)

lemma TruncateUTC_idem [simp]: "TruncateUTC (TruncateUTC t) = TruncateUTC t"
  by simp

lemma TruncateUTC_unix: "TruncateUTC t = from_unix (unix_of t)"
  by (simp add: TruncateUTC_def from_unix_def unix_of_def second_def minus_mod_eq_div_mult)

lemma unix_from_unix [simp]: "unix_of (from_unix s) = s"
  by (simp add: unix_of_def from_unix_def)

lemma whole_from_unix [simp]: "whole (from_unix s)"
  by (simp add: whole_def from_unix_def second_def)

lemma whole_iff: "whole t \<longleftrightarrow> (\<exists>s. t = from_unix s)"
  by (metis TruncateUTC_unix TruncateUTC_whole whole_from_unix)

lemma TruncateUTC_mono: "a \<le> b \<Longrightarrow> TruncateUTC a \<le> TruncateUTC b"
  by (simp add: TruncateUTC_unix from_unix_def unix_of_def zdiv_mono1)

section \<open>The calendar\<close>

definition is_leap :: "int \<Rightarrow> bool" where
  "is_leap y \<longleftrightarrow> y mod 4 = 0 \<and> (y mod 100 \<noteq> 0 \<or> y mod 400 = 0)"

definition month_lens :: "int \<Rightarrow> int list" where
  "month_lens y = [31, if is_leap y then 29 else 28, 31, 30, 31, 30, 31, 31, 30, 31, 30, 31]"

definition month_len :: "int \<Rightarrow> int \<Rightarrow> int" where
  "month_len y m = month_lens y ! nat (m - 1)"

text \<open>Days from 1 January 1970 to 1 January of year \<open>y\<close>.\<close>

definition days_before_year :: "int \<Rightarrow> int" where
  "days_before_year y =
     365 * (y - 1) + (y - 1) div 4 - (y - 1) div 100 + (y - 1) div 400 - 719162"

definition days_before_month :: "int \<Rightarrow> int \<Rightarrow> int" where
  "days_before_month y m = sum_list (take (nat (m - 1)) (month_lens y))"

definition days_of_civil :: "int \<Rightarrow> int \<Rightarrow> int \<Rightarrow> int" where
  "days_of_civil y m d = days_before_year y + days_before_month y m + d - 1"

text \<open>The inverse: cycles of 400, 100, 4 and 1 years, then a walk along the months.\<close>

fun month_walk :: "int list \<Rightarrow> int \<Rightarrow> int \<times> int" where
  "month_walk [] n = (1, n + 1)"
| "month_walk (l # ls) n =
     (if n < l then (1, n + 1) else (let (m, d) = month_walk ls (n - l) in (m + 1, d)))"

definition year_of_days :: "int \<Rightarrow> int \<times> int" where
  "year_of_days n =
     (let z = n + 719162;
          a = z div 146097; r = z mod 146097;
          b = min 3 (r div 36524); r1 = r - 36524 * b;
          c = r1 div 1461; r2 = r1 mod 1461;
          e = min 3 (r2 div 365)
      in (400 * a + 100 * b + 4 * c + e + 1, r2 - 365 * e))"

definition civil_of_days :: "int \<Rightarrow> int \<times> int \<times> int" where
  "civil_of_days n =
     (let (y, yd) = year_of_days n; (m, d) = month_walk (month_lens y) yd in (y, m, d))"

definition year_len :: "int \<Rightarrow> int" where
  "year_len y = (if is_leap y then 366 else 365)"

lemma days_before_year_cycles:
  assumes "0 \<le> b" "b \<le> 3" "0 \<le> c" "c \<le> 24" "0 \<le> e" "e \<le> (3::int)"
  shows "days_before_year (400 * a + 100 * b + 4 * c + e + 1)
           = 146097 * a + 36524 * b + 1461 * c + 365 * e - 719162"
proof -
  let ?y = "400 * a + 100 * b + 4 * c + e"
  have "?y div 4 = 100 * a + 25 * b + c"
    by (rule int_div_pos_eq [where r = e]) (use assms in simp_all)
  moreover have "?y div 100 = 4 * a + b"
    by (rule int_div_pos_eq [where r = "4 * c + e"]) (use assms in simp_all)
  moreover have "?y div 400 = a"
    by (rule int_div_pos_eq [where r = "100 * b + 4 * c + e"]) (use assms in simp_all)
  ultimately show ?thesis by (simp add: days_before_year_def)
qed

lemma div_pred:
  assumes "0 < (k::int)"
  shows "y div k = (y - 1) div k + (if y mod k = 0 then 1 else 0)"
proof (cases "y mod k = 0")
  case True
  have "(y - 1) div k = y div k - 1"
    by (rule int_div_pos_eq [where r = "k - 1"])
      (use True assms mult_div_mod_eq [of k y] in \<open>simp_all add: algebra_simps\<close>)
  with True show ?thesis by simp
next
  case False
  have "0 \<le> y mod k" "y mod k < k" using assms by simp_all
  with False have "(y - 1) div k = y div k"
    by (intro int_div_pos_eq [where r = "y mod k - 1"]) (simp_all add: algebra_simps)
  with False show ?thesis by simp
qed

lemma year_len_alt:
  "year_len y = 365 + (if y mod 4 = 0 then 1 else 0) - (if y mod 100 = 0 then 1 else 0)
     + (if y mod 400 = 0 then 1 else 0)"
proof -
  have "(4::int) dvd 100" and "(100::int) dvd 400" by simp_all
  then have "100 dvd y \<Longrightarrow> 4 dvd y" and "400 dvd y \<Longrightarrow> 100 dvd y"
    by (blast intro: dvd_trans)+
  then show ?thesis
    by (cases "4 dvd y"; cases "100 dvd y"; cases "400 dvd y")
      (simp_all add: year_len_def is_leap_def mod_eq_0_iff_dvd)
qed

lemma days_before_year_Suc: "days_before_year (y + 1) = days_before_year y + year_len y"
proof -
  have sum: "A = a + p \<Longrightarrow> B = b + q \<Longrightarrow> C = c + r \<Longrightarrow>
      365 * y + A - B + C - 719162 = 365 * (y - 1) + a - b + c - 719162 + (365 + p - q + r)"
    for A a p B b q C c r :: int
    by simp
  show ?thesis
    unfolding days_before_year_def year_len_alt add_diff_cancel_right'
    by (rule sum) (rule div_pred, simp)+
qed

lemma year_len_pos: "0 < year_len y"
  by (simp add: year_len_def)

lemma days_before_year_mono: "y \<le> z \<Longrightarrow> days_before_year y \<le> days_before_year z"
proof (induction z rule: int_ge_induct)
  case (step z)
  then show ?case using days_before_year_Suc [of z] year_len_pos [of z] by linarith
qed simp

text \<open>The year a day falls in is determined by the two bounds.\<close>

lemma year_unique:
  assumes "days_before_year y \<le> n" "n < days_before_year (y + 1)"
    and "days_before_year z \<le> n" "n < days_before_year (z + 1)"
  shows "y = z"
proof (rule ccontr)
  assume "y \<noteq> z"
  then have "y + 1 \<le> z \<or> z + 1 \<le> y" by linarith
  then show False
    using days_before_year_mono [of "y + 1" z] days_before_year_mono [of "z + 1" y] assms by linarith
qed

lemma min_div_bounds:
  fixes r k n :: int
  assumes "0 \<le> r" and "r < k * (n + 1) + d" and "0 < k" and "0 \<le> n" and "b = min n (r div k)"
  shows "0 \<le> b" "b \<le> n" "0 \<le> r - k * b" "b < n \<longrightarrow> r - k * b < k" "b = n \<longrightarrow> r - k * b < k + d"
proof -
  have q: "0 \<le> r div k" using assms by (simp add: pos_imp_zdiv_nonneg_iff)
  show "0 \<le> b" "b \<le> n" using assms q by simp_all
  have r: "r = k * (r div k) + r mod k" "0 \<le> r mod k" "r mod k < k" using assms(3) by simp_all
  show "0 \<le> r - k * b"
  proof -
    have "k * b \<le> k * (r div k)" using assms(3,5) by (intro mult_left_mono) simp_all
    with r show ?thesis by linarith
  qed
  show "b < n \<longrightarrow> r - k * b < k" 
    using assms(5) r(3) by (auto simp: min_def minus_mult_div_eq_mod)
  show "b = n \<longrightarrow> r - k * b < k + d" using assms(2) by (simp add: algebra_simps)
qed

lemma year_of_days_cycles:
  assumes "year_of_days n = (y, yd)"
  obtains a b c e where "0 \<le> b" "b \<le> 3" "0 \<le> c" "c \<le> 24" "0 \<le> e" "e \<le> 3"
    and "y = 400 * a + 100 * b + 4 * c + e + 1"
    and "n = 146097 * a + 36524 * b + 1461 * c + 365 * e + yd - 719162"
    and "0 \<le> yd" "yd \<le> 365" "e < 3 \<or> (c = 24 \<and> b < 3) \<longrightarrow> yd < 365"
proof -
  define z where "z = n + 719162"
  define a where "a = z div 146097"
  define r where "r = z mod 146097"
  define b where "b = min 3 (r div 36524)"
  define r1 where "r1 = r - 36524 * b"
  define c where "c = r1 div 1461"
  define r2 where "r2 = r1 mod 1461"
  define e where "e = min 3 (r2 div 365)"
  have z: "z = 146097 * a + r" and r: "0 \<le> r" "r < 36524 * (3 + 1) + 1"
    unfolding a_def r_def by simp_all
  note b = min_div_bounds [OF r _ _ b_def, folded r1_def, simplified]
  have r1': "r1 = 1461 * c + r2" and r2: "0 \<le> r2" "r2 < 365 * (3 + 1) + 1"
    unfolding c_def r2_def by simp_all
  have r2': "r2 < 1461" using r2 by simp
  note e = min_div_bounds [OF r2 _ _ e_def, simplified]
  have r1: "0 \<le> r1" "r1 \<le> 36524" "b < 3 \<longrightarrow> r1 < 36524" using b by linarith+
  have c: "0 \<le> c" "c \<le> 24" using r1 r1' r2(1) r2' by linarith+
  have y: "y = 400 * a + 100 * b + 4 * c + e + 1" and yd: "yd = r2 - 365 * e"
    using assms
    by (simp_all only: year_of_days_def Let_def prod.inject z_def a_def r_def b_def r1_def c_def r2_def e_def)
  show ?thesis
  proof (rule that [OF b(1,2) c e(1,2) y])
    show "n = 146097 * a + 36524 * b + 1461 * c + 365 * e + yd - 719162"
      using z r1' yd unfolding z_def r1_def by linarith
    show "0 \<le> yd" "yd \<le> 365" using e yd by linarith+
    have "c = 24 \<and> b < 3 \<longrightarrow> r2 < 1460" using r1 r1' by linarith
    then show "e < 3 \<or> (c = 24 \<and> b < 3) \<longrightarrow> yd < 365" using e yd by linarith
  qed
qed

lemma year_of_days_bounds:
  assumes "year_of_days n = (y, yd)"
  shows "n = days_before_year y + yd" and "0 \<le> yd" and "yd < year_len y"
proof -
  obtain a b c e where b: "0 \<le> b" "b \<le> 3" and c: "0 \<le> c" "c \<le> 24" and e: "0 \<le> e" "e \<le> 3"
    and y: "y = 400 * a + 100 * b + 4 * c + e + 1"
    and n: "n = 146097 * a + 36524 * b + 1461 * c + 365 * e + yd - 719162"
    and yd: "0 \<le> yd" "yd \<le> 365" "e < 3 \<or> (c = 24 \<and> b < 3) \<longrightarrow> yd < 365"
    by (rule year_of_days_cycles [OF assms])
  show "n = days_before_year y + yd"
    using n days_before_year_cycles [OF b c e, of a] by (simp add: y)
  show "0 \<le> yd" by (rule yd(1))
  show "yd < year_len y"
  proof (cases "e < 3 \<or> (c = 24 \<and> b < 3)")
    case True
    with yd(3) show ?thesis by (simp add: year_len_def)
  next
    case False
    with e have e3: "e = 3" by simp
    have y4: "y = 4 * (100 * a + 25 * b + c + 1)" using y e3 by simp
    then have m4: "y mod 4 = 0" by simp
    have "is_leap y"
    proof (cases "c = 24")
      case True
      with False b have "y = 400 * (a + 1)" using y e3 by simp
      then have "y mod 400 = 0" by simp
      with m4 show ?thesis by (simp add: is_leap_def)
    next
      case c24: False
      have "y = 100 * (4 * a + b) + (4 * c + 4)" using y e3 by simp
      then have "y mod 100 = 4 * c + 4"
        by (rule int_mod_pos_eq) (use c c24 in simp_all)
      with c m4 show ?thesis by (simp add: is_leap_def)
    qed
    with yd show ?thesis by (simp add: year_len_def)
  qed
qed

lemma sum_month_lens: "sum_list (month_lens y) = year_len y"
  by (simp add: month_lens_def year_len_def)

text \<open>Walking the months inverts the sum of the lengths of the months before.\<close>

lemma month_walk_take:
  assumes "k < length ls" and "\<forall>l \<in> set ls. 0 \<le> l" and "0 \<le> d" and "d < ls ! k"
  shows "month_walk ls (sum_list (take k ls) + d) = (int k + 1, d + 1)"
  using assms
proof (induction ls arbitrary: k)
  case (Cons l ls)
  show ?case
  proof (cases k)
    case 0
    with Cons.prems show ?thesis by simp
  next
    case (Suc j)
    with Cons.prems have "0 \<le> sum_list (take j ls)"
      by (intro sum_list_nonneg) (auto dest: in_set_takeD)
    with Suc Cons.prems Cons.IH [of j] show ?thesis by simp
  qed
qed simp

lemma month_walk_bounds:
  assumes "month_walk ls n = (m, d)" and "0 \<le> n" and "n < sum_list ls" and "\<forall>l \<in> set ls. 0 \<le> l"
  shows "1 \<le> m" and "m \<le> int (length ls)" and "1 \<le> d" and "d \<le> ls ! nat (m - 1)"
    and "n = sum_list (take (nat (m - 1)) ls) + d - 1"
proof -
  have "1 \<le> m \<and> m \<le> int (length ls) \<and> 1 \<le> d \<and> d \<le> ls ! nat (m - 1)
      \<and> n = sum_list (take (nat (m - 1)) ls) + d - 1"
    using assms
  proof (induction ls arbitrary: n m)
    case (Cons l ls)
    show ?case
    proof (cases "n < l")
      case True
      with Cons.prems show ?thesis by auto
    next
      case False
      with Cons.prems(1) obtain m' where w: "month_walk ls (n - l) = (m', d)" and m: "m = m' + 1"
        by (auto split: prod.splits)
      have IH: "1 \<le> m' \<and> m' \<le> int (length ls) \<and> 1 \<le> d \<and> d \<le> ls ! nat (m' - 1)
          \<and> n - l = sum_list (take (nat (m' - 1)) ls) + d - 1"
        by (rule Cons.IH [OF w]) (use Cons.prems False in simp_all)
      then have "nat (m - 1) = Suc (nat (m' - 1))" using m by arith
      with IH m show ?thesis by simp
    qed
  qed simp
  then show "1 \<le> m" "m \<le> int (length ls)" "1 \<le> d" "d \<le> ls ! nat (m - 1)"
    "n = sum_list (take (nat (m - 1)) ls) + d - 1" by simp_all
qed

definition valid_civil :: "int \<Rightarrow> int \<Rightarrow> int \<Rightarrow> bool" where
  "valid_civil y m d \<longleftrightarrow> 1 \<le> m \<and> m \<le> 12 \<and> 1 \<le> d \<and> d \<le> month_len y m"

lemma length_month_lens [simp]: "length (month_lens y) = 12"
  by (simp add: month_lens_def)

lemma month_lens_range: "l \<in> set (month_lens y) \<Longrightarrow> 28 \<le> l \<and> l \<le> 31"
  by (auto simp: month_lens_def)

lemma month_len_range: "1 \<le> m \<Longrightarrow> m \<le> 12 \<Longrightarrow> 28 \<le> month_len y m \<and> month_len y m \<le> 31"
  unfolding month_len_def by (rule month_lens_range [of _ y]) (simp add: nat_less_iff)

lemma month_lens_nonneg: "\<forall>l \<in> set (month_lens y). 0 \<le> l"
  by (auto dest: month_lens_range)

theorem civil_of_days_inverse:
  assumes "civil_of_days n = (y, m, d)"
  shows "valid_civil y m d" and "days_of_civil y m d = n"
proof -
  obtain yd where y: "year_of_days n = (y, yd)" and w: "month_walk (month_lens y) yd = (m, d)"
    using assms by (auto simp: civil_of_days_def split: prod.splits)
  note yb = year_of_days_bounds [OF y]
  have lt: "yd < sum_list (month_lens y)" using yb(3) by (simp add: sum_month_lens)
  note mb = month_walk_bounds [OF w yb(2) lt month_lens_nonneg]
  show "valid_civil y m d" using mb by (simp add: valid_civil_def month_len_def)
  show "days_of_civil y m d = n" using mb(5) yb(1) by (simp add: days_of_civil_def days_before_month_def)
qed

lemma sum_take_month_lens: "k < 12 \<Longrightarrow> sum_list (take k (month_lens y)) + month_lens y ! k \<le> year_len y"
proof -
  assume k: "k < 12"
  have "sum_list (month_lens y) = sum_list (take k (month_lens y)) + sum_list (drop k (month_lens y))"
    by (metis append_take_drop_id sum_list_append)
  also have "drop k (month_lens y) = month_lens y ! k # drop (Suc k) (month_lens y)"
    by (rule Cons_nth_drop_Suc [symmetric]) (simp add: k)
  finally have "year_len y = sum_list (take k (month_lens y)) + month_lens y ! k
      + sum_list (drop (Suc k) (month_lens y))"
    by (simp add: sum_month_lens)
  moreover have "0 \<le> sum_list (drop (Suc k) (month_lens y))"
    by (intro sum_list_nonneg) (use month_lens_nonneg in \<open>auto dest: in_set_dropD\<close>)
  ultimately show ?thesis by simp
qed

theorem civil_of_days_of_civil:
  assumes "valid_civil y m d"
  shows "civil_of_days (days_of_civil y m d) = (y, m, d)"
proof -
  let ?k = "nat (m - 1)" and ?n = "days_of_civil y m d"
  have k: "?k < 12" and d: "1 \<le> d" "d \<le> month_lens y ! ?k" and m: "int ?k + 1 = m"
    using assms by (auto simp: valid_civil_def month_len_def)
  have n: "?n = days_before_year y + (sum_list (take ?k (month_lens y)) + (d - 1))"
    by (simp add: days_of_civil_def days_before_month_def)
  have "0 \<le> sum_list (take ?k (month_lens y))"
    by (intro sum_list_nonneg) (use month_lens_nonneg in \<open>auto dest: in_set_takeD\<close>)
  then have yb: "days_before_year y \<le> ?n" "?n < days_before_year (y + 1)"
    using sum_take_month_lens [OF k, of y] d days_before_year_Suc [of y] by (simp_all add: n)
  obtain z zd where z: "year_of_days ?n = (z, zd)" by (cases "year_of_days ?n")
  note zb = year_of_days_bounds [OF z]
  have "z = y"
    by (rule year_unique [of _ ?n]) (use zb yb days_before_year_Suc [of z] in linarith)+
  with zb(1) n have "zd = sum_list (take ?k (month_lens y)) + (d - 1)" by simp
  with \<open>z = y\<close> z m show ?thesis
    using month_walk_take [of ?k "month_lens y" "d - 1"] k d month_lens_nonneg
    by (simp add: civil_of_days_def)
qed

end
