(* ===== verification/ProtoTime.thy ===== *)
theory ProtoTime
  imports GoTime
begin

text \<open>
  \<^verbatim>\<open>internal/protocol/time.go\<close>: the canonical timestamps of the wire protocol, the token lifetime and
  replay windows (computed on \<open>int64\<close>, with the wrap-around written out), and the anniversary
  arithmetic of billing periods.
\<close>

section \<open>Calendar fields of an instant\<close>

definition civil_of :: "gotime \<Rightarrow> int \<times> int \<times> int" where
  "civil_of t = civil_of_days (unix_of t div 86400)"

definition year_of :: "gotime \<Rightarrow> int" where
  "year_of t = fst (civil_of t)"

definition sec_of_day :: "gotime \<Rightarrow> int" where
  "sec_of_day t = unix_of t mod 86400"

definition hour_of :: "gotime \<Rightarrow> int" where "hour_of t = sec_of_day t div 3600"
definition minute_of :: "gotime \<Rightarrow> int" where "minute_of t = sec_of_day t mod 3600 div 60"
definition second_of :: "gotime \<Rightarrow> int" where "second_of t = sec_of_day t mod 60"

lemmas clock_defs = hour_of_def minute_of_def second_of_def

text \<open>\<open>time.Date\<close> in UTC with zero nanoseconds; the month is normalised into the year first.\<close>

definition go_date :: "int \<Rightarrow> int \<Rightarrow> int \<Rightarrow> int \<Rightarrow> int \<Rightarrow> int \<Rightarrow> gotime" where
  "go_date y mo d h mi s =
     from_unix (days_of_civil (y + (mo - 1) div 12) ((mo - 1) mod 12 + 1) d * 86400
       + h * 3600 + mi * 60 + s)"

lemma sec_of_day_range: "0 \<le> sec_of_day t" "sec_of_day t < 86400"
  by (simp_all add: sec_of_day_def)

lemma clock_range:
  "0 \<le> hour_of t" "hour_of t < 24" "0 \<le> minute_of t" "minute_of t < 60"
  "0 \<le> second_of t" "second_of t < 60"
proof -
  have "sec_of_day t div 3600 < 24" using sec_of_day_range [of t] by linarith
  then show "hour_of t < 24" by (simp add: hour_of_def)
  have "sec_of_day t mod 3600 < 3600" by simp
  then have "sec_of_day t mod 3600 div 60 < 60" by linarith
  then show "minute_of t < 60" by (simp add: minute_of_def)
qed (simp_all add: clock_defs sec_of_day_range pos_imp_zdiv_nonneg_iff)

lemma clock_sum: "hour_of t * 3600 + minute_of t * 60 + second_of t = sec_of_day t"
proof -
  let ?s = "sec_of_day t"
  have 1: "?s div 3600 * 3600 + ?s mod 3600 = ?s" by simp
  have 2: "?s mod 3600 div 60 * 60 + ?s mod 3600 mod 60 = ?s mod 3600" by simp
  have "?s mod 3600 mod 60 = ?s mod 60" by (simp add: mod_mod_cancel)
  with 1 2 show ?thesis unfolding clock_defs by linarith
qed

lemma civil_of_valid: "civil_of t = (y, m, d) \<Longrightarrow> valid_civil y m d"
  by (simp add: civil_of_def civil_of_days_inverse(1))

lemma go_date_valid:
  "valid_civil y m d \<Longrightarrow>
   go_date y m d h mi s = from_unix (days_of_civil y m d * 86400 + h * 3600 + mi * 60 + s)"
  by (simp add: go_date_def valid_civil_def)

lemma go_date_civil_of:
  assumes "civil_of t = (y, m, d)"
  shows "go_date y m d (hour_of t) (minute_of t) (second_of t) = TruncateUTC t"
proof -
  have "days_of_civil y m d = unix_of t div 86400"
    using assms by (simp add: civil_of_def civil_of_days_inverse(2))
  then have "days_of_civil y m d * 86400 + hour_of t * 3600 + minute_of t * 60 + second_of t = unix_of t"
    using clock_sum [of t] mult_div_mod_eq [of 86400 "unix_of t"]
    unfolding sec_of_day_def by linarith
  then show ?thesis
    using civil_of_valid [OF assms] by (simp add: go_date_valid TruncateUTC_unix)
qed

text \<open>The fields of a date with a time of day in range are the ones it was made from.\<close>

lemma civil_of_go_date:
  assumes "valid_civil y m d" "0 \<le> h" "h < 24" "0 \<le> mi" "mi < 60" "0 \<le> s" "s < 60"
  shows "civil_of (go_date y m d h mi s) = (y, m, d)"
    and "sec_of_day (go_date y m d h mi s) = h * 3600 + mi * 60 + s"
proof -
  let ?r = "h * 3600 + mi * 60 + s" and ?D = "days_of_civil y m d"
  have r: "0 \<le> ?r" "?r < 86400" using assms by linarith+
  have u: "unix_of (go_date y m d h mi s) = ?D * 86400 + ?r"
    using assms(1) by (simp add: go_date_valid add.assoc)
  have "(?D * 86400 + ?r) div 86400 = ?D"
    by (rule int_div_pos_eq [where r = ?r]) (use r in simp_all)
  with u assms(1) show "civil_of (go_date y m d h mi s) = (y, m, d)"
    by (simp add: civil_of_def civil_of_days_of_civil)
  have "(?D * 86400 + ?r) mod 86400 = ?r"
    by (rule int_mod_pos_eq [where q = ?D]) (use r in simp_all)
  with u show "sec_of_day (go_date y m d h mi s) = ?r"
    by (simp add: sec_of_day_def)
qed

section \<open>Canonical timestamps\<close>

definition pad :: "nat \<Rightarrow> int \<Rightarrow> string" where
  "pad w n = (let s = dec_nat (nat n) in replicate (w - length s) (CHR ''0'') @ s)"

definition format_year :: "int \<Rightarrow> string" where
  "format_year y = (if y < 0 then CHR ''-'' # pad 4 (- y) else pad 4 y)"

text \<open>\<open>Format(time.RFC3339)\<close> of an instant in UTC.\<close>

definition rfc3339 :: "gotime \<Rightarrow> string" where
  "rfc3339 t =
     (case civil_of t of (y, m, d) \<Rightarrow>
        format_year y @ ''-'' @ pad 2 m @ ''-'' @ pad 2 d @ ''T'' @ pad 2 (hour_of t) @ '':'' @
        pad 2 (minute_of t) @ '':'' @ pad 2 (second_of t) @ ''Z'')"

definition FormatUTC :: "gotime \<Rightarrow> string" where
  "FormatUTC t = rfc3339 (TruncateUTC t)"

definition sub :: "nat \<Rightarrow> nat \<Rightarrow> string \<Rightarrow> string" where
  "sub i n s = take n (drop i s)"

text \<open>
  \<open>time.Parse(time.RFC3339, s)\<close> on the strings of the shape \<open>YYYY-MM-DDTHH:MM:SSZ\<close>.  Go's parser
  also takes offsets and fractions; \<open>ParseUTC\<close> rejects those with the same error, since it
  compares its argument with the canonical rendering of what was parsed.
\<close>

definition rfc3339_parse :: "string \<Rightarrow> gotime option" where
  "rfc3339_parse s =
     (let num = (\<lambda>i n. int (digits_val (sub i n s)));
          y = num 0 4; mo = num 5 2; d = num 8 2; h = num 11 2; mi = num 14 2; se = num 17 2
      in if length s = 20
            \<and> list_all is_digit (sub 0 4 s @ sub 5 2 s @ sub 8 2 s @ sub 11 2 s @ sub 14 2 s @ sub 17 2 s)
            \<and> s ! 4 = CHR ''-'' \<and> s ! 7 = CHR ''-'' \<and> s ! 10 = CHR ''T''
            \<and> s ! 13 = CHR '':'' \<and> s ! 16 = CHR '':'' \<and> s ! 19 = CHR ''Z''
            \<and> valid_civil y mo d \<and> h < 24 \<and> mi < 60 \<and> se < 60
         then Some (go_date y mo d h mi se) else None)"

definition ParseUTC :: "string \<Rightarrow> gerr + gotime" where
  "ParseUTC value =
     (if value = [] then Inl ErrInvalidTimestamp
      else case rfc3339_parse value of
             None \<Rightarrow> Inl ErrInvalidTimestamp
           | Some parsed \<Rightarrow>
               if \<not> has_suffix value ''Z'' then Inl ErrInvalidTimestamp
               else if parsed mod 10 ^ 9 \<noteq> 0 then Inl ErrInvalidTimestamp
               else if value \<noteq> rfc3339 parsed then Inl ErrInvalidTimestamp
               else Inr parsed)"

lemma length_dec_nat: "0 < k \<Longrightarrow> n < 10 ^ k \<Longrightarrow> length (dec_nat n) \<le> k"
proof (induction n arbitrary: k rule: dec_nat.induct)
  case (1 n)
  show ?case
  proof (cases "n < 10")
    case True
    with 1(2) show ?thesis by (subst dec_nat.simps) simp
  next
    case False
    with 1(3) have "k \<noteq> 1" by auto
    with 1(2) obtain j where k: "k = Suc j" "0 < j"
      by (cases k) auto
    then have "length (dec_nat (n div 10)) \<le> j"
      using False 1 by (intro "1.IH") (auto simp: less_mult_imp_div_less mult.commute)
    with False k show ?thesis by (subst dec_nat.simps) simp
  qed
qed

lemma digits_val_zeros: "digits_val (replicate k (CHR ''0'') @ s) = digits_val s"
proof (induction k)
  case (Suc k)
  have "digits_val (CHR ''0'' # t) = digits_val t" for t
    by (simp add: digits_val_def ord_def)
  with Suc show ?case by simp
qed simp

lemma is_digit_0 [simp]: "is_digit (CHR ''0'')"
  by (simp add: is_digit_def ord_def)

lemma pad_facts:
  assumes "0 \<le> n" and "n < 10 ^ w" and "0 < w"
  shows "length (pad w n) = w" and "list_all is_digit (pad w n)" and "int (digits_val (pad w n)) = n"
proof -
  have "nat n < 10 ^ w"
    using assms by (metis nat_less_iff of_nat_numeral of_nat_power)
  then have "length (dec_nat (nat n)) \<le> w" using assms(3) by (intro length_dec_nat)
  then show "length (pad w n) = w" by (simp add: pad_def Let_def)
  show "list_all is_digit (pad w n)"
    using dec_nat_digits [of "nat n"] by (auto simp: pad_def Let_def list_all_iff)
  show "int (digits_val (pad w n)) = n"
    using assms(1) by (simp add: pad_def Let_def digits_val_zeros)
qed

text \<open>A string assembled from fields of the right widths is parsed field by field.\<close>

lemma rfc3339_parse_fields:
  assumes "length a = 4" "length b = 2" "length c = 2" "length e = 2" "length f = 2" "length g = 2"
    and "list_all is_digit (a @ b @ c @ e @ f @ g)"
    and "valid_civil (int (digits_val a)) (int (digits_val b)) (int (digits_val c))"
    and "int (digits_val e) < 24" "int (digits_val f) < 60" "int (digits_val g) < 60"
  shows "rfc3339_parse (a @ ''-'' @ b @ ''-'' @ c @ ''T'' @ e @ '':'' @ f @ '':'' @ g @ ''Z'')
    = Some (go_date (int (digits_val a)) (int (digits_val b)) (int (digits_val c))
        (int (digits_val e)) (int (digits_val f)) (int (digits_val g)))"
  using assms by (simp add: rfc3339_parse_def Let_def sub_def nth_append)

lemma ParseUTC_rfc3339:
  assumes "whole t" and "0 \<le> year_of t" and "year_of t \<le> 9999"
  shows "ParseUTC (rfc3339 t) = Inr t"
proof -
  obtain y m d where c: "civil_of t = (y, m, d)" by (metis prod_cases3)
  have v: "valid_civil y m d" by (rule civil_of_valid [OF c])
  have y: "0 \<le> y" "y < 10 ^ 4" using assms(2,3) c by (simp_all add: year_of_def)
  have m: "0 \<le> m" "m < 10 ^ 2" using v by (simp_all add: valid_civil_def)
  have d: "0 \<le> d" "d < 10 ^ 2"
    using v month_len_range [of m y] by (simp_all add: valid_civil_def)
  have hms: "hour_of t < 10 ^ 2" "minute_of t < 10 ^ 2" "second_of t < 10 ^ 2"
    using clock_range [of t] by simp_all
  note pads = pad_facts [OF y] pad_facts [OF m] pad_facts [OF d]
    pad_facts [OF clock_range(1) hms(1)] pad_facts [OF clock_range(3) hms(2)]
    pad_facts [OF clock_range(5) hms(3)]
  let ?s = "pad 4 y @ ''-'' @ pad 2 m @ ''-'' @ pad 2 d @ ''T'' @ pad 2 (hour_of t) @ '':'' @
    pad 2 (minute_of t) @ '':'' @ pad 2 (second_of t) @ ''Z''"
  have s: "rfc3339 t = ?s" using y(1) by (simp add: rfc3339_def c format_year_def)
  have "rfc3339_parse ?s = Some (go_date y m d (hour_of t) (minute_of t) (second_of t))"
    using rfc3339_parse_fields [of "pad 4 y" "pad 2 m" "pad 2 d" "pad 2 (hour_of t)"
        "pad 2 (minute_of t)" "pad 2 (second_of t)"] pads v clock_range [of t] by simp
  then have p: "rfc3339_parse (rfc3339 t) = Some t"
    using go_date_civil_of [OF c] assms(1) by (simp add: s)
  have "has_suffix (rfc3339 t) ''Z''"
    using has_suffix_append [of "butlast ?s" "''Z''"] by (simp add: s butlast_append)
  moreover have "rfc3339 t \<noteq> []" by (simp add: s)
  moreover have "t mod 10 ^ 9 = 0" using assms(1) by (simp add: whole_def second_def)
  ultimately show ?thesis using p by (simp add: ParseUTC_def)
qed

lemma ParseUTC_canonical: "ParseUTC s = Inr t \<Longrightarrow> rfc3339 t = s \<and> whole t"
  by (auto simp: ParseUTC_def whole_def second_def split: if_splits option.splits)

lemma ParseUTC_year:
  assumes "ParseUTC s = Inr t"
  shows "0 \<le> year_of t"
proof -
  have "rfc3339_parse s = Some t"
    using assms by (auto simp: ParseUTC_def split: if_splits option.splits)
  then show ?thesis
    unfolding rfc3339_parse_def Let_def
    by (auto simp: year_of_def civil_of_go_date(1) split: if_splits)
qed

text \<open>\<^verbatim>\<open>ParseUnixSeconds\<close> and \<^verbatim>\<open>CanonicalUnix\<close>.\<close>

definition ParseUnixSeconds :: "string \<Rightarrow> gerr + int" where
  "ParseUnixSeconds raw =
     (if raw = [] then Inl ErrInvalidTimestamp
      else if contains_any raw ''.eE+'' then Inl ErrInvalidTimestamp
      else if 1 < length raw \<and> raw ! 0 = CHR ''0'' then Inl ErrInvalidTimestamp
      else case parse_int64 raw of
             None \<Rightarrow> Inl ErrInvalidTimestamp
           | Some n \<Rightarrow> if n < 0 then Inl ErrInvalidTimestamp else Inr n)"

definition CanonicalUnix :: "int \<Rightarrow> gerr + string" where
  "CanonicalUnix n = (if n < 0 then Inl ErrInvalidTimestamp else Inr (format_int n))"

lemma format_int_digits: "0 \<le> n \<Longrightarrow> list_all is_digit (format_int n)"
  by (simp add: format_int_def dec_nat_digits)

lemma ParseUnixSeconds_format:
  assumes "0 \<le> n" and "n < 2 ^ 63"
  shows "ParseUnixSeconds (format_int n) = Inr n"
proof -
  have f: "format_int n = dec_nat (nat n)" using assms(1) by (simp add: format_int_def)
  have "\<not> contains_any (format_int n) ''.eE+''"
    using format_int_digits [OF assms(1)]
    by (force simp: contains_any_def list_ex_iff list_all_iff is_digit_def ord_def)
  moreover have "\<not> (1 < length (dec_nat (nat n)) \<and> dec_nat (nat n) ! 0 = CHR ''0'')"
  proof
    assume a: "1 < length (dec_nat (nat n)) \<and> dec_nat (nat n) ! 0 = CHR ''0''"
    then have "hd (dec_nat (nat n)) = CHR ''0''" by (simp add: hd_conv_nth)
    then have "nat n = 0" using hd_dec_nat by blast
    with a show False by (simp add: dec_nat.simps)
  qed
  ultimately show ?thesis
    using assms parse_format_int [OF assms] by (simp add: ParseUnixSeconds_def f)
qed

section \<open>Token lifetime and replay window\<close>

definition ClockSkew :: duration where "ClockSkew = 300 * second"
definition MaxTokenTTL :: duration where "MaxTokenTTL = 15 * minute"
definition ReplayWindow :: duration where "ReplayWindow = 300 * second"

lemmas window_defs = ClockSkew_def MaxTokenTTL_def ReplayWindow_def duration_defs

text \<open>
  \<open>iat\<close>, \<open>exp\<close> and the Unix time are \<open>int64\<close>, and so is a \<open>time.Duration\<close>: the product
  \<open>time.Duration(exp-iat)*time.Second\<close> wraps.
\<close>

definition ValidateTokenLifetime :: "int \<Rightarrow> int \<Rightarrow> gotime \<Rightarrow> gerr + unit" where
  "ValidateTokenLifetime iat exp now =
     (if iat < 0 \<or> exp < 0 then Inl ErrInvalidTimestamp
      else if exp \<le> iat then Inl ErrInvalidTimestamp
      else if MaxTokenTTL < wrap64 (wrap64 (exp - iat) * second) then Inl ErrInvalidTimestamp
      else let nowUnix = unix_of now; skew = ClockSkew div second
           in if wrap64 (nowUnix + skew) < iat then Inl ErrInvalidTimestamp
              else if wrap64 (exp + skew) < nowUnix then Inl ErrExpiredToken
              else Inr ())"

definition ValidateReplayWindow :: "int \<Rightarrow> gotime \<Rightarrow> gerr + unit" where
  "ValidateReplayWindow ts now =
     (if ts < 0 then Inl ErrInvalidTimestamp
      else let d0 = wrap64 (unix_of now - ts); d = (if d0 < 0 then wrap64 (- d0) else d0)
           in if ReplayWindow div second < d then Inl ErrReplayWindow else Inr ())"

lemma ValidateTokenLifetime_iff:
  assumes "0 \<le> unix_of now" "unix_of now < 2 ^ 62" "0 \<le> iat" "exp < 2 ^ 62" "exp - iat \<le> 9223372036"
  shows "ValidateTokenLifetime iat exp now = Inr () \<longleftrightarrow>
     iat < exp \<and> exp - iat \<le> 900 \<and> iat \<le> unix_of now + 300 \<and> unix_of now \<le> exp + 300"
proof (cases "iat < exp")
  case True
  then have "wrap64 (exp - iat) = exp - iat"
    using assms by (intro wrap64_id) simp_all
  moreover have "wrap64 ((exp - iat) * second) = (exp - iat) * second"
    using assms True by (intro wrap64_id) (simp_all add: second_def)
  moreover have "wrap64 (unix_of now + 300) = unix_of now + 300"
    using assms by (intro wrap64_id) simp_all
  moreover have "wrap64 (exp + 300) = exp + 300"
    using assms True by (intro wrap64_id) simp_all
  moreover have "900000000000 < (exp - iat) * 1000000000 \<longleftrightarrow> 900 < exp - iat"
    using mult_less_cancel_right_pos [of "1000000000::int" 900 "exp - iat"] by simp
  ultimately show ?thesis
    using assms True by (auto simp: ValidateTokenLifetime_def window_defs Let_def)
next
  case False
  then show ?thesis by (auto simp: ValidateTokenLifetime_def)
qed

lemma ValidateReplayWindow_iff:
  assumes "0 \<le> unix_of now" "unix_of now < 2 ^ 63" "ts < 2 ^ 63"
  shows "ValidateReplayWindow ts now = Inr () \<longleftrightarrow> 0 \<le> ts \<and> \<bar>unix_of now - ts\<bar> \<le> 300"
proof (cases "0 \<le> ts")
  case True
  then have "wrap64 (unix_of now - ts) = unix_of now - ts"
    using assms by (intro wrap64_id) simp_all
  moreover have "unix_of now - ts < 0 \<Longrightarrow> wrap64 (ts - unix_of now) = ts - unix_of now"
    using assms True by (intro wrap64_id) simp_all
  ultimately show ?thesis
    using True by (auto simp: ValidateReplayWindow_def window_defs Let_def)
next
  case False
  then show ?thesis by (simp add: ValidateReplayWindow_def)
qed

section \<open>Anniversaries\<close>

definition daysIn :: "int \<Rightarrow> int \<Rightarrow> int" where
  "daysIn year month = snd (snd (civil_of (go_date year (month + 1) 0 0 0 0)))"

text \<open>The two normalisation loops \<open>for month > 12\<close> and \<open>for month < 1\<close>.\<close>

function norm_down :: "int \<Rightarrow> int \<Rightarrow> int \<times> int" where
  "norm_down year month = (if month > 12 then norm_down (year + 1) (month - 12) else (year, month))"
  by pat_completeness auto
termination
  by (relation "measure (\<lambda>(y, m). nat m)") auto

function norm_up :: "int \<Rightarrow> int \<Rightarrow> int \<times> int" where
  "norm_up year month = (if month < 1 then norm_up (year - 1) (month + 12) else (year, month))"
  by pat_completeness auto
termination
  by (relation "measure (\<lambda>(y, m). nat (1 - m))") auto

declare norm_down.simps [simp del] norm_up.simps [simp del]

definition AddCalendarMonths :: "gotime \<Rightarrow> int \<Rightarrow> gotime" where
  "AddCalendarMonths start0 months =
     (let start = TruncateUTC start0;
          (year, month0, day) = civil_of start;
          (year, month) = norm_down year (month0 + months);
          (year, month) = norm_up year month;
          lastday = daysIn year month;
          day = (if lastday < day then lastday else day)
      in go_date year month day (hour_of start) (minute_of start) (second_of start))"

lemma norm_down_sum: "norm_down y m = (y', m') \<Longrightarrow> 12 * y' + m' = 12 * y + m \<and> m' \<le> 12 \<and> (1 \<le> m \<longrightarrow> 1 \<le> m')"
proof (induction y m rule: norm_down.induct)
  case (1 y m)
  then show ?case by (cases "12 < m") (force simp: norm_down.simps [of y m])+
qed

lemma norm_up_sum: "norm_up y m = (y', m') \<Longrightarrow> m \<le> 12 \<Longrightarrow> 12 * y' + m' = 12 * y + m \<and> 1 \<le> m' \<and> m' \<le> 12"
proof (induction y m rule: norm_up.induct)
  case (1 y m)
  then show ?case by (cases "m < 1") (force simp: norm_up.simps [of y m])+
qed

lemma take_month_lens_Suc:
  "1 \<le> m \<Longrightarrow> m < 12 \<Longrightarrow> days_before_month y (m + 1) = days_before_month y m + month_len y m"
proof -
  assume m: "1 \<le> m" "m < 12"
  then have "nat (m + 1 - 1) = Suc (nat (m - 1))" by arith
  then show ?thesis
    using m by (simp add: days_before_month_def month_len_def take_Suc_conv_app_nth)
qed

lemma valid_last_day: "1 \<le> m \<Longrightarrow> m \<le> 12 \<Longrightarrow> valid_civil y m (month_len y m)"
  using month_len_range [of m y] by (simp add: valid_civil_def)

lemma daysIn_month_len:
  assumes "1 \<le> m" and "m \<le> 12"
  shows "daysIn y m = month_len y m"
proof -
  have "days_of_civil (y + m div 12) (m mod 12 + 1) 0 = days_of_civil y m (month_len y m)"
  proof (cases "m = 12")
    case True
    then show ?thesis
      using days_before_year_Suc [of y]
      by (simp add: days_of_civil_def days_before_month_def month_len_def month_lens_def year_len_def)
  next
    case False
    with assms show ?thesis by (simp add: days_of_civil_def take_month_lens_Suc)
  qed
  then have "go_date y (m + 1) 0 0 0 0 = go_date y m (month_len y m) 0 0 0"
    using valid_last_day [OF assms, of y] assms by (simp add: go_date_valid) (simp add: go_date_def)
  then show ?thesis
    using civil_of_go_date(1) [OF valid_last_day [OF assms, of y], of 0 0 0] by (simp add: daysIn_def)
qed

text \<open>What the code computes, in calendar terms.\<close>

lemma AddCalendarMonths_fields:
  assumes "civil_of (TruncateUTC t) = (y, m, d)"
  obtains y' m' where "12 * y' + m' = 12 * y + m + n" and "1 \<le> m'" and "m' \<le> 12"
    and "AddCalendarMonths t n = go_date y' m' (min d (month_len y' m'))
           (hour_of (TruncateUTC t)) (minute_of (TruncateUTC t)) (second_of (TruncateUTC t))"
    and "valid_civil y' m' (min d (month_len y' m'))"
proof -
  obtain y1 m1 where 1: "norm_down y (m + n) = (y1, m1)" by force
  obtain y' m' where 2: "norm_up y1 m1 = (y', m')" by force
  note s1 = norm_down_sum [OF 1] 
  note s2 = norm_up_sum [OF 2 conjunct1 [OF conjunct2 [OF s1]]]
  have d: "1 \<le> d" using civil_of_valid [OF assms] by (simp add: valid_civil_def)
  have mm: "1 \<le> m'" "m' \<le> 12" using s2 by simp_all
  have v: "valid_civil y' m' (min d (month_len y' m'))"
    using d mm month_len_range [OF mm, of y'] by (simp add: valid_civil_def)
  have "AddCalendarMonths t n = go_date y' m' (min d (month_len y' m'))
      (hour_of (TruncateUTC t)) (minute_of (TruncateUTC t)) (second_of (TruncateUTC t))"
    by (simp add: AddCalendarMonths_def assms 1 2 daysIn_month_len [OF mm] min_def Let_def)
  with s1 s2 v mm show ?thesis by (intro that [of y' m']) auto
qed

lemma whole_go_date [simp]: "whole (go_date y m d h mi s)"
  by (simp add: go_date_def)

lemma whole_AddCalendarMonths [simp]: "whole (AddCalendarMonths t n)"
proof -
  obtain y m d where c: "civil_of (TruncateUTC t) = (y, m, d)" by (metis prod_cases3)
  show ?thesis by (rule AddCalendarMonths_fields [OF c, of n]) simp
qed

lemma days_next_month:
  assumes "valid_civil y m d" and "12 * y' + m' = 12 * y + m + 1" and "1 \<le> m'" "m' \<le> 12"
  shows "days_of_civil y m d + 28 \<le> days_of_civil y' m' (min d (month_len y' m'))"
    and "days_of_civil y' m' (min d (month_len y' m')) \<le> days_of_civil y m d + 31"
proof -
  have m: "1 \<le> m" "m \<le> 12" and d: "1 \<le> d" "d \<le> month_len y m"
    using assms(1) by (simp_all add: valid_civil_def)
  have step: "days_before_year y' + days_before_month y' m'
      = days_before_year y + days_before_month y m + month_len y m"
  proof (cases "m = 12")
    case True
    with assms(2-4) have "y' = y + 1" "m' = 1" by presburger+
    with True show ?thesis
      using days_before_year_Suc [of y]
      by (simp add: days_before_month_def month_len_def month_lens_def year_len_def)
  next
    case False
    with assms(2-4) m have "y' = y" "m' = m + 1" by presburger+
    with False m show ?thesis by (simp add: take_month_lens_Suc)
  qed
  have r: "28 \<le> month_len y m" "month_len y m \<le> 31" "28 \<le> month_len y' m'" "month_len y' m' \<le> 31"
    using month_len_range [OF m, of y] month_len_range [OF assms(3,4), of y'] by simp_all
  show "days_of_civil y m d + 28 \<le> days_of_civil y' m' (min d (month_len y' m'))"
    using step r d by (simp add: days_of_civil_def min_def)
  show "days_of_civil y' m' (min d (month_len y' m')) \<le> days_of_civil y m d + 31"
    using step r d by (simp add: days_of_civil_def min_def)
qed

lemma from_unix_mono: "from_unix a \<le> from_unix b \<longleftrightarrow> a \<le> b"
  by (simp add: from_unix_def)

lemma from_unix_add: "from_unix a + 86400 * k * second = from_unix (a + 86400 * k)"
  by (simp add: from_unix_def second_def algebra_simps)

lemma AddCalendarMonths_one:
  "TruncateUTC t + 28 * 86400 * second \<le> AddCalendarMonths t 1"
  "AddCalendarMonths t 1 \<le> TruncateUTC t + 31 * 86400 * second"
proof -
  obtain y m d where c: "civil_of (TruncateUTC t) = (y, m, d)" by (metis prod_cases3)
  obtain y' m' where s: "12 * y' + m' = 12 * y + m + 1" and m': "1 \<le> m'" "m' \<le> 12"
    and a: "AddCalendarMonths t 1 = go_date y' m' (min d (month_len y' m'))
           (hour_of (TruncateUTC t)) (minute_of (TruncateUTC t)) (second_of (TruncateUTC t))"
    and v: "valid_civil y' m' (min d (month_len y' m'))"
    by (rule AddCalendarMonths_fields [OF c])
  let ?D = "days_of_civil y m d" and ?E = "days_of_civil y' m' (min d (month_len y' m'))"
  let ?r = "hour_of (TruncateUTC t) * 3600 + minute_of (TruncateUTC t) * 60 + second_of (TruncateUTC t)"
  have t: "TruncateUTC t = from_unix (?D * 86400 + ?r)"
    using go_date_civil_of [OF c] go_date_valid [OF civil_of_valid [OF c]] by (simp add: add.assoc)
  have e: "AddCalendarMonths t 1 = from_unix (?E * 86400 + ?r)"
    using a go_date_valid [OF v] by (simp add: add.assoc)
  note dd = days_next_month [OF civil_of_valid [OF c] s m']
  have sum: "from_unix a + k * 86400 * second = from_unix (a + k * 86400)" for a k
    by (simp add: from_unix_def second_def algebra_simps)
  have "from_unix (?D * 86400 + ?r) + 28 * 86400 * second \<le> from_unix (?E * 86400 + ?r)"
    unfolding sum from_unix_mono using dd(1) by linarith
  then show "TruncateUTC t + 28 * 86400 * second \<le> AddCalendarMonths t 1"
    unfolding e by (simp only: t [symmetric])
  have "from_unix (?E * 86400 + ?r) \<le> from_unix (?D * 86400 + ?r) + 31 * 86400 * second"
    unfolding sum from_unix_mono using dd(2) by linarith
  then show "AddCalendarMonths t 1 \<le> TruncateUTC t + 31 * 86400 * second"
    unfolding e by (simp only: t [symmetric])
qed

end
