(* ===== verification/Models.thy ===== *)
theory Models
  imports ProtoTime
begin

text \<open>
  \<^verbatim>\<open>internal/store/models.go\<close>: the rows of the store, field by field; a pointer is an option, a byte
  slice a byte string.  \<open>zero_*\<close> is the zero value of the struct, which the code returns beside an
  error.  Then the state every transaction runs on: the tables of \<^verbatim>\<open>store.Memory\<close>, the wall clock and
  the supply of random bytes.
\<close>

section \<open>Rows\<close>

text \<open>What the code stores in a \<open>map[string]any\<close>: strings and booleans.\<close>

datatype anyval = AStr string | ABool bool

record checkout =
  c_CheckoutID :: string
  c_PlanID :: string
  c_NormalizedReturnURL :: string
  c_ProcessorFamily :: string
  c_RequestFingerprint :: bytes
  c_ProviderIdempotencyKey :: string
  c_ProcessorShopperReference :: "string option"
  c_Status :: string
  c_SubscriptionRef :: "string option"
  c_ProcessorCheckoutID :: "string option"
  c_ExpiresAt :: gotime
  c_CreatedAt :: gotime
  c_UpdatedAt :: gotime

definition zero_checkout :: checkout where
  "zero_checkout = \<lparr>c_CheckoutID = [],
     c_PlanID = [],
     c_NormalizedReturnURL = [],
     c_ProcessorFamily = [],
     c_RequestFingerprint = [],
     c_ProviderIdempotencyKey = [],
     c_ProcessorShopperReference = None,
     c_Status = [],
     c_SubscriptionRef = None,
     c_ProcessorCheckoutID = None,
     c_ExpiresAt = zero_time,
     c_CreatedAt = zero_time,
     c_UpdatedAt = zero_time\<rparr>"

record subscription =
  s_SubscriptionRef :: string
  s_CheckoutID :: string
  s_PlanID :: string
  s_Status :: string
  s_StateVersion :: int
  s_ProcessorFamily :: string
  s_ProcessorCustomerID :: "string option"
  s_ProcessorSubscriptionID :: "string option"
  s_ProcessorInitialPaymentID :: "string option"
  s_ProcessorShopperReference :: "string option"
  s_PaymentMethodCiphertext :: bytes
  s_PaymentMethodNonce :: bytes
  s_PaymentMethodKeyVersion :: "string option"
  s_CurrentPeriodStart :: gotime
  s_CurrentPeriodEnd :: gotime
  s_CancelAtPeriodEnd :: bool
  s_StateChangedAt :: gotime
  s_PastDueSince :: "gotime option"
  s_CanceledAt :: "gotime option"
  s_AutomaticChargingBlocked :: bool
  s_ChargingBlockReason :: "string option"
  s_CreatedAt :: gotime
  s_UpdatedAt :: gotime

definition zero_subscription :: subscription where
  "zero_subscription = \<lparr>s_SubscriptionRef = [],
     s_CheckoutID = [],
     s_PlanID = [],
     s_Status = [],
     s_StateVersion = 0,
     s_ProcessorFamily = [],
     s_ProcessorCustomerID = None,
     s_ProcessorSubscriptionID = None,
     s_ProcessorInitialPaymentID = None,
     s_ProcessorShopperReference = None,
     s_PaymentMethodCiphertext = [],
     s_PaymentMethodNonce = [],
     s_PaymentMethodKeyVersion = None,
     s_CurrentPeriodStart = zero_time,
     s_CurrentPeriodEnd = zero_time,
     s_CancelAtPeriodEnd = False,
     s_StateChangedAt = zero_time,
     s_PastDueSince = None,
     s_CanceledAt = None,
     s_AutomaticChargingBlocked = False,
     s_ChargingBlockReason = None,
     s_CreatedAt = zero_time,
     s_UpdatedAt = zero_time\<rparr>"

record outbound_event =
  o_EventID :: string
  o_EventType :: string
  o_SubscriptionRef :: string
  o_CheckoutID :: string
  o_StateVersion :: int
  o_PayloadBody :: bytes
  o_DeliveryState :: string
  o_AttemptCount :: int
  o_NextAttemptAt :: "gotime option"
  o_DeliveredAt :: "gotime option"
  o_DeadLetteredAt :: "gotime option"
  o_AbandonedAt :: "gotime option"
  o_LastErrorClass :: "string option"
  o_ClaimToken :: "string option"
  o_FencingToken :: int
  o_LeaseUntil :: "gotime option"
  o_CreatedAt :: gotime

definition zero_outbound_event :: outbound_event where
  "zero_outbound_event = \<lparr>o_EventID = [],
     o_EventType = [],
     o_SubscriptionRef = [],
     o_CheckoutID = [],
     o_StateVersion = 0,
     o_PayloadBody = [],
     o_DeliveryState = [],
     o_AttemptCount = 0,
     o_NextAttemptAt = None,
     o_DeliveredAt = None,
     o_DeadLetteredAt = None,
     o_AbandonedAt = None,
     o_LastErrorClass = None,
     o_ClaimToken = None,
     o_FencingToken = 0,
     o_LeaseUntil = None,
     o_CreatedAt = zero_time\<rparr>"

record processor_event =
  p_ProcessorFamily :: string
  p_ProcessorEventID :: string
  p_ProcessingActionID :: string
  p_ProviderEventType :: string
  p_PayloadHash :: bytes
  p_NormalizedFields :: "(string \<times> anyval) list"
  p_SensitiveCiphertext :: bytes
  p_SensitiveNonce :: bytes
  p_SensitiveKeyVersion :: "string option"
  p_ProcessingState :: string
  p_SubscriptionRef :: "string option"
  p_ReceivedAt :: gotime
  p_ProcessedAt :: "gotime option"
  p_ClaimToken :: "string option"
  p_FencingToken :: int
  p_LeaseUntil :: "gotime option"
  p_LastErrorClass :: "string option"

definition zero_processor_event :: processor_event where
  "zero_processor_event = \<lparr>p_ProcessorFamily = [],
     p_ProcessorEventID = [],
     p_ProcessingActionID = [],
     p_ProviderEventType = [],
     p_PayloadHash = [],
     p_NormalizedFields = [],
     p_SensitiveCiphertext = [],
     p_SensitiveNonce = [],
     p_SensitiveKeyVersion = None,
     p_ProcessingState = [],
     p_SubscriptionRef = None,
     p_ReceivedAt = zero_time,
     p_ProcessedAt = None,
     p_ClaimToken = None,
     p_FencingToken = 0,
     p_LeaseUntil = None,
     p_LastErrorClass = None\<rparr>"

record processing_lease =
  l_ProcessingKey :: string
  l_Status :: string
  l_ActiveActionID :: "string option"
  l_ClaimToken :: "string option"
  l_FencingToken :: int
  l_LeaseUntil :: "gotime option"

definition zero_processing_lease :: processing_lease where
  "zero_processing_lease = \<lparr>l_ProcessingKey = [],
     l_Status = [],
     l_ActiveActionID = None,
     l_ClaimToken = None,
     l_FencingToken = 0,
     l_LeaseUntil = None\<rparr>"

record scheduled_action =
  a_ActionID :: string
  a_ActionKey :: string
  a_SubscriptionRef :: string
  a_ActionType :: string
  a_TargetAt :: gotime
  a_DueAt :: gotime
  a_Status :: string
  a_ClaimToken :: "string option"
  a_FencingToken :: int
  a_LeaseUntil :: "gotime option"
  a_LastErrorClass :: "string option"

definition zero_scheduled_action :: scheduled_action where
  "zero_scheduled_action = \<lparr>a_ActionID = [],
     a_ActionKey = [],
     a_SubscriptionRef = [],
     a_ActionType = [],
     a_TargetAt = zero_time,
     a_DueAt = zero_time,
     a_Status = [],
     a_ClaimToken = None,
     a_FencingToken = 0,
     a_LeaseUntil = None,
     a_LastErrorClass = None\<rparr>"

record charge_attempt =
  t_AttemptID :: string
  t_ActionID :: string
  t_SubscriptionRef :: string
  t_PeriodStart :: gotime
  t_PeriodEnd :: gotime
  t_AttemptNumber :: int
  t_ProviderEndpoint :: string
  t_ProviderAPIVersion :: string
  t_MerchantAccount :: string
  t_AmountMinor :: int
  t_Currency :: string
  t_AttemptReference :: string
  t_ShopperReference :: string
  t_ShopperInteraction :: string
  t_RecurringProcessingModel :: string
  t_IdempotencyKey :: string
  t_RequestFingerprint :: bytes
  t_RequestCiphertext :: bytes
  t_RequestNonce :: bytes
  t_RequestKeyVersion :: string
  t_ProcessorPaymentID :: "string option"
  t_Status :: string
  t_ClaimToken :: "string option"
  t_FencingToken :: int
  t_LeaseUntil :: "gotime option"
  t_FirstSubmittedAt :: "gotime option"
  t_ResolutionDeadline :: "gotime option"
  t_RefusalReasonCode :: "string option"
  t_CompletedAt :: "gotime option"

definition zero_charge_attempt :: charge_attempt where
  "zero_charge_attempt = \<lparr>t_AttemptID = [],
     t_ActionID = [],
     t_SubscriptionRef = [],
     t_PeriodStart = zero_time,
     t_PeriodEnd = zero_time,
     t_AttemptNumber = 0,
     t_ProviderEndpoint = [],
     t_ProviderAPIVersion = [],
     t_MerchantAccount = [],
     t_AmountMinor = 0,
     t_Currency = [],
     t_AttemptReference = [],
     t_ShopperReference = [],
     t_ShopperInteraction = [],
     t_RecurringProcessingModel = [],
     t_IdempotencyKey = [],
     t_RequestFingerprint = [],
     t_RequestCiphertext = [],
     t_RequestNonce = [],
     t_RequestKeyVersion = [],
     t_ProcessorPaymentID = None,
     t_Status = [],
     t_ClaimToken = None,
     t_FencingToken = 0,
     t_LeaseUntil = None,
     t_FirstSubmittedAt = None,
     t_ResolutionDeadline = None,
     t_RefusalReasonCode = None,
     t_CompletedAt = None\<rparr>"

record audit =
  u_AuditID :: string
  u_Action :: string
  u_TargetType :: string
  u_TargetID :: string
  u_Actor :: string
  u_Reason :: string
  u_Metadata :: "(string \<times> anyval) list"

definition zero_audit :: audit where
  "zero_audit = \<lparr>u_AuditID = [],
     u_Action = [],
     u_TargetType = [],
     u_TargetID = [],
     u_Actor = [],
     u_Reason = [],
     u_Metadata = []\<rparr>"

section \<open>The state of a transaction\<close>

text \<open>
  \<open>memory\<close> is \<^verbatim>\<open>store.Memory\<close> with one association list per map.  The clock of the store is read
  through \<open>Now\<close>; the model lets it advance between operations and keeps it fixed during one, as the
  repository's own tests do.  \<open>ent\<close> is what \<open>crypto/rand.Read\<close> will deliver, sixteen bytes per call; an
  exhausted supply is a failing read.
\<close>

record memory =
  m_checkouts :: "(string \<times> checkout) list"
  m_subs :: "(string \<times> subscription) list"
  m_outbound :: "(string \<times> outbound_event) list"
  m_procEvents :: "(string \<times> processor_event) list"
  m_leases :: "(string \<times> processing_lease) list"
  m_actions :: "(string \<times> scheduled_action) list"
  m_attempts :: "(string \<times> charge_attempt) list"
  m_audits :: "audit list"
  m_schema :: int

record world =
  mem :: memory
  clk :: gotime
  ent :: "128 word list"

definition CurrentSchemaVersion :: int where
  "CurrentSchemaVersion = 1"

definition NewMemory :: memory where
  "NewMemory = \<lparr>m_checkouts = [], m_subs = [], m_outbound = [], m_procEvents = [], m_leases = [],
     m_actions = [], m_attempts = [], m_audits = [], m_schema = CurrentSchemaVersion\<rparr>"

text \<open>Assignment to one table of the store.\<close>

definition set_checkouts :: "(string \<times> checkout) list \<Rightarrow> world \<Rightarrow> world" where
  "set_checkouts t w = w\<lparr>mem := (mem w)\<lparr>m_checkouts := t\<rparr>\<rparr>"
definition set_subs :: "(string \<times> subscription) list \<Rightarrow> world \<Rightarrow> world" where
  "set_subs t w = w\<lparr>mem := (mem w)\<lparr>m_subs := t\<rparr>\<rparr>"
definition set_outbound :: "(string \<times> outbound_event) list \<Rightarrow> world \<Rightarrow> world" where
  "set_outbound t w = w\<lparr>mem := (mem w)\<lparr>m_outbound := t\<rparr>\<rparr>"
definition set_procEvents :: "(string \<times> processor_event) list \<Rightarrow> world \<Rightarrow> world" where
  "set_procEvents t w = w\<lparr>mem := (mem w)\<lparr>m_procEvents := t\<rparr>\<rparr>"
definition set_leases :: "(string \<times> processing_lease) list \<Rightarrow> world \<Rightarrow> world" where
  "set_leases t w = w\<lparr>mem := (mem w)\<lparr>m_leases := t\<rparr>\<rparr>"
definition set_actions :: "(string \<times> scheduled_action) list \<Rightarrow> world \<Rightarrow> world" where
  "set_actions t w = w\<lparr>mem := (mem w)\<lparr>m_actions := t\<rparr>\<rparr>"
definition set_attempts :: "(string \<times> charge_attempt) list \<Rightarrow> world \<Rightarrow> world" where
  "set_attempts t w = w\<lparr>mem := (mem w)\<lparr>m_attempts := t\<rparr>\<rparr>"
definition set_audits :: "audit list \<Rightarrow> world \<Rightarrow> world" where
  "set_audits t w = w\<lparr>mem := (mem w)\<lparr>m_audits := t\<rparr>\<rparr>"

lemmas set_table_defs = set_checkouts_def set_subs_def set_outbound_def set_procEvents_def
  set_leases_def set_actions_def set_attempts_def set_audits_def

abbreviation subs :: "world \<Rightarrow> (string \<times> subscription) list" where "subs w \<equiv> m_subs (mem w)"
abbreviation checkouts :: "world \<Rightarrow> (string \<times> checkout) list" where "checkouts w \<equiv> m_checkouts (mem w)"
abbreviation outbound :: "world \<Rightarrow> (string \<times> outbound_event) list" where "outbound w \<equiv> m_outbound (mem w)"
abbreviation procEvents :: "world \<Rightarrow> (string \<times> processor_event) list" where "procEvents w \<equiv> m_procEvents (mem w)"
abbreviation leases :: "world \<Rightarrow> (string \<times> processing_lease) list" where "leases w \<equiv> m_leases (mem w)"
abbreviation actions :: "world \<Rightarrow> (string \<times> scheduled_action) list" where "actions w \<equiv> m_actions (mem w)"
abbreviation attempts :: "world \<Rightarrow> (string \<times> charge_attempt) list" where "attempts w \<equiv> m_attempts (mem w)"
abbreviation audits :: "world \<Rightarrow> audit list" where "audits w \<equiv> m_audits (mem w)"

end
