(* ===== verification/Sha256.thy ===== *)
theory Sha256
  imports Text
begin

text \<open>
  The standard-library digests the program is built on, written out on 32-bit words so that nothing
  cryptographic is left uninterpreted: \<open>crypto/sha256\<close> (FIPS 180-4), \<open>crypto/hmac\<close> over it and
  \<open>crypto/hkdf\<close>.  The proofs above only use the length of a digest; no secrecy or
  collision-resistance claim is made anywhere.
\<close>

unbundle bit_operations_syntax

type_synonym u32 = "32 word"

section \<open>SHA-256\<close>

definition sha_k :: "u32 list" where
  "sha_k = [
    1116352408, 1899447441, 3049323471, 3921009573, 961987163, 1508970993, 2453635748, 2870763221,
    3624381080, 310598401, 607225278, 1426881987, 1925078388, 2162078206, 2614888103, 3248222580,
    3835390401, 4022224774, 264347078, 604807628, 770255983, 1249150122, 1555081692, 1996064986,
    2554220882, 2821834349, 2952996808, 3210313671, 3336571891, 3584528711, 113926993, 338241895,
    666307205, 773529912, 1294757372, 1396182291, 1695183700, 1986661051, 2177026350, 2456956037,
    2730485921, 2820302411, 3259730800, 3345764771, 3516065817, 3600352804, 4094571909, 275423344,
    430227734, 506948616, 659060556, 883997877, 958139571, 1322822218, 1537002063, 1747873779,
    1955562222, 2024104815, 2227730452, 2361852424, 2428436474, 2756734187, 3204031479, 3329325298]"

definition be32 :: "bytes \<Rightarrow> u32" where
  "be32 b = word_of_nat (foldl (\<lambda>n c. 256 * n + ord c) 0 b)"

definition put32 :: "u32 \<Rightarrow> bytes" where
  "put32 w = map (\<lambda>k. char_of (unat (drop_bit k w) mod 256)) [24, 16, 8, 0]"

definition put64 :: "nat \<Rightarrow> bytes" where
  "put64 n = map (\<lambda>k. char_of (n div 2 ^ k mod 256)) [56, 48, 40, 32, 24, 16, 8, 0]"

definition sha_padding :: "bytes \<Rightarrow> bytes" where
  "sha_padding m =
     m @ [char_of (128::nat)] @ replicate ((119 - length m mod 64) mod 64) (char_of (0::nat))
       @ put64 (8 * length m)"

function chunks :: "nat \<Rightarrow> 'a list \<Rightarrow> 'a list list" where
  "chunks n xs = (if n = 0 \<or> xs = [] then [] else take n xs # chunks n (drop n xs))"
  by pat_completeness auto
termination
  by (relation "measure (\<lambda>(n, xs). length xs)") auto

declare chunks.simps [simp del]

definition small_sigma0 :: "u32 \<Rightarrow> u32" where
  "small_sigma0 x = word_rotr 7 x XOR word_rotr 18 x XOR drop_bit 3 x"

definition small_sigma1 :: "u32 \<Rightarrow> u32" where
  "small_sigma1 x = word_rotr 17 x XOR word_rotr 19 x XOR drop_bit 10 x"

definition big_sigma0 :: "u32 \<Rightarrow> u32" where
  "big_sigma0 x = word_rotr 2 x XOR word_rotr 13 x XOR word_rotr 22 x"

definition big_sigma1 :: "u32 \<Rightarrow> u32" where
  "big_sigma1 x = word_rotr 6 x XOR word_rotr 11 x XOR word_rotr 25 x"

text \<open>The message schedule, built up from the sixteen words of a block.\<close>

primrec sha_schedule :: "nat \<Rightarrow> u32 list \<Rightarrow> u32 list" where
  "sha_schedule 0 w = w"
| "sha_schedule (Suc n) w =
     (let i = length w
      in sha_schedule n (w @ [small_sigma1 (w ! (i - 2)) + w ! (i - 7)
           + small_sigma0 (w ! (i - 15)) + w ! (i - 16)]))"

type_synonym sha_state = "u32 \<times> u32 \<times> u32 \<times> u32 \<times> u32 \<times> u32 \<times> u32 \<times> u32"

fun sha_round :: "sha_state \<Rightarrow> u32 \<times> u32 \<Rightarrow> sha_state" where
  "sha_round (a, b, c, d, e, f, g, h) (k, w) =
     (let t1 = h + big_sigma1 e + ((e AND f) XOR ((NOT e) AND g)) + k + w;
          t2 = big_sigma0 a + ((a AND b) XOR (a AND c) XOR (b AND c))
      in (t1 + t2, a, b, c, d + t1, e, f, g))"

fun sha_add :: "sha_state \<Rightarrow> sha_state \<Rightarrow> sha_state" where
  "sha_add (a, b, c, d, e, f, g, h) (a', b', c', d', e', f', g', h') =
     (a + a', b + b', c + c', d + d', e + e', f + f', g + g', h + h')"

definition sha_block :: "sha_state \<Rightarrow> bytes \<Rightarrow> sha_state" where
  "sha_block st b =
     sha_add st (foldl sha_round st (zip sha_k (sha_schedule 48 (map be32 (chunks 4 b)))))"

definition sha_init :: sha_state where
  "sha_init = (0x6a09e667, 0xbb67ae85, 0x3c6ef372, 0xa54ff53a, 0x510e527f, 0x9b05688c, 0x1f83d9ab, 0x5be0cd19)"

fun sha_output :: "sha_state \<Rightarrow> bytes" where
  "sha_output (a, b, c, d, e, f, g, h) = concat (map put32 [a, b, c, d, e, f, g, h])"

definition sha256 :: "bytes \<Rightarrow> bytes" where
  "sha256 m = sha_output (foldl sha_block sha_init (chunks 64 (sha_padding m)))"

lemma length_put32 [simp]: "length (put32 w) = 4"
  by (simp add: put32_def)

lemma length_sha_output [simp]: "length (sha_output st) = 32"
  by (cases st rule: sha_output.cases) simp

lemma length_sha256 [simp]: "length (sha256 m) = 32"
  by (simp add: sha256_def)

section \<open>HMAC and HKDF\<close>

definition xor_byte :: "nat \<Rightarrow> char \<Rightarrow> char" where
  "xor_byte k c = char_of (k XOR ord c)"

definition hmac_key :: "bytes \<Rightarrow> bytes" where
  "hmac_key key =
     (let k = (if 64 < length key then sha256 key else key)
      in k @ replicate (64 - length k) (char_of (0::nat)))"

definition hmac_sha256 :: "bytes \<Rightarrow> bytes \<Rightarrow> bytes" where
  "hmac_sha256 key message =
     sha256 (map (xor_byte 0x5c) (hmac_key key) @ sha256 (map (xor_byte 0x36) (hmac_key key) @ message))"

lemma length_hmac_sha256 [simp]: "length (hmac_sha256 key message) = 32"
  by (simp add: hmac_sha256_def)

text \<open>\<open>hkdf.Key\<close>: extract with the salt, then expand block by block; at most 255 blocks.\<close>

primrec hkdf_blocks :: "nat \<Rightarrow> nat \<Rightarrow> bytes \<Rightarrow> bytes \<Rightarrow> bytes \<Rightarrow> bytes" where
  "hkdf_blocks 0 i prk info prev = []"
| "hkdf_blocks (Suc n) i prk info prev =
     (let t = hmac_sha256 prk (prev @ info @ [char_of i]) in t @ hkdf_blocks n (Suc i) prk info t)"

definition hkdf_key :: "bytes \<Rightarrow> bytes \<Rightarrow> bytes \<Rightarrow> nat \<Rightarrow> bytes option" where
  "hkdf_key secret salt info n =
     (if 255 * 32 < n then None
      else Some (take n (hkdf_blocks ((n + 31) div 32) 1 (hmac_sha256 salt secret) info [])))"

lemma length_hkdf_blocks [simp]: "length (hkdf_blocks n i prk info prev) = 32 * n"
  by (induction n arbitrary: i prev) (simp_all add: Let_def)

lemma length_hkdf_key: "hkdf_key secret salt info n = Some k \<Longrightarrow> length k = n"
proof -
  assume "hkdf_key secret salt info n = Some k"
  then have "length k = min (32 * ((n + 31) div 32)) n"
    by (auto simp: hkdf_key_def split: if_splits)
  moreover have "n \<le> 32 * ((n + 31) div 32)"
    using mult_div_mod_eq [of 32 "n + 31"] mod_less_divisor [of 32 "n + 31"] by linarith
  ultimately show ?thesis by simp
qed

end
