(* ===== verification/Identifiers.thy ===== *)
theory Identifiers
  imports Models Sha256
begin

text \<open>
  \<^verbatim>\<open>internal/protocol/const.go\<close>, \<^verbatim>\<open>identifiers.go\<close> and \<^verbatim>\<open>ids.go\<close>: the constants of the protocol, the
  validation of opaque identifiers and plan identifiers, and the generation of identifiers from
  random bytes.
\<close>

section \<open>Constants\<close>

abbreviation ProtocolName :: string where "ProtocolName \<equiv> ''subscription-bridge''"
definition ProtocolVersion :: int where [simp]: "ProtocolVersion = 1"

abbreviation HKDFSalt :: string where "HKDFSalt \<equiv> ''subscription-bridge/v1''"
abbreviation TokenInfo :: string where "TokenInfo \<equiv> ''consumer-to-bridge/token''"
abbreviation CallbackInfo :: string where "CallbackInfo \<equiv> ''bridge-to-consumer/callback''"
abbreviation ReconcileInfo :: string where "ReconcileInfo \<equiv> ''consumer-to-bridge/reconcile''"
definition KeySize :: nat where [simp]: "KeySize = 32"

abbreviation CheckoutPrefix :: string where "CheckoutPrefix \<equiv> ''subchk_''"
abbreviation SubscriptionPrefix :: string where "SubscriptionPrefix \<equiv> ''sub_''"
abbreviation EventPrefix :: string where "EventPrefix \<equiv> ''evt_''"
abbreviation ShopperPrefix :: string where "ShopperPrefix \<equiv> ''sbr_''"
abbreviation AttemptPrefix :: string where "AttemptPrefix \<equiv> ''sba_''"
abbreviation PaymentUpdatePrefix :: string where "PaymentUpdatePrefix \<equiv> ''sbpm_''"
abbreviation ActionKeyPrefix :: string where "ActionKeyPrefix \<equiv> ''act_''"
definition MaxIdentifierLength :: nat where [simp]: "MaxIdentifierLength = 160"
definition MaxPlanIDBytes :: nat where [simp]: "MaxPlanIDBytes = 128"
definition MaxTokenBytes :: nat where [simp]: "MaxTokenBytes = 8192"
definition SignatureHexLen :: nat where [simp]: "SignatureHexLen = 64"
abbreviation ReconcileScheme :: string where "ReconcileScheme \<equiv> ''Subscription-Bridge-HMAC''"
abbreviation ProcessorStripe :: string where "ProcessorStripe \<equiv> ''stripe''"
abbreviation ProcessorAdyen :: string where "ProcessorAdyen \<equiv> ''adyen''"
abbreviation ActionKeyInfo :: string where "ActionKeyInfo \<equiv> ''subscription-bridge/v1/action''"

abbreviation StatusActive :: string where "StatusActive \<equiv> ''active''"
abbreviation StatusTrialing :: string where "StatusTrialing \<equiv> ''trialing''"
abbreviation StatusPastDue :: string where "StatusPastDue \<equiv> ''past_due''"
abbreviation StatusCanceled :: string where "StatusCanceled \<equiv> ''canceled''"
abbreviation StatusExpired :: string where "StatusExpired \<equiv> ''expired''"

abbreviation EventActivated :: string where "EventActivated \<equiv> ''subscription.activated''"
abbreviation EventRenewed :: string where "EventRenewed \<equiv> ''subscription.renewed''"
abbreviation EventPastDue :: string where "EventPastDue \<equiv> ''subscription.past_due''"
abbreviation EventCanceled :: string where "EventCanceled \<equiv> ''subscription.canceled''"
abbreviation EventExpired :: string where "EventExpired \<equiv> ''subscription.expired''"
abbreviation EventPlanChanged :: string where "EventPlanChanged \<equiv> ''subscription.plan_changed''"
abbreviation EventSync :: string where "EventSync \<equiv> ''subscription.sync''"

abbreviation CheckoutCreating :: string where "CheckoutCreating \<equiv> ''creating''"
abbreviation CheckoutPending :: string where "CheckoutPending \<equiv> ''pending''"
abbreviation CheckoutCompleted :: string where "CheckoutCompleted \<equiv> ''completed''"
abbreviation CheckoutExpired :: string where "CheckoutExpired \<equiv> ''expired''"
abbreviation CheckoutCanceled :: string where "CheckoutCanceled \<equiv> ''canceled''"

abbreviation DeliveryPending :: string where "DeliveryPending \<equiv> ''pending''"
abbreviation DeliveryDelivered :: string where "DeliveryDelivered \<equiv> ''delivered''"
abbreviation DeliveryDeadLettered :: string where "DeliveryDeadLettered \<equiv> ''dead_lettered''"
abbreviation DeliveryAbandoned :: string where "DeliveryAbandoned \<equiv> ''abandoned''"

abbreviation ActionRenew :: string where "ActionRenew \<equiv> ''renew''"
abbreviation ActionExpire :: string where "ActionExpire \<equiv> ''expire''"

section \<open>Validation\<close>

text \<open>The pattern \<open>^[A-Za-z0-9_-]+$\<close>.  Go's \<open>$\<close> without flags only matches at the end of the text.\<close>

definition id_char :: "char \<Rightarrow> bool" where
  "id_char c \<longleftrightarrow> (65 \<le> ord c \<and> ord c \<le> 90) \<or> (97 \<le> ord c \<and> ord c \<le> 122) \<or>
     (48 \<le> ord c \<and> ord c \<le> 57) \<or> ord c = 95 \<or> ord c = 45"

definition identifierSuffix :: "string \<Rightarrow> bool" where
  "identifierSuffix s \<longleftrightarrow> s \<noteq> [] \<and> list_all id_char s"

definition ValidateOpaqueID :: "string \<Rightarrow> string \<Rightarrow> gerr + unit" where
  "ValidateOpaqueID value prefix =
     (if value = [] \<or> \<not> has_prefix value prefix then Inl ErrInvalidIdentifier
      else if MaxIdentifierLength < length value then Inl ErrInvalidIdentifier
      else if list_ex (\<lambda>c. 127 < ord c) value then Inl ErrInvalidIdentifier
      else let suffix = drop (length prefix) value
           in if suffix = [] \<or> \<not> identifierSuffix suffix then Inl ErrInvalidIdentifier
              else Inr ())"

definition ValidateCheckoutID :: "string \<Rightarrow> gerr + unit" where
  "ValidateCheckoutID i = ValidateOpaqueID i CheckoutPrefix"

definition ValidateSubscriptionRef :: "string \<Rightarrow> gerr + unit" where
  "ValidateSubscriptionRef i = ValidateOpaqueID i SubscriptionPrefix"

definition ValidateEventID :: "string \<Rightarrow> gerr + unit" where
  "ValidateEventID i = ValidateOpaqueID i EventPrefix"

definition ValidatePlanID :: "string \<Rightarrow> gerr + unit" where
  "ValidatePlanID planID =
     (if planID = [] \<or> \<not> utf8_valid planID then Inl ErrInvalidPlanID
      else if (case runes (map ord planID) of None \<Rightarrow> False | Some rs \<Rightarrow> list_all is_space rs)
      then Inl ErrInvalidPlanID
      else if MaxPlanIDBytes < length planID then Inl ErrInvalidPlanID
      else Inr ())"

definition RejectIdentityFields :: "string set \<Rightarrow> gerr + unit" where
  "RejectIdentityFields keys =
     (if list_ex (\<lambda>n. n \<in> keys)
          [''username'', ''user_name'', ''user'', ''account_id'', ''account'', ''email'',
           ''customer_email'', ''user_id'', ''consumer_id'', ''tenant'', ''tenant_id'']
      then Inl ErrIdentityField else Inr ())"

lemma id_char_ascii: "id_char c \<Longrightarrow> ord c \<le> 127"
  by (auto simp: id_char_def)

lemma ValidateOpaqueID_iff:
  "ValidateOpaqueID v (p :: string) = Inr () \<longleftrightarrow>
     (\<exists>s. v = p @ s \<and> identifierSuffix s \<and> length v \<le> MaxIdentifierLength \<and> list_all (\<lambda>c. ord c \<le> 127) p)"
proof
  assume v: "ValidateOpaqueID v p = Inr ()"
  then obtain s where s: "v = p @ s"
    by (auto simp: ValidateOpaqueID_def has_prefix_iff split: if_splits)
  from v show "\<exists>s. v = p @ s \<and> identifierSuffix s \<and> length v \<le> MaxIdentifierLength \<and> list_all (\<lambda>c. ord c \<le> 127) p"
    unfolding ValidateOpaqueID_def s
    by (intro exI [of _ s]) (auto simp: Let_def list_ex_iff list_all_iff not_less split: if_splits)
next
  assume "\<exists>s. v = p @ s \<and> identifierSuffix s \<and> length v \<le> MaxIdentifierLength \<and> list_all (\<lambda>c. ord c \<le> 127) p"
  then obtain s where s: "v = p @ s" "identifierSuffix s" "length v \<le> MaxIdentifierLength"
    "list_all (\<lambda>c. ord c \<le> 127) p" by blast
  then show "ValidateOpaqueID v p = Inr ()"
    using id_char_ascii
    by (auto simp: ValidateOpaqueID_def identifierSuffix_def list_ex_iff list_all_iff not_less)
qed

section \<open>Generation\<close>

text \<open>
  \<open>rand.Read\<close> on a 16-byte array: it takes the next sixteen bytes of the supply, or fails.  The
  version and variant bits are set as the code sets them.
\<close>

definition word_bytes :: "128 word \<Rightarrow> bytes" where
  "word_bytes w = map (\<lambda>i. char_of (unat (drop_bit (120 - 8 * i) w) mod 256)) [0..<16]"

definition set_version_bits :: "bytes \<Rightarrow> bytes" where
  "set_version_bits b =
     b[6 := char_of ((ord (b ! 6) AND 0x0f) OR 0x40), 8 := char_of ((ord (b ! 8) AND 0x3f) OR 0x80)]"

definition formatUUID :: "bytes \<Rightarrow> string" where
  "formatUUID b =
     hex_encode (sub 0 4 b) @ ''-'' @ hex_encode (sub 4 2 b) @ ''-'' @ hex_encode (sub 6 2 b) @ ''-'' @
     hex_encode (sub 8 2 b) @ ''-'' @ hex_encode (sub 10 6 b)"

definition rand_read :: "(world, bytes) tx" where
  "rand_read = (\<lambda>w. case ent w of [] \<Rightarrow> (Inl ErrRand, w) | e # es \<Rightarrow> (Inr (word_bytes e), w\<lparr>ent := es\<rparr>))"

definition NewOpaqueID :: "string \<Rightarrow> (world, string) tx" where
  "NewOpaqueID prefix =
     bindT rand_read (\<lambda>b0.
     let b = set_version_bits b0; i = prefix @ formatUUID b
     in thenT (liftT (ValidateOpaqueID i prefix)) (retT i))"

definition NewEventID :: "(world, string) tx" where "NewEventID = NewOpaqueID EventPrefix"
definition NewSubscriptionRef :: "(world, string) tx" where "NewSubscriptionRef = NewOpaqueID SubscriptionPrefix"
definition NewShopperReference :: "(world, string) tx" where "NewShopperReference = NewOpaqueID ShopperPrefix"
definition NewAttemptReference :: "(world, string) tx" where "NewAttemptReference = NewOpaqueID AttemptPrefix"
definition NewPaymentUpdateReference :: "(world, string) tx" where
  "NewPaymentUpdateReference = NewOpaqueID PaymentUpdatePrefix"

definition RandomClaimToken :: "(world, bytes) tx" where
  "RandomClaimToken = bindT rand_read (\<lambda>b. retT (set_version_bits b))"

definition UUIDString :: "bytes \<Rightarrow> string" where
  "UUIDString b = formatUUID b"

text \<open>\<open>newUUID\<close>, \<open>newToken\<close> and \<open>newID\<close> of the three packages are the same two calls.\<close>

definition newUUID :: "(world, string) tx" where
  "newUUID = bindT RandomClaimToken (\<lambda>b. retT (UUIDString b))"

definition ActionKey :: "string \<Rightarrow> string \<Rightarrow> gotime \<Rightarrow> string" where
  "ActionKey subscriptionRef actionType target0 =
     (let target = TruncateUTC target0;
          material = ActionKeyInfo @ [char_of (10::nat)] @ subscriptionRef @ [char_of (10::nat)] @ actionType
                       @ [char_of (10::nat)] @ rfc3339 target
      in ActionKeyPrefix @ hex_encode (sha256 material))"

lemma length_word_bytes [simp]: "length (word_bytes w) = 16"
  by (simp add: word_bytes_def)

lemma length_set_version_bits [simp]: "length (set_version_bits b) = length b"
  by (simp add: set_version_bits_def)

lemma id_char_lower_hex: "is_lower_hex c \<Longrightarrow> id_char c"
  by (auto simp: is_lower_hex_def id_char_def)

lemma id_char_hex_encode: "list_all id_char (hex_encode b)"
  using hex_encode_lower [of b] by (auto simp: list_all_iff id_char_lower_hex)

lemma length_formatUUID: "length b = 16 \<Longrightarrow> length (formatUUID b) = 36"
  by (simp add: formatUUID_def sub_def)

lemma identifierSuffix_formatUUID: "identifierSuffix (formatUUID b)"
proof -
  have "id_char (CHR ''-'')" by (simp add: id_char_def ord_def)
  then show ?thesis
    by (simp add: identifierSuffix_def formatUUID_def id_char_hex_encode)
qed

lemma ValidateOpaqueID_formatUUID:
  assumes "length b = 16" and "length p \<le> 124" and "list_all (\<lambda>c. ord c \<le> 127) p"
  shows "ValidateOpaqueID (p @ formatUUID b) p = Inr ()"
  unfolding ValidateOpaqueID_iff
  by (intro exI [of _ "formatUUID b"]) (use assms in \<open>simp add: identifierSuffix_formatUUID length_formatUUID\<close>)

text \<open>Generating an identifier never fails its own validation: only the random source can fail.\<close>

lemma NewOpaqueID_run:
  assumes "length p \<le> 124" and "list_all (\<lambda>c. ord c \<le> 127) p"
  shows "NewOpaqueID p w =
    (case ent w of [] \<Rightarrow> (Inl ErrRand, w)
     | e # es \<Rightarrow> (Inr (p @ formatUUID (set_version_bits (word_bytes e))), w\<lparr>ent := es\<rparr>))"
  using assms
  by (auto simp: NewOpaqueID_def rand_read_def ValidateOpaqueID_formatUUID bindT_def Let_def split: list.splits)

lemma prefixes_ok:
  "list_all (\<lambda>c. ord c \<le> 127) SubscriptionPrefix" "list_all (\<lambda>c. ord c \<le> 127) EventPrefix"
  "list_all (\<lambda>c. ord c \<le> 127) AttemptPrefix" "list_all (\<lambda>c. ord c \<le> 127) ShopperPrefix"
  "list_all (\<lambda>c. ord c \<le> 127) PaymentUpdatePrefix" "list_all (\<lambda>c. ord c \<le> 127) CheckoutPrefix"
  by (simp_all add: ord_def)

lemma ValidatePlanID_ascii:
  assumes "list_all (\<lambda>c. ord c < 128) p" and "p \<noteq> []" and "\<not> is_space (ord (hd p))" and "length p \<le> MaxPlanIDBytes"
  shows "ValidatePlanID p = Inr ()"
proof -
  have "runes (map ord p) = Some (map ord p)" using assms(1) by (intro runes_ascii) (simp add: list_all_iff)
  with assms show ?thesis by (cases p) (auto simp: ValidatePlanID_def utf8_valid_def)
qed

lemma ValidatePlanID_pro [simp]: "ValidatePlanID ''pro'' = Inr ()"
  by (rule ValidatePlanID_ascii) (simp_all add: ord_def is_space_def)

lemma NewOpaqueID_valid: "NewOpaqueID p w = (Inr r, w') \<Longrightarrow> ValidateOpaqueID r p = Inr ()"
  by (auto simp: NewOpaqueID_def Let_def bindT_eq_Inr thenT_eq_Inr)

lemma NewSubscriptionRef_valid: "NewSubscriptionRef w = (Inr r, w') \<Longrightarrow> ValidateSubscriptionRef r = Inr ()"
  by (simp add: NewSubscriptionRef_def ValidateSubscriptionRef_def NewOpaqueID_valid)

lemma NewEventID_valid: "NewEventID w = (Inr r, w') \<Longrightarrow> ValidateEventID r = Inr ()"
  by (simp add: NewEventID_def ValidateEventID_def NewOpaqueID_valid)

text \<open>The random source only changes the supply of random bytes.\<close>

lemma rand_read_mem: "rand_read w = (r, w') \<Longrightarrow> mem w' = mem w \<and> clk w' = clk w"
  by (auto simp: rand_read_def split: list.splits)

lemma NewOpaqueID_mem: "NewOpaqueID p w = (r, w') \<Longrightarrow> mem w' = mem w \<and> clk w' = clk w"
  by (auto simp: NewOpaqueID_def bindT_def thenT_def Let_def rand_read_def split: prod.splits sum.splits list.splits)

lemma newUUID_mem: "newUUID w = (r, w') \<Longrightarrow> mem w' = mem w \<and> clk w' = clk w"
  by (auto simp: newUUID_def RandomClaimToken_def bindT_def rand_read_def split: prod.splits sum.splits list.splits)

text \<open>Nothing in a claim token is lost by formatting it: equal tokens come from equal bytes.\<close>

lemma sub_split16: "length b = 16 \<Longrightarrow> b = sub 0 4 b @ sub 4 2 b @ sub 6 2 b @ sub 8 2 b @ sub 10 6 b"
proof -
  assume len: "length b = 16"
  have glue: "take i b @ sub i n b = take (i + n) b" for i n
    by (simp add: sub_def take_add)
  have "take 4 b @ sub 4 2 b @ sub 6 2 b @ sub 8 2 b @ sub 10 6 b
      = (((take 4 b @ sub 4 2 b) @ sub 6 2 b) @ sub 8 2 b) @ sub 10 6 b"
    by simp
  also have "\<dots> = b" unfolding glue using len by (simp add: glue)
  finally show ?thesis by (simp add: sub_def)
qed

lemma formatUUID_inject:
  assumes "length a = 16" "length b = 16" "formatUUID a = formatUUID b"
  shows "a = b"
proof -
  have "sub 0 4 a = sub 0 4 b" "sub 4 2 a = sub 4 2 b" "sub 6 2 a = sub 6 2 b" "sub 8 2 a = sub 8 2 b"
    "sub 10 6 a = sub 10 6 b"
    using assms by (auto simp: formatUUID_def sub_def append_eq_append_conv)
  then show ?thesis using sub_split16 [OF assms(1)] sub_split16 [OF assms(2)] by metis
qed

end
