(* ===== verification/ProtoTypes.thy ===== *)
theory ProtoTypes
  imports Identifiers
begin

text \<open>
  \<^verbatim>\<open>internal/protocol/types.go\<close>: the callback and snapshot messages, their validation, the table of
  allowed event and status pairs, and the JSON bytes \<open>encoding/json\<close> produces for them
  (\<open>MarshalCompact\<close> of \<^verbatim>\<open>json.go\<close> and \<open>json.Marshal\<close>).
\<close>

section \<open>Event and status pairs\<close>

definition ValidateStatusFlags :: "string \<Rightarrow> bool \<Rightarrow> gerr + unit" where
  "ValidateStatusFlags status cancelAtPeriodEnd =
     (if status = StatusActive \<or> status = StatusTrialing \<or> status = StatusPastDue then
        (if cancelAtPeriodEnd then Inl ErrCancelFlagMismatch else Inr ())
      else if status = StatusCanceled then
        (if \<not> cancelAtPeriodEnd then Inl ErrCancelFlagMismatch else Inr ())
      else if status = StatusExpired then
        (if cancelAtPeriodEnd then Inl ErrCancelFlagMismatch else Inr ())
      else Inl ErrInvalidStatus)"

definition ValidateEventStatus :: "string \<Rightarrow> string \<Rightarrow> bool \<Rightarrow> gerr + unit" where
  "ValidateEventStatus eventType status cancelAtPeriodEnd =
     bindR (ValidateStatusFlags status cancelAtPeriodEnd) (\<lambda>_.
     let check = (\<lambda>ok. if \<not> ok then Inl ErrInvalidEventStatus else Inr ())
     in if eventType = EventActivated then check (status = StatusActive \<or> status = StatusTrialing)
        else if eventType = EventRenewed then check (status = StatusActive)
        else if eventType = EventPastDue then check (status = StatusPastDue)
        else if eventType = EventCanceled then check (status = StatusCanceled)
        else if eventType = EventExpired then check (status = StatusExpired)
        else if eventType = EventPlanChanged then check (status = StatusActive)
        else if eventType = EventSync then Inl ErrInvalidEventStatus
        else Inl ErrInvalidEventType)"

text \<open>The table of \<^verbatim>\<open>SPEC.md\<close> section 5.3, as a set of triples.\<close>

definition allowed_pairs :: "(string \<times> string \<times> bool) list" where
  "allowed_pairs =
     [(EventActivated, StatusActive, False), (EventActivated, StatusTrialing, False),
      (EventRenewed, StatusActive, False), (EventPastDue, StatusPastDue, False),
      (EventCanceled, StatusCanceled, True), (EventExpired, StatusExpired, False),
      (EventPlanChanged, StatusActive, False)]"

lemma ValidateEventStatus_iff:
  "ValidateEventStatus e s c = Inr () \<longleftrightarrow> (e, s, c) \<in> set allowed_pairs"
  by (auto simp: ValidateEventStatus_def ValidateStatusFlags_def allowed_pairs_def bindR_eq_Inr Let_def
      split: if_splits)

lemma ValidateStatusFlags_iff:
  "ValidateStatusFlags s c = Inr () \<longleftrightarrow>
     s \<in> {StatusActive, StatusTrialing, StatusPastDue, StatusCanceled, StatusExpired}
     \<and> (c \<longleftrightarrow> s = StatusCanceled)"
  by (auto simp: ValidateStatusFlags_def)

section \<open>Messages\<close>

record callback =
  cb_Protocol :: string
  cb_Version :: int
  cb_EventID :: string
  cb_EventType :: string
  cb_CheckoutID :: string
  cb_SubscriptionRef :: string
  cb_PlanID :: string
  cb_StateVersion :: int
  cb_Status :: string
  cb_CurrentPeriodStart :: string
  cb_CurrentPeriodEnd :: string
  cb_CancelAtPeriodEnd :: bool
  cb_StateChangedAt :: string

record snapshot =
  sn_Protocol :: string
  sn_Version :: int
  sn_CheckoutID :: string
  sn_SubscriptionRef :: string
  sn_PlanID :: string
  sn_StateVersion :: int
  sn_Status :: string
  sn_CurrentPeriodStart :: string
  sn_CurrentPeriodEnd :: string
  sn_CancelAtPeriodEnd :: bool
  sn_StateChangedAt :: string

definition SnapshotFromCallback :: "callback \<Rightarrow> snapshot" where
  "SnapshotFromCallback cb =
     \<lparr>sn_Protocol = cb_Protocol cb, sn_Version = cb_Version cb, sn_CheckoutID = cb_CheckoutID cb,
      sn_SubscriptionRef = cb_SubscriptionRef cb, sn_PlanID = cb_PlanID cb,
      sn_StateVersion = cb_StateVersion cb, sn_Status = cb_Status cb,
      sn_CurrentPeriodStart = cb_CurrentPeriodStart cb, sn_CurrentPeriodEnd = cb_CurrentPeriodEnd cb,
      sn_CancelAtPeriodEnd = cb_CancelAtPeriodEnd cb, sn_StateChangedAt = cb_StateChangedAt cb\<rparr>"

definition ValidatePeriod :: "string \<Rightarrow> string \<Rightarrow> string \<Rightarrow> gerr + unit" where
  "ValidatePeriod periodStart periodEnd changedAt =
     bindR (ParseUTC periodStart) (\<lambda>start.
     bindR (ParseUTC periodEnd) (\<lambda>fin.
     bindR (guardR (start < fin) ErrUnorderedPeriod) (\<lambda>_.
     bindR (ParseUTC changedAt) (\<lambda>_. Inr ()))))"

definition ValidateCallback :: "callback \<Rightarrow> gerr + unit" where
  "ValidateCallback c =
     bindR (guardR (cb_Protocol c = ProtocolName) ErrInvalidProtocol) (\<lambda>_.
     bindR (guardR (cb_Version c = ProtocolVersion) ErrUnsupportedVersion) (\<lambda>_.
     bindR (ValidateEventID (cb_EventID c)) (\<lambda>_.
     bindR (ValidateCheckoutID (cb_CheckoutID c)) (\<lambda>_.
     bindR (ValidateSubscriptionRef (cb_SubscriptionRef c)) (\<lambda>_.
     bindR (ValidatePlanID (cb_PlanID c)) (\<lambda>_.
     bindR (guardR (1 \<le> cb_StateVersion c) ErrInvalidJSON) (\<lambda>_.
     bindR (ValidatePeriod (cb_CurrentPeriodStart c) (cb_CurrentPeriodEnd c) (cb_StateChangedAt c)) (\<lambda>_.
     ValidateEventStatus (cb_EventType c) (cb_Status c) (cb_CancelAtPeriodEnd c)))))))))"

definition ValidateSnapshot :: "snapshot \<Rightarrow> gerr + unit" where
  "ValidateSnapshot s =
     bindR (guardR (sn_Protocol s = ProtocolName) ErrInvalidProtocol) (\<lambda>_.
     bindR (guardR (sn_Version s = ProtocolVersion) ErrUnsupportedVersion) (\<lambda>_.
     bindR (ValidateCheckoutID (sn_CheckoutID s)) (\<lambda>_.
     bindR (ValidateSubscriptionRef (sn_SubscriptionRef s)) (\<lambda>_.
     bindR (ValidatePlanID (sn_PlanID s)) (\<lambda>_.
     bindR (guardR (1 \<le> sn_StateVersion s) ErrInvalidJSON) (\<lambda>_.
     bindR (ValidatePeriod (sn_CurrentPeriodStart s) (sn_CurrentPeriodEnd s) (sn_StateChangedAt s)) (\<lambda>_.
     ValidateStatusFlags (sn_Status s) (sn_CancelAtPeriodEnd s))))))))"

definition NewCallback ::
  "string \<Rightarrow> string \<Rightarrow> string \<Rightarrow> string \<Rightarrow> string \<Rightarrow> int \<Rightarrow> string \<Rightarrow> gotime \<Rightarrow> gotime \<Rightarrow> gotime \<Rightarrow> bool
     \<Rightarrow> gerr + callback" where
  "NewCallback eventID eventType checkoutID subscriptionRef planID version status
       periodStart periodEnd changedAt cancelAtPeriodEnd =
     (let cb = \<lparr>cb_Protocol = ProtocolName, cb_Version = ProtocolVersion, cb_EventID = eventID,
          cb_EventType = eventType, cb_CheckoutID = checkoutID, cb_SubscriptionRef = subscriptionRef,
          cb_PlanID = planID, cb_StateVersion = version, cb_Status = status,
          cb_CurrentPeriodStart = FormatUTC periodStart, cb_CurrentPeriodEnd = FormatUTC periodEnd,
          cb_CancelAtPeriodEnd = cancelAtPeriodEnd, cb_StateChangedAt = FormatUTC changedAt\<rparr>
      in bindR (ValidateCallback cb) (\<lambda>_. Inr cb))"

section \<open>JSON encoding\<close>

text \<open>
  \<open>encoding/json\<close> on strings: quotes, backslashes and control characters are escaped, invalid UTF-8
  becomes the replacement character, U+2028 and U+2029 are escaped, and with \<open>html\<close> also
  \<open><\<close>, \<open>>\<close> and \<open>&\<close>.
\<close>

definition json_escape_ascii :: "bool \<Rightarrow> nat \<Rightarrow> string" where
  "json_escape_ascii html b =
     (let bs = char_of (92::nat)
      in if b = 34 \<or> b = 92 then [bs, char_of b]
         else if b = 8 then bs # ''b'' else if b = 12 then bs # ''f'' else if b = 10 then bs # ''n''
         else if b = 13 then bs # ''r'' else if b = 9 then bs # ''t''
         else if b < 32 \<or> (html \<and> (b = 60 \<or> b = 62 \<or> b = 38))
         then bs # ''u00'' @ [hex_digit (b div 16), hex_digit (b mod 16)]
         else [char_of b])"

function json_escape :: "bool \<Rightarrow> nat list \<Rightarrow> string" where
  "json_escape html bs =
     (case bs of
        [] \<Rightarrow> []
      | b # r \<Rightarrow>
          if b < 128 then json_escape_ascii html b @ json_escape html r
          else case decode_rune bs of
                 None \<Rightarrow> char_of (92::nat) # ''ufffd'' @ json_escape html r
               | Some (c, k) \<Rightarrow>
                   (if c = 8232 \<or> c = 8233 then char_of (92::nat) # ''u202'' @ [hex_digit (c mod 16)]
                    else map char_of (take k bs)) @ json_escape html (drop k bs))"
  by pat_completeness auto
termination
  by (relation "measure (\<lambda>(h, bs). length bs)") (auto dest: decode_rune_width)

declare json_escape.simps [simp del]

definition json_string :: "bool \<Rightarrow> string \<Rightarrow> string" where
  "json_string html s = [char_of (34::nat)] @ json_escape html (map ord s) @ [char_of (34::nat)]"

definition json_bool :: "bool \<Rightarrow> string" where
  "json_bool b = (if b then ''true'' else ''false'')"

definition json_member :: "string \<times> string \<Rightarrow> string" where
  "json_member kv = [char_of (34::nat)] @ fst kv @ [char_of (34::nat)] @ '':'' @ snd kv"

fun json_members :: "(string \<times> string) list \<Rightarrow> string" where
  "json_members [] = []"
| "json_members [m] = json_member m"
| "json_members (m # ms) = json_member m @ '','' @ json_members ms"

definition json_object :: "(string \<times> string) list \<Rightarrow> string" where
  "json_object ms = ''{'' @ json_members ms @ ''}''"

text \<open>\<open>json.Marshal\<close> of a callback: the members in the order of the struct, HTML escaping on.\<close>

definition marshal_callback :: "callback \<Rightarrow> bytes" where
  "marshal_callback c =
     (let str = json_string True
      in json_object
        [(''protocol'', str (cb_Protocol c)), (''version'', format_int (cb_Version c)),
         (''event_id'', str (cb_EventID c)), (''event_type'', str (cb_EventType c)),
         (''checkout_id'', str (cb_CheckoutID c)), (''subscription_ref'', str (cb_SubscriptionRef c)),
         (''plan_id'', str (cb_PlanID c)), (''state_version'', format_int (cb_StateVersion c)),
         (''status'', str (cb_Status c)), (''current_period_start'', str (cb_CurrentPeriodStart c)),
         (''current_period_end'', str (cb_CurrentPeriodEnd c)),
         (''cancel_at_period_end'', json_bool (cb_CancelAtPeriodEnd c)),
         (''state_changed_at'', str (cb_StateChangedAt c))])"

text \<open>\<open>MarshalCompact\<close> of a snapshot: HTML escaping off, no trailing newline.\<close>

definition marshal_snapshot :: "snapshot \<Rightarrow> bytes" where
  "marshal_snapshot s =
     (let str = json_string False
      in json_object
        [(''protocol'', str (sn_Protocol s)), (''version'', format_int (sn_Version s)),
         (''checkout_id'', str (sn_CheckoutID s)), (''subscription_ref'', str (sn_SubscriptionRef s)),
         (''plan_id'', str (sn_PlanID s)), (''state_version'', format_int (sn_StateVersion s)),
         (''status'', str (sn_Status s)), (''current_period_start'', str (sn_CurrentPeriodStart s)),
         (''current_period_end'', str (sn_CurrentPeriodEnd s)),
         (''cancel_at_period_end'', json_bool (sn_CancelAtPeriodEnd s)),
         (''state_changed_at'', str (sn_StateChangedAt s))])"

section \<open>Facts\<close>

definition wire_year :: "gotime \<Rightarrow> bool" where
  "wire_year t \<longleftrightarrow> 0 \<le> year_of (TruncateUTC t) \<and> year_of (TruncateUTC t) \<le> 9999"

lemma ParseUTC_FormatUTC [simp]: "wire_year t \<Longrightarrow> ParseUTC (FormatUTC t) = Inr (TruncateUTC t)"
  by (simp add: FormatUTC_def wire_year_def ParseUTC_rfc3339)

lemma ValidatePeriod_FormatUTC:
  "wire_year a \<Longrightarrow> wire_year b \<Longrightarrow> wire_year c \<Longrightarrow>
   ValidatePeriod (FormatUTC a) (FormatUTC b) (FormatUTC c)
     = guardR (TruncateUTC a < TruncateUTC b) ErrUnorderedPeriod"
  by (simp add: ValidatePeriod_def guardR_def)

lemma ValidateCallback_iff:
  "ValidateCallback c = Inr () \<longleftrightarrow>
     cb_Protocol c = ProtocolName \<and> cb_Version c = ProtocolVersion
     \<and> ValidateEventID (cb_EventID c) = Inr () \<and> ValidateCheckoutID (cb_CheckoutID c) = Inr ()
     \<and> ValidateSubscriptionRef (cb_SubscriptionRef c) = Inr () \<and> ValidatePlanID (cb_PlanID c) = Inr ()
     \<and> 1 \<le> cb_StateVersion c
     \<and> ValidatePeriod (cb_CurrentPeriodStart c) (cb_CurrentPeriodEnd c) (cb_StateChangedAt c) = Inr ()
     \<and> (cb_EventType c, cb_Status c, cb_CancelAtPeriodEnd c) \<in> set allowed_pairs"
  by (simp add: ValidateCallback_def bindR_eq_Inr ValidateEventStatus_iff)

lemma allowed_pairs_flags: "(e, s, c) \<in> set allowed_pairs \<Longrightarrow> ValidateStatusFlags s c = Inr ()"
  by (auto simp: allowed_pairs_def ValidateStatusFlags_iff)

text \<open>A valid callback projects to a valid snapshot.\<close>

lemma SnapshotFromCallback_valid:
  "ValidateCallback c = Inr () \<Longrightarrow> ValidateSnapshot (SnapshotFromCallback c) = Inr ()"
  by (auto simp: ValidateCallback_iff ValidateSnapshot_def SnapshotFromCallback_def dest: allowed_pairs_flags)

lemma NewCallback_valid:
  "NewCallback e ty co r p v st a b ch cx = Inr cb \<Longrightarrow>
   ValidateCallback cb = Inr () \<and> cb_EventID cb = e \<and> cb_EventType cb = ty \<and> cb_CheckoutID cb = co
   \<and> cb_SubscriptionRef cb = r \<and> cb_PlanID cb = p \<and> cb_StateVersion cb = v \<and> cb_Status cb = st
   \<and> cb_CurrentPeriodStart cb = FormatUTC a \<and> cb_CurrentPeriodEnd cb = FormatUTC b
   \<and> cb_StateChangedAt cb = FormatUTC ch \<and> cb_CancelAtPeriodEnd cb = cx"
  by (auto simp: NewCallback_def Let_def bindR_eq_Inr)

lemma NewCallback_ok_iff:
  assumes "wire_year a" "wire_year b" "wire_year ch"
  shows "(\<exists>cb. NewCallback e ty co r p v st a b ch cx = Inr cb) \<longleftrightarrow>
     ValidateEventID e = Inr () \<and> ValidateCheckoutID co = Inr () \<and> ValidateSubscriptionRef r = Inr ()
     \<and> ValidatePlanID p = Inr () \<and> 1 \<le> v \<and> TruncateUTC a < TruncateUTC b
     \<and> (ty, st, cx) \<in> set allowed_pairs"
  by (simp add: NewCallback_def Let_def bindR_eq_Inr ValidateCallback_iff
      ValidatePeriod_FormatUTC [OF assms])

section \<open>Properties\<close>

text \<open>
  Timestamps on the wire are canonical: parsing accepts exactly the rendering of a whole second of
  the years 0 to 9999, and gives that second back; rendering then parsing an instant truncates it to
  its second.
\<close>

theorem timestamp_roundtrip:
  "(wire_year t \<longrightarrow> ParseUTC (FormatUTC t) = Inr (TruncateUTC t))
   \<and> (ParseUTC s = Inr u \<longrightarrow> FormatUTC u = s \<and> TruncateUTC u = u \<and> 0 \<le> year_of u)"
proof -
  have "FormatUTC u = s \<and> TruncateUTC u = u \<and> 0 \<le> year_of u" if "ParseUTC s = Inr u"
  proof -
    from ParseUTC_canonical [OF that] have "rfc3339 u = s" "whole u" by simp_all
    moreover have "TruncateUTC u = u" using \<open>whole u\<close> by (auto simp: whole_def TruncateUTC_def from_unix_def unix_of_def)
    ultimately show ?thesis using ParseUTC_year [OF that] by (simp add: FormatUTC_def)
  qed
  then show ?thesis by simp
qed

theorem timestamp_roundtrip_witness:
  "ParseUTC (FormatUTC 1767225600000000005) = Inr 1767225600000000000
   \<and> TruncateUTC 1767225600000000000 = 1767225600000000000"
proof -
  have "wire_year 1767225600000000005" by code_simp
  with timestamp_roundtrip [of "1767225600000000005"]
  have "ParseUTC (FormatUTC 1767225600000000005) = Inr (TruncateUTC 1767225600000000005)" by blast
  also have "TruncateUTC 1767225600000000005 = 1767225600000000000" by code_simp
  finally have p: "ParseUTC (FormatUTC 1767225600000000005) = Inr 1767225600000000000" .
  with timestamp_roundtrip [of 0 "FormatUTC 1767225600000000005" "1767225600000000000"] show ?thesis
    by blast
qed

text \<open>
  A billing month is a month: the anniversary of an instant lies 28 to 31 days after the second it
  falls in, so a renewed period is never empty and never skips a month.
\<close>

theorem anniversary_bounds:
  "TruncateUTC t + 28 * 86400 * second \<le> AddCalendarMonths t 1
   \<and> AddCalendarMonths t 1 \<le> TruncateUTC t + 31 * 86400 * second"
  using AddCalendarMonths_one by blast

text \<open>
  C23. A token's lifetime: on times that fit, it is accepted exactly when it expires after it was
  issued and at most 15 minutes later, with five minutes of clock skew at both ends.  The bound on
  the lifetime is not enforced for all of \<open>int64\<close>: the conversion to nanoseconds wraps, and a token
  of about 292 years passes.
\<close>

theorem token_lifetime:
  "(0 \<le> unix_of now \<and> unix_of now < 2 ^ 62 \<and> 0 \<le> iat \<and> exp < 2 ^ 62 \<and> exp - iat \<le> 9223372036 \<longrightarrow>
     (ValidateTokenLifetime iat exp now = Inr () \<longleftrightarrow>
       iat < exp \<and> exp - iat \<le> 900 \<and> iat \<le> unix_of now + 300 \<and> unix_of now \<le> exp + 300))
   \<and> (0 \<le> unix_of now \<and> unix_of now < 2 ^ 62 \<longrightarrow>
       ValidateTokenLifetime (unix_of now) (unix_of now + 9223372037) now = Inr ())"
proof -
  have "ValidateTokenLifetime (unix_of now) (unix_of now + 9223372037) now = Inr ()"
    if b: "0 \<le> unix_of now" "unix_of now < 2 ^ 62"
  proof -
    have "wrap64 (unix_of now + 300) = unix_of now + 300"
      and "wrap64 (unix_of now + 9223372037 + 300) = unix_of now + 9223372037 + 300"
      using b by (auto intro!: wrap64_id)
    moreover have "wrap64 9223372037 = 9223372037" and "wrap64 9223372037000000000 \<le> 0"
      by (simp_all add: wrap64_def)
    ultimately show ?thesis using b by (simp add: ValidateTokenLifetime_def window_defs Let_def)
  qed
  then show ?thesis using ValidateTokenLifetime_iff [of now iat exp] by blast
qed

theorem token_lifetime_witness:
  "ValidateTokenLifetime 1767225600 1767226500 1767225600000000000 = Inr ()
   \<and> ValidateTokenLifetime 1767225600 10990597637 1767225600000000000 = Inr ()"
proof -
  have u: "unix_of 1767225600000000000 = 1767225600" by code_simp
  show ?thesis
    using token_lifetime [of "1767225600000000000" "1767225600" "1767226500"] unfolding u by simp
qed

text \<open>
  What is sent is valid: a callback is built exactly from valid identifiers, a positive version, an
  ordered period and a permitted triple of event, status and cancel flag; it satisfies the validation
  every receiver applies, and so does the snapshot that reconciliation serves for it.
\<close>

theorem callback_valid:
  assumes "wire_year a" and "wire_year b" and "wire_year ch"
  shows "((\<exists>cb. NewCallback e ty co r p v st a b ch cx = Inr cb) \<longleftrightarrow>
     ValidateEventID e = Inr () \<and> ValidateCheckoutID co = Inr () \<and> ValidateSubscriptionRef r = Inr ()
     \<and> ValidatePlanID p = Inr () \<and> 1 \<le> v \<and> TruncateUTC a < TruncateUTC b
     \<and> (ty, st, cx) \<in> set allowed_pairs)
   \<and> (\<forall>cb. NewCallback e ty co r p v st a b ch cx = Inr cb \<longrightarrow>
       ValidateCallback cb = Inr () \<and> ValidateSnapshot (SnapshotFromCallback cb) = Inr ()
       \<and> sn_StateVersion (SnapshotFromCallback cb) = v \<and> sn_Status (SnapshotFromCallback cb) = st)"
proof (rule conjI, rule NewCallback_ok_iff [OF assms], intro allI impI)
  fix cb assume "NewCallback e ty co r p v st a b ch cx = Inr cb"
  then have c: "ValidateCallback cb = Inr ()" "cb_StateVersion cb = v" "cb_Status cb = st"
    by (simp_all add: NewCallback_valid)
  show "ValidateCallback cb = Inr () \<and> ValidateSnapshot (SnapshotFromCallback cb) = Inr ()
      \<and> sn_StateVersion (SnapshotFromCallback cb) = v \<and> sn_Status (SnapshotFromCallback cb) = st"
    using c SnapshotFromCallback_valid [OF c(1)] by (simp add: SnapshotFromCallback_def)
qed

theorem callback_valid_witness:
  "\<exists>cb. NewCallback ''evt_1'' EventActivated ''subchk_1'' ''sub_1'' ''pro'' 1 StatusActive
      1767225600000000000 1769904000000000000 1767225600000000000 False = Inr cb
   \<and> ValidateSnapshot (SnapshotFromCallback cb) = Inr ()"
proof -
  have y: "wire_year 1767225600000000000" "wire_year 1769904000000000000" by code_simp+
  have "ValidateEventID ''evt_1'' = Inr ()" "ValidateCheckoutID ''subchk_1'' = Inr ()"
    "ValidateSubscriptionRef ''sub_1'' = Inr ()"
    "TruncateUTC 1767225600000000000 < TruncateUTC 1769904000000000000"
    by code_simp+
  note this ValidatePlanID_pro
  moreover have "(EventActivated, StatusActive, False) \<in> set allowed_pairs"
    by (simp add: allowed_pairs_def)
  ultimately show ?thesis
    using callback_valid [OF y y(1), of "''evt_1''" EventActivated "''subchk_1''" "''sub_1''" "''pro''" 1
        StatusActive False] by auto
qed

end
