(* ===== verification/Hmac.thy ===== *)
theory Hmac
  imports ProtoTypes
begin

text \<open>
  \<^verbatim>\<open>internal/hmac\<close>: derivation of the three keys from the pairing root (\<^verbatim>\<open>keys.go\<close>), the signature headers
  of callbacks and of reconciliation requests (\<^verbatim>\<open>header.go\<close>) and the token format (\<^verbatim>\<open>token.go\<close>), with the
  base64 encoding they use.  Comparing in constant time is comparing.
\<close>

section \<open>Byte strings\<close>

text \<open>\<open>strings.Cut(s, sep)\<close> at a one-byte separator.\<close>

fun cut_at :: "char \<Rightarrow> string \<Rightarrow> (string \<times> string) option" where
  "cut_at d [] = None"
| "cut_at d (c # s) = (if c = d then Some ([], s) else map_option (\<lambda>(a, b). (c # a, b)) (cut_at d s))"

lemma cut_at_append: "d \<notin> set a \<Longrightarrow> cut_at d (a @ d # b) = Some (a, b)"
  by (induction a) auto

lemma cut_at_Some: "cut_at d s = Some (a, b) \<Longrightarrow> s = a @ d # b"
  by (induction s arbitrary: a) (auto split: if_splits)

subsection \<open>Counting and splitting\<close>

lemma count_sub_none: "p \<noteq> [] \<Longrightarrow> hd p \<notin> set s \<Longrightarrow> count_sub s p = 0"
proof (induction s)
  case Nil
  then show ?case by (simp add: count_sub.simps)
next
  case (Cons c s)
  then have "\<not> has_prefix (c # s) p" by (cases p) (auto simp: has_prefix_def)
  with Cons show ?case by (subst count_sub.simps) simp
qed

lemma count_sub_skip: "p \<noteq> [] \<Longrightarrow> hd p \<notin> set a \<Longrightarrow> count_sub (a @ s) p = count_sub s p"
proof (induction a)
  case (Cons c a)
  then have n: "\<not> has_prefix (c # a @ s) p" by (cases p) (auto simp: has_prefix_def)
  show ?case
  proof (cases "length (c # a @ s) < length p")
    case True
    then have "count_sub s p = 0" by (simp add: count_sub.simps [of s])
    with True show ?thesis by (subst count_sub.simps) simp
  next
    case False
    with n Cons show ?thesis by (subst count_sub.simps) simp
  qed
qed simp

lemma count_sub_hit: "p \<noteq> [] \<Longrightarrow> count_sub (p @ s) p = Suc (count_sub s p)"
  by (subst count_sub.simps) (simp add: has_prefix_append)

lemma split_on_two: "split_on d s = [a, b] \<Longrightarrow> s = a @ d # b"
proof (induction s arbitrary: a)
  case (Cons c s)
  show ?case
  proof (cases "c = d")
    case True
    with Cons(2) have "a = []" "split_on d s = [b]" by auto
    moreover have "s = b" if "split_on d s = [b]" for s b
      using that by (induction s arbitrary: b) (auto split: if_splits list.splits)
    ultimately show ?thesis using True by simp
  next
    case False
    then obtain w ws where w: "split_on d s = w # ws" by (cases "split_on d s") auto
    with False Cons(2) have "a = c # w" "ws = [b]" by auto
    with w Cons(1) show ?thesis by simp
  qed
qed simp

section \<open>Base64\<close>

text \<open>
  \<open>base64.RawURLEncoding\<close>.  Its decoder ignores the bits left over in the last character and skips
  line breaks; the code refuses tokens with line breaks before decoding, and the model's decoder refuses
  them.
\<close>

definition b64_char :: "nat \<Rightarrow> char" where
  "b64_char n = (if n < 26 then char_of (65 + n) else if n < 52 then char_of (71 + n)
     else if n < 62 then char_of (n - 4) else if n = 62 then CHR ''-'' else CHR ''_'')"

definition b64_val :: "char \<Rightarrow> nat option" where
  "b64_val c = (let n = ord c in
     if 65 \<le> n \<and> n \<le> 90 then Some (n - 65) else if 97 \<le> n \<and> n \<le> 122 then Some (n - 71)
     else if 48 \<le> n \<and> n \<le> 57 then Some (n + 4) else if n = 45 then Some 62 else if n = 95 then Some 63 else None)"

fun b64_encode :: "bytes \<Rightarrow> string" where
  "b64_encode [] = []"
| "b64_encode [a] = [b64_char (ord a div 4), b64_char (ord a mod 4 * 16)]"
| "b64_encode [a, b] = [b64_char (ord a div 4), b64_char (ord a mod 4 * 16 + ord b div 16), b64_char (ord b mod 16 * 4)]"
| "b64_encode (a # b # c # s) = b64_char (ord a div 4) # b64_char (ord a mod 4 * 16 + ord b div 16)
     # b64_char (ord b mod 16 * 4 + ord c div 64) # b64_char (ord c mod 64) # b64_encode s"

fun b64_decode :: "string \<Rightarrow> bytes option" where
  "b64_decode [] = Some []"
| "b64_decode [x] = None"
| "b64_decode [x, y] = (case (b64_val x, b64_val y) of
     (Some p, Some q) \<Rightarrow> Some [char_of (4 * p + q div 16)] | _ \<Rightarrow> None)"
| "b64_decode [x, y, z] = (case (b64_val x, b64_val y, b64_val z) of
     (Some p, Some q, Some r) \<Rightarrow> Some [char_of (4 * p + q div 16), char_of (q mod 16 * 16 + r div 4)] | _ \<Rightarrow> None)"
| "b64_decode (x # y # z # u # s) = (case (b64_val x, b64_val y, b64_val z, b64_val u) of
     (Some p, Some q, Some r, Some t) \<Rightarrow> map_option (\<lambda>b. char_of (4 * p + q div 16) # char_of (q mod 16 * 16 + r div 4)
        # char_of (r mod 4 * 64 + t) # b) (b64_decode s)
   | _ \<Rightarrow> None)"

lemma ord_b64_char:
  "n < 64 \<Longrightarrow> ord (b64_char n) = (if n < 26 then 65 + n else if n < 52 then 71 + n else if n < 62 then n - 4
     else if n = 62 then 45 else 95)"
proof -
  have "ord (CHR ''-'') = 45" "ord (CHR ''_'') = 95" by (simp_all add: ord_def)
  then show "n < 64 \<Longrightarrow> ?thesis" by (simp add: b64_char_def)
qed

lemma b64_val_char: "n < 64 \<Longrightarrow> b64_val (b64_char n) = Some n"
  by (auto simp: b64_val_def Let_def ord_b64_char)

text \<open>The characters the token grammar forbids in the encoded payload.\<close>

abbreviation token_blanks :: string where
  "token_blanks \<equiv> [CHR ''='', CHR '' '', CHR 0x09, CHR 0x0D, CHR 0x0A]"

definition b64_plain :: "char \<Rightarrow> bool" where
  "b64_plain c \<longleftrightarrow> ord c \<notin> {46, 61, 32, 9, 13, 10}"

lemma b64_char_plain: "n < 64 \<Longrightarrow> b64_plain (b64_char n)"
  by (auto simp: b64_plain_def ord_b64_char)

lemma ord_digits: "ord a div 4 < 64" "ord a div 16 < 16" "ord a div 64 < 4"
  using ord_bound [of a] by (auto intro!: less_mult_imp_div_less)

lemma combine: "r < k \<Longrightarrow> (m * k + r) div k = m" "r < k \<Longrightarrow> (m * k + r) mod k = r" for m k r :: nat
  by simp_all

lemma combine_less: "m < n \<Longrightarrow> r < k \<Longrightarrow> m * k + r < n * k" for m k r :: nat
proof -
  assume a: "m < n" "r < k"
  then have "m * k + r < (m + 1) * k" by simp
  also have "\<dots> \<le> n * k" using a(1) by (intro mult_le_mono1) simp
  finally show ?thesis .
qed

lemma six_bits:
  "ord a div 4 < 64" "ord a mod 4 * 16 < 64" "ord a mod 4 * 16 + ord b div 16 < 64" "ord a mod 16 * 4 < 64"
  "ord a mod 16 * 4 + ord b div 64 < 64" "ord a mod 64 < 64"
  using combine_less [of "ord a mod 4" 4 "ord b div 16" 16] combine_less [of "ord a mod 4" 4 0 16]
    combine_less [of "ord a mod 16" 16 "ord b div 64" 4] combine_less [of "ord a mod 16" 16 0 4]
    ord_digits [of a] ord_digits [of b]
  by simp_all

lemma b64_bytes:
  "4 * (ord a div 4) + (ord a mod 4 * 16 + ord b div 16) div 16 = ord a"
  "4 * (ord a div 4) + ord a mod 4 * 16 div 16 = ord a"
  "(ord a mod 4 * 16 + ord b div 16) mod 16 * 16 + (ord b mod 16 * 4 + ord c div 64) div 4 = ord b"
  "(ord a mod 4 * 16 + ord b div 16) mod 16 * 16 + ord b mod 16 * 4 div 4 = ord b"
  "(ord b mod 16 * 4 + ord c div 64) mod 4 * 64 + ord c mod 64 = ord c"
  by (simp_all only: combine ord_digits nonzero_mult_div_cancel_right) (simp_all add: mult.commute)

lemma b64_decode_encode [simp]: "b64_decode (b64_encode s) = Some s"
  by (induction s rule: b64_encode.induct) (simp_all only: b64_encode.simps b64_decode.simps b64_val_char six_bits
      b64_bytes char_of_ord option.case prod.case option.map)

lemma b64_encode_plain: "list_all b64_plain (b64_encode s)"
  by (induction s rule: b64_encode.induct) (simp_all add: b64_char_plain six_bits)

lemma b64_encode_Nil [simp]: "b64_encode s = [] \<longleftrightarrow> s = []"
  by (cases s rule: b64_encode.cases) simp_all

section \<open>Keys and signatures\<close>

record keys =
  k_Token :: bytes
  k_Callback :: bytes
  k_Reconcile :: bytes

definition isLowerHex :: "char \<Rightarrow> bool" where
  "isLowerHex c \<longleftrightarrow> (48 \<le> ord c \<and> ord c \<le> 57) \<or> (97 \<le> ord c \<and> ord c \<le> 102)"

definition ParsePairingRoot :: "string \<Rightarrow> gerr + bytes" where
  "ParsePairingRoot configured =
     (if length configured \<noteq> 64 then Inl ErrInvalidPairingRoot
      else if list_ex (\<lambda>c. (65 \<le> ord c \<and> ord c \<le> 70) \<or> \<not> isLowerHex c) configured then Inl ErrInvalidPairingRoot
      else case hex_decode configured of
             None \<Rightarrow> Inl ErrInvalidPairingRoot
           | Some decoded \<Rightarrow> if length decoded \<noteq> KeySize then Inl ErrInvalidPairingRoot else Inr decoded)"

definition derive_key :: "bytes \<Rightarrow> string \<Rightarrow> gerr + bytes" where
  "derive_key root info = (case hkdf_key root HKDFSalt info KeySize of None \<Rightarrow> Inl (ErrOther ''hkdf'') | Some k \<Rightarrow> Inr k)"

definition DeriveKeys :: "string \<Rightarrow> gerr + keys" where
  "DeriveKeys configuredRoot =
     bindR (ParsePairingRoot configuredRoot) (\<lambda>root.
     bindR (derive_key root TokenInfo) (\<lambda>token.
     bindR (derive_key root CallbackInfo) (\<lambda>callback.
     bindR (derive_key root ReconcileInfo) (\<lambda>reconcile.
     Inr \<lparr>k_Token = token, k_Callback = callback, k_Reconcile = reconcile\<rparr>))))"

definition Sign :: "bytes \<Rightarrow> bytes \<Rightarrow> string" where
  "Sign key message = hex_encode (hmac_sha256 key message)"

definition constantEq :: "bytes \<Rightarrow> bytes \<Rightarrow> bool" where
  "constantEq a b = (if length a \<noteq> length b then False else a = b)"

definition Verify :: "bytes \<Rightarrow> bytes \<Rightarrow> string \<Rightarrow> gerr + unit" where
  "Verify key message signatureHex =
     (if length signatureHex \<noteq> SignatureHexLen \<or> to_lower signatureHex \<noteq> signatureHex then Inl ErrInvalidSignature
      else if list_ex (\<lambda>c. \<not> isLowerHex c) signatureHex then Inl ErrInvalidSignature
      else case hex_decode signatureHex of
             None \<Rightarrow> Inl ErrInvalidSignature
           | Some expected \<Rightarrow> guardR (constantEq expected (hmac_sha256 key message)) ErrInvalidSignature)"

lemma isLowerHex_eq: "isLowerHex = is_lower_hex"
  by (simp add: isLowerHex_def is_lower_hex_def fun_eq_iff)

lemma lower_hex_lower: "list_all is_lower_hex s \<Longrightarrow> to_lower s = s"
  by (rule to_lower_id) (auto simp: list_all_iff is_lower_hex_def)

lemma length_hex_decoded: "hex_decode s = Some b \<Longrightarrow> 2 * length b = length s"
  by (induction s arbitrary: b rule: hex_decode.induct) (auto split: option.splits)

lemma not_list_all_iff_list_ex: "list_ex (\<lambda>c. \<not> P c) s \<longleftrightarrow> \<not> list_all P s"
  by (simp add: list_all_iff list_ex_iff)

lemma Verify_iff: "Verify key m s = Inr () \<longleftrightarrow> s = Sign key m"
proof
  assume v: "Verify key m s = Inr ()"
  then have h: "list_all is_lower_hex s" and d: "hex_decode s = Some (hmac_sha256 key m)"
    unfolding Verify_def isLowerHex_eq not_list_all_iff_list_ex constantEq_def
    by (simp_all split: if_split_asm option.splits)
  from hex_encode_decode [OF h d] show "s = Sign key m" by (simp add: Sign_def)
next
  assume s: "s = Sign key m"
  have h: "list_all is_lower_hex (Sign key m)" by (simp add: Sign_def hex_encode_lower)
  show "Verify key m s = Inr ()"
    unfolding s Verify_def isLowerHex_eq not_list_all_iff_list_ex
    using h lower_hex_lower [OF h] by (simp add: Sign_def constantEq_def)
qed

lemma pairing_chars: "list_ex (\<lambda>c. (65 \<le> ord c \<and> ord c \<le> 70) \<or> \<not> isLowerHex c) s \<longleftrightarrow> \<not> list_all is_lower_hex s"
proof -
  have "(65 \<le> ord c \<and> ord c \<le> 70) \<or> \<not> isLowerHex c \<longleftrightarrow> \<not> is_lower_hex c" for c
    by (auto simp: isLowerHex_eq is_lower_hex_def)
  then show ?thesis by (simp only: not_list_all_iff_list_ex)
qed

lemma ParsePairingRoot_iff:
  "ParsePairingRoot c = Inr r \<longleftrightarrow> length c = 64 \<and> list_all is_lower_hex c \<and> hex_encode r = c"
proof
  assume "ParsePairingRoot c = Inr r"
  then have "length c = 64" "list_all is_lower_hex c" "hex_decode c = Some r"
    unfolding ParsePairingRoot_def pairing_chars by (simp_all split: if_split_asm option.splits)
  with hex_encode_decode show "length c = 64 \<and> list_all is_lower_hex c \<and> hex_encode r = c" by blast
next
  assume r: "length c = 64 \<and> list_all is_lower_hex c \<and> hex_encode r = c"
  then have d: "hex_decode c = Some r" by auto
  with r length_hex_decoded [OF d] show "ParsePairingRoot c = Inr r"
    unfolding ParsePairingRoot_def pairing_chars by simp
qed

lemma DeriveKeys_ok: "ParsePairingRoot c = Inr r \<Longrightarrow> \<exists>k. DeriveKeys c = Inr k"
  by (simp add: DeriveKeys_def derive_key_def hkdf_key_def)

section \<open>Headers\<close>

definition CallbackHeader :: "bytes \<Rightarrow> int \<Rightarrow> bytes \<Rightarrow> gerr + string" where
  "CallbackHeader key ts body =
     bindR (CanonicalUnix ts) (\<lambda>unix.
     Inr (''t='' @ unix @ '',v1='' @ Sign key (unix @ ''.'' @ body)))"

definition parseComponents :: "string \<Rightarrow> gerr + int \<times> string" where
  "parseComponents header =
     (if header = [] \<or> contains_any header [CHR '' '', CHR 0x09, CHR 0x0D, CHR 0x0A] then Inl ErrInvalidSignature
      else case split_on (CHR '','') header of
        [tPart, vPart] \<Rightarrow>
          if \<not> has_prefix tPart ''t='' \<or> \<not> has_prefix vPart ''v1='' then Inl ErrInvalidSignature
          else if count_sub header ''t='' \<noteq> 1 \<or> count_sub header ''v1='' \<noteq> 1 then Inl ErrInvalidSignature
          else let tRaw = trim_prefix tPart ''t=''; vRaw = trim_prefix vPart ''v1='' in
            if tRaw = [] \<or> vRaw = [] then Inl ErrInvalidSignature
            else if 1 < length tRaw \<and> tRaw ! 0 = CHR ''0'' then Inl ErrInvalidSignature
            else if has_prefix tRaw ''-'' \<or> contains_any tRaw ''+.eE'' then Inl ErrInvalidSignature
            else (case parse_int64 tRaw of
                    None \<Rightarrow> Inl ErrInvalidSignature
                  | Some ts \<Rightarrow>
                      if ts < 0 then Inl ErrInvalidSignature
                      else if format_int ts \<noteq> tRaw then Inl ErrInvalidSignature
                      else if length vRaw \<noteq> SignatureHexLen \<or> to_lower vRaw \<noteq> vRaw then Inl ErrInvalidSignature
                      else Inr (ts, vRaw))
      | _ \<Rightarrow> Inl ErrInvalidSignature)"

definition VerifyCallbackHeader :: "bytes \<Rightarrow> string \<Rightarrow> bytes \<Rightarrow> gotime \<Rightarrow> gerr + unit" where
  "VerifyCallbackHeader key header body now =
     bindR (parseComponents header) (\<lambda>(ts, sig).
     bindR (ValidateReplayWindow ts now) (\<lambda>_.
     bindR (CanonicalUnix ts) (\<lambda>unix.
     Verify key (unix @ ''.'' @ body) sig)))"

definition reconcile_base :: "string \<Rightarrow> string \<Rightarrow> bytes" where
  "reconcile_base path unix = ''GET'' @ [CHR 0x0A] @ path @ [CHR 0x0A] @ unix"

definition ReconcileHeader :: "bytes \<Rightarrow> int \<Rightarrow> string \<Rightarrow> gerr + string" where
  "ReconcileHeader key ts path =
     bindR (CanonicalUnix ts) (\<lambda>unix.
     Inr (ReconcileScheme @ '' t='' @ unix @ '',v1='' @ Sign key (reconcile_base path unix)))"

definition VerifyReconcileHeader :: "bytes \<Rightarrow> string \<Rightarrow> string \<Rightarrow> gotime \<Rightarrow> gerr + unit" where
  "VerifyReconcileHeader key authorization path now =
     (case cut_at (CHR '' '') authorization of
        None \<Rightarrow> Inl ErrInvalidSignature
      | Some (scheme, rest) \<Rightarrow>
          if scheme \<noteq> ReconcileScheme \<or> rest = [] then Inl ErrInvalidSignature
          else if trims rest \<or> contains_any rest [CHR '' '', CHR 0x09] then Inl ErrInvalidSignature
          else bindR (parseComponents rest) (\<lambda>(ts, sig).
               bindR (ValidateReplayWindow ts now) (\<lambda>_.
               bindR (CanonicalUnix ts) (\<lambda>unix.
               Verify key (reconcile_base path unix) sig))))"

definition SignCallback :: "bytes \<Rightarrow> gotime \<Rightarrow> bytes \<Rightarrow> gerr + string" where
  "SignCallback key now body = CallbackHeader key (unix_of now) body"

section \<open>Tokens\<close>

definition EncodeToken :: "bytes \<Rightarrow> bytes \<Rightarrow> gerr + string" where
  "EncodeToken key payload =
     (if payload = [] then Inl ErrInvalidToken
      else let token = b64_encode payload @ ''.'' @ Sign key payload
           in if MaxTokenBytes < length token then Inl ErrInvalidToken else Inr token)"

definition SplitToken :: "string \<Rightarrow> gerr + string \<times> string" where
  "SplitToken token =
     (if token = [] \<or> MaxTokenBytes < length token then Inl ErrInvalidToken
      else if count_sub token ''.'' \<noteq> 1 then Inl ErrInvalidToken
      else case split_on (CHR ''.'') token of
             p0 # p1 # _ \<Rightarrow> if p0 = [] \<or> p1 = [] then Inl ErrInvalidToken else Inr (p0, p1)
           | _ \<Rightarrow> Inl ErrPanic)"

definition DecodeAndVerify :: "bytes \<Rightarrow> string \<Rightarrow> gerr + bytes" where
  "DecodeAndVerify key token =
     bindR (SplitToken token) (\<lambda>(payloadB64, sig).
     if contains_any payloadB64 token_blanks then Inl ErrInvalidToken
     else case b64_decode payloadB64 of
            None \<Rightarrow> Inl ErrInvalidToken
          | Some payload \<Rightarrow>
              if b64_encode payload \<noteq> payloadB64 then Inl ErrInvalidToken
              else bindR (Verify key payload sig) (\<lambda>_. Inr payload))"

definition Fingerprint :: "bytes \<Rightarrow> bytes" where
  "Fingerprint payload = sha256 payload"

section \<open>Facts\<close>

lemma length_split_on: "length (split_on d s) = Suc (count_sub s [d])"
proof (induction s)
  case Nil
  show ?case by (simp add: count_sub.simps)
next
  case (Cons c s)
  then show ?case
    by (subst count_sub.simps) (auto simp: has_prefix_def split: list.splits)
qed

lemma b64_no_dot: "CHR ''.'' \<notin> set (b64_encode p)" and b64_no_blank: "\<not> contains_any (b64_encode p) token_blanks"
proof -
  have plain: "b64_plain c" if "c \<in> set (b64_encode p)" for c
    using b64_encode_plain [of p] that by (simp add: list_all_iff)
  have "\<not> b64_plain c" if "c \<in> set (CHR ''.'' # token_blanks)" for c
    using that by (auto simp: b64_plain_def ord_def)
  then have no: "c \<notin> set (b64_encode p)" if "c \<in> set (CHR ''.'' # token_blanks)" for c
    using plain that by blast
  show "CHR ''.'' \<notin> set (b64_encode p)" by (rule no) simp
  show "\<not> contains_any (b64_encode p) token_blanks"
    unfolding contains_any_def list_ex_iff using no [OF list.set_intros(2)] by blast
qed

lemma Sign_lower: "list_all is_lower_hex (Sign key m)"
  by (simp add: Sign_def hex_encode_lower)

lemma length_Sign [simp]: "length (Sign key m) = 64"
  by (simp add: Sign_def)

lemma lower_hex_avoids:
  assumes "list_all is_lower_hex s" and "\<not> is_lower_hex c"
  shows "c \<notin> set s"
  using assms by (auto simp: list_all_iff)

lemma not_lower_hex [simp]:
  "\<not> is_lower_hex (CHR ''.'')" "\<not> is_lower_hex (CHR ''t'')" "\<not> is_lower_hex (CHR ''v'')" "\<not> is_lower_hex (CHR '','')"
  "\<not> is_lower_hex (CHR '' '')" "\<not> is_lower_hex (CHR 0x09)" "\<not> is_lower_hex (CHR 0x0D)" "\<not> is_lower_hex (CHR 0x0A)"
  by (simp_all add: is_lower_hex_def ord_def)

lemma DecodeAndVerify_iff: "DecodeAndVerify key t = Inr p \<longleftrightarrow> EncodeToken key p = Inr t"
proof
  assume d: "DecodeAndVerify key t = Inr p"
  then obtain p0 p1 where s: "SplitToken t = Inr (p0, p1)" and b: "b64_decode p0 = Some p" "b64_encode p = p0"
    and v: "Verify key p p1 = Inr ()"
    by (auto simp: DecodeAndVerify_def bindR_eq_Inr split: if_split_asm option.splits)
  from s have len: "length t \<le> MaxTokenBytes" and p0: "p0 \<noteq> []"
    and "count_sub t ''.'' = 1" "\<exists>rest. split_on (CHR ''.'') t = p0 # p1 # rest"
    by (auto simp: SplitToken_def split: if_split_asm list.splits)
  then have "split_on (CHR ''.'') t = [p0, p1]" using length_split_on [of "CHR ''.''" t] by auto
  then have "t = b64_encode p @ ''.'' @ Sign key p"
    using split_on_two b(2) v [unfolded Verify_iff] by force
  with len p0 b(2) show "EncodeToken key p = Inr t" by (auto simp: EncodeToken_def Let_def)
next
  assume e: "EncodeToken key p = Inr t"
  then have t: "t = b64_encode p @ ''.'' @ Sign key p" "p \<noteq> []" "length t \<le> MaxTokenBytes"
    by (auto simp: EncodeToken_def Let_def split: if_split_asm)
  have ns: "CHR ''.'' \<notin> set (Sign key p)" by (rule lower_hex_avoids [OF Sign_lower]) simp
  have sp: "split_on (CHR ''.'') t = [b64_encode p, Sign key p]"
    by (simp add: t(1) split_on_append [OF b64_no_dot] split_on_no_sep [OF ns])
  have "count_sub t ''.'' = 1" using length_split_on [of "CHR ''.''" t] sp by simp
  moreover have "Sign key p \<noteq> []" using length_Sign [of key p] by force
  ultimately have "SplitToken t = Inr (b64_encode p, Sign key p)"
    using sp t by (simp add: SplitToken_def)
  then show "DecodeAndVerify key t = Inr p"
    using b64_no_blank Verify_iff [of key p "Sign key p"] by (simp add: DecodeAndVerify_def)
qed

lemma digits_avoid:
  assumes "list_all is_digit s" and "\<not> is_digit c"
  shows "c \<notin> set s"
  using assms by (auto simp: list_all_iff)

lemma not_digits [simp]:
  "\<not> is_digit (CHR '','')" "\<not> is_digit (CHR ''v'')" "\<not> is_digit (CHR ''t'')" "\<not> is_digit (CHR '' '')" "\<not> is_digit (CHR 0x09)"
  "\<not> is_digit (CHR 0x0D)" "\<not> is_digit (CHR 0x0A)" "\<not> is_digit (CHR ''-'')" "\<not> is_digit (CHR ''+'')" "\<not> is_digit (CHR ''.'')"
  "\<not> is_digit (CHR ''e'')" "\<not> is_digit (CHR ''E'')"
  by (simp_all add: is_digit_def ord_def)

definition signature_text :: "int \<Rightarrow> string \<Rightarrow> string" where
  "signature_text ts sig = ''t='' @ format_int ts @ '',v1='' @ sig"

lemma parseComponents_sound:
  assumes "parseComponents h = Inr (ts, sig)"
  shows "h = signature_text ts sig \<and> 0 \<le> ts \<and> ts < 2 ^ 63"
proof -
  from assms obtain a b where sp: "split_on (CHR '','') h = [a, b]" and pre: "has_prefix a ''t=''" "has_prefix b ''v1=''"
    and ts: "parse_int64 (trim_prefix a ''t='') = Some ts" "0 \<le> ts" "format_int ts = trim_prefix a ''t=''"
    and sig: "sig = trim_prefix b ''v1=''"
    by (auto simp: parseComponents_def Let_def split: if_split_asm list.splits option.splits)
  have "a = ''t='' @ format_int ts" "b = ''v1='' @ sig"
    using pre ts(3) sig by (auto simp: has_prefix_iff trim_prefix_def)
  with split_on_two [OF sp] have "h = signature_text ts sig" by (simp add: signature_text_def)
  moreover have "ts < 2 ^ 63" using ts(1) by (auto simp: parse_int64_def Let_def split: if_split_asm)
  ultimately show ?thesis using ts(2) by simp
qed

lemma parseComponents_complete:
  assumes ts: "0 \<le> ts" "ts < 2 ^ 63" and sig: "length sig = 64" "list_all is_lower_hex sig"
  shows "parseComponents (signature_text ts sig) = Inr (ts, sig)"
proof -
  let ?d = "format_int ts" and ?h = "signature_text ts sig"
  have d: "list_all is_digit ?d" using format_int_digits ts(1) .
  have de: "?d = dec_nat (nat ts)" using ts(1) by (simp add: format_int_def)
  note dn = digits_avoid [OF d] and hn = lower_hex_avoids [OF sig(2)]
  have comma: "CHR '','' \<notin> set (''t='' @ ?d)" and comma2: "CHR '','' \<notin> set (''v1='' @ sig)"
    using dn [of "CHR '',''"] hn [of "CHR '',''"] by simp_all
  have "?h = (''t='' @ ?d) @ CHR '','' # (''v1='' @ sig)" by (simp add: signature_text_def)
  then have sp: "split_on (CHR '','') ?h = [''t='' @ ?d, ''v1='' @ sig]"
    using split_on_append [OF comma] split_on_no_sep [OF comma2] by simp
  have "contains_any ?h [CHR '' '', CHR 0x09, CHR 0x0D, CHR 0x0A] = False"
    using dn hn by (auto simp: contains_any_def list_ex_iff signature_text_def)
  moreover have "count_sub ?h ''t='' = 1"
    using count_sub_hit [of "''t=''" "?d @ '',v1='' @ sig"] count_sub_none [of "''t=''" "?d @ '',v1='' @ sig"]
      dn [of "CHR ''t''"] hn [of "CHR ''t''"] by (simp add: signature_text_def)
  moreover have "count_sub ?h ''v1='' = 1"
    using count_sub_skip [of "''v1=''" "''t='' @ ?d @ '',''" "''v1='' @ sig"] count_sub_hit [of "''v1=''" sig]
      count_sub_none [of "''v1=''" sig] dn [of "CHR ''v''"] hn [of "CHR ''v''"] by (simp add: signature_text_def)
  moreover have "has_prefix (''t='' @ ?d) ''t=''" "has_prefix (''v1='' @ sig) ''v1=''"
    "trim_prefix (''t='' @ ?d) ''t='' = ?d" "trim_prefix (''v1='' @ sig) ''v1='' = sig"
    by (simp_all add: trim_prefix_def has_prefix_def)
  moreover have "?d \<noteq> []" "sig \<noteq> []" using sig(1) by (auto simp: de)
  moreover have "\<not> (1 < length ?d \<and> ?d ! 0 = CHR ''0'')"
  proof
    assume a: "1 < length ?d \<and> ?d ! 0 = CHR ''0''"
    then have "hd ?d = CHR ''0''" by (simp add: hd_conv_nth de)
    then have "\<not> 0 < nat ts" using hd_dec_nat [of "nat ts"] de by metis
    with a show False by (simp add: de dec_nat.simps)
  qed
  moreover have "\<not> has_prefix ?d ''-''" "\<not> contains_any ?d ''+.eE''"
    using dn [of "CHR ''-''"] dn [of "CHR ''+''"] dn [of "CHR ''.''"] dn [of "CHR ''e''"] dn [of "CHR ''E''"]
    by (auto simp: has_prefix_iff contains_any_def list_ex_iff)
  moreover have "parse_int64 ?d = Some ts" using parse_format_int ts .
  moreover have "to_lower sig = sig" using lower_hex_lower [OF sig(2)] .
  moreover have "?h \<noteq> []" by (simp add: signature_text_def)
  ultimately show ?thesis using sp ts sig(1) by (simp add: parseComponents_def Let_def)
qed

lemma CanonicalUnix_Inr: "0 \<le> ts \<Longrightarrow> CanonicalUnix ts = Inr (format_int ts)"
  by (simp add: CanonicalUnix_def)

lemma CallbackHeader_Inr:
  "CallbackHeader key ts body = Inr h \<longleftrightarrow> 0 \<le> ts \<and> h = signature_text ts (Sign key (format_int ts @ ''.'' @ body))"
  by (auto simp: CallbackHeader_def CanonicalUnix_def signature_text_def bindR_eq_Inr)

lemma ReconcileHeader_Inr:
  "ReconcileHeader key ts path = Inr h \<longleftrightarrow>
     0 \<le> ts \<and> h = ReconcileScheme @ '' '' @ signature_text ts (Sign key (reconcile_base path (format_int ts)))"
  by (auto simp: ReconcileHeader_def CanonicalUnix_def signature_text_def bindR_eq_Inr)

lemma VerifyCallbackHeader_iff:
  "VerifyCallbackHeader key h body now = Inr () \<longleftrightarrow>
     (\<exists>ts. ts < 2 ^ 63 \<and> CallbackHeader key ts body = Inr h \<and> ValidateReplayWindow ts now = Inr ())"
proof
  assume "VerifyCallbackHeader key h body now = Inr ()"
  then obtain ts sig where p: "parseComponents h = Inr (ts, sig)" and w: "ValidateReplayWindow ts now = Inr ()"
    and v: "bindR (CanonicalUnix ts) (\<lambda>unix. Verify key (unix @ ''.'' @ body) sig) = Inr ()"
    by (auto simp: VerifyCallbackHeader_def bindR_eq_Inr)
  from parseComponents_sound [OF p] have h: "h = signature_text ts sig" "0 \<le> ts" "ts < 2 ^ 63" by auto
  from v h(2) have "sig = Sign key (format_int ts @ ''.'' @ body)" by (simp add: CanonicalUnix_Inr Verify_iff)
  with h w show "\<exists>ts. ts < 2 ^ 63 \<and> CallbackHeader key ts body = Inr h \<and> ValidateReplayWindow ts now = Inr ()"
    by (auto simp: CallbackHeader_Inr)
next
  assume "\<exists>ts. ts < 2 ^ 63 \<and> CallbackHeader key ts body = Inr h \<and> ValidateReplayWindow ts now = Inr ()"
  then obtain ts where h: "0 \<le> ts" "ts < 2 ^ 63" "h = signature_text ts (Sign key (format_int ts @ ''.'' @ body))"
    and w: "ValidateReplayWindow ts now = Inr ()" by (auto simp: CallbackHeader_Inr)
  have "parseComponents h = Inr (ts, Sign key (format_int ts @ ''.'' @ body))"
    unfolding h(3) by (rule parseComponents_complete [OF h(1,2)]) (simp_all add: Sign_lower)
  with w h(1) show "VerifyCallbackHeader key h body now = Inr ()"
    by (simp add: VerifyCallbackHeader_def CanonicalUnix_Inr Verify_iff)
qed

lemma ascii_end_not_space:
  assumes "is_lower_hex (last s)" and "s \<noteq> []" and "ord (hd s) = 116"
  shows "\<not> trims s"
proof -
  have "\<not> starts_space s" using assms(2,3) by (cases s) (simp_all add: starts_space_def decode_rune.simps is_space_def)
  moreover have "\<not> ends_space s"
    using assms(1,2) by (intro ends_ascii) (auto simp: is_lower_hex_def is_space_def)
  ultimately show ?thesis by (simp add: trims_def)
qed

lemma VerifyReconcileHeader_iff:
  "VerifyReconcileHeader key h path now = Inr () \<longleftrightarrow>
     (\<exists>ts. ts < 2 ^ 63 \<and> ReconcileHeader key ts path = Inr h \<and> ValidateReplayWindow ts now = Inr ())"
proof
  assume "VerifyReconcileHeader key h path now = Inr ()"
  then obtain rest ts sig where c: "cut_at (CHR '' '') h = Some (ReconcileScheme, rest)"
    and p: "parseComponents rest = Inr (ts, sig)" and w: "ValidateReplayWindow ts now = Inr ()"
    and v: "bindR (CanonicalUnix ts) (\<lambda>unix. Verify key (reconcile_base path unix) sig) = Inr ()"
    by (auto simp: VerifyReconcileHeader_def bindR_eq_Inr split: option.splits if_split_asm)
  from parseComponents_sound [OF p] have r: "rest = signature_text ts sig" "0 \<le> ts" "ts < 2 ^ 63" by auto
  from v r(2) have "sig = Sign key (reconcile_base path (format_int ts))" by (simp add: CanonicalUnix_Inr Verify_iff)
  with r w cut_at_Some [OF c]
  show "\<exists>ts. ts < 2 ^ 63 \<and> ReconcileHeader key ts path = Inr h \<and> ValidateReplayWindow ts now = Inr ()"
    by (auto simp: ReconcileHeader_Inr)
next
  assume "\<exists>ts. ts < 2 ^ 63 \<and> ReconcileHeader key ts path = Inr h \<and> ValidateReplayWindow ts now = Inr ()"
  then obtain ts where ts: "0 \<le> ts" "ts < 2 ^ 63"
    and h: "h = ReconcileScheme @ '' '' @ signature_text ts (Sign key (reconcile_base path (format_int ts)))"
    and w: "ValidateReplayWindow ts now = Inr ()" by (auto simp: ReconcileHeader_Inr)
  let ?sig = "Sign key (reconcile_base path (format_int ts))"
  let ?rest = "signature_text ts ?sig"
  have c: "cut_at (CHR '' '') h = Some (ReconcileScheme, ?rest)"
    using cut_at_append [of "CHR '' ''" ReconcileScheme ?rest] by (simp add: h)
  have ne: "?sig \<noteq> []" using length_Sign [of key "reconcile_base path (format_int ts)"] by force
  have "is_lower_hex (last ?rest)"
    using Sign_lower [of key "reconcile_base path (format_int ts)"] ne by (simp add: signature_text_def list_all_iff)
  then have tr: "\<not> trims ?rest" by (rule ascii_end_not_space) (simp_all add: signature_text_def ord_def)
  have "\<not> contains_any ?rest [CHR '' '', CHR 0x09]"
    using digits_avoid [OF format_int_digits [OF ts(1)]] lower_hex_avoids [OF Sign_lower]
    by (auto simp: contains_any_def list_ex_iff signature_text_def)
  moreover have "parseComponents ?rest = Inr (ts, ?sig)"
    by (rule parseComponents_complete [OF ts]) (simp_all add: Sign_lower)
  moreover have "?rest \<noteq> []" by (simp add: signature_text_def)
  ultimately show "VerifyReconcileHeader key h path now = Inr ()"
    using c w tr ts(1) Verify_iff [of key "reconcile_base path (format_int ts)" ?sig]
    by (simp add: VerifyReconcileHeader_def CanonicalUnix_Inr)
qed

section \<open>Properties\<close>

text \<open>
  Tokens are canonical: a token is accepted with a payload exactly when it is the one the key's
  holder encodes for that payload; no other spelling of the same payload or signature is accepted.
\<close>

theorem token_canonical:
  "DecodeAndVerify key token = Inr payload \<longleftrightarrow> EncodeToken key payload = Inr token"
  by (rule DecodeAndVerify_iff)

text \<open>
  C24. Callback signatures: the header of a callback is accepted exactly when it is, character for
  character, the header signed with the key for the received body and some time within five minutes
  of the receiver's clock.
\<close>

theorem callback_header_exact:
  assumes "0 \<le> unix_of now" and "unix_of now < 2 ^ 62"
  shows "VerifyCallbackHeader key header body now = Inr () \<longleftrightarrow>
    (\<exists>ts. \<bar>unix_of now - ts\<bar> \<le> 300 \<and> CallbackHeader key ts body = Inr header)"
proof -
  have "ts < 2 ^ 63 \<and> CallbackHeader key ts body = Inr header \<and> ValidateReplayWindow ts now = Inr ()
      \<longleftrightarrow> \<bar>unix_of now - ts\<bar> \<le> 300 \<and> CallbackHeader key ts body = Inr header" for ts
    using assms ValidateReplayWindow_iff [of now ts] by (cases "ts < 2 ^ 63") (auto simp: CallbackHeader_Inr)
  then show ?thesis by (simp only: VerifyCallbackHeader_iff)
qed

theorem callback_header_exact_witness:
  "\<exists>h. CallbackHeader [] 1767225600 ''{}'' = Inr h
     \<and> VerifyCallbackHeader [] h ''{}'' 1767225700000000000 = Inr ()"
proof -
  have u: "unix_of 1767225700000000000 = 1767225700" by code_simp
  obtain h where h: "CallbackHeader [] 1767225600 ''{}'' = Inr h" by (simp add: CallbackHeader_def CanonicalUnix_def)
  have "\<bar>unix_of 1767225700000000000 - 1767225600\<bar> \<le> 300" by (simp add: u)
  with h have "VerifyCallbackHeader [] h ''{}'' 1767225700000000000 = Inr ()"
    using callback_header_exact [of "1767225700000000000" "[]" h "''{}''"] u by auto
  with h show ?thesis by blast
qed

text \<open>
  C25. Reconciliation requests: an \<open>Authorization\<close> value is accepted for a path exactly when it is the
  one signed with the key for that path and some time within five minutes of the clock.
\<close>

theorem reconcile_header_exact:
  assumes "0 \<le> unix_of now" and "unix_of now < 2 ^ 62"
  shows "VerifyReconcileHeader key authorization path now = Inr () \<longleftrightarrow>
    (\<exists>ts. \<bar>unix_of now - ts\<bar> \<le> 300 \<and> ReconcileHeader key ts path = Inr authorization)"
proof -
  have "ts < 2 ^ 63 \<and> ReconcileHeader key ts path = Inr authorization \<and> ValidateReplayWindow ts now = Inr ()
      \<longleftrightarrow> \<bar>unix_of now - ts\<bar> \<le> 300 \<and> ReconcileHeader key ts path = Inr authorization" for ts
    using assms ValidateReplayWindow_iff [of now ts] by (cases "ts < 2 ^ 63") (auto simp: ReconcileHeader_Inr)
  then show ?thesis by (simp only: VerifyReconcileHeader_iff)
qed

theorem reconcile_header_exact_witness:
  "\<exists>h. ReconcileHeader [] 1767225600 ''/v1'' = Inr h
     \<and> VerifyReconcileHeader [] h ''/v1'' 1767225700000000000 = Inr ()"
proof -
  have u: "unix_of 1767225700000000000 = 1767225700" by code_simp
  obtain h where h: "ReconcileHeader [] 1767225600 ''/v1'' = Inr h" by (simp add: ReconcileHeader_def CanonicalUnix_def)
  have "\<bar>unix_of 1767225700000000000 - 1767225600\<bar> \<le> 300" by (simp add: u)
  with h have "VerifyReconcileHeader [] h ''/v1'' 1767225700000000000 = Inr ()"
    using reconcile_header_exact [of "1767225700000000000" "[]" h "''/v1''"] u by auto
  with h show ?thesis by blast
qed

lemma derive_key_length: "derive_key r i = Inr k \<Longrightarrow> length k = 32"
  by (simp add: derive_key_def length_hkdf_key split: option.splits if_split_asm)

text \<open>
  Pairing roots: keys are derived from exactly the configured roots of 64 lowercase hexadecimal
  digits, and all three derived keys have 32 bytes.
\<close>

theorem pairing_root:
  "((\<exists>k. DeriveKeys root = Inr k) \<longleftrightarrow> length root = 64 \<and> list_all is_lower_hex root)
   \<and> (DeriveKeys root = Inr k \<longrightarrow> length (k_Token k) = 32 \<and> length (k_Callback k) = 32 \<and> length (k_Reconcile k) = 32)"
proof (rule conjI, rule iffI)
  assume "\<exists>k. DeriveKeys root = Inr k"
  then obtain r where "ParsePairingRoot root = Inr r" by (auto simp: DeriveKeys_def bindR_eq_Inr)
  then show "length root = 64 \<and> list_all is_lower_hex root" by (simp add: ParsePairingRoot_iff)
next
  assume r: "length root = 64 \<and> list_all is_lower_hex root"
  then obtain d where d: "hex_decode root = Some d" using hex_decode_lower [of root] by auto
  with r hex_encode_decode have "ParsePairingRoot root = Inr d" by (simp add: ParsePairingRoot_iff)
  then show "\<exists>k. DeriveKeys root = Inr k" by (rule DeriveKeys_ok)
next
  show "DeriveKeys root = Inr k \<longrightarrow> length (k_Token k) = 32 \<and> length (k_Callback k) = 32 \<and> length (k_Reconcile k) = 32"
    by (auto simp: DeriveKeys_def bindR_eq_Inr dest!: derive_key_length)
qed

theorem pairing_root_witness:
  "\<exists>k. DeriveKeys (replicate 64 (CHR ''a'')) = Inr k \<and> length (k_Callback k) = 32"
proof -
  have "length (replicate 64 (CHR ''a'')) = 64 \<and> list_all is_lower_hex (replicate 64 (CHR ''a''))"
    by (simp add: list_all_iff is_lower_hex_def ord_def)
  with pairing_root [of "replicate 64 (CHR ''a'')"] show ?thesis by blast
qed

end
