(* ===== verification/Json.thy ===== *)
theory Json
  imports ProtoTypes
begin

text \<open>
  Reading JSON: the values \<open>encoding/json\<close> accepts (RFC 8259, with its treatment of invalid UTF-8 and of
  lone surrogates), the strict decoder of \<^verbatim>\<open>internal/protocol/json.go\<close>, and the parsers of callbacks and
  snapshots of \<^verbatim>\<open>types.go\<close>, which invert their encoders.
\<close>

section \<open>Values\<close>

text \<open>A number keeps its text, as \<open>UseNumber\<close> has it.\<close>

datatype json = JNull | JBool bool | JNum string | JStr string | JArr "json list" | JObj "(string \<times> json) list"

abbreviation QUOTE :: char where "QUOTE \<equiv> CHR 0x22"
abbreviation BSLASH :: char where "BSLASH \<equiv> CHR 0x5C"

definition json_space :: "char \<Rightarrow> bool" where
  "json_space c \<longleftrightarrow> c = CHR 0x20 \<or> c = CHR 0x09 \<or> c = CHR 0x0A \<or> c = CHR 0x0D"

definition json_ws :: "string \<Rightarrow> string" where
  "json_ws s = dropWhile json_space s"

lemma json_ws_le: "length (json_ws s) \<le> length s"
  by (simp add: json_ws_def length_dropWhile_le)

text \<open>Four hexadecimal digits.\<close>

fun hex4 :: "string \<Rightarrow> (nat \<times> string) option" where
  "hex4 (a # b # c # d # s) =
     (case (hex_val a, hex_val b, hex_val c, hex_val d) of
        (Some x, Some y, Some z, Some w) \<Rightarrow> Some (4096 * x + 256 * y + 16 * z + w, s)
      | _ \<Rightarrow> None)"
| "hex4 _ = None"

lemma hex4_length: "hex4 s = Some (n, r) \<Longrightarrow> length r < length s"
  by (cases s rule: hex4.cases) (auto split: option.splits prod.splits)

text \<open>\<open>utf8.EncodeRune\<close>: a surrogate or a number beyond Unicode becomes the replacement character.\<close>

definition encode_rune :: "nat \<Rightarrow> string" where
  "encode_rune r =
     (let r = (if 55296 \<le> r \<and> r \<le> 57343 \<or> 1114111 < r then 65533 else r)
      in if r < 128 then [char_of r]
         else if r < 2048 then [char_of (192 + r div 64), char_of (128 + r mod 64)]
         else if r < 65536 then [char_of (224 + r div 4096), char_of (128 + r div 64 mod 64), char_of (128 + r mod 64)]
         else [char_of (240 + r div 262144), char_of (128 + r div 4096 mod 64), char_of (128 + r div 64 mod 64),
               char_of (128 + r mod 64)])"

definition simple_escape :: "char \<Rightarrow> char option" where
  "simple_escape c =
     (if c = QUOTE \<or> c = BSLASH \<or> c = CHR ''/'' then Some c
      else if c = CHR ''b'' then Some (CHR 0x08) else if c = CHR ''f'' then Some (CHR 0x0C)
      else if c = CHR ''n'' then Some (CHR 0x0A) else if c = CHR ''r'' then Some (CHR 0x0D)
      else if c = CHR ''t'' then Some (CHR 0x09) else None)"

text \<open>The second half of a surrogate pair, when an escape of it follows.\<close>

definition low_surrogate :: "nat \<Rightarrow> string \<Rightarrow> (nat \<times> string) option" where
  "low_surrogate u s =
     (case s of a # b # r \<Rightarrow>
        if a = BSLASH \<and> b = CHR ''u'' \<and> u < 56320
        then (case hex4 r of Some (v, t) \<Rightarrow>
                if 56320 \<le> v \<and> v \<le> 57343 then Some (65536 + (u - 55296) * 1024 + (v - 56320), t) else None
              | None \<Rightarrow> None)
        else None
      | _ \<Rightarrow> None)"

lemma low_surrogate_length: "low_surrogate u s = Some (n, r) \<Longrightarrow> length r < length s"
  by (auto simp: low_surrogate_def split: list.splits if_splits option.splits dest!: hex4_length)

text \<open>The rest of a string literal after its opening quote: what it denotes, and what follows the closing quote.\<close>

definition cons_str :: "string \<Rightarrow> (string \<times> string) option \<Rightarrow> (string \<times> string) option" where
  "cons_str a = map_option (\<lambda>(s, r). (a @ s, r))"

function json_str :: "string \<Rightarrow> (string \<times> string) option" where
  "json_str [] = None"
| "json_str (c # s) =
     (if c = QUOTE then Some ([], s)
      else if ord c < 32 then None
      else if c = BSLASH then
        (case s of
           [] \<Rightarrow> None
         | e # r \<Rightarrow>
             if e = CHR ''u'' then
               (case hex4 r of
                  None \<Rightarrow> None
                | Some (u, r') \<Rightarrow>
                    if 55296 \<le> u \<and> u \<le> 57343 then
                      (case low_surrogate u r' of
                         Some (v, r'') \<Rightarrow> cons_str (encode_rune v) (json_str r'')
                       | None \<Rightarrow> cons_str (encode_rune 65533) (json_str r'))
                    else cons_str (encode_rune u) (json_str r'))
             else case simple_escape e of None \<Rightarrow> None | Some b \<Rightarrow> cons_str [b] (json_str r))
      else if ord c < 128 then cons_str [c] (json_str s)
      else case decode_rune (map ord (c # s)) of
             None \<Rightarrow> cons_str (encode_rune 65533) (json_str s)
           | Some (_, k) \<Rightarrow> cons_str (take k (c # s)) (json_str (drop k (c # s))))"
  by pat_completeness auto
termination
  by (relation "measure length") (auto dest!: hex4_length low_surrogate_length decode_rune_width)

declare json_str.simps [simp del]

lemma json_str_length: "json_str s = Some (v, r) \<Longrightarrow> length r < length s"
proof (induction "length s" arbitrary: s v rule: less_induct)
  case less
  have IH: "json_str t = Some (u, r) \<Longrightarrow> length t < length s \<Longrightarrow> length r < length s" for t u
    using less.hyps [of t u] by simp
  obtain c q where s: "s = c # q" using less.prems by (cases s) (simp_all add: json_str.simps)
  show ?case
    using less.prems IH unfolding s json_str.simps(2) cons_str_def
    by (auto split: if_split_asm list.splits option.splits
        dest!: hex4_length low_surrogate_length decode_rune_width)
qed

section \<open>Numbers\<close>

text \<open>The longest number literal at the front of the input.\<close>

definition digits_of :: "string \<Rightarrow> string \<times> string" where
  "digits_of s = (takeWhile is_digit s, dropWhile is_digit s)"

definition num_int :: "string \<Rightarrow> (string \<times> string) option" where
  "num_int s = (case s of [] \<Rightarrow> None
     | c # r \<Rightarrow> if c = CHR ''0'' then Some ([c], r) else if is_digit c then Some (digits_of s) else None)"

definition num_frac :: "string \<Rightarrow> (string \<times> string) option" where
  "num_frac s = (case s of
     CHR ''.'' # r \<Rightarrow> (case digits_of r of (d, t) \<Rightarrow> if d = [] then None else Some (CHR ''.'' # d, t))
   | _ \<Rightarrow> Some ([], s))"

definition num_exp :: "string \<Rightarrow> (string \<times> string) option" where
  "num_exp s = (case s of [] \<Rightarrow> Some ([], s)
     | e # r \<Rightarrow>
         if e = CHR ''e'' \<or> e = CHR ''E'' then
           (let (sg, q) = (case r of [] \<Rightarrow> ([], r) | g # q \<Rightarrow> if g = CHR ''+'' \<or> g = CHR ''-'' then ([g], q) else ([], r))
            in case digits_of q of (d, t) \<Rightarrow> if d = [] then None else Some (e # sg @ d, t))
         else Some ([], s))"

definition json_num :: "string \<Rightarrow> (string \<times> string) option" where
  "json_num s =
     (let (sg, r) = (case s of [] \<Rightarrow> ([], s) | c # q \<Rightarrow> if c = CHR ''-'' then ([c], q) else ([], s))
      in case num_int r of None \<Rightarrow> None | Some (i, r) \<Rightarrow>
         (case num_frac r of None \<Rightarrow> None | Some (f, r) \<Rightarrow>
         (case num_exp r of None \<Rightarrow> None | Some (e, r) \<Rightarrow> Some (sg @ i @ f @ e, r))))"

lemma digits_of_length: "digits_of s = (d, r) \<Longrightarrow> length r + length d = length s"
  using length_append [of "takeWhile is_digit s" "dropWhile is_digit s"] by (auto simp: digits_of_def simp del: length_append)

lemma num_int_length: "num_int s = Some (d, r) \<Longrightarrow> length r < length s"
  by (cases s) (auto simp: num_int_def digits_of_def length_dropWhile_le split: if_split_asm
      intro: le_less_trans [OF length_dropWhile_le])

lemma num_frac_length: "num_frac s = Some (d, r) \<Longrightarrow> length r \<le> length s"
  by (auto simp: num_frac_def split: list.splits if_splits prod.splits char.splits bool.splits dest!: digits_of_length)

lemma num_exp_length: "num_exp s = Some (d, r) \<Longrightarrow> length r \<le> length s"
  by (auto simp: num_exp_def Let_def split: list.splits if_splits prod.splits dest!: digits_of_length)

lemma json_num_length: "json_num s = Some (d, r) \<Longrightarrow> length r < length s"
  by (auto simp: json_num_def Let_def split: list.splits if_splits option.splits prod.splits
      dest!: num_int_length num_frac_length num_exp_length)

section \<open>The grammar\<close>

text \<open>
  One value at the front of the input and what follows it.  The comparison of lengths only makes the
  recursion visibly terminate: a value always consumes input (\<open>json_value_length\<close>).
\<close>

definition json_literal :: "string \<Rightarrow> (json \<times> string) option" where
  "json_literal s =
     (if has_prefix s ''true'' then Some (JBool True, drop 4 s)
      else if has_prefix s ''false'' then Some (JBool False, drop 5 s)
      else if has_prefix s ''null'' then Some (JNull, drop 4 s)
      else map_option (\<lambda>(n, r). (JNum n, r)) (json_num s))"

text \<open>A member's name and its colon.\<close>

definition json_name :: "string \<Rightarrow> (string \<times> string) option" where
  "json_name s =
     (case json_ws s of [] \<Rightarrow> None
      | c # r \<Rightarrow>
          if c \<noteq> QUOTE then None
          else case json_str r of None \<Rightarrow> None
               | Some (k, r) \<Rightarrow>
                   (case json_ws r of [] \<Rightarrow> None | d # t \<Rightarrow> if d = CHR '':'' then Some (k, t) else None))"

text \<open>What separates the elements: the closing bracket, or a comma.\<close>

definition next_elem :: "char \<Rightarrow> string \<Rightarrow> (bool \<times> string) option" where
  "next_elem close s =
     (case json_ws s of [] \<Rightarrow> None
      | c # r \<Rightarrow> if c = close then Some (False, r) else if c = CHR '','' then Some (True, r) else None)"

lemma json_ws_Cons_length: "json_ws s = c # r \<Longrightarrow> length r < length s"
  using json_ws_le [of s] by simp

lemma json_name_length: "json_name s = Some (k, r) \<Longrightarrow> length r < length s"
  by (auto simp: json_name_def split: list.splits if_split_asm option.splits
      dest!: json_ws_Cons_length json_str_length)

lemma next_elem_length: "next_elem c s = Some (b, r) \<Longrightarrow> length r < length s"
  by (auto simp: next_elem_def split: list.splits if_split_asm dest!: json_ws_Cons_length)

lemma json_literal_length: "json_literal s = Some (v, r) \<Longrightarrow> length r < length s"
  by (auto simp: json_literal_def has_prefix_iff split: if_split_asm dest!: json_num_length)

function json_value :: "string \<Rightarrow> (json \<times> string) option"
  and json_elems :: "string \<Rightarrow> (json list \<times> string) option"
  and json_mems :: "string \<Rightarrow> ((string \<times> json) list \<times> string) option" where
  "json_value s =
     (case json_ws s of [] \<Rightarrow> None
      | c # r \<Rightarrow>
          if c = QUOTE then map_option (\<lambda>(v, r). (JStr v, r)) (json_str r)
          else if c = CHR ''{'' then
            (case next_elem (CHR ''}'') r of
               Some (False, t) \<Rightarrow> Some (JObj [], t)
             | _ \<Rightarrow> map_option (\<lambda>(ms, r). (JObj ms, r)) (json_mems r))
          else if c = CHR ''['' then
            (case next_elem (CHR '']'') r of
               Some (False, t) \<Rightarrow> Some (JArr [], t)
             | _ \<Rightarrow> map_option (\<lambda>(vs, r). (JArr vs, r)) (json_elems r))
          else json_literal (c # r))"
| "json_elems s =
     (case json_value s of None \<Rightarrow> None
      | Some (v, r) \<Rightarrow>
          (case next_elem (CHR '']'') r of
             None \<Rightarrow> None
           | Some (False, t) \<Rightarrow> Some ([v], t)
           | Some (True, t) \<Rightarrow>
               if length t < length s then map_option (\<lambda>(vs, r). (v # vs, r)) (json_elems t) else None))"
| "json_mems s =
     (case json_name s of None \<Rightarrow> None
      | Some (k, r) \<Rightarrow>
          (case json_value r of None \<Rightarrow> None
           | Some (v, r) \<Rightarrow>
               (case next_elem (CHR ''}'') r of
                  None \<Rightarrow> None
                | Some (False, t) \<Rightarrow> Some ([(k, v)], t)
                | Some (True, t) \<Rightarrow>
                    if length t < length s then map_option (\<lambda>(ms, r). ((k, v) # ms, r)) (json_mems t) else None)))"
  by pat_completeness auto
termination
  by (relation "measure (\<lambda>x. case x of Inl s \<Rightarrow> 2 * length s
        | Inr (Inl s) \<Rightarrow> 2 * length s + 1 | Inr (Inr s) \<Rightarrow> 2 * length s + 1)")
    (auto dest!: json_ws_Cons_length json_name_length)

declare json_value.simps [simp del] json_elems.simps [simp del] json_mems.simps [simp del]

lemma json_value_lengths:
  "json_value s = Some (v, r) \<Longrightarrow> length r < length s"
  "json_elems s = Some (vs, r) \<Longrightarrow> length r < length s"
  "json_mems s = Some (ms, r) \<Longrightarrow> length r < length s"
proof (induction "length s" arbitrary: s v vs ms r rule: less_induct)
  case less
  note IH = less.hyps
  have V: "length r < length s" if v: "json_value s = Some (v, r)" for v r
  proof -
    obtain c q where w: "json_ws s = c # q" using v by (cases "json_ws s") (simp_all add: json_value.simps)
    then have q: "length q < length s" using json_ws_Cons_length by simp
    have c: "length (c # q) \<le> length s" using json_ws_le [of s] w by simp
    show ?thesis
      using v q c IH(2,3) [OF q] unfolding json_value.simps [of s] w
      by (auto split: if_split_asm option.splits bool.splits
          dest!: json_str_length next_elem_length json_literal_length)
  qed
  {
    case 1
    then show ?case by (rule V)
  next
    case 2
    then show ?case
      unfolding json_elems.simps [of s]
      by (auto split: if_split_asm option.splits bool.splits prod.splits dest!: V next_elem_length)
        (metis IH(2) less_trans)
  next
    case 3
    then show ?case
      unfolding json_mems.simps [of s]
      by (auto split: if_split_asm option.splits bool.splits prod.splits dest!: json_name_length next_elem_length)
        (metis IH(1,3) less_trans)+
  }
qed

lemmas json_value_length = json_value_lengths(1)

section \<open>The strict decoder\<close>

text \<open>
  The first pass of \<open>UnmarshalStrict\<close>: the members of the top-level object, in order, each checked
  against the names seen and the names allowed before its value is read.
\<close>

function strict_members ::
  "string list \<Rightarrow> string list \<Rightarrow> string \<Rightarrow> gerr + (string \<times> json) list \<times> string" where
  "strict_members allowed seen s =
     (case json_ws s of [] \<Rightarrow> Inl ErrInvalidJSON
      | c # r \<Rightarrow>
          if c \<noteq> QUOTE then Inl ErrInvalidJSON
          else case json_str r of None \<Rightarrow> Inl ErrInvalidJSON
               | Some (k, r) \<Rightarrow>
                   if k \<in> set seen then Inl ErrDuplicateField
                   else if k \<notin> set allowed then Inl ErrUnknownField
                   else case json_ws r of [] \<Rightarrow> Inl ErrInvalidJSON
                        | d # t \<Rightarrow>
                            if d \<noteq> CHR '':'' then Inl ErrInvalidJSON
                            else case json_value t of None \<Rightarrow> Inl ErrInvalidJSON
                                 | Some (v, r) \<Rightarrow>
                                     (case next_elem (CHR ''}'') r of None \<Rightarrow> Inl ErrInvalidJSON
                                      | Some (again, t) \<Rightarrow>
                                          if \<not> again then Inr ([(k, v)], t)
                                          else bindR (strict_members allowed (k # seen) t)
                                                 (\<lambda>(ms, r). Inr ((k, v) # ms, r))))"
  by pat_completeness auto
termination
  by (relation "measure (\<lambda>(a, n, s). length s)")
    (auto dest!: json_ws_Cons_length json_str_length json_value_length next_elem_length)

declare strict_members.simps [simp del]

definition strict_object :: "string list \<Rightarrow> string \<Rightarrow> gerr + (string \<times> json) list \<times> string" where
  "strict_object allowed s =
     (case s of [] \<Rightarrow> Inl ErrInvalidJSON
      | c # r \<Rightarrow>
          if c \<noteq> CHR ''{'' then Inl ErrInvalidJSON
          else case json_ws r of [] \<Rightarrow> Inl ErrInvalidJSON
               | d # t \<Rightarrow> if d = CHR ''}'' then Inr ([], t) else strict_members allowed [] r)"

text \<open>
  \<open>dec.More()\<close> answers no on a closing bracket, which the decoder then finds to be no value.  The
  result is the members; decoding them into the fields of a struct comes next and fails with
  \<open>ErrInvalidJSON\<close> on a value of the wrong type.
\<close>

definition UnmarshalStrict :: "bytes \<Rightarrow> string list \<Rightarrow> gerr + (string \<times> json) list" where
  "UnmarshalStrict raw allowed =
     bindR (strict_object allowed (TrimSpace raw)) (\<lambda>(ms, t).
     bindR (case json_ws t of [] \<Rightarrow> Inr ()
            | c # _ \<Rightarrow> Inl (if c = CHR ''}'' \<or> c = CHR '']'' then ErrInvalidJSON else ErrTrailingJSON)) (\<lambda>_.
     bindR (guardR (list_all (\<lambda>n. n \<in> fst ` set ms) allowed) ErrMissingField) (\<lambda>_.
     bindR (RejectIdentityFields (fst ` set ms)) (\<lambda>_.
     Inr ms))))"

abbreviation MaxJSONBytes :: nat where "MaxJSONBytes \<equiv> 1048576"

definition DecodeStrict :: "bytes \<Rightarrow> string list \<Rightarrow> gerr + (string \<times> json) list" where
  "DecodeStrict body allowed =
     (if MaxJSONBytes < length body then Inl ErrBodyTooLarge else UnmarshalStrict body allowed)"

text \<open>
  Decoding a member into a field: a string, a boolean, a 64-bit integer, a \<open>json.Number\<close>, and the
  pointers to a string and to a number.  A null leaves the field at its zero value, and a
  \<open>json.Number\<close> also takes a string that spells a number.
\<close>

definition member :: "(string \<times> json) list \<Rightarrow> string \<Rightarrow> json" where
  "member ms k = (case map_of ms k of None \<Rightarrow> JNull | Some v \<Rightarrow> v)"

definition to_str :: "json \<Rightarrow> gerr + string" where
  "to_str v = (case v of JStr s \<Rightarrow> Inr s | JNull \<Rightarrow> Inr [] | _ \<Rightarrow> Inl ErrInvalidJSON)"

definition to_bool :: "json \<Rightarrow> gerr + bool" where
  "to_bool v = (case v of JBool b \<Rightarrow> Inr b | JNull \<Rightarrow> Inr False | _ \<Rightarrow> Inl ErrInvalidJSON)"

definition to_int :: "json \<Rightarrow> gerr + int" where
  "to_int v = (case v of
     JNum n \<Rightarrow> (case parse_int64 n of None \<Rightarrow> Inl ErrInvalidJSON | Some i \<Rightarrow> Inr i)
   | JNull \<Rightarrow> Inr 0 | _ \<Rightarrow> Inl ErrInvalidJSON)"

definition to_str_ptr :: "json \<Rightarrow> gerr + string option" where
  "to_str_ptr v = (case v of JStr s \<Rightarrow> Inr (Some s) | JNull \<Rightarrow> Inr None | _ \<Rightarrow> Inl ErrInvalidJSON)"

definition to_num_ptr :: "json \<Rightarrow> gerr + string option" where
  "to_num_ptr v = (case v of
     JNum n \<Rightarrow> Inr (Some n)
   | JStr s \<Rightarrow> if (case json_num s of Some (_, []) \<Rightarrow> True | _ \<Rightarrow> False) then Inr (Some s) else Inl ErrInvalidJSON
   | JNull \<Rightarrow> Inr None | _ \<Rightarrow> Inl ErrInvalidJSON)"

section \<open>Callbacks and snapshots\<close>

definition snapshotFields :: "string list" where
  "snapshotFields =
     [''protocol'', ''version'', ''checkout_id'', ''subscription_ref'', ''plan_id'', ''state_version'', ''status'',
      ''current_period_start'', ''current_period_end'', ''cancel_at_period_end'', ''state_changed_at'']"

definition callbackFields :: "string list" where
  "callbackFields =
     [''protocol'', ''version'', ''event_id'', ''event_type'', ''checkout_id'', ''subscription_ref'', ''plan_id'',
      ''state_version'', ''status'', ''current_period_start'', ''current_period_end'', ''cancel_at_period_end'',
      ''state_changed_at'']"

definition ParseCallback :: "bytes \<Rightarrow> gerr + callback" where
  "ParseCallback raw =
     bindR (UnmarshalStrict raw callbackFields) (\<lambda>ms.
     bindR (to_str (member ms ''protocol'')) (\<lambda>protocol.
     bindR (to_int (member ms ''version'')) (\<lambda>version.
     bindR (to_str (member ms ''event_id'')) (\<lambda>eventID.
     bindR (to_str (member ms ''event_type'')) (\<lambda>eventType.
     bindR (to_str (member ms ''checkout_id'')) (\<lambda>checkoutID.
     bindR (to_str (member ms ''subscription_ref'')) (\<lambda>ref.
     bindR (to_str (member ms ''plan_id'')) (\<lambda>planID.
     bindR (to_int (member ms ''state_version'')) (\<lambda>stateVersion.
     bindR (to_str (member ms ''status'')) (\<lambda>status.
     bindR (to_str (member ms ''current_period_start'')) (\<lambda>start.
     bindR (to_str (member ms ''current_period_end'')) (\<lambda>fin.
     bindR (to_bool (member ms ''cancel_at_period_end'')) (\<lambda>cancel.
     bindR (to_str (member ms ''state_changed_at'')) (\<lambda>changed.
     let cb = \<lparr>cb_Protocol = protocol, cb_Version = version, cb_EventID = eventID, cb_EventType = eventType,
           cb_CheckoutID = checkoutID, cb_SubscriptionRef = ref, cb_PlanID = planID, cb_StateVersion = stateVersion,
           cb_Status = status, cb_CurrentPeriodStart = start, cb_CurrentPeriodEnd = fin,
           cb_CancelAtPeriodEnd = cancel, cb_StateChangedAt = changed\<rparr>
     in bindR (ValidateCallback cb) (\<lambda>_. Inr cb)))))))))))))))"

definition ParseSnapshot :: "bytes \<Rightarrow> gerr + snapshot" where
  "ParseSnapshot raw =
     bindR (UnmarshalStrict raw snapshotFields) (\<lambda>ms.
     bindR (to_str (member ms ''protocol'')) (\<lambda>protocol.
     bindR (to_int (member ms ''version'')) (\<lambda>version.
     bindR (to_str (member ms ''checkout_id'')) (\<lambda>checkoutID.
     bindR (to_str (member ms ''subscription_ref'')) (\<lambda>ref.
     bindR (to_str (member ms ''plan_id'')) (\<lambda>planID.
     bindR (to_int (member ms ''state_version'')) (\<lambda>stateVersion.
     bindR (to_str (member ms ''status'')) (\<lambda>status.
     bindR (to_str (member ms ''current_period_start'')) (\<lambda>start.
     bindR (to_str (member ms ''current_period_end'')) (\<lambda>fin.
     bindR (to_bool (member ms ''cancel_at_period_end'')) (\<lambda>cancel.
     bindR (to_str (member ms ''state_changed_at'')) (\<lambda>changed.
     let sn = \<lparr>sn_Protocol = protocol, sn_Version = version, sn_CheckoutID = checkoutID, sn_SubscriptionRef = ref,
           sn_PlanID = planID, sn_StateVersion = stateVersion, sn_Status = status, sn_CurrentPeriodStart = start,
           sn_CurrentPeriodEnd = fin, sn_CancelAtPeriodEnd = cancel, sn_StateChangedAt = changed\<rparr>
     in bindR (ValidateSnapshot sn) (\<lambda>_. Inr sn)))))))))))))"

section \<open>Reading back what was written\<close>

subsection \<open>Strings\<close>

lemma hex4_u00: "b < 128 \<Longrightarrow> hex4 (''00'' @ hex_digit (b div 16) # hex_digit (b mod 16) # s) = Some (b, s)"
proof -
  assume b: "b < 128"
  have z: "hex_val (CHR ''0'') = Some 0" by (simp add: hex_val_def ord_def)
  have "b div 16 < 16" "b mod 16 < 16" using b by simp_all
  then show ?thesis by (simp add: z)
qed

lemma json_str_plain: "32 \<le> ord c \<Longrightarrow> ord c < 128 \<Longrightarrow> c \<noteq> QUOTE \<Longrightarrow> c \<noteq> BSLASH \<Longrightarrow> json_str (c # s) = cons_str [c] (json_str s)"
  by (subst json_str.simps) simp

lemma json_str_simple:
  "simple_escape e = Some b \<Longrightarrow> e \<noteq> CHR ''u'' \<Longrightarrow> json_str (BSLASH # e # s) = cons_str [b] (json_str s)"
  by (subst json_str.simps) (simp add: ord_def)

lemma json_str_u:
  "hex4 r = Some (u, s) \<Longrightarrow> u < 55296 \<or> 57343 < u \<Longrightarrow> json_str (BSLASH # CHR ''u'' # r) = cons_str (encode_rune u) (json_str s)"
  by (subst json_str.simps) (auto simp: ord_def)

lemma char_of_neq: "b < 256 \<Longrightarrow> b \<noteq> ord c \<Longrightarrow> char_of b \<noteq> c"
  by (metis ord_char_of mod_less)

lemma char_codes: "char_of (92::nat) = BSLASH" "char_of (34::nat) = QUOTE" "char_of (8::nat) = CHR 0x08"
  "char_of (12::nat) = CHR 0x0C" "char_of (10::nat) = CHR 0x0A" "char_of (13::nat) = CHR 0x0D"
  "char_of (9::nat) = CHR 0x09"
  using char_of_ord [of BSLASH] char_of_ord [of QUOTE] char_of_ord [of "CHR 0x08"] char_of_ord [of "CHR 0x0C"]
    char_of_ord [of "CHR 0x0A"] char_of_ord [of "CHR 0x0D"] char_of_ord [of "CHR 0x09"]
  by (simp_all add: ord_def)

lemma json_str_escape_ascii:
  assumes b: "b < 128"
  shows "json_str (json_escape_ascii html b @ s) = cons_str [char_of b] (json_str s)"
proof -
  consider "b \<in> {34, 92, 8, 12, 10, 13, 9}"
    | "b \<notin> {34, 92, 8, 12, 10, 13, 9}" "b < 32 \<or> (html \<and> (b = 60 \<or> b = 62 \<or> b = 38))"
    | "b \<notin> {34, 92, 8, 12, 10, 13, 9}" "\<not> (b < 32 \<or> (html \<and> (b = 60 \<or> b = 62 \<or> b = 38)))"
    by blast
  then show ?thesis
  proof cases
    case 1
    then show ?thesis
      by (elim insertE emptyE) (simp_all add: json_escape_ascii_def json_str_simple simple_escape_def char_codes)
  next
    case 2
    then have "json_escape_ascii html b @ s = BSLASH # CHR ''u'' # ''00'' @ hex_digit (b div 16) # hex_digit (b mod 16) # s"
      by (simp add: json_escape_ascii_def char_codes)
    moreover have "encode_rune b = [char_of b]" using b by (simp add: encode_rune_def)
    ultimately show ?thesis using json_str_u [OF hex4_u00 [OF b]] b by simp
  next
    case 3
    then have "json_escape_ascii html b @ s = char_of b # s" by (simp add: json_escape_ascii_def)
    moreover have "(char_of b :: char) \<noteq> QUOTE" "(char_of b :: char) \<noteq> BSLASH"
      using 3 b char_of_neq [of b QUOTE] char_of_neq [of b BSLASH] by (simp_all add: ord_def)
    ultimately show ?thesis using 3 b json_str_plain [of "char_of b" s] by simp
  qed
qed

text \<open>The bytes of a character determine its decoding, and the other way round.\<close>

lemma decode_rune_local:
  assumes "decode_rune bs = Some (c, k)"
  shows "k \<le> length bs" and "decode_rune (take k bs @ x) = Some (c, k)"
proof -
  obtain a r where bs: "bs = a # r" using assms by (cases bs) (simp_all add: decode_rune.simps)
  have "k \<le> length bs \<and> decode_rune (take k bs @ x) = Some (c, k)"
    using assms unfolding bs by (auto simp: decode_rune.simps split: if_split_asm list.splits)
  then show "k \<le> length bs" and "decode_rune (take k bs @ x) = Some (c, k)" by simp_all
qed

lemma base64_digits:
  fixes x y z :: nat
  assumes "z < 64" and "y < 64"
  shows "(x * 4096 + y * 64 + z) mod 64 = z" and "(x * 4096 + y * 64 + z) div 64 mod 64 = y"
    and "(x * 4096 + y * 64 + z) div 4096 = x"
proof -
  have e: "x * 4096 + y * 64 + z = z + 64 * (y + 64 * x)" by simp
  have "(z + 64 * (y + 64 * x)) div 64 = y + 64 * x" using assms by simp
  moreover have "(y + 64 * x) mod 64 = y" "(y + 64 * x) div 64 = x" using assms by simp_all
  moreover have "n div 4096 = n div 64 div 64" for n :: nat by (simp add: div_mult2_eq [of n 64 64, simplified])
  ultimately show "(x * 4096 + y * 64 + z) mod 64 = z" "(x * 4096 + y * 64 + z) div 64 mod 64 = y"
    "(x * 4096 + y * 64 + z) div 4096 = x"
    unfolding e using assms by (simp_all only: mod_mult_self2 mod_less)
qed

lemma line_separator:
  assumes d: "decode_rune bs = Some (c, k)" and c: "c = 8232 \<or> c = 8233"
  shows "take k bs = [226, 128, 128 + c mod 64]"
proof -
  obtain a r where bs: "bs = a # r" using d by (cases bs) (simp_all add: decode_rune.simps)
  consider "a < 224" | "224 \<le> a" "a \<le> 239" | "240 \<le> a" by linarith
  then show ?thesis
  proof cases
    case 1
    have "c < 8232"
      using d 1 unfolding bs
      by (auto simp: decode_rune.simps cont_def split: if_split_asm list.splits)
    with c show ?thesis by simp
  next
    case 2
    then obtain b e t where r: "r = b # e # t" "cont b" "cont e" "k = 3"
      and v: "c = (a - 224) * 4096 + (b - 128) * 64 + (e - 128)"
      using d unfolding bs by (auto simp: decode_rune.simps split: if_split_asm list.splits)
    then have "b - 128 < 64" "e - 128 < 64" unfolding cont_def by linarith+
    note base64_digits [OF this(2,1), of "a - 224", folded v]
    moreover have "c div 4096 = 2" "c div 64 mod 64 = 0" "c mod 64 = c - 8192" using c by auto
    ultimately have "a = 226" "b = 128" "e = 128 + c mod 64" using 2 r(2,3) unfolding cont_def by linarith+
    then show ?thesis using r by (simp add: bs)
  next
    case 3
    then obtain b e f t where r: "r = b # e # f # t" "cont b" "a = 240 \<longrightarrow> 144 \<le> b"
      and v: "c = (a - 240) * 262144 + (b - 128) * 4096 + (e - 128) * 64 + (f - 128)"
      using d unfolding bs by (auto simp: decode_rune.simps split: if_split_asm list.splits)
    have "65536 \<le> c" unfolding v using r(3) 3 by (cases "a = 240") simp_all
    with c show ?thesis by simp
  qed
qed

lemma runes_step: "bs \<noteq> [] \<Longrightarrow> runes bs \<noteq> None \<Longrightarrow> \<exists>c k. decode_rune bs = Some (c, k) \<and> 1 \<le> k \<and> runes (drop k bs) \<noteq> None"
  by (subst (asm) runes.simps) (auto split: option.splits dest: decode_rune_width)

lemma decode_rune_first: "decode_rune (b # r) = Some (c, k) \<Longrightarrow> 128 \<le> b \<Longrightarrow> 194 \<le> b"
  by (auto simp: decode_rune.simps split: if_split_asm)

lemma json_str_raw:
  assumes d: "decode_rune bs = Some (c, k)" and b: "\<forall>n\<in>set bs. n < 256" "128 \<le> hd bs"
  shows "json_str (map char_of (take k bs) @ x) = cons_str (map char_of (take k bs)) (json_str x)"
proof -
  obtain a r where bs: "bs = a # r" using d by (cases bs) (simp_all add: decode_rune.simps)
  have k: "1 \<le> k" "k \<le> length bs" using decode_rune_width [OF d] decode_rune_local(1) [OF d] by simp_all
  obtain q where t: "take k bs = a # q" using k(1) by (cases k) (simp_all add: bs)
  have m: "map ord (map char_of (take k bs)) = take k bs"
    using b(1) in_set_takeD [of _ k bs] by (simp add: map_idI o_def)
  have a: "ord (char_of a) = a" "194 \<le> a"
    using b d decode_rune_first unfolding bs by auto
  have neq: "char_of a \<noteq> QUOTE" "char_of a \<noteq> BSLASH"
    using a char_of_neq [of a QUOTE] char_of_neq [of a BSLASH] b(1) unfolding bs by (simp_all add: ord_def)
  have dec: "decode_rune (map ord (map char_of (take k bs) @ x)) = Some (c, k)"
    unfolding map_append m by (rule decode_rune_local(2) [OF d])
  have l: "take k (map char_of (take k bs) @ x) = map char_of (take k bs)"
    "drop k (map char_of (take k bs) @ x) = x" using k(2) by simp_all
  show ?thesis
    using dec l neq a unfolding t list.map append_Cons
    by (subst json_str.simps) simp
qed

lemma cons_str_Some [simp]: "cons_str a (Some (v, t)) = Some (a @ v, t)"
  by (simp add: cons_str_def)

lemma json_str_escape:
  "runes bs \<noteq> None \<Longrightarrow> \<forall>n\<in>set bs. n < 256 \<Longrightarrow>
   json_str (json_escape html bs @ QUOTE # t) = Some (map char_of bs, t)"
proof (induction "length bs" arbitrary: bs rule: less_induct)
  case less
  show ?case
  proof (cases bs)
    case Nil
    then show ?thesis by (simp add: json_escape.simps json_str.simps)
  next
    case (Cons b r)
    then obtain c k where d: "decode_rune bs = Some (c, k)" "1 \<le> k" "runes (drop k bs) \<noteq> None"
      using less.prems(1) runes_step [of bs] by auto
    have "\<forall>n\<in>set (drop k bs). n < 256" using less.prems(2) by (blast dest: in_set_dropD)
    then have rest: "json_str (json_escape html (drop k bs) @ QUOTE # t) = Some (map char_of (drop k bs), t)"
      using less.hyps [of "drop k bs"] d Cons by simp
    have all: "map char_of (take k bs) @ map char_of (drop k bs) = map char_of bs"
      by (simp add: map_append [symmetric] del: map_append)
    show ?thesis
    proof (cases "b < 128")
      case True
      then have "k = 1" using d(1) by (simp add: Cons decode_rune.simps)
      with rest have "json_str (json_escape html r @ QUOTE # t) = Some (map char_of r, t)" by (simp add: Cons)
      then show ?thesis using True by (simp add: Cons json_escape.simps [of _ "b # r"] json_str_escape_ascii)
    next
      case False
      show ?thesis
      proof (cases "c = 8232 \<or> c = 8233")
        case True
        note e = line_separator [OF d(1) True]
        let ?h = "hex_digit (c mod 16)"
        have esc: "json_escape html bs = BSLASH # CHR ''u'' # ''202'' @ ?h # json_escape html (drop k bs)"
          using False d(1) True by (simp add: Cons json_escape.simps [of _ "b # r"] char_codes)
        have "hex_val ?h = Some (c mod 16)" by simp
        then have h: "hex4 (''202'' @ ?h # x) = Some (c, x)" for x
          using True by (auto simp: hex_val_def [of "CHR ''2''"] hex_val_def [of "CHR ''0''"] ord_def)
        have enc: "encode_rune c = map char_of (take k bs)"
          unfolding e using True by (auto simp: encode_rune_def)
        have "json_str (json_escape html bs @ QUOTE # t) = cons_str (encode_rune c) (json_str (json_escape html (drop k bs) @ QUOTE # t))"
          unfolding esc using json_str_u [OF h] True by auto
        then show ?thesis by (simp add: rest enc all)
      next
        case False
        then have "json_escape html bs = map char_of (take k bs) @ json_escape html (drop k bs)"
          using \<open>\<not> b < 128\<close> d(1) by (simp add: Cons json_escape.simps [of _ "b # r"])
        moreover have "128 \<le> hd bs" using \<open>\<not> b < 128\<close> by (simp add: Cons)
        ultimately show ?thesis using json_str_raw [OF d(1) less.prems(2)] rest all by simp
      qed
    qed
  qed
qed

lemma json_string_read:
  assumes "utf8_valid s"
  shows "json_value (json_string html s @ t) = Some (JStr s, t)"
proof -
  have "map char_of (map ord s) = s" by (simp add: o_def)
  moreover have "json_str (json_escape html (map ord s) @ QUOTE # t) = Some (map char_of (map ord s), t)"
    by (rule json_str_escape) (use assms in \<open>auto simp: utf8_valid_def\<close>)
  ultimately show ?thesis
    by (simp add: json_string_def char_codes json_value.simps json_ws_def json_space_def)
qed

subsection \<open>Members\<close>

text \<open>\<open>reads txt v\<close>: \<open>txt\<close> is read as the value \<open>v\<close> when a comma or a closing brace follows.\<close>

definition reads :: "string \<Rightarrow> json \<Rightarrow> bool" where
  "reads txt v \<longleftrightarrow> (\<forall>c t. c \<in> {CHR '','', CHR ''}''} \<longrightarrow> json_value (txt @ c # t) = Some (v, c # t))"

lemma json_ws_skip: "json_space c = False \<Longrightarrow> json_ws (c # s) = c # s"
  by (simp add: json_ws_def)

lemma reads_string: "utf8_valid s \<Longrightarrow> reads (json_string html s) (JStr s)"
  by (simp add: reads_def json_string_read)

lemma reads_bool: "reads (json_bool b) (JBool b)"
  by (cases b) (auto simp: reads_def json_bool_def json_value.simps json_ws_skip json_space_def json_literal_def has_prefix_def)

lemma takeWhile_digits: "list_all is_digit d \<Longrightarrow> \<not> is_digit c \<Longrightarrow> digits_of (d @ c # t) = (d, c # t)"
  by (induction d) (auto simp: digits_of_def)

lemma reads_int:
  assumes "0 \<le> n"
  shows "reads (format_int n) (JNum (format_int n))"
  unfolding reads_def
proof (intro allI impI)
  fix c t assume c: "c \<in> {CHR '','', CHR ''}''}"
  let ?d = "dec_nat (nat n)"
  obtain a d where d: "?d = a # d" by (cases ?d) simp_all
  have dig: "is_digit a" "list_all is_digit d" using dec_nat_digits [of "nat n"] by (simp_all add: d)
  have nc: "\<not> is_digit c" "c \<noteq> CHR ''.''" "c \<noteq> CHR ''e''" "c \<noteq> CHR ''E''" using c by (auto simp: is_digit_def ord_def)
  have z: "d = []" if "a = CHR ''0''"
  proof -
    from that d have "hd ?d = CHR ''0''" by simp
    then have "nat n = 0" using hd_dec_nat [of "nat n"] by (cases "0 < nat n") auto
    with d show ?thesis by (simp add: dec_nat.simps)
  qed
  have int: "num_int (a # d @ c # t) = Some (a # d, c # t)"
    using z dig takeWhile_digits [of "a # d" c t] nc by (auto simp: num_int_def)
  have frac: "num_frac (c # t) = Some ([], c # t)" and exp: "num_exp (c # t) = Some ([], c # t)"
    using c by (auto simp: num_frac_def num_exp_def)
  have a: "a \<noteq> CHR ''-''" "a \<noteq> QUOTE" "a \<noteq> CHR ''{''" "a \<noteq> CHR ''[''" "a \<noteq> CHR ''t''" "a \<noteq> CHR ''f''"
    "a \<noteq> CHR ''n''" "\<not> json_space a"
    using dig(1) by (auto simp: is_digit_def json_space_def ord_def)
  have "json_num (a # d @ c # t) = Some (a # d, c # t)"
    using a int frac exp by (simp add: json_num_def)
  then show "json_value (format_int n @ c # t) = Some (JNum (format_int n), c # t)"
    using a assms by (simp add: format_int_def d json_value.simps json_ws_skip json_literal_def has_prefix_def)
qed

text \<open>A name that needs no escape.\<close>

definition plain_name :: "string \<Rightarrow> bool" where
  "plain_name k \<longleftrightarrow> list_all (\<lambda>c. 32 \<le> ord c \<and> ord c < 128 \<and> c \<noteq> QUOTE \<and> c \<noteq> BSLASH) k"

lemma json_str_name: "plain_name k \<Longrightarrow> json_str (k @ QUOTE # t) = Some (k, t)"
proof (induction k)
  case Nil
  then show ?case by (simp add: json_str.simps)
next
  case (Cons c k)
  then show ?case by (simp add: plain_name_def json_str_plain)
qed

lemma next_elem_simps [simp]:
  "next_elem (CHR ''}'') (CHR '','' # t) = Some (True, t)" "next_elem (CHR ''}'') (CHR ''}'' # t) = Some (False, t)"
  by (simp_all add: next_elem_def json_ws_skip json_space_def)

lemma strict_member:
  assumes "plain_name k" and "reads txt v" and "k \<notin> set seen" and "k \<in> set allowed" and "c \<in> {CHR '','', CHR ''}''}"
  shows "strict_members allowed seen (json_member (k, txt) @ c # t)
    = (if c = CHR ''}'' then Inr ([(k, v)], t)
       else bindR (strict_members allowed (k # seen) t) (\<lambda>(ms, r). Inr ((k, v) # ms, r)))"
proof -
  have e: "json_member (k, txt) @ c # t = QUOTE # k @ QUOTE # CHR '':'' # txt @ c # t"
    by (simp add: json_member_def char_codes)
  have v: "json_value (txt @ c # t) = Some (v, c # t)" using assms(2,5) unfolding reads_def by blast
  show ?thesis
    unfolding e using assms(1,3,4,5) v
    by (subst strict_members.simps) (auto simp: json_ws_skip json_space_def json_str_name)
qed

lemma strict_members_read:
  "ms \<noteq> [] \<Longrightarrow> length vs = length ms \<Longrightarrow> list_all2 (\<lambda>m v. plain_name (fst m) \<and> reads (snd m) v) ms vs \<Longrightarrow>
   distinct (map fst ms) \<Longrightarrow> set (map fst ms) \<inter> set seen = {} \<Longrightarrow> set (map fst ms) \<subseteq> set allowed \<Longrightarrow>
   strict_members allowed seen (json_members ms @ CHR ''}'' # t) = Inr (zip (map fst ms) vs, t)"
proof (induction ms arbitrary: vs seen rule: json_members.induct)
  case (2 m)
  then obtain v where "vs = [v]" by (cases vs) auto
  with 2 show ?case using strict_member [of "fst m" "snd m" v seen allowed "CHR ''}''" t] by simp
next
  case (3 m n ms)
  then obtain v ws where vs: "vs = v # ws" by (cases vs) auto
  have "strict_members allowed (fst m # seen) (json_members (n # ms) @ CHR ''}'' # t) = Inr (zip (map fst (n # ms)) ws, t)"
    by (rule 3(1)) (use 3(3-) in \<open>auto simp: vs\<close>)
  then show ?case
    using 3(3-) strict_member [of "fst m" "snd m" v seen allowed "CHR '',''" "json_members (n # ms) @ CHR ''}'' # t"]
    by (simp add: vs)
qed simp

subsection \<open>Messages\<close>

lemma last_json_object: "json_object ms = CHR ''{'' # json_members ms @ [CHR ''}'']"
  by (simp add: json_object_def)

lemma UnmarshalStrict_object:
  assumes "ms \<noteq> []" "length vs = length ms" "list_all2 (\<lambda>m v. plain_name (fst m) \<and> reads (snd m) v) ms vs"
    and "distinct (map fst ms)" "set (map fst ms) = set allowed" "RejectIdentityFields (set allowed) = Inr ()"
  shows "UnmarshalStrict (json_object ms) allowed = Inr (zip (map fst ms) vs)"
proof -
  have trim: "TrimSpace (json_object ms) = json_object ms"
    by (rule TrimSpace_ascii) (simp_all add: last_json_object ord_def is_space_def)
  have first: "\<exists>r. json_members ms = QUOTE # r"
    using assms(1) by (cases ms rule: json_members.cases) (simp_all add: json_member_def char_codes)
  then obtain r where r: "json_members ms = QUOTE # r" by blast
  have "strict_members allowed [] (json_members ms @ CHR ''}'' # []) = Inr (zip (map fst ms) vs, [])"
    by (rule strict_members_read) (use assms in simp_all)
  then have obj: "strict_object allowed (json_object ms) = Inr (zip (map fst ms) vs, [])"
    by (simp add: strict_object_def last_json_object r json_ws_skip json_space_def)
  have "fst ` set (zip (map fst ms) vs) = set allowed"
    using assms(2,5) by (metis length_map list.set_map map_fst_zip)
  then show ?thesis
    using assms(6) by (simp add: UnmarshalStrict_def trim obj json_ws_def list_all_iff)
qed

lemma ascii_dec_nat: "list_all (\<lambda>c. ord c < 128) (dec_nat n)"
  using dec_nat_digits [of n] by (auto simp: list_all_iff is_digit_def)

lemma ascii_pad: "list_all (\<lambda>c. ord c < 128) (pad w n)"
  using ascii_dec_nat by (auto simp: pad_def Let_def list_all_iff ord_def)

lemma ascii_time: "ParseUTC s = Inr t \<Longrightarrow> utf8_valid s"
proof -
  assume "ParseUTC s = Inr t"
  then have "rfc3339 t = s" using ParseUTC_canonical by blast
  moreover have "list_all (\<lambda>c. ord c < 128) (rfc3339 t)"
    using ascii_pad by (auto simp: rfc3339_def format_year_def ord_def split: prod.splits)
  ultimately show ?thesis using utf8_valid_ascii by blast
qed

lemma ascii_id:
  assumes "ValidateOpaqueID v p = Inr ()"
  shows "utf8_valid v"
proof (rule utf8_valid_ascii)
  obtain s where s: "v = p @ s" "identifierSuffix s" "list_all (\<lambda>c. ord c \<le> 127) p"
    using assms by (auto simp: ValidateOpaqueID_iff)
  then show "list_all (\<lambda>c. ord c < 128) v"
    using id_char_ascii by (auto simp: list_all_iff identifierSuffix_def less_Suc_eq_le [of _ 127, simplified])
qed

lemma ascii_literals:
  "utf8_valid ProtocolName" "(e, s, c) \<in> set allowed_pairs \<Longrightarrow> utf8_valid e \<and> utf8_valid s"
  by (auto intro!: utf8_valid_ascii simp: allowed_pairs_def ord_def)

lemma ascii_status: "ValidateStatusFlags s c = Inr () \<Longrightarrow> utf8_valid s"
  by (auto intro!: utf8_valid_ascii simp: ValidateStatusFlags_iff ord_def)

lemmas valid_ids = ValidateEventID_def ValidateCheckoutID_def ValidateSubscriptionRef_def

lemma ValidatePlanID_utf8: "ValidatePlanID p = Inr () \<Longrightarrow> utf8_valid p"
  by (auto simp: ValidatePlanID_def split: if_split_asm)

lemma ValidatePeriod_utf8: "ValidatePeriod a b c = Inr () \<Longrightarrow> utf8_valid a \<and> utf8_valid b \<and> utf8_valid c"
  by (auto simp: ValidatePeriod_def bindR_eq_Inr dest: ascii_time)

lemma member_Cons [simp]: "member ((k, v) # ms) j = (if k = j then v else member ms j)"
  by (simp add: member_def)

text \<open>The strict decoder returns each allowed field exactly once.\<close>

lemma strict_members_fields:
  "strict_members allowed seen s = Inr (ms, t) \<Longrightarrow>
     distinct (map fst ms) \<and> set (map fst ms) \<subseteq> set allowed \<and> set (map fst ms) \<inter> set seen = {}"
proof (induction allowed seen s arbitrary: ms t rule: strict_members.induct)
  case (1 allowed seen s)
  from "1.prems" obtain c r k r1 d q v r2 again u where
    step: "json_ws s = c # r" "c = QUOTE" "json_str r = Some (k, r1)" "k \<notin> set seen" "k \<in> set allowed"
      "json_ws r1 = d # q" "d = CHR '':''" "json_value q = Some (v, r2)" "next_elem (CHR ''}'') r2 = Some (again, u)"
    and rest: "(if \<not> again then Inr ([(k, v)], u)
        else bindR (strict_members allowed (k # seen) u) (\<lambda>(ms, r). Inr ((k, v) # ms, r))) = Inr (ms, t)"
    by (subst (asm) strict_members.simps) (auto split: list.splits if_split_asm option.splits)
  show ?case
  proof (cases again)
    case False
    then show ?thesis using rest step by auto
  next
    case True
    then obtain ns x where n: "strict_members allowed (k # seen) u = Inr (ns, x)" "ms = (k, v) # ns"
      using rest by (auto simp: bindR_eq_Inr)
    have "distinct (map fst ns) \<and> set (map fst ns) \<subseteq> set allowed \<and> set (map fst ns) \<inter> set (k # seen) = {}"
      by (rule "1.IH" [OF step(1) _ step(3) _ _ _ step(6) _ step(8) _ step(9) _ _ n(1)]) (use step True in simp_all)
    then show ?thesis using step n(2) by auto
  qed
qed

lemma UnmarshalStrict_fields:
  assumes "UnmarshalStrict raw allowed = Inr ms"
  shows "distinct (map fst ms) \<and> set (map fst ms) = set allowed"
proof -
  obtain t where o: "strict_object allowed (TrimSpace raw) = Inr (ms, t)" and a: "set allowed \<subseteq> fst ` set ms"
    using assms by (auto simp: UnmarshalStrict_def bindR_eq_Inr list_all_iff)
  have "distinct (map fst ms) \<and> set (map fst ms) \<subseteq> set allowed"
  proof (cases "ms = []")
    case False
    with o obtain s where "strict_members allowed [] s = Inr (ms, t)"
      by (auto simp: strict_object_def split: list.splits if_split_asm)
    then show ?thesis using strict_members_fields by blast
  qed simp
  with a show ?thesis by auto
qed

lemma callback_eta: "\<lparr>cb_Protocol = cb_Protocol m, cb_Version = cb_Version m, cb_EventID = cb_EventID m, cb_EventType = cb_EventType m, cb_CheckoutID = cb_CheckoutID m, cb_SubscriptionRef = cb_SubscriptionRef m, cb_PlanID = cb_PlanID m, cb_StateVersion = cb_StateVersion m, cb_Status = cb_Status m, cb_CurrentPeriodStart = cb_CurrentPeriodStart m, cb_CurrentPeriodEnd = cb_CurrentPeriodEnd m, cb_CancelAtPeriodEnd = cb_CancelAtPeriodEnd m, cb_StateChangedAt = cb_StateChangedAt m\<rparr> = m"
  by (cases m) simp

lemma snapshot_eta: "\<lparr>sn_Protocol = sn_Protocol m, sn_Version = sn_Version m, sn_CheckoutID = sn_CheckoutID m, sn_SubscriptionRef = sn_SubscriptionRef m, sn_PlanID = sn_PlanID m, sn_StateVersion = sn_StateVersion m, sn_Status = sn_Status m, sn_CurrentPeriodStart = sn_CurrentPeriodStart m, sn_CurrentPeriodEnd = sn_CurrentPeriodEnd m, sn_CancelAtPeriodEnd = sn_CancelAtPeriodEnd m, sn_StateChangedAt = sn_StateChangedAt m\<rparr> = m"
  by (cases m) simp

lemma ValidateSnapshot_iff:
  "ValidateSnapshot s = Inr () \<longleftrightarrow>
     sn_Protocol s = ProtocolName \<and> sn_Version s = ProtocolVersion
     \<and> ValidateCheckoutID (sn_CheckoutID s) = Inr () \<and> ValidateSubscriptionRef (sn_SubscriptionRef s) = Inr ()
     \<and> ValidatePlanID (sn_PlanID s) = Inr () \<and> 1 \<le> sn_StateVersion s
     \<and> ValidatePeriod (sn_CurrentPeriodStart s) (sn_CurrentPeriodEnd s) (sn_StateChangedAt s) = Inr ()
     \<and> ValidateStatusFlags (sn_Status s) (sn_CancelAtPeriodEnd s) = Inr ()"
  by (simp add: ValidateSnapshot_def bindR_eq_Inr)

lemma callback_read:
  assumes v: "ValidateCallback cb = Inr ()" and b: "cb_StateVersion cb < 2 ^ 63"
  shows "ParseCallback (marshal_callback cb) = Inr cb"
proof -
  note w = v [unfolded ValidateCallback_iff]
  have u: "utf8_valid (cb_Protocol cb)" "utf8_valid (cb_EventID cb)" "utf8_valid (cb_EventType cb)"
    "utf8_valid (cb_CheckoutID cb)" "utf8_valid (cb_SubscriptionRef cb)" "utf8_valid (cb_PlanID cb)" "utf8_valid (cb_Status cb)"
    "utf8_valid (cb_CurrentPeriodStart cb)" "utf8_valid (cb_CurrentPeriodEnd cb)" "utf8_valid (cb_StateChangedAt cb)"
    using w ascii_literals(1,2) ascii_id ValidatePlanID_utf8 ValidatePeriod_utf8 by (auto simp: valid_ids)
  have n: "0 \<le> cb_Version cb" "0 \<le> cb_StateVersion cb" using w by simp_all
  have i: "parse_int64 (format_int (cb_Version cb)) = Some (cb_Version cb)"
    "parse_int64 (format_int (cb_StateVersion cb)) = Some (cb_StateVersion cb)"
    using w b by (simp_all add: parse_format_int)
  let ?vs = "[JStr (cb_Protocol cb), JNum (format_int (cb_Version cb)), JStr (cb_EventID cb), JStr (cb_EventType cb),
    JStr (cb_CheckoutID cb), JStr (cb_SubscriptionRef cb), JStr (cb_PlanID cb), JNum (format_int (cb_StateVersion cb)),
    JStr (cb_Status cb), JStr (cb_CurrentPeriodStart cb), JStr (cb_CurrentPeriodEnd cb),
    JBool (cb_CancelAtPeriodEnd cb), JStr (cb_StateChangedAt cb)]"
  have "UnmarshalStrict (marshal_callback cb) callbackFields = Inr (zip callbackFields ?vs)"
    unfolding marshal_callback_def Let_def
    by (subst UnmarshalStrict_object [of _ ?vs])
      (use u n in \<open>auto simp: reads_string reads_bool reads_int plain_name_def ord_def callbackFields_def RejectIdentityFields_def\<close>)
  then show "ParseCallback (marshal_callback cb) = Inr cb"
    using v i by (simp add: ParseCallback_def callbackFields_def to_str_def to_int_def to_bool_def callback_eta)
qed

lemma snapshot_read:
  assumes v: "ValidateSnapshot sn = Inr ()" and b: "sn_StateVersion sn < 2 ^ 63"
  shows "ParseSnapshot (marshal_snapshot sn) = Inr sn"
proof -
  note w = v [unfolded ValidateSnapshot_iff]
  have u: "utf8_valid (sn_Protocol sn)"
    "utf8_valid (sn_CheckoutID sn)" "utf8_valid (sn_SubscriptionRef sn)" "utf8_valid (sn_PlanID sn)" "utf8_valid (sn_Status sn)"
    "utf8_valid (sn_CurrentPeriodStart sn)" "utf8_valid (sn_CurrentPeriodEnd sn)" "utf8_valid (sn_StateChangedAt sn)"
    using w ascii_literals(1) ascii_status ascii_id ValidatePlanID_utf8 ValidatePeriod_utf8 by (auto simp: valid_ids)
  have n: "0 \<le> sn_Version sn" "0 \<le> sn_StateVersion sn" using w by simp_all
  have i: "parse_int64 (format_int (sn_Version sn)) = Some (sn_Version sn)"
    "parse_int64 (format_int (sn_StateVersion sn)) = Some (sn_StateVersion sn)"
    using w b by (simp_all add: parse_format_int)
  let ?vs = "[JStr (sn_Protocol sn), JNum (format_int (sn_Version sn)),
    JStr (sn_CheckoutID sn), JStr (sn_SubscriptionRef sn), JStr (sn_PlanID sn), JNum (format_int (sn_StateVersion sn)),
    JStr (sn_Status sn), JStr (sn_CurrentPeriodStart sn), JStr (sn_CurrentPeriodEnd sn),
    JBool (sn_CancelAtPeriodEnd sn), JStr (sn_StateChangedAt sn)]"
  have "UnmarshalStrict (marshal_snapshot sn) snapshotFields = Inr (zip snapshotFields ?vs)"
    unfolding marshal_snapshot_def Let_def
    by (subst UnmarshalStrict_object [of _ ?vs])
      (use u n in \<open>auto simp: reads_string reads_bool reads_int plain_name_def ord_def snapshotFields_def RejectIdentityFields_def\<close>)
  then show "ParseSnapshot (marshal_snapshot sn) = Inr sn"
    using v i by (simp add: ParseSnapshot_def snapshotFields_def to_str_def to_int_def to_bool_def snapshot_eta)
qed

lemma to_int_bound: "to_int v = Inr n \<Longrightarrow> n < 2 ^ 63"
  by (auto simp: to_int_def parse_int64_def Let_def split: json.splits option.splits if_split_asm)

lemma sample_callback: "\<exists>cb. ValidateCallback cb = Inr () \<and> cb_StateVersion cb = 1"
proof -
  have y: "wire_year 1767225600000000000" "wire_year 1769904000000000000" by code_simp+
  have "ValidateEventID ''evt_1'' = Inr ()" "ValidateCheckoutID ''subchk_1'' = Inr ()"
    "ValidateSubscriptionRef ''sub_1'' = Inr ()"
    "TruncateUTC 1767225600000000000 < TruncateUTC 1769904000000000000"
    by code_simp+
  note this ValidatePlanID_pro
  moreover have "(EventActivated, StatusActive, False) \<in> set allowed_pairs" by (simp add: allowed_pairs_def)
  ultimately show ?thesis
    using NewCallback_ok_iff [OF y y(1), of "''evt_1''" EventActivated "''subchk_1''" "''sub_1''" "''pro''" 1 StatusActive False]
      NewCallback_valid by (metis order_refl)
qed

section \<open>Properties\<close>

text \<open>
  C26. The consumer reads what the bridge writes: every valid callback and every valid snapshot, whatever
  characters its plan identifier has, is parsed back from its JSON encoding to the message it was.
\<close>

theorem message_roundtrip:
  "(ValidateCallback cb = Inr () \<and> cb_StateVersion cb < 2 ^ 63 \<longrightarrow> ParseCallback (marshal_callback cb) = Inr cb)
   \<and> (ValidateSnapshot sn = Inr () \<and> sn_StateVersion sn < 2 ^ 63 \<longrightarrow> ParseSnapshot (marshal_snapshot sn) = Inr sn)"
  by (simp add: callback_read snapshot_read)

theorem message_roundtrip_witness:
  "\<exists>cb. ValidateCallback cb = Inr () \<and> ParseCallback (marshal_callback cb) = Inr cb
     \<and> ParseSnapshot (marshal_snapshot (SnapshotFromCallback cb)) = Inr (SnapshotFromCallback cb)"
proof -
  obtain cb where v: "ValidateCallback cb = Inr ()" and b: "cb_StateVersion cb = 1" using sample_callback by blast
  have "ValidateSnapshot (SnapshotFromCallback cb) = Inr ()" "sn_StateVersion (SnapshotFromCallback cb) = 1"
    using SnapshotFromCallback_valid [OF v] b by (simp_all add: SnapshotFromCallback_def)
  then show ?thesis using v b message_roundtrip [of cb "SnapshotFromCallback cb"] by auto
qed

text \<open>
  C27. Strictness: an accepted callback body has each of the thirteen fields exactly once and nothing else,
  what it says is valid, and it is understood the same when it is written out again.
\<close>

theorem strict_callback:
  assumes "ParseCallback raw = Inr cb"
  shows "(\<exists>ms. UnmarshalStrict raw callbackFields = Inr ms \<and> distinct (map fst ms) \<and> set (map fst ms) = set callbackFields)
    \<and> ValidateCallback cb = Inr () \<and> ParseCallback (marshal_callback cb) = Inr cb"
proof -
  from assms obtain ms x where u: "UnmarshalStrict raw callbackFields = Inr ms"
    and v: "ValidateCallback cb = Inr ()" and x: "to_int x = Inr (cb_StateVersion cb)"
    by (auto simp: ParseCallback_def bindR_eq_Inr Let_def)
  then show ?thesis using UnmarshalStrict_fields [OF u] callback_read [OF v] to_int_bound [OF x] by blast
qed

theorem strict_callback_witness:
  "\<exists>cb. ParseCallback (marshal_callback cb) = Inr cb \<and> ValidateCallback cb = Inr ()"
proof -
  obtain cb where v: "ValidateCallback cb = Inr ()" and b: "cb_StateVersion cb = 1" using sample_callback by blast
  then have "ParseCallback (marshal_callback cb) = Inr cb" by (intro callback_read) simp_all
  then show ?thesis using strict_callback by blast
qed

end
