(* ===== verification/Claims.thy ===== *)
theory Claims
  imports Hmac Json
begin

text \<open>
  The claims of start and portal tokens (\<^verbatim>\<open>internal/protocol/types.go\<close>, \<^verbatim>\<open>internal/hmac/token.go\<close>) and the
  normalisation of the return URLs in them (\<^verbatim>\<open>internal/protocol/url.go\<close>).  What \<open>url.Parse\<close> accepts
  depends on the release of Go's library, so the parser is a parameter; so are the answer of
  \<open>net.ParseIP\<close> on whether a host is a loopback address and \<open>strings.ToLower\<close>, which knows the letters of
  Unicode.  \<open>net.SplitHostPort\<close> is written out.
\<close>

section \<open>Return URLs\<close>

record gourl =
  ur_Scheme :: string
  ur_Opaque :: string
  ur_User :: bool
  ur_Host :: string
  ur_EscapedPath :: string
  ur_RawQuery :: string
  ur_Fragment :: string
  ur_RawFragment :: string
  ur_Hostname :: string

record urllib =
  ul_Parse :: "string \<Rightarrow> gourl option"
  ul_LoopbackIP :: "string \<Rightarrow> bool"
  ul_ToLower :: "string \<Rightarrow> string"

definition index_of :: "char \<Rightarrow> string \<Rightarrow> nat option" where
  "index_of c s = (if c \<in> set s then Some (length (takeWhile (\<lambda>x. x \<noteq> c) s)) else None)"

definition last_index :: "char \<Rightarrow> string \<Rightarrow> nat option" where
  "last_index c s = map_option (\<lambda>i. length s - Suc i) (index_of c (rev s))"

text \<open>\<open>net.SplitHostPort\<close>; \<open>None\<close> stands for each of its errors.\<close>

definition SplitHostPort :: "string \<Rightarrow> (string \<times> string) option" where
  "SplitHostPort hp =
     (case last_index (CHR '':'') hp of
        None \<Rightarrow> None
      | Some i \<Rightarrow>
          if has_prefix hp ''['' then
            (case index_of (CHR '']'') hp of
               None \<Rightarrow> None
             | Some fin \<Rightarrow>
                 if fin + 1 \<noteq> i then None
                 else if CHR ''['' \<in> set (drop 1 hp) \<or> CHR '']'' \<in> set (drop (fin + 1) hp) then None
                 else Some (drop 1 (take fin hp), drop (i + 1) hp))
          else if CHR '':'' \<in> set (take i hp) then None
          else if CHR ''['' \<in> set hp \<or> CHR '']'' \<in> set hp then None
          else Some (take i hp, drop (i + 1) hp))"

definition splitHostPort :: "string \<Rightarrow> gerr + string \<times> string" where
  "splitHostPort hp =
     (if hp = [] then Inl ErrInvalidURL
      else if has_prefix hp ''['' then
        (case SplitHostPort hp of
           None \<Rightarrow> if has_suffix hp '']'' then Inr (trim_prefix (butlast hp) ''['', []) else Inl ErrInvalidURL
         | Some r \<Rightarrow> Inr r)
      else if count_sub hp '':'' = 1 then
        (case SplitHostPort hp of None \<Rightarrow> Inl ErrInvalidURL | Some r \<Rightarrow> Inr r)
      else if CHR '':'' \<in> set hp then Inl ErrInvalidURL
      else Inr (hp, []))"

definition isLoopbackHost :: "urllib \<Rightarrow> string \<Rightarrow> bool" where
  "isLoopbackHost ul host \<longleftrightarrow> host \<in> {''localhost'', ''127.0.0.1'', ''::1''} \<or> ul_LoopbackIP ul host"

text \<open>The port that is kept: the scheme's own is dropped, and plain HTTP is for loopback hosts only.\<close>

definition url_port :: "urllib \<Rightarrow> string \<Rightarrow> string \<Rightarrow> string \<Rightarrow> gerr + string" where
  "url_port ul scheme host port =
     (if scheme = ''https'' then Inr (if port = ''443'' then [] else port)
      else if scheme = ''http'' then
        (if \<not> isLoopbackHost ul host then Inl ErrInvalidURL else Inr (if port = ''80'' then [] else port))
      else Inl ErrInvalidURL)"

definition url_authority :: "string \<Rightarrow> string \<Rightarrow> string" where
  "url_authority host port =
     (let authority = (if CHR '':'' \<in> set host \<and> \<not> has_prefix host ''['' then ''['' @ host @ '']'' else host)
      in if port \<noteq> [] then authority @ '':'' @ port else authority)"

definition url_path :: "gourl \<Rightarrow> string" where
  "url_path u = (if ur_EscapedPath u = [] then ''/'' else ur_EscapedPath u)"

definition url_query :: "gourl \<Rightarrow> string" where
  "url_query u = (if ur_RawQuery u \<noteq> [] then ''?'' @ ur_RawQuery u else [])"

definition NormalizeReturnURL :: "urllib \<Rightarrow> string \<Rightarrow> gerr + string" where
  "NormalizeReturnURL ul raw =
     (if raw = [] \<or> CHR '' '' \<in> set raw \<or> CHR ''#'' \<in> set raw then Inl ErrInvalidURL
      else case ul_Parse ul raw of
        None \<Rightarrow> Inl ErrInvalidURL
      | Some u \<Rightarrow>
          bindR (guardR (\<not> (ur_Scheme u = [] \<or> ur_Host u = [] \<or> ur_Opaque u \<noteq> [] \<or> ur_User u \<or> ur_Fragment u \<noteq> []))
            ErrInvalidURL) (\<lambda>_.
          bindR (guardR (ur_RawFragment u = []) ErrInvalidURL) (\<lambda>_.
          let scheme = ul_ToLower ul (ur_Scheme u)
          in case splitHostPort (ur_Host u) of
               Inl _ \<Rightarrow> Inl ErrInvalidURL
             | Inr (host0, port0) \<Rightarrow>
                 let host = ul_ToLower ul host0
                 in bindR (url_port ul scheme host port0) (\<lambda>port.
                    bindR (guardR (host \<noteq> []) ErrInvalidURL) (\<lambda>_.
                    bindR (guardR (has_prefix (url_path u) ''/'') ErrInvalidURL) (\<lambda>_.
                    Inr (scheme @ ''://'' @ url_authority host port @ url_path u @ url_query u)))))))"

text \<open>
  What an accepted URL looks like: HTTPS, or HTTP to a loopback host; a host, no default port, a path.
\<close>

definition return_url :: "urllib \<Rightarrow> string \<Rightarrow> bool" where
  "return_url ul url \<longleftrightarrow> (\<exists>scheme host port rest. url = scheme @ ''://'' @ url_authority host port @ rest
     \<and> host \<noteq> [] \<and> has_prefix rest ''/''
     \<and> (scheme = ''https'' \<and> port \<noteq> ''443'' \<or> scheme = ''http'' \<and> isLoopbackHost ul host \<and> port \<noteq> ''80''))"

lemma NormalizeReturnURL_shape:
  assumes "NormalizeReturnURL ul raw = Inr url"
  shows "return_url ul url"
proof -
  from assms obtain u host0 port0 port where
    p: "url_port ul (ul_ToLower ul (ur_Scheme u)) (ul_ToLower ul host0) port0 = Inr port"
      "ul_ToLower ul host0 \<noteq> []" "has_prefix (url_path u) ''/''"
    and url: "url = ul_ToLower ul (ur_Scheme u) @ ''://'' @ url_authority (ul_ToLower ul host0) port @ url_path u @ url_query u"
    by (auto simp: NormalizeReturnURL_def bindR_eq_Inr Let_def split: option.splits sum.splits if_split_asm)
  moreover from p(3) have "has_prefix (url_path u @ url_query u) ''/''" by (auto simp: has_prefix_iff)
  moreover from p(1) have "ul_ToLower ul (ur_Scheme u) = ''https'' \<and> port \<noteq> ''443''
      \<or> ul_ToLower ul (ur_Scheme u) = ''http'' \<and> isLoopbackHost ul (ul_ToLower ul host0) \<and> port \<noteq> ''80''"
    by (auto simp: url_port_def split: if_split_asm)
  ultimately show ?thesis unfolding return_url_def by blast
qed

definition IsHTTPSPublicURL :: "urllib \<Rightarrow> string \<Rightarrow> gerr + unit" where
  "IsHTTPSPublicURL ul raw =
     bindR (NormalizeReturnURL ul raw) (\<lambda>normalized.
     case ul_Parse ul normalized of
       None \<Rightarrow> Inl ErrInvalidURL
     | Some u \<Rightarrow> if ur_Scheme u \<noteq> ''https'' \<and> \<not> isLoopbackHost ul (ur_Hostname u) then Inl ErrInvalidURL else Inr ())"

section \<open>Claims\<close>

record start_claims =
  cl_CheckoutID :: string
  cl_PlanID :: string
  cl_ReturnURL :: string
  cl_Iat :: int
  cl_Exp :: int

record portal_claims =
  pc_SubscriptionRef :: string
  pc_ReturnURL :: string
  pc_Iat :: int
  pc_Exp :: int

definition startFields :: "string list" where
  "startFields = [''checkout_id'', ''plan_id'', ''return_url'', ''iat'', ''exp'']"

definition portalFields :: "string list" where
  "portalFields = [''subscription_ref'', ''return_url'', ''iat'', ''exp'']"

definition parseRequiredUnix :: "string option \<Rightarrow> gerr + int" where
  "parseRequiredUnix n = (case n of None \<Rightarrow> Inl ErrMissingField | Some s \<Rightarrow> ParseUnixSeconds s)"

definition require :: "'a option \<Rightarrow> gerr + 'a" where
  "require p = (case p of None \<Rightarrow> Inl ErrMissingField | Some x \<Rightarrow> Inr x)"

text \<open>Decoding all members comes first; then the required ones are looked at in the code's order.\<close>

definition ParseStartClaims :: "urllib \<Rightarrow> bytes \<Rightarrow> gerr + start_claims" where
  "ParseStartClaims ul raw =
     bindR (UnmarshalStrict raw startFields) (\<lambda>ms.
     bindR (to_str_ptr (member ms ''checkout_id'')) (\<lambda>checkoutID.
     bindR (to_str_ptr (member ms ''plan_id'')) (\<lambda>planID.
     bindR (to_str_ptr (member ms ''return_url'')) (\<lambda>url.
     bindR (to_num_ptr (member ms ''iat'')) (\<lambda>iat0.
     bindR (to_num_ptr (member ms ''exp'')) (\<lambda>exp0.
     bindR (parseRequiredUnix iat0) (\<lambda>iat.
     bindR (parseRequiredUnix exp0) (\<lambda>exp.
     bindR (require checkoutID) (\<lambda>c.
     bindR (require planID) (\<lambda>p.
     bindR (require url) (\<lambda>u.
     bindR (ValidateCheckoutID c) (\<lambda>_.
     bindR (ValidatePlanID p) (\<lambda>_.
     bindR (NormalizeReturnURL ul u) (\<lambda>returnURL.
     Inr \<lparr>cl_CheckoutID = c, cl_PlanID = p, cl_ReturnURL = returnURL, cl_Iat = iat, cl_Exp = exp\<rparr>))))))))))))))"

definition ParsePortalClaims :: "urllib \<Rightarrow> bytes \<Rightarrow> gerr + portal_claims" where
  "ParsePortalClaims ul raw =
     bindR (UnmarshalStrict raw portalFields) (\<lambda>ms.
     bindR (to_str_ptr (member ms ''subscription_ref'')) (\<lambda>ref.
     bindR (to_str_ptr (member ms ''return_url'')) (\<lambda>url.
     bindR (to_num_ptr (member ms ''iat'')) (\<lambda>iat0.
     bindR (to_num_ptr (member ms ''exp'')) (\<lambda>exp0.
     bindR (parseRequiredUnix iat0) (\<lambda>iat.
     bindR (parseRequiredUnix exp0) (\<lambda>exp.
     bindR (require ref) (\<lambda>r.
     bindR (require url) (\<lambda>u.
     bindR (ValidateSubscriptionRef r) (\<lambda>_.
     bindR (NormalizeReturnURL ul u) (\<lambda>returnURL.
     Inr \<lparr>pc_SubscriptionRef = r, pc_ReturnURL = returnURL, pc_Iat = iat, pc_Exp = exp\<rparr>)))))))))))"

definition ParseStartToken :: "urllib \<Rightarrow> bytes \<Rightarrow> string \<Rightarrow> gotime \<Rightarrow> gerr + start_claims \<times> bytes" where
  "ParseStartToken ul key token now =
     bindR (DecodeAndVerify key token) (\<lambda>payload.
     bindR (ParseStartClaims ul payload) (\<lambda>claims.
     bindR (ValidateTokenLifetime (cl_Iat claims) (cl_Exp claims) now) (\<lambda>_.
     Inr (claims, payload))))"

definition ParsePortalToken :: "urllib \<Rightarrow> bytes \<Rightarrow> string \<Rightarrow> gotime \<Rightarrow> gerr + portal_claims \<times> bytes" where
  "ParsePortalToken ul key token now =
     bindR (DecodeAndVerify key token) (\<lambda>payload.
     bindR (ParsePortalClaims ul payload) (\<lambda>claims.
     bindR (ValidateTokenLifetime (pc_Iat claims) (pc_Exp claims) now) (\<lambda>_.
     Inr (claims, payload))))"

section \<open>Properties\<close>

lemma ParseStartClaims_sound:
  assumes "ParseStartClaims ul raw = Inr c"
  shows "ValidateCheckoutID (cl_CheckoutID c) = Inr ()" and "ValidatePlanID (cl_PlanID c) = Inr ()"
    and "return_url ul (cl_ReturnURL c)" and "\<exists>ms. UnmarshalStrict raw startFields = Inr ms \<and> distinct (map fst ms) \<and> set (map fst ms) = set startFields"
    and "0 \<le> cl_Iat c"
proof -
  from assms obtain ms i0 e0 x where u: "UnmarshalStrict raw startFields = Inr ms"
    and v: "ValidateCheckoutID (cl_CheckoutID c) = Inr ()" "ValidatePlanID (cl_PlanID c) = Inr ()"
    and r: "NormalizeReturnURL ul x = Inr (cl_ReturnURL c)"
    and t: "parseRequiredUnix i0 = Inr (cl_Iat c)" "parseRequiredUnix e0 = Inr (cl_Exp c)"
    by (auto simp: ParseStartClaims_def bindR_eq_Inr)
  have b: "0 \<le> n" if "parseRequiredUnix x = Inr n" for x n
    using that by (auto simp: parseRequiredUnix_def ParseUnixSeconds_def parse_int64_def Let_def split: option.splits if_split_asm)
  show "ValidateCheckoutID (cl_CheckoutID c) = Inr ()" "ValidatePlanID (cl_PlanID c) = Inr ()" by (rule v)+
  show "return_url ul (cl_ReturnURL c)" using r by (rule NormalizeReturnURL_shape)
  show "\<exists>ms. UnmarshalStrict raw startFields = Inr ms \<and> distinct (map fst ms) \<and> set (map fst ms) = set startFields"
    using u UnmarshalStrict_fields by blast
  show "0 \<le> cl_Iat c" using b t by blast
qed

lemma json_string_plain: "plain_name s \<Longrightarrow> json_string False s = QUOTE # s @ [QUOTE]"
proof (induction s)
  case Nil
  then show ?case by (simp add: json_string_def json_escape.simps char_codes)
next
  case (Cons c s)
  then have ne: "ord c \<noteq> ord QUOTE" "ord c \<noteq> ord BSLASH" by (simp_all add: plain_name_def)
  then have "ord c \<noteq> 34" "ord c \<noteq> 92" by (simp_all add: ord_def)
  then have "json_escape_ascii False (ord c) = [c]"
    using Cons.prems by (simp add: json_escape_ascii_def plain_name_def)
  moreover have "json_escape False (map ord s) = s"
    using Cons by (simp add: json_string_def plain_name_def char_codes)
  ultimately show ?case
    using Cons.prems by (simp add: json_string_def json_escape.simps [of _ "ord c # map ord s"] plain_name_def char_codes)
qed

lemma length_format: "length (format_int 1767225600) = 10" "length (format_int 1767226200) = 10"
  by (simp_all add: format_int_def dec_nat.simps)

lemma length_b64_encode: "length (b64_encode p) \<le> 2 * length p"
  by (induction p rule: b64_encode.induct) (auto simp: Let_def)

lemma small_token: "p \<noteq> [] \<Longrightarrow> length p \<le> 3000 \<Longrightarrow> \<exists>t. EncodeToken key p = Inr t"
  using length_b64_encode [of p] by (simp add: EncodeToken_def Let_def)

text \<open>A token of a shop whose URL parses.\<close>

definition sample_urllib :: urllib where
  "sample_urllib = \<lparr>ul_Parse = (\<lambda>_. Some \<lparr>ur_Scheme = ''https'', ur_Opaque = [], ur_User = False, ur_Host = ''shop'',
     ur_EscapedPath = [], ur_RawQuery = [], ur_Fragment = [], ur_RawFragment = [], ur_Hostname = ''shop''\<rparr>),
     ul_LoopbackIP = (\<lambda>_. False), ul_ToLower = to_lower\<rparr>"

definition sample_claims :: start_claims where
  "sample_claims = \<lparr>cl_CheckoutID = ''subchk_1'', cl_PlanID = ''pro'', cl_ReturnURL = ''https://shop/'',
     cl_Iat = 1767225600, cl_Exp = 1767226200\<rparr>"

lemma sample_start: "\<exists>token payload. ParseStartToken sample_urllib [] token (1767225600 * second) = Inr (sample_claims, payload)"
proof -
  let ?vs = "[JStr ''subchk_1'', JStr ''pro'', JStr ''https://shop'', JNum (format_int 1767225600), JNum (format_int 1767226200)]"
  let ?p = "json_object (zip startFields [json_string False ''subchk_1'', json_string False ''pro'',
    json_string False ''https://shop'', format_int 1767225600, format_int 1767226200])"
  have utf: "utf8_valid ''subchk_1''" "utf8_valid ''pro''" "utf8_valid ''https://shop''"
    by (rule utf8_valid_ascii; simp add: ord_def)+
  have ms: "UnmarshalStrict ?p startFields = Inr (zip startFields ?vs)"
    unfolding startFields_def
    by (subst UnmarshalStrict_object [of _ ?vs])
      (auto simp: reads_string reads_int utf plain_name_def ord_def RejectIdentityFields_def)
  have "ValidateCheckoutID ''subchk_1'' = Inr ()" by code_simp
  note ids = this ValidatePlanID_pro
  have url: "NormalizeReturnURL sample_urllib ''https://shop'' = Inr ''https://shop/''" by code_simp
  have claims: "ParseStartClaims sample_urllib ?p = Inr sample_claims"
    by (simp add: ParseStartClaims_def ms ids url)
      (simp add: startFields_def to_str_ptr_def to_num_ptr_def require_def parseRequiredUnix_def ParseUnixSeconds_format ids url
        sample_claims_def)
  have "unix_of (1767225600 * second) = 1767225600" by code_simp
  then have life: "ValidateTokenLifetime 1767225600 1767226200 (1767225600 * second) = Inr ()"
    by (subst ValidateTokenLifetime_iff) simp_all
  have plain: "plain_name ''subchk_1''" "plain_name ''pro''" "plain_name ''https://shop''" by (simp_all add: plain_name_def ord_def)
  have "?p \<noteq> []" "length ?p \<le> 3000"
    by (simp_all add: json_object_def json_member_def startFields_def json_string_plain [OF plain(1)]
      json_string_plain [OF plain(2)] json_string_plain [OF plain(3)] length_format)
  then obtain token where "EncodeToken [] ?p = Inr token" using small_token by blast
  then have "DecodeAndVerify [] token = Inr ?p" by (simp add: DecodeAndVerify_iff)
  then have t: "ParseStartToken sample_urllib [] token (1767225600 * second) = Inr (sample_claims, ?p)"
    by (simp add: ParseStartToken_def claims life sample_claims_def)
  then show ?thesis by blast
qed

text \<open>
  C28. An accepted start token is the one signed with the key for its payload; the payload has the five
  claims once each and nothing else, its identifiers are valid, the return URL is HTTPS or points to the
  local host, and, for claims whose distance does not overflow a Go duration, the token lives at most
  fifteen minutes and is used within that time up to five minutes of clock skew.
\<close>

theorem start_token_sound:
  assumes "ParseStartToken ul key token now = Inr (c, payload)"
    and "0 \<le> unix_of now" and "unix_of now < 2 ^ 62" and "cl_Exp c < 2 ^ 62" and "cl_Exp c - cl_Iat c \<le> 9223372036"
  shows "EncodeToken key payload = Inr token
    \<and> (\<exists>ms. UnmarshalStrict payload startFields = Inr ms \<and> distinct (map fst ms) \<and> set (map fst ms) = set startFields)
    \<and> ValidateCheckoutID (cl_CheckoutID c) = Inr () \<and> ValidatePlanID (cl_PlanID c) = Inr () \<and> return_url ul (cl_ReturnURL c)
    \<and> cl_Iat c < cl_Exp c \<and> cl_Exp c - cl_Iat c \<le> 900 \<and> cl_Iat c \<le> unix_of now + 300 \<and> unix_of now \<le> cl_Exp c + 300"
proof -
  from assms(1) have d: "DecodeAndVerify key token = Inr payload" and p: "ParseStartClaims ul payload = Inr c"
    and l: "ValidateTokenLifetime (cl_Iat c) (cl_Exp c) now = Inr ()"
    by (auto simp: ParseStartToken_def bindR_eq_Inr)
  from d have "EncodeToken key payload = Inr token" by (simp add: DecodeAndVerify_iff)
  moreover from l have "cl_Iat c < cl_Exp c \<and> cl_Exp c - cl_Iat c \<le> 900 \<and> cl_Iat c \<le> unix_of now + 300 \<and> unix_of now \<le> cl_Exp c + 300"
    using ValidateTokenLifetime_iff [OF assms(2,3) ParseStartClaims_sound(5) [OF p] assms(4,5)] by simp
  ultimately show ?thesis using ParseStartClaims_sound(1-4) [OF p] by blast
qed

theorem start_token_sound_witness:
  "\<exists>token payload. ParseStartToken sample_urllib [] token (1767225600 * second) = Inr (sample_claims, payload)
     \<and> return_url sample_urllib (cl_ReturnURL sample_claims) \<and> cl_Exp sample_claims - cl_Iat sample_claims \<le> 900"
proof -
  obtain token payload where t: "ParseStartToken sample_urllib [] token (1767225600 * second) = Inr (sample_claims, payload)"
    using sample_start by blast
  have "unix_of (1767225600 * second) = 1767225600" by code_simp
  with start_token_sound [OF t] t show ?thesis by (auto simp: sample_claims_def)
qed

end
