(* ===== verification/Transition.thy ===== *)
theory Transition
  imports ProtoTypes
begin

text \<open>
  \<^verbatim>\<open>internal/engine/transition.go\<close>: the pure decision from an authoritative observation to the next
  protocol state of a subscription.  \<open>Decide\<close> is translated branch by branch with its helpers; the
  lemmas give its functional behaviour by cases and what every decision has in common.
\<close>

section \<open>The decision function\<close>

record observation =
  ob_EventType :: string
  ob_Status :: string
  ob_PlanID :: string
  ob_PeriodStart :: gotime
  ob_PeriodEnd :: gotime
  ob_CancelAtPeriodEnd :: bool
  ob_ImmediateExpire :: bool

definition zero_observation :: observation where
  "zero_observation = \<lparr>ob_EventType = [], ob_Status = [], ob_PlanID = [], ob_PeriodStart = zero_time,
     ob_PeriodEnd = zero_time, ob_CancelAtPeriodEnd = False, ob_ImmediateExpire = False\<rparr>"

record decision =
  d_Noop :: bool
  d_EventType :: string
  d_Next :: subscription
  d_CreateExpire :: bool
  d_CancelExpire :: bool
  d_CreateRenew :: bool
  d_CancelRenew :: bool

definition zero_decision :: decision where
  "zero_decision = \<lparr>d_Noop = False, d_EventType = [], d_Next = zero_subscription, d_CreateExpire = False,
     d_CancelExpire = False, d_CreateRenew = False, d_CancelRenew = False\<rparr>"

definition noop :: decision where
  "noop = zero_decision\<lparr>d_Noop := True\<rparr>"

definition samePeriod :: "subscription \<Rightarrow> subscription \<Rightarrow> bool" where
  "samePeriod a b \<longleftrightarrow> s_CurrentPeriodStart a = s_CurrentPeriodStart b \<and> s_CurrentPeriodEnd a = s_CurrentPeriodEnd b"

definition expire :: "subscription \<Rightarrow> subscription \<Rightarrow> gotime \<Rightarrow> bool \<Rightarrow> gerr + decision" where
  "expire current nxt now setCanceledAt =
     (if s_Status current = StatusExpired then Inr noop
      else let nxt = nxt\<lparr>s_Status := StatusExpired, s_CancelAtPeriodEnd := False,
                 s_StateVersion := wrap64 (s_StateVersion current + 1)\<rparr>;
               nxt = (if setCanceledAt \<and> s_CanceledAt current = None then nxt\<lparr>s_CanceledAt := Some now\<rparr> else nxt)
           in bindR (ValidateEventStatus EventExpired (s_Status nxt) (s_CancelAtPeriodEnd nxt)) (\<lambda>_.
              Inr (zero_decision\<lparr>d_EventType := EventExpired, d_Next := nxt, d_CancelExpire := True,
                d_CancelRenew := True\<rparr>)))"

definition cancelAtPeriodEnd :: "subscription \<Rightarrow> subscription \<Rightarrow> gotime \<Rightarrow> gerr + decision" where
  "cancelAtPeriodEnd current nxt now =
     (if s_Status current = StatusCanceled then Inr noop
      else if s_Status current = StatusExpired then Inr noop
      else let nxt = nxt\<lparr>s_Status := StatusCanceled, s_CancelAtPeriodEnd := True,
                 s_StateVersion := wrap64 (s_StateVersion current + 1), s_CanceledAt := Some now\<rparr>
           in bindR (ValidateEventStatus EventCanceled (s_Status nxt) (s_CancelAtPeriodEnd nxt)) (\<lambda>_.
              Inr (zero_decision\<lparr>d_EventType := EventCanceled, d_Next := nxt, d_CreateExpire := True,
                d_CancelRenew := True\<rparr>)))"

definition pastDue :: "subscription \<Rightarrow> subscription \<Rightarrow> gotime \<Rightarrow> gerr + decision" where
  "pastDue current nxt now =
     (if s_Status current = StatusPastDue then Inr noop
      else let nxt = nxt\<lparr>s_Status := StatusPastDue, s_CancelAtPeriodEnd := False,
                 s_StateVersion := wrap64 (s_StateVersion current + 1)\<rparr>;
               nxt = (if s_PastDueSince nxt = None then nxt\<lparr>s_PastDueSince := Some now\<rparr> else nxt)
           in bindR (ValidateEventStatus EventPastDue (s_Status nxt) (s_CancelAtPeriodEnd nxt)) (\<lambda>_.
              Inr (zero_decision\<lparr>d_EventType := EventPastDue, d_Next := nxt\<rparr>)))"

definition activateOrRenew :: "subscription \<Rightarrow> subscription \<Rightarrow> string \<Rightarrow> gotime \<Rightarrow> gerr + decision" where
  "activateOrRenew current nxt status0 now =
     (let known = (1 \<le> s_StateVersion current \<and> s_Status current \<noteq> []);
          event = (if known then EventRenewed else EventActivated);
          status = (if known then StatusActive else status0)
      in if s_Status current = status \<and> samePeriod current nxt \<and> s_PlanID current = s_PlanID nxt
            \<and> \<not> s_CancelAtPeriodEnd current
         then Inr noop
         else if s_Status current = StatusCanceled \<and> event \<noteq> EventRenewed then Inr noop
         else let nxt = nxt\<lparr>s_Status := status, s_CancelAtPeriodEnd := False,
                    s_StateVersion := wrap64 (s_StateVersion current + 1)\<rparr>;
                  event = (if s_StateVersion nxt = 1 then EventActivated else event);
                  nxt = (if event = EventRenewed
                         then nxt\<lparr>s_PastDueSince := None, s_CanceledAt := None,
                                s_AutomaticChargingBlocked := False, s_ChargingBlockReason := None\<rparr>
                         else nxt);
                  adyen = (s_ProcessorFamily nxt = ProcessorAdyen)
              in bindR (ValidateEventStatus event (s_Status nxt) (s_CancelAtPeriodEnd nxt)) (\<lambda>_.
                 Inr (zero_decision\<lparr>d_EventType := event, d_Next := nxt,
                   d_CancelExpire := (event = EventRenewed),
                   d_CreateRenew := (adyen \<and> event = EventRenewed \<or> event = EventActivated \<and> adyen)\<rparr>)))"

text \<open>The candidate next row: the observed plan and period over the current row.\<close>

definition candidate :: "subscription \<Rightarrow> observation \<Rightarrow> gotime \<Rightarrow> subscription" where
  "candidate current obs now =
     (let nxt = current\<lparr>s_StateChangedAt := now, s_UpdatedAt := now\<rparr>;
          nxt = (if ob_PlanID obs \<noteq> [] then nxt\<lparr>s_PlanID := ob_PlanID obs\<rparr> else nxt);
          nxt = (if \<not> IsZero (ob_PeriodStart obs)
                 then nxt\<lparr>s_CurrentPeriodStart := TruncateUTC (ob_PeriodStart obs)\<rparr> else nxt)
      in (if \<not> IsZero (ob_PeriodEnd obs)
          then nxt\<lparr>s_CurrentPeriodEnd := TruncateUTC (ob_PeriodEnd obs)\<rparr> else nxt))"

definition planChange :: "subscription \<Rightarrow> subscription \<Rightarrow> gerr + decision" where
  "planChange current nxt =
     (if s_Status current \<noteq> StatusActive then Inr noop
      else if s_PlanID current = s_PlanID nxt \<and> samePeriod current nxt then Inr noop
      else let nxt = nxt\<lparr>s_Status := StatusActive, s_CancelAtPeriodEnd := False,
                 s_StateVersion := wrap64 (s_StateVersion current + 1)\<rparr>
           in bindR (ValidateEventStatus EventPlanChanged (s_Status nxt) (s_CancelAtPeriodEnd nxt)) (\<lambda>_.
              Inr (zero_decision\<lparr>d_EventType := EventPlanChanged, d_Next := nxt\<rparr>)))"

definition Decide :: "subscription \<Rightarrow> observation \<Rightarrow> gotime \<Rightarrow> gerr + decision" where
  "Decide current obs now0 =
     (let now = TruncateUTC now0
      in if s_Status current = StatusExpired then Inr noop
         else let nxt = candidate current obs now
         in if \<not> s_CurrentPeriodStart nxt < s_CurrentPeriodEnd nxt then Inl ErrUnorderedPeriod
         else if ob_ImmediateExpire obs \<or> ob_Status obs = StatusExpired
         then expire current nxt now (ob_ImmediateExpire obs \<and> s_Status current \<noteq> StatusCanceled)
         else if ob_EventType obs = EventPlanChanged
              \<or> (ob_PlanID obs \<noteq> [] \<and> ob_PlanID obs \<noteq> s_PlanID current \<and> ob_Status obs = StatusActive)
         then planChange current nxt
         else if ob_Status obs = StatusCanceled \<or> ob_CancelAtPeriodEnd obs
         then cancelAtPeriodEnd current nxt now
         else if ob_Status obs = StatusPastDue then pastDue current nxt now
         else if ob_Status obs = StatusActive \<or> ob_Status obs = StatusTrialing
         then activateOrRenew current nxt (ob_Status obs) now
         else Inr noop)"

definition FirstActivation ::
  "checkout \<Rightarrow> string \<Rightarrow> string \<Rightarrow> gotime \<Rightarrow> gotime \<Rightarrow> gotime \<Rightarrow> string option \<Rightarrow> string option \<Rightarrow> string option
     \<Rightarrow> string option \<Rightarrow> subscription" where
  "FirstActivation co subRef status periodStart periodEnd now processorCustomer processorSub initialPayment shopper =
     zero_subscription\<lparr>
       s_SubscriptionRef := subRef, s_CheckoutID := c_CheckoutID co, s_PlanID := c_PlanID co,
       s_Status := status, s_StateVersion := 1, s_ProcessorFamily := c_ProcessorFamily co,
       s_ProcessorCustomerID := processorCustomer, s_ProcessorSubscriptionID := processorSub,
       s_ProcessorInitialPaymentID := initialPayment, s_ProcessorShopperReference := shopper,
       s_CurrentPeriodStart := TruncateUTC periodStart, s_CurrentPeriodEnd := TruncateUTC periodEnd,
       s_CancelAtPeriodEnd := False, s_StateChangedAt := TruncateUTC now\<rparr>"

section \<open>Behaviour by branch\<close>

lemma pairs_simps [simp]:
  "ValidateEventStatus EventExpired StatusExpired False = Inr ()"
  "ValidateEventStatus EventCanceled StatusCanceled True = Inr ()"
  "ValidateEventStatus EventPastDue StatusPastDue False = Inr ()"
  "ValidateEventStatus EventPlanChanged StatusActive False = Inr ()"
  "ValidateEventStatus EventRenewed StatusActive False = Inr ()"
  "ValidateEventStatus EventActivated StatusActive False = Inr ()"
  "ValidateEventStatus EventActivated StatusTrialing False = Inr ()"
  by (simp_all add: ValidateEventStatus_iff allowed_pairs_def)

lemma noop_simps [simp]: "d_Noop noop" "d_Noop (zero_decision) = False"
  by (simp_all add: noop_def zero_decision_def)

lemma candidate_frame [simp]:
  "s_SubscriptionRef (candidate c ob now) = s_SubscriptionRef c"
  "s_CheckoutID (candidate c ob now) = s_CheckoutID c"
  "s_Status (candidate c ob now) = s_Status c"
  "s_StateVersion (candidate c ob now) = s_StateVersion c"
  "s_ProcessorFamily (candidate c ob now) = s_ProcessorFamily c"
  "s_ProcessorCustomerID (candidate c ob now) = s_ProcessorCustomerID c"
  "s_ProcessorSubscriptionID (candidate c ob now) = s_ProcessorSubscriptionID c"
  "s_ProcessorInitialPaymentID (candidate c ob now) = s_ProcessorInitialPaymentID c"
  "s_ProcessorShopperReference (candidate c ob now) = s_ProcessorShopperReference c"
  "s_CancelAtPeriodEnd (candidate c ob now) = s_CancelAtPeriodEnd c"
  "s_PastDueSince (candidate c ob now) = s_PastDueSince c"
  "s_CanceledAt (candidate c ob now) = s_CanceledAt c"
  "s_AutomaticChargingBlocked (candidate c ob now) = s_AutomaticChargingBlocked c"
  "s_ChargingBlockReason (candidate c ob now) = s_ChargingBlockReason c"
  "s_StateChangedAt (candidate c ob now) = now"
  "s_PaymentMethodCiphertext (candidate c ob now) = s_PaymentMethodCiphertext c"
  "s_PaymentMethodNonce (candidate c ob now) = s_PaymentMethodNonce c"
  "s_PaymentMethodKeyVersion (candidate c ob now) = s_PaymentMethodKeyVersion c"
  by (simp_all add: candidate_def Let_def)

lemma candidate_period:
  "s_CurrentPeriodStart (candidate c ob now)
     = (if IsZero (ob_PeriodStart ob) then s_CurrentPeriodStart c else TruncateUTC (ob_PeriodStart ob))"
  "s_CurrentPeriodEnd (candidate c ob now)
     = (if IsZero (ob_PeriodEnd ob) then s_CurrentPeriodEnd c else TruncateUTC (ob_PeriodEnd ob))"
  "s_PlanID (candidate c ob now) = (if ob_PlanID ob = [] then s_PlanID c else ob_PlanID ob)"
  by (simp_all add: candidate_def Let_def)

lemmas branch_defs = expire_def cancelAtPeriodEnd_def pastDue_def activateOrRenew_def planChange_def

lemma Decide_expired: "s_Status c = StatusExpired \<Longrightarrow> Decide c ob now = Inr noop"
  by (simp add: Decide_def)

text \<open>A period is checked before any branch is taken.\<close>

definition periods_ordered :: "subscription \<Rightarrow> observation \<Rightarrow> bool" where
  "periods_ordered c ob \<longleftrightarrow>
     s_CurrentPeriodStart (candidate c ob 0) < s_CurrentPeriodEnd (candidate c ob 0)"

lemma periods_ordered_candidate:
  "s_CurrentPeriodStart (candidate c ob now) < s_CurrentPeriodEnd (candidate c ob now) \<longleftrightarrow> periods_ordered c ob"
  by (simp add: periods_ordered_def candidate_period)

lemma Decide_unordered:
  "s_Status c \<noteq> StatusExpired \<Longrightarrow> \<not> periods_ordered c ob \<Longrightarrow> Decide c ob now = Inl ErrUnorderedPeriod"
  by (simp add: Decide_def Let_def periods_ordered_candidate)

text \<open>
  Every decision that is not a no-op proposes the candidate row with a status, flag, version and
  bookkeeping of its own, under an event that is allowed for that status.
\<close>

definition same_identity :: "subscription \<Rightarrow> subscription \<Rightarrow> bool" where
  "same_identity a b \<longleftrightarrow>
     s_SubscriptionRef a = s_SubscriptionRef b \<and> s_CheckoutID a = s_CheckoutID b
     \<and> s_ProcessorFamily a = s_ProcessorFamily b \<and> s_ProcessorCustomerID a = s_ProcessorCustomerID b
     \<and> s_ProcessorSubscriptionID a = s_ProcessorSubscriptionID b
     \<and> s_ProcessorInitialPaymentID a = s_ProcessorInitialPaymentID b
     \<and> s_ProcessorShopperReference a = s_ProcessorShopperReference b
     \<and> s_PaymentMethodCiphertext a = s_PaymentMethodCiphertext b
     \<and> s_PaymentMethodNonce a = s_PaymentMethodNonce b
     \<and> s_PaymentMethodKeyVersion a = s_PaymentMethodKeyVersion b"

definition extends_candidate :: "subscription \<Rightarrow> subscription \<Rightarrow> decision \<Rightarrow> bool" where
  "extends_candidate c nxt d \<longleftrightarrow>
     (d_EventType d, s_Status (d_Next d), s_CancelAtPeriodEnd (d_Next d)) \<in> set allowed_pairs
     \<and> s_StateVersion (d_Next d) = wrap64 (s_StateVersion c + 1)
     \<and> same_identity (d_Next d) nxt
     \<and> samePeriod (d_Next d) nxt \<and> s_PlanID (d_Next d) = s_PlanID nxt
     \<and> s_StateChangedAt (d_Next d) = s_StateChangedAt nxt"

lemma extends_candidateI:
  assumes "(e, s_Status n, s_CancelAtPeriodEnd n) \<in> set allowed_pairs"
    and "s_StateVersion n = wrap64 (s_StateVersion c + 1)"
    and "same_identity n nxt" and "samePeriod n nxt"
    and "s_PlanID n = s_PlanID nxt" and "s_StateChangedAt n = s_StateChangedAt nxt"
    and "d_EventType d = e" and "d_Next d = n"
  shows "extends_candidate c nxt d"
  using assms by (simp add: extends_candidate_def)

lemma expire_extends:
  "expire c nxt now f = Inr d \<Longrightarrow> \<not> d_Noop d \<Longrightarrow> extends_candidate c nxt d"
  apply (simp add: expire_def Let_def split: if_split_asm)
  apply (erule subst [where t = d], rule extends_candidateI [OF _ _ _ _ _ _ refl refl];
      simp add: allowed_pairs_def same_identity_def samePeriod_def)+
  done

lemma cancel_extends:
  "cancelAtPeriodEnd c nxt now = Inr d \<Longrightarrow> \<not> d_Noop d \<Longrightarrow> extends_candidate c nxt d"
  apply (simp add: cancelAtPeriodEnd_def Let_def split: if_split_asm)
  apply (erule subst [where t = d], rule extends_candidateI [OF _ _ _ _ _ _ refl refl];
      simp add: allowed_pairs_def same_identity_def samePeriod_def)+
  done

lemma pastDue_extends:
  "pastDue c nxt now = Inr d \<Longrightarrow> \<not> d_Noop d \<Longrightarrow> extends_candidate c nxt d"
  apply (simp add: pastDue_def Let_def split: if_split_asm)
  apply (erule subst [where t = d], rule extends_candidateI [OF _ _ _ _ _ _ refl refl];
      simp add: allowed_pairs_def same_identity_def samePeriod_def)+
  done

lemma planChange_extends:
  "planChange c nxt = Inr d \<Longrightarrow> \<not> d_Noop d \<Longrightarrow> extends_candidate c nxt d"
  apply (simp add: planChange_def Let_def split: if_split_asm)
  apply (erule subst [where t = d], rule extends_candidateI [OF _ _ _ _ _ _ refl refl];
      simp add: allowed_pairs_def same_identity_def samePeriod_def)+
  done


text \<open>\<open>activateOrRenew\<close> in one equation: the event it reports, the status it sets, the bookkeeping it clears.\<close>

definition known_row :: "subscription \<Rightarrow> bool" where
  "known_row c \<longleftrightarrow> 1 \<le> s_StateVersion c \<and> s_Status c \<noteq> []"

definition activation_event :: "subscription \<Rightarrow> string" where
  "activation_event c = (if known_row c \<and> wrap64 (s_StateVersion c + 1) \<noteq> 1 then EventRenewed else EventActivated)"

definition activation_status :: "subscription \<Rightarrow> string \<Rightarrow> string" where
  "activation_status c st = (if known_row c then StatusActive else st)"

definition cleared :: "subscription \<Rightarrow> subscription" where
  "cleared n = n\<lparr>s_PastDueSince := None, s_CanceledAt := None, s_AutomaticChargingBlocked := False,
     s_ChargingBlockReason := None\<rparr>"

lemma activateOrRenew_Inr:
  assumes "activateOrRenew c nxt st now = Inr d" and "\<not> d_Noop d"
  defines "n0 \<equiv> nxt\<lparr>s_Status := activation_status c st, s_CancelAtPeriodEnd := False,
      s_StateVersion := wrap64 (s_StateVersion c + 1)\<rparr>"
  shows "d_EventType d = activation_event c
    \<and> d_Next d = (if activation_event c = EventRenewed then cleared n0 else n0)
    \<and> (activation_event c, activation_status c st, False) \<in> set allowed_pairs"
  using assms(1,2)
  apply (simp add: activateOrRenew_def Let_def n0_def activation_event_def activation_status_def known_row_def
      cleared_def bindR_eq_Inr ValidateEventStatus_iff
      del: pairs_simps split: if_split_asm)
  apply auto
  done

lemma cleared_frame [simp]:
  "same_identity (cleared n) m = same_identity n m" "samePeriod (cleared n) m = samePeriod n m"
  "s_Status (cleared n) = s_Status n" "s_CancelAtPeriodEnd (cleared n) = s_CancelAtPeriodEnd n"
  "s_StateVersion (cleared n) = s_StateVersion n" "s_PlanID (cleared n) = s_PlanID n"
  "s_StateChangedAt (cleared n) = s_StateChangedAt n"
  "s_PastDueSince (cleared n) = None" "s_CanceledAt (cleared n) = None"
  "s_AutomaticChargingBlocked (cleared n) = False" "s_ChargingBlockReason (cleared n) = None"
  by (simp_all add: cleared_def same_identity_def samePeriod_def)

lemma activate_extends:
  assumes "activateOrRenew c nxt st now = Inr d" and "\<not> d_Noop d"
  shows "extends_candidate c nxt d"
  using activateOrRenew_Inr [OF assms]
  by (cases "activation_event c = EventRenewed")
    (simp_all add: extends_candidate_def, simp_all add: same_identity_def samePeriod_def)

text \<open>The branch a decision took, with the guard of the switch that led there.\<close>

lemma Decide_branches:
  assumes "Decide c ob now = Inr d" and "\<not> d_Noop d"
  defines "nxt \<equiv> candidate c ob (TruncateUTC now)"
  obtains "expire c nxt (TruncateUTC now) (ob_ImmediateExpire ob \<and> s_Status c \<noteq> StatusCanceled) = Inr d"
      "ob_ImmediateExpire ob \<or> ob_Status ob = StatusExpired"
    | "planChange c nxt = Inr d" "\<not> ob_ImmediateExpire ob" "ob_Status ob \<noteq> StatusExpired"
      "ob_EventType ob = EventPlanChanged \<or>
        (ob_PlanID ob \<noteq> [] \<and> ob_PlanID ob \<noteq> s_PlanID c \<and> ob_Status ob = StatusActive)"
    | "cancelAtPeriodEnd c nxt (TruncateUTC now) = Inr d"
      "ob_Status ob = StatusCanceled \<or> ob_CancelAtPeriodEnd ob" "ob_EventType ob \<noteq> EventPlanChanged"
      "\<not> ob_ImmediateExpire ob" "ob_Status ob \<noteq> StatusExpired"
    | "pastDue c nxt (TruncateUTC now) = Inr d" "ob_Status ob = StatusPastDue" "\<not> ob_CancelAtPeriodEnd ob"
      "\<not> ob_ImmediateExpire ob"
    | "activateOrRenew c nxt (ob_Status ob) (TruncateUTC now) = Inr d"
      "ob_Status ob = StatusActive \<or> ob_Status ob = StatusTrialing" "\<not> ob_CancelAtPeriodEnd ob"
      "\<not> ob_ImmediateExpire ob"
      "ob_EventType ob \<noteq> EventPlanChanged"
      "ob_Status ob = StatusActive \<Longrightarrow> ob_PlanID ob = [] \<or> ob_PlanID ob = s_PlanID c"
  using assms(1,2) unfolding Decide_def Let_def nxt_def
  by (simp split: if_split_asm) blast+

lemma Decide_live:
  assumes "Decide c ob now = Inr d" and "\<not> d_Noop d"
  shows "s_Status c \<noteq> StatusExpired" and "periods_ordered c ob"
proof -
  show *: "s_Status c \<noteq> StatusExpired" using assms Decide_expired [of c ob now] by auto
  show "periods_ordered c ob" using assms Decide_unordered [OF *] by fastforce
qed

lemma Decide_extends:
  assumes "Decide c ob now = Inr d" and "\<not> d_Noop d"
  shows "extends_candidate c (candidate c ob (TruncateUTC now)) d"
  using assms
  by (rule Decide_branches)
    (auto intro: expire_extends planChange_extends cancel_extends pastDue_extends activate_extends simp: assms(2))

lemma Decide_identity:
  assumes "Decide c ob now = Inr d" and "\<not> d_Noop d"
  shows "same_identity (d_Next d) c"
  using Decide_extends [OF assms] by (simp add: extends_candidate_def same_identity_def)

lemma Decide_ordered:
  assumes "Decide c ob now = Inr d" and "\<not> d_Noop d"
  shows "s_CurrentPeriodStart (d_Next d) < s_CurrentPeriodEnd (d_Next d)"
  using Decide_extends [OF assms] Decide_live(2) [OF assms] periods_ordered_candidate [of c ob "TruncateUTC now"]
  by (simp add: extends_candidate_def samePeriod_def)

section \<open>What each branch leaves behind\<close>

text \<open>The row a branch proposes: a status with its flag and the next version over the candidate.\<close>

definition moved :: "subscription \<Rightarrow> subscription \<Rightarrow> string \<Rightarrow> bool \<Rightarrow> subscription" where
  "moved c nxt st flag = nxt\<lparr>s_Status := st, s_CancelAtPeriodEnd := flag,
     s_StateVersion := wrap64 (s_StateVersion c + 1)\<rparr>"

lemma moved_frame [simp]:
  "s_Status (moved c n st flag) = st" "s_CancelAtPeriodEnd (moved c n st flag) = flag"
  "s_StateVersion (moved c n st flag) = wrap64 (s_StateVersion c + 1)"
  "same_identity (moved c n st flag) m = same_identity n m"
  "samePeriod (moved c n st flag) m = samePeriod n m"
  "s_PlanID (moved c n st flag) = s_PlanID n"
  "s_PastDueSince (moved c n st flag) = s_PastDueSince n"
  "s_CanceledAt (moved c n st flag) = s_CanceledAt n"
  "s_AutomaticChargingBlocked (moved c n st flag) = s_AutomaticChargingBlocked n"
  "s_ChargingBlockReason (moved c n st flag) = s_ChargingBlockReason n"
  by (simp_all add: moved_def same_identity_def samePeriod_def)

lemma expire_Inr:
  assumes "expire c nxt now f = Inr d" and "\<not> d_Noop d"
  shows "d_EventType d = EventExpired
    \<and> d_Next d = (if f \<and> s_CanceledAt c = None then (moved c nxt StatusExpired False)\<lparr>s_CanceledAt := Some now\<rparr>
        else moved c nxt StatusExpired False)"
  using assms
  apply (simp add: expire_def Let_def moved_def split: if_split_asm)
    apply (erule subst [where t = d], clarsimp)+
  done

lemma cancel_Inr:
  assumes "cancelAtPeriodEnd c nxt now = Inr d" and "\<not> d_Noop d"
  shows "d_EventType d = EventCanceled \<and> s_Status c \<noteq> StatusCanceled
    \<and> d_Next d = (moved c nxt StatusCanceled True)\<lparr>s_CanceledAt := Some now\<rparr>"
  using assms
  apply (simp add: cancelAtPeriodEnd_def Let_def moved_def split: if_split_asm)
  apply (erule subst [where t = d], simp)
  done

lemma pastDue_Inr:
  assumes "pastDue c nxt now = Inr d" and "\<not> d_Noop d"
  shows "d_EventType d = EventPastDue \<and> s_Status c \<noteq> StatusPastDue
    \<and> d_Next d = (if s_PastDueSince nxt = None
        then (moved c nxt StatusPastDue False)\<lparr>s_PastDueSince := Some now\<rparr>
        else moved c nxt StatusPastDue False)"
  using assms
  apply (simp add: pastDue_def Let_def moved_def split: if_split_asm)
   apply (erule subst [where t = d], clarsimp)+
  done

lemma planChange_Inr:
  assumes "planChange c nxt = Inr d" and "\<not> d_Noop d"
  shows "d_EventType d = EventPlanChanged \<and> s_Status c = StatusActive
    \<and> \<not> (s_PlanID c = s_PlanID nxt \<and> samePeriod c nxt)
    \<and> d_Next d = moved c nxt StatusActive False"
  using assms
  apply (simp add: planChange_def Let_def moved_def split: if_split_asm)
  apply (erule subst [where t = d], simp)
  done

lemma activate_Inr:
  assumes "activateOrRenew c nxt st now = Inr d" and "\<not> d_Noop d"
  shows "d_EventType d = activation_event c
    \<and> d_Next d = (if activation_event c = EventRenewed then cleared (moved c nxt (activation_status c st) False)
        else moved c nxt (activation_status c st) False)
    \<and> \<not> (s_Status c = activation_status c st \<and> samePeriod c nxt \<and> s_PlanID c = s_PlanID nxt
        \<and> \<not> s_CancelAtPeriodEnd c)"
proof -
  have "\<not> (s_Status c = activation_status c st \<and> samePeriod c nxt \<and> s_PlanID c = s_PlanID nxt
        \<and> \<not> s_CancelAtPeriodEnd c)"
  proof
    assume *: "s_Status c = activation_status c st \<and> samePeriod c nxt \<and> s_PlanID c = s_PlanID nxt
        \<and> \<not> s_CancelAtPeriodEnd c"
    then have "activateOrRenew c nxt st now = Inr noop"
      by (simp add: activateOrRenew_def Let_def activation_status_def known_row_def)
    with assms show False by auto
  qed
  with activateOrRenew_Inr [OF assms] show ?thesis by (simp add: moved_def)
qed

section \<open>The row checks of the schema\<close>

text \<open>
  The \<^verbatim>\<open>CHECK\<close> constraints of \<^verbatim>\<open>sb_subscriptions\<close> (\<^verbatim>\<open>migrations/001_init.sql\<close>) that relate what the state
  machine reads: status, version, period, processor and charging block.  They are what the lemmas here assume of
  a row; all the constraints of the table are \<open>sub_accepts\<close> of theory \<open>Postgres\<close>, and theory \<open>Rows\<close> decides when a
  decision keeps them.
\<close>

definition row_ok :: "subscription \<Rightarrow> bool" where
  "row_ok s \<longleftrightarrow>
     s_Status s \<in> {StatusActive, StatusTrialing, StatusPastDue, StatusCanceled, StatusExpired}
     \<and> 1 \<le> s_StateVersion s
     \<and> s_CurrentPeriodStart s < s_CurrentPeriodEnd s
     \<and> (s_Status s = StatusCanceled) = s_CancelAtPeriodEnd s
     \<and> (s_ProcessorFamily s = ProcessorAdyen) = (s_ProcessorShopperReference s \<noteq> None)
     \<and> (s_AutomaticChargingBlocked s \<longrightarrow> s_Status s = StatusPastDue)
     \<and> s_AutomaticChargingBlocked s = (s_ChargingBlockReason s \<noteq> None)"

lemma row_ok_known:
  "row_ok c \<Longrightarrow> s_StateVersion c < 2 ^ 63 - 1 \<Longrightarrow>
   known_row c \<and> wrap64 (s_StateVersion c + 1) = s_StateVersion c + 1 \<and> activation_event c = EventRenewed
   \<and> activation_status c st = StatusActive"
  by (auto simp: row_ok_def known_row_def activation_event_def activation_status_def wrap64_id)

text \<open>The five shapes of an effective decision on a row the schema accepts.\<close>

lemma Decide_shapes:
  assumes d: "Decide c ob now = Inr d" "\<not> d_Noop d" and ok: "row_ok c" and v: "s_StateVersion c < 2 ^ 63 - 1"
  defines "n \<equiv> candidate c ob (TruncateUTC now)" and "t \<equiv> TruncateUTC now"
  obtains (expired) "d_EventType d = EventExpired"
      "d_Next d = (if ob_ImmediateExpire ob \<and> s_Status c \<noteq> StatusCanceled \<and> s_CanceledAt c = None
         then (moved c n StatusExpired False)\<lparr>s_CanceledAt := Some t\<rparr> else moved c n StatusExpired False)"
    | (planned) "d_EventType d = EventPlanChanged" "s_Status c = StatusActive"
      "d_Next d = moved c n StatusActive False"
    | (canceled) "d_EventType d = EventCanceled" "s_Status c \<noteq> StatusCanceled"
      "d_Next d = (moved c n StatusCanceled True)\<lparr>s_CanceledAt := Some t\<rparr>"
    | (past_due) "d_EventType d = EventPastDue" "s_Status c \<noteq> StatusPastDue"
      "d_Next d = (if s_PastDueSince c = None then (moved c n StatusPastDue False)\<lparr>s_PastDueSince := Some t\<rparr>
         else moved c n StatusPastDue False)"
    | (renewed) "d_EventType d = EventRenewed" "d_Next d = cleared (moved c n StatusActive False)"
  using d
proof (cases rule: Decide_branches)
  case 1
  with expire_Inr [OF _ d(2)] show ?thesis by (intro expired) (auto simp: n_def t_def)
next
  case 2
  with planChange_Inr [OF _ d(2)] show ?thesis by (intro planned) (auto simp: n_def)
next
  case 3
  with cancel_Inr [OF _ d(2)] show ?thesis by (intro canceled) (auto simp: n_def t_def)
next
  case 4
  with pastDue_Inr [OF _ d(2)] show ?thesis by (intro past_due) (auto simp: n_def t_def)
next
  case 5
  with activate_Inr [OF _ d(2)] row_ok_known [OF ok v] show ?thesis
    by (intro renewed) (auto simp: n_def)
qed

section \<open>The subscription state machine\<close>

text \<open>
  The diagram of section 7.2 of \<^verbatim>\<open>SPEC.md\<close> over statuses and events; \<open>renew\<close> is the renewal of
  section 5.3.  \<open>late_failure\<close> is a step the diagram does not draw and the code takes: a payment
  failure observed on a subscription already set to cancel.
\<close>

inductive status_step :: "string \<Rightarrow> string \<Rightarrow> string \<Rightarrow> bool" where
  payment_failure: "s \<in> {StatusTrialing, StatusActive} \<Longrightarrow> status_step s EventPastDue StatusPastDue"
| recovery: "s \<in> {StatusPastDue, StatusTrialing} \<Longrightarrow> status_step s EventRenewed StatusActive"
| renew: "status_step StatusActive EventRenewed StatusActive"
| cancel: "s \<in> {StatusActive, StatusTrialing, StatusPastDue} \<Longrightarrow> status_step s EventCanceled StatusCanceled"
| reversal: "status_step StatusCanceled EventRenewed StatusActive"
| terminate: "s \<in> {StatusActive, StatusTrialing, StatusPastDue, StatusCanceled} \<Longrightarrow>
    status_step s EventExpired StatusExpired"
| plan: "status_step StatusActive EventPlanChanged StatusActive"
| late_failure: "status_step StatusCanceled EventPastDue StatusPastDue"

inductive_cases status_step_expiredE: "status_step StatusExpired e s"

lemma no_step_from_expired: "\<not> status_step StatusExpired e s"
  by (auto elim: status_step_expiredE)

lemma Decide_status_step:
  assumes "Decide c ob now = Inr d" "\<not> d_Noop d" "row_ok c" "s_StateVersion c < 2 ^ 63 - 1"
  shows "status_step (s_Status c) (d_EventType d) (s_Status (d_Next d))"
proof -
  have live: "s_Status c \<noteq> StatusExpired" using Decide_live(1) [OF assms(1,2)] .
  have st: "s_Status c \<in> {StatusActive, StatusTrialing, StatusPastDue, StatusCanceled, StatusExpired}"
    using assms(3) unfolding row_ok_def by blast
  show ?thesis
  proof (rule Decide_shapes [OF assms])
  qed (use live st in \<open>auto intro: status_step.intros\<close>)
qed

lemma Decide_row_ok_iff:
  assumes "Decide c ob now = Inr d" "\<not> d_Noop d" "row_ok c" "s_StateVersion c < 2 ^ 63 - 1"
  shows "row_ok (d_Next d) \<longleftrightarrow> (s_AutomaticChargingBlocked c \<longrightarrow> d_EventType d = EventRenewed)"
proof -
  have ord: "s_CurrentPeriodStart (d_Next d) < s_CurrentPeriodEnd (d_Next d)" using Decide_ordered [OF assms(1,2)] .
  have id: "same_identity (d_Next d) c" using Decide_identity [OF assms(1,2)] .
  have ver: "s_StateVersion (d_Next d) = s_StateVersion c + 1"
    using Decide_extends [OF assms(1,2)] row_ok_known [OF assms(3,4)] by (simp add: extends_candidate_def)
  have fam: "(s_ProcessorFamily (d_Next d) = ProcessorAdyen) = (s_ProcessorShopperReference (d_Next d) \<noteq> None)"
    using id assms(3) by (simp add: same_identity_def row_ok_def)
  show ?thesis
  proof (rule Decide_shapes [OF assms])
  qed (use ord ver fam assms(3) in \<open>auto simp: row_ok_def\<close>)
qed

section \<open>Replay and histories\<close>

lemma samePeriod_refl [simp]: "samePeriod a a" by (simp add: samePeriod_def)

text \<open>Observing the same thing again changes neither plan nor period of the row it led to.\<close>

lemma candidate_again:
  assumes "extends_candidate c (candidate c ob t) d"
  shows "samePeriod (d_Next d) (candidate (d_Next d) ob t')"
    and "s_PlanID (candidate (d_Next d) ob t') = s_PlanID (d_Next d)"
    and "periods_ordered (d_Next d) ob = periods_ordered c ob"
    and "ob_PlanID ob = [] \<or> ob_PlanID ob = s_PlanID (d_Next d)"
  using assms by (simp_all add: extends_candidate_def samePeriod_def candidate_period periods_ordered_def)

lemma branch_noops:
  "s_Status s = StatusCanceled \<Longrightarrow> cancelAtPeriodEnd s n t = Inr noop"
  "s_Status s = StatusPastDue \<Longrightarrow> pastDue s n t = Inr noop"
  "s_PlanID s = s_PlanID n \<Longrightarrow> samePeriod s n \<Longrightarrow> planChange s n = Inr noop"
  "s_Status s = activation_status s st \<Longrightarrow> samePeriod s n \<Longrightarrow> s_PlanID s = s_PlanID n \<Longrightarrow>
   \<not> s_CancelAtPeriodEnd s \<Longrightarrow> activateOrRenew s n st t = Inr noop"
  by (simp_all add: cancelAtPeriodEnd_def pastDue_def planChange_def activateOrRenew_def activation_status_def
      known_row_def Let_def)

lemma Decide_settled:
  assumes "samePeriod s (candidate s ob (TruncateUTC now))"
    and "s_PlanID (candidate s ob (TruncateUTC now)) = s_PlanID s"
    and ord: "periods_ordered s ob"
    and "s_Status s = StatusExpired
       \<or> \<not> ob_ImmediateExpire ob \<and> ob_Status ob \<noteq> StatusExpired
         \<and> (ob_EventType ob = EventPlanChanged
            \<or> (ob_PlanID ob = [] \<or> ob_PlanID ob = s_PlanID s)
              \<and> (if ob_Status ob = StatusCanceled \<or> ob_CancelAtPeriodEnd ob then s_Status s = StatusCanceled
                 else if ob_Status ob = StatusPastDue then s_Status s = StatusPastDue
                 else ob_Status ob \<in> {StatusActive, StatusTrialing}
                   \<and> s_Status s = activation_status s (ob_Status ob) \<and> \<not> s_CancelAtPeriodEnd s))"
  shows "Decide s ob now = Inr noop"
proof -
  define n where "n = candidate s ob (TruncateUTC now)"
  note noops = branch_noops(1,2)
    branch_noops(3) [OF assms(2) [folded n_def, symmetric] assms(1) [folded n_def]]
    branch_noops(4) [OF _ assms(1) [folded n_def] assms(2) [folded n_def, symmetric]]
  have "s_CurrentPeriodStart n < s_CurrentPeriodEnd n" using ord by (simp add: n_def periods_ordered_candidate)
  then show ?thesis
    using assms(4) unfolding Decide_def Let_def n_def [symmetric]
    by (elim disjE conjE; simp add: noops split: if_split_asm)
qed

lemma Decide_again:
  assumes "Decide c ob now = Inr d" "\<not> d_Noop d" "row_ok c" "s_StateVersion c < 2 ^ 63 - 1"
    and "\<not> (ob_Status ob = StatusActive \<and> ob_CancelAtPeriodEnd ob)"
  shows "Decide (d_Next d) ob now' = Inr noop"
proof -
  note again = candidate_again [OF Decide_extends [OF assms(1,2)]]
  have ord: "periods_ordered (d_Next d) ob" using again(3) Decide_live(2) [OF assms(1,2)] by simp
  have pos: "1 \<le> s_StateVersion c" using assms(3) by (simp add: row_ok_def)
  have ver: "known_row (d_Next d)" if "s_Status (d_Next d) \<noteq> []"
    using that Decide_extends [OF assms(1,2)] row_ok_known [OF assms(3,4)] pos
    by (simp add: extends_candidate_def known_row_def)
  note settled = Decide_settled [OF again(1,2) ord]
  from assms(1,2) show ?thesis
  proof (cases rule: Decide_branches)
    case 1
    with expire_Inr [OF 1(1) assms(2)] show ?thesis by (intro settled) auto
  next
    case 2
    with planChange_Inr [OF 2(1) assms(2)] ver assms(5) again(4) show ?thesis
      by (intro settled) (auto simp: activation_status_def)
  next
    case 3
    with cancel_Inr [OF 3(1) assms(2)] again(4) show ?thesis by (intro settled) auto
  next
    case 4
    with pastDue_Inr [OF 4(1) assms(2)] again(4) show ?thesis by (intro settled) auto
  next
    case 5
    with activate_Inr [OF 5(1) assms(2)] row_ok_known [OF assms(3,4)] ver again(4) show ?thesis
      by (intro settled) (auto simp: activation_status_def)
  qed
qed

text \<open>A stream of observations: the engine keeps the row on an error or a no-op and stores the next row otherwise.\<close>

definition absorb :: "subscription \<Rightarrow> observation \<times> gotime \<Rightarrow> subscription" where
  "absorb c p = (case Decide c (fst p) (snd p) of Inl _ \<Rightarrow> c | Inr d \<Rightarrow> if d_Noop d then c else d_Next d)"

definition some_step :: "string \<Rightarrow> string \<Rightarrow> bool" where
  "some_step s t \<longleftrightarrow> (\<exists>e. status_step s e t)"

definition history_inv :: "subscription \<Rightarrow> int \<Rightarrow> subscription \<Rightarrow> bool" where
  "history_inv c k s \<longleftrightarrow>
     row_ok s \<and> \<not> s_AutomaticChargingBlocked s \<and> same_identity s c
     \<and> s_StateVersion c \<le> s_StateVersion s \<and> s_StateVersion s \<le> s_StateVersion c + k
     \<and> some_step\<^sup>*\<^sup>* (s_Status c) (s_Status s) \<and> (s_Status c = StatusExpired \<longrightarrow> s = c)"

lemma Decide_unblocked:
  assumes "Decide c ob now = Inr d" "\<not> d_Noop d" "row_ok c" "s_StateVersion c < 2 ^ 63 - 1"
    "\<not> s_AutomaticChargingBlocked c"
  shows "\<not> s_AutomaticChargingBlocked (d_Next d)"
  by (rule Decide_shapes [OF assms(1-4)]) (use assms(5) in auto)

lemma absorb_inv:
  assumes "history_inv c k s" and "s_StateVersion s < 2 ^ 63 - 1"
  shows "history_inv c (k + 1) (absorb s p)"
proof (cases "\<exists>d. Decide s (fst p) (snd p) = Inr d \<and> \<not> d_Noop d")
  case False
  then have "absorb s p = s" by (auto simp: absorb_def split: sum.splits)
  with assms(1) show ?thesis by (simp add: history_inv_def)
next
  case True
  then obtain d where d: "Decide s (fst p) (snd p) = Inr d" "\<not> d_Noop d" by blast
  then have eq: "absorb s p = d_Next d" by (simp add: absorb_def)
  have ok: "row_ok s" and nb: "\<not> s_AutomaticChargingBlocked s" and id: "same_identity s c"
    using assms(1) by (simp_all add: history_inv_def)
  have ver: "s_StateVersion (d_Next d) = s_StateVersion s + 1"
    using Decide_extends [OF d] row_ok_known [OF ok assms(2)] by (simp add: extends_candidate_def)
  have live: "s_Status s \<noteq> StatusExpired" by (rule Decide_live(1) [OF d])
  have "some_step (s_Status s) (s_Status (d_Next d))"
    using Decide_status_step [OF d ok assms(2)] by (auto simp: some_step_def)
  moreover have "row_ok (d_Next d)" using Decide_row_ok_iff [OF d ok assms(2)] nb by simp
  moreover have "same_identity (d_Next d) c"
    using Decide_identity [OF d] id by (simp add: same_identity_def)
  ultimately show ?thesis
    using assms(1) ver live Decide_unblocked [OF d ok assms(2) nb]
    by (auto simp: eq history_inv_def intro: rtranclp.rtrancl_into_rtrancl)
qed

lemma history_foldl:
  "history_inv c k s \<Longrightarrow> s_StateVersion c + k + int (length ps) < 2 ^ 63 - 1 \<Longrightarrow>
   history_inv c (k + int (length ps)) (foldl absorb s ps)"
proof (induction ps arbitrary: s k)
  case Nil
  then show ?case by simp
next
  case (Cons p ps)
  have "s_StateVersion s < 2 ^ 63 - 1" using Cons.prems by (simp add: history_inv_def)
  from Cons.IH [OF absorb_inv [OF Cons.prems(1) this, of p]] Cons.prems(2)
  show ?case by (simp add: algebra_simps)
qed

lemma history_start: "row_ok c \<Longrightarrow> \<not> s_AutomaticChargingBlocked c \<Longrightarrow> history_inv c 0 c"
  by (simp add: history_inv_def same_identity_def)

lemma branch_errors [simp]:
  "expire c n t f \<noteq> Inl e" "cancelAtPeriodEnd c n t \<noteq> Inl e" "pastDue c n t \<noteq> Inl e" "planChange c n \<noteq> Inl e"
  by (simp_all add: expire_def cancelAtPeriodEnd_def pastDue_def planChange_def Let_def)

lemma activate_errors:
  "st = StatusActive \<or> st = StatusTrialing \<Longrightarrow> activateOrRenew c n st t \<noteq> Inl e"
  by (elim disjE; simp add: activateOrRenew_def Let_def)

lemma Decide_fails_iff:
  "Decide c ob now = Inl e \<longleftrightarrow> s_Status c \<noteq> StatusExpired \<and> \<not> periods_ordered c ob \<and> e = ErrUnorderedPeriod"
proof (cases "s_Status c = StatusExpired")
  case True
  then show ?thesis by (simp add: Decide_expired)
next
  case False
  show ?thesis
  proof (cases "periods_ordered c ob")
    case True
    with False have "Decide c ob now \<noteq> Inl e"
      unfolding Decide_def Let_def by (simp add: periods_ordered_candidate activate_errors)
    with True show ?thesis by simp
  next
    case unordered: False
    then show ?thesis using Decide_unordered [OF False] False by auto
  qed
qed

section \<open>Properties\<close>

text \<open>A row, and observations of it, on which the properties are evaluated.\<close>

definition sample_sub :: subscription where
  "sample_sub = zero_subscription\<lparr>s_SubscriptionRef := ''sub_a8f3c1d2'', s_CheckoutID := ''subchk_7f3a9c2e'',
     s_PlanID := ''pro'', s_Status := StatusActive, s_StateVersion := 1,
     s_ProcessorFamily := ProcessorStripe, s_CurrentPeriodStart := 0, s_CurrentPeriodEnd := 30 * second\<rparr>"

definition sample_failure :: observation where
  "sample_failure = zero_observation\<lparr>ob_Status := StatusPastDue\<rparr>"

definition sample_cancel :: observation where
  "sample_cancel = zero_observation\<lparr>ob_Status := StatusCanceled, ob_CancelAtPeriodEnd := True\<rparr>"

lemma sample_sub_ok: "row_ok sample_sub \<and> \<not> s_AutomaticChargingBlocked sample_sub \<and> s_StateVersion sample_sub = 1"
  by (simp add: sample_sub_def zero_subscription_def row_ok_def second_def)

lemma sample_failure_decides:
  "\<exists>d. Decide sample_sub sample_failure 0 = Inr d \<and> \<not> d_Noop d \<and> d_EventType d = EventPastDue
     \<and> s_StateVersion (d_Next d) = 2"
proof -
  have "case Decide sample_sub sample_failure 0 of Inl _ \<Rightarrow> False
    | Inr d \<Rightarrow> \<not> d_Noop d \<and> d_EventType d = EventPastDue \<and> s_StateVersion (d_Next d) = 2"
    by code_simp
  then show ?thesis by (auto split: sum.splits)
qed

text \<open>
  C2. Soundness of the decision: an effective decision is only taken on a row that has not expired,
  reports an event allowed for the status and flag it writes, advances the version by one (at Go's
  int64), stamps the row with the truncated clock, keeps everything that identifies the subscription
  and its payment method, takes its plan from the observation or the row, and writes a period whose
  end lies after its start.
\<close>

theorem Decide_sound:
  assumes "Decide c ob now = Inr d" and "\<not> d_Noop d"
  shows "s_Status c \<noteq> StatusExpired
    \<and> (d_EventType d, s_Status (d_Next d), s_CancelAtPeriodEnd (d_Next d)) \<in> set allowed_pairs
    \<and> s_StateVersion (d_Next d) = wrap64 (s_StateVersion c + 1)
    \<and> s_StateChangedAt (d_Next d) = TruncateUTC now
    \<and> same_identity (d_Next d) c
    \<and> s_PlanID (d_Next d) = (if ob_PlanID ob = [] then s_PlanID c else ob_PlanID ob)
    \<and> s_CurrentPeriodStart (d_Next d) < s_CurrentPeriodEnd (d_Next d)"
  using Decide_live [OF assms] Decide_extends [OF assms] Decide_identity [OF assms] Decide_ordered [OF assms]
  by (simp add: extends_candidate_def candidate_period)

theorem Decide_sound_witness:
  "\<exists>d. Decide sample_sub sample_failure 0 = Inr d \<and> \<not> d_Noop d \<and> same_identity (d_Next d) sample_sub
     \<and> s_StateVersion (d_Next d) = 2"
  using sample_failure_decides Decide_sound [of sample_sub sample_failure 0] by blast

text \<open>
  C4. Refinement of the specified state machine: on a row the schema accepts, every effective
  decision is a step of the diagram of \<^verbatim>\<open>SPEC.md\<close> 7.2 (with the one step \<open>late_failure\<close> the
  diagram lacks), under the event it reports.
\<close>

theorem Decide_refines_diagram:
  assumes "row_ok c" and "s_StateVersion c < 2 ^ 63 - 1" and "Decide c ob now = Inr d" and "\<not> d_Noop d"
  shows "status_step (s_Status c) (d_EventType d) (s_Status (d_Next d))"
  by (rule Decide_status_step [OF assms(3,4,1,2)])

theorem Decide_refines_diagram_witness:
  "\<exists>d. Decide sample_sub sample_failure 0 = Inr d
     \<and> status_step StatusActive EventPastDue (s_Status (d_Next d))"
proof -
  obtain d where d: "Decide sample_sub sample_failure 0 = Inr d" "\<not> d_Noop d" "d_EventType d = EventPastDue"
    using sample_failure_decides by blast
  have "s_Status sample_sub = StatusActive" by (simp add: sample_sub_def)
  with d Decide_refines_diagram [of sample_sub, OF _ _ d(1,2)] sample_sub_ok show ?thesis by auto
qed

text \<open>
  C21. Replay: observing again, at any later time, what led to an effective decision is a no-op on the
  row it wrote.  The observation must not claim at once to be active and to cancel at period end,
  which no adapter reports.
\<close>

theorem Decide_replay:
  assumes "row_ok c" and "s_StateVersion c < 2 ^ 63 - 1"
    and "\<not> (ob_Status ob = StatusActive \<and> ob_CancelAtPeriodEnd ob)"
    and "Decide c ob now = Inr d" and "\<not> d_Noop d"
  shows "Decide (d_Next d) ob later = Inr noop"
  by (rule Decide_again [OF assms(4,5,1,2,3)])

theorem Decide_replay_witness:
  "\<exists>d. Decide sample_sub sample_failure 0 = Inr d \<and> \<not> d_Noop d
     \<and> Decide (d_Next d) sample_failure (5 * second) = Inr noop"
proof -
  obtain d where d: "Decide sample_sub sample_failure 0 = Inr d" "\<not> d_Noop d"
    using sample_failure_decides by blast
  have "\<not> (ob_Status sample_failure = StatusActive \<and> ob_CancelAtPeriodEnd sample_failure)"
    by (simp add: sample_failure_def zero_observation_def)
  with d Decide_replay [of sample_sub, OF _ _ _ d] sample_sub_ok show ?thesis by auto
qed

text \<open>
  The only error of the decision is an unordered period, and it is returned exactly when the row
  has not expired and the period it would carry does not end after it starts.
\<close>

theorem Decide_error_iff:
  "Decide c ob now = Inl e \<longleftrightarrow> s_Status c \<noteq> StatusExpired \<and> \<not> periods_ordered c ob \<and> e = ErrUnorderedPeriod"
  by (rule Decide_fails_iff)

text \<open>
  Bookkeeping of section 7.2: \<open>past_due_since\<close> is stamped on the first step into past due and
  unchanged while the subscription stays or ends there, \<open>canceled_at\<close> is stamped when the row becomes
  canceled or is explicitly ended at once, and a renewal clears both together with the charging block.
\<close>

theorem Decide_bookkeeping:
  assumes "row_ok c" and "s_StateVersion c < 2 ^ 63 - 1" and "Decide c ob now = Inr d" and "\<not> d_Noop d"
  shows "s_PastDueSince (d_Next d) =
      (if d_EventType d = EventRenewed then None
       else if d_EventType d = EventPastDue \<and> s_PastDueSince c = None then Some (TruncateUTC now)
       else s_PastDueSince c)
    \<and> s_CanceledAt (d_Next d) =
      (if d_EventType d = EventRenewed then None
       else if d_EventType d = EventCanceled
            \<or> d_EventType d = EventExpired \<and> ob_ImmediateExpire ob \<and> s_Status c \<noteq> StatusCanceled \<and> s_CanceledAt c = None
       then Some (TruncateUTC now) else s_CanceledAt c)
    \<and> (s_AutomaticChargingBlocked (d_Next d) \<longleftrightarrow> s_AutomaticChargingBlocked c \<and> d_EventType d \<noteq> EventRenewed)"
  by (rule Decide_shapes [OF assms(3,4,1,2)]; simp)

theorem Decide_bookkeeping_witness:
  "\<exists>d. Decide sample_sub sample_failure 0 = Inr d \<and> s_PastDueSince (d_Next d) = Some (TruncateUTC 0)"
proof -
  obtain d where d: "Decide sample_sub sample_failure 0 = Inr d" "\<not> d_Noop d" "d_EventType d = EventPastDue"
    using sample_failure_decides by blast
  have "s_PastDueSince sample_sub = None" by (simp add: sample_sub_def zero_subscription_def)
  with d Decide_bookkeeping [of sample_sub, OF _ _ d(1,2)] sample_sub_ok show ?thesis by auto
qed

text \<open>
  A processor that keeps reporting the trial it already reported ends it: on a trialing row of any
  version the schema accepts, the observation \<open>trialing\<close> for the same plan and period is recorded as a
  renewal to \<open>active\<close>, although nothing was observed to change.
\<close>

theorem Decide_trialing_repeat:
  assumes "row_ok c" and "s_StateVersion c < 2 ^ 63 - 1" and "s_Status c = StatusTrialing"
  shows "\<exists>d. Decide c (zero_observation\<lparr>ob_Status := StatusTrialing\<rparr>) now = Inr d \<and> \<not> d_Noop d
    \<and> d_EventType d = EventRenewed \<and> s_Status (d_Next d) = StatusActive"
proof -
  let ?ob = "zero_observation\<lparr>ob_Status := StatusTrialing\<rparr>"
  have ord: "periods_ordered c ?ob"
    using assms(1) by (simp add: periods_ordered_def candidate_period row_ok_def zero_observation_def IsZero_def)
  then obtain d where d: "Decide c ?ob now = Inr d"
    using Decide_fails_iff [of c ?ob now] by (cases "Decide c ?ob now") auto
  then have *: "activateOrRenew c (candidate c ?ob (TruncateUTC now)) StatusTrialing (TruncateUTC now) = Inr d"
    using ord assms(3)
    unfolding Decide_def Let_def by (simp add: periods_ordered_candidate zero_observation_def)
  have "\<not> d_Noop d"
  proof
    assume "d_Noop d"
    with * assms(3) row_ok_known [OF assms(1,2)] show False
      by (auto simp: activateOrRenew_def Let_def known_row_def split: if_split_asm)
  qed
  with d activate_Inr [OF *] row_ok_known [OF assms(1,2)] show ?thesis by auto
qed

theorem Decide_trialing_repeat_witness:
  "\<exists>d. Decide (sample_sub\<lparr>s_Status := StatusTrialing\<rparr>) (zero_observation\<lparr>ob_Status := StatusTrialing\<rparr>) 9 = Inr d
     \<and> s_Status (d_Next d) = StatusActive"
proof -
  have "row_ok (sample_sub\<lparr>s_Status := StatusTrialing\<rparr>)"
    by (simp add: row_ok_def sample_sub_def zero_subscription_def second_def)
  then show ?thesis using Decide_trialing_repeat [of "sample_sub\<lparr>s_Status := StatusTrialing\<rparr>" 9] sample_sub_ok by auto
qed

end
