(* ===== verification/Memory.thy ===== *)
theory Memory
  imports Transition
begin

text \<open>
  \<^verbatim>\<open>internal/store/memory.go\<close>: the in-memory store, every operation of its \<open>Tx\<close> interface and the
  transaction wrapper.  An operation is a function on the world; a returned error leaves the state as
  far as the operation changed it, as in Go, and \<open>InTx\<close> rolls the tables back.  The interfaces the
  rest of the program relies on are locales: keyed tables and fenced rows.
\<close>

section \<open>Transactions\<close>

definition Now :: "world \<Rightarrow> gotime" where
  "Now w = TruncateUTC (clk w)"

definition nowT :: "(world, gotime) tx" where
  "nowT = readT Now"

text \<open>
  The mutex makes a transaction one step.  A failed one restores every table from the snapshot; what
  it read of the random source stays read.  A panic unwinds past the restoring branch.
\<close>

definition InTx :: "(world, 'a) tx \<Rightarrow> (world, 'a) tx" where
  "InTx fn = (\<lambda>w. case fn w of
     (Inl e, w') \<Rightarrow> (Inl e, if e = ErrPanic then w' else w'\<lparr>mem := (mem w)\<lparr>m_schema := m_schema (mem w')\<rparr>\<rparr>)
   | (Inr x, w') \<Rightarrow> (Inr x, w'))"

definition newToken :: "(world, string) tx" where
  "newToken = newUUID"

definition mustToken :: "(world, string) tx" where
  "mustToken = (\<lambda>w. case newToken w of (Inl _, w') \<Rightarrow> (Inl ErrPanic, w') | (Inr s, w') \<Rightarrow> (Inr s, w'))"

definition IsTerminalCheckout :: "string \<Rightarrow> bool" where
  "IsTerminalCheckout status \<longleftrightarrow> status \<in> {''completed'', ''expired'', ''canceled''}"

text \<open>Looking a row up in a table, by key or by the first match of a scan.\<close>

definition lookup_row :: "(world \<Rightarrow> (string \<times> 'v) list) \<Rightarrow> string \<Rightarrow> (world, 'v) tx" where
  "lookup_row tab k = (\<lambda>w. (case map_of (tab w) k of None \<Rightarrow> Inl ErrNotFound | Some v \<Rightarrow> Inr v, w))"

definition scan_row :: "(world \<Rightarrow> (string \<times> 'v) list) \<Rightarrow> ('v \<Rightarrow> bool) \<Rightarrow> (world, 'v) tx" where
  "scan_row tab p = (\<lambda>w. (case find p (vals (tab w)) of None \<Rightarrow> Inl ErrNotFound | Some v \<Rightarrow> Inr v, w))"

text \<open>The due row with the least time, the first such in the order of the scan.\<close>

fun earliest :: "('v \<Rightarrow> int) \<Rightarrow> 'v option \<Rightarrow> 'v list \<Rightarrow> 'v option" where
  "earliest t best [] = best"
| "earliest t best (v # vs) =
     earliest t (case best of None \<Rightarrow> Some v | Some b \<Rightarrow> if t v < t b then Some v else best) vs"

definition limited :: "int \<Rightarrow> 'v list \<Rightarrow> 'v list" where
  "limited limit xs = (if 0 < limit \<and> limit < int (length xs) then take (nat limit) xs else xs)"

section \<open>Checkouts\<close>

definition InsertCheckout :: "checkout \<Rightarrow> (world, unit) tx" where
  "InsertCheckout c = (\<lambda>w.
     if map_of (checkouts w) (c_CheckoutID c) \<noteq> None then (Inl ErrConflict, w)
     else if list_ex (\<lambda>x. c_ProviderIdempotencyKey x = c_ProviderIdempotencyKey c) (vals (checkouts w))
     then (Inl ErrConflict, w)
     else (Inr (), set_checkouts (AList.update (c_CheckoutID c)
             (c\<lparr>c_CreatedAt := Now w, c_UpdatedAt := Now w\<rparr>) (checkouts w)) w))"

definition GetCheckout :: "string \<Rightarrow> (world, checkout) tx" where
  "GetCheckout = lookup_row checkouts"

definition GetCheckoutForUpdate :: "string \<Rightarrow> (world, checkout) tx" where
  "GetCheckoutForUpdate = GetCheckout"

definition UpdateCheckout :: "checkout \<Rightarrow> (world, unit) tx" where
  "UpdateCheckout c = (\<lambda>w.
     if map_of (checkouts w) (c_CheckoutID c) = None then (Inl ErrNotFound, w)
     else (Inr (), set_checkouts (AList.update (c_CheckoutID c) (c\<lparr>c_UpdatedAt := Now w\<rparr>) (checkouts w)) w))"

definition checkout_due :: "gotime \<Rightarrow> checkout \<Rightarrow> bool" where
  "checkout_due now c \<longleftrightarrow> (c_Status c = ''creating'' \<or> c_Status c = ''pending'') \<and> \<not> now < c_ExpiresAt c"

definition ExpireDueCheckouts :: "gotime \<Rightarrow> (world, int) tx" where
  "ExpireDueCheckouts now = (\<lambda>w.
     (Inr (int (length (filter (checkout_due now) (vals (checkouts w))))),
      set_checkouts (map (\<lambda>(k, c). (k, if checkout_due now c
        then c\<lparr>c_Status := ''expired'', c_UpdatedAt := now\<rparr> else c)) (checkouts w)) w))"

section \<open>Subscriptions\<close>

definition InsertSubscription :: "subscription \<Rightarrow> (world, unit) tx" where
  "InsertSubscription s = (\<lambda>w.
     if map_of (subs w) (s_SubscriptionRef s) \<noteq> None then (Inl ErrConflict, w)
     else if list_ex (\<lambda>x. s_CheckoutID x = s_CheckoutID s) (vals (subs w)) then (Inl ErrConflict, w)
     else (Inr (), set_subs (AList.update (s_SubscriptionRef s)
             (s\<lparr>s_CreatedAt := Now w, s_UpdatedAt := Now w\<rparr>) (subs w)) w))"

definition GetSubscription :: "string \<Rightarrow> (world, subscription) tx" where
  "GetSubscription = lookup_row subs"

definition GetSubscriptionForUpdate :: "string \<Rightarrow> (world, subscription) tx" where
  "GetSubscriptionForUpdate = GetSubscription"

definition GetSubscriptionByCheckout :: "string \<Rightarrow> (world, subscription) tx" where
  "GetSubscriptionByCheckout i = scan_row subs (\<lambda>s. s_CheckoutID s = i)"

definition GetSubscriptionByProcessor :: "string \<Rightarrow> string \<Rightarrow> (world, subscription) tx" where
  "GetSubscriptionByProcessor family i =
     scan_row subs (\<lambda>s. s_ProcessorFamily s = family \<and> s_ProcessorSubscriptionID s = Some i)"

definition GetSubscriptionByInitialPayment :: "string \<Rightarrow> string \<Rightarrow> (world, subscription) tx" where
  "GetSubscriptionByInitialPayment family i =
     scan_row subs (\<lambda>s. s_ProcessorFamily s = family \<and> s_ProcessorInitialPaymentID s = Some i)"

definition GetSubscriptionByChargePayment :: "string \<Rightarrow> (world, subscription) tx" where
  "GetSubscriptionByChargePayment i =
     bindT (scan_row attempts (\<lambda>a. t_ProcessorPaymentID a = Some i)) (\<lambda>a. GetSubscription (t_SubscriptionRef a))"

definition UpdateSubscription :: "subscription \<Rightarrow> (world, unit) tx" where
  "UpdateSubscription s = (\<lambda>w.
     if map_of (subs w) (s_SubscriptionRef s) = None then (Inl ErrNotFound, w)
     else (Inr (), set_subs (AList.update (s_SubscriptionRef s) (s\<lparr>s_UpdatedAt := Now w\<rparr>) (subs w)) w))"

definition ListSubscriptions :: "int \<Rightarrow> (world, subscription list) tx" where
  "ListSubscriptions limit = readT (\<lambda>w. limited limit (vals (subs w)))"

section \<open>Audit\<close>

definition InsertAudit :: "audit \<Rightarrow> (world, unit) tx" where
  "InsertAudit a = (\<lambda>w. (Inr (), set_audits (audits w @ [a]) w))"

section \<open>Outbound events\<close>

definition InsertOutbound :: "outbound_event \<Rightarrow> (world, unit) tx" where
  "InsertOutbound e = (\<lambda>w.
     if map_of (outbound w) (o_EventID e) \<noteq> None then (Inl ErrConflict, w)
     else if list_ex (\<lambda>x. o_SubscriptionRef x = o_SubscriptionRef e \<and> o_StateVersion x = o_StateVersion e)
               (vals (outbound w)) then (Inl ErrConflict, w)
     else (Inr (), set_outbound (AList.update (o_EventID e) (e\<lparr>o_CreatedAt := Now w\<rparr>) (outbound w)) w))"

definition GetOutbound :: "string \<Rightarrow> (world, outbound_event) tx" where
  "GetOutbound = lookup_row outbound"

text \<open>\<open>sort.Slice\<close> leaves the order of equal keys open; the model's sort is stable.\<close>

definition ListOutbound :: "string \<Rightarrow> int \<Rightarrow> (world, outbound_event list) tx" where
  "ListOutbound state limit = readT (\<lambda>w.
     limited limit (sort_key o_CreatedAt (filter (\<lambda>e. state = [] \<or> o_DeliveryState e = state) (vals (outbound w)))))"

definition outbound_due :: "gotime \<Rightarrow> outbound_event \<Rightarrow> bool" where
  "outbound_due now e \<longleftrightarrow>
     o_DeliveryState e = DeliveryPending
     \<and> (case o_NextAttemptAt e of None \<Rightarrow> False | Some t \<Rightarrow> \<not> now < t)
     \<and> (case o_LeaseUntil e of None \<Rightarrow> True | Some u \<Rightarrow> \<not> now < u)"

definition stamp_outbound :: "string \<Rightarrow> gotime \<Rightarrow> outbound_event \<Rightarrow> outbound_event" where
  "stamp_outbound token until e =
     e\<lparr>o_ClaimToken := Some token, o_FencingToken := wrap64 (o_FencingToken e + 1), o_LeaseUntil := Some until\<rparr>"

definition ClaimDueOutbound :: "gotime \<Rightarrow> duration \<Rightarrow> (world, outbound_event) tx" where
  "ClaimDueOutbound now lease = (\<lambda>w.
     case earliest (\<lambda>e. the (o_NextAttemptAt e)) None (filter (outbound_due now) (vals (outbound w))) of
       None \<Rightarrow> (Inl ErrNotFound, w)
     | Some chosen \<Rightarrow>
         (case newToken w of
            (Inl e, w') \<Rightarrow> (Inl e, w')
          | (Inr token, w') \<Rightarrow>
              let e = stamp_outbound token (now + lease)
                        (case map_of (outbound w') (o_EventID chosen) of None \<Rightarrow> zero_outbound_event | Some e \<Rightarrow> e)
              in (Inr e, set_outbound (AList.update (o_EventID e) e (outbound w')) w')))"

definition owned_outbound :: "string \<Rightarrow> int \<Rightarrow> outbound_event \<Rightarrow> bool" where
  "owned_outbound claimToken fence e \<longleftrightarrow>
     o_DeliveryState e = DeliveryPending \<and> o_ClaimToken e = Some claimToken \<and> o_FencingToken e = fence"

definition ownedOutbound :: "string \<Rightarrow> string \<Rightarrow> int \<Rightarrow> (world, outbound_event) tx" where
  "ownedOutbound eventID claimToken fence =
     bindT (lookup_row outbound eventID) (\<lambda>e.
     thenT (guardT (owned_outbound claimToken fence e) ErrNotOwned) (retT e))"

definition put_outbound :: "string \<Rightarrow> outbound_event \<Rightarrow> (world, unit) tx" where
  "put_outbound i e = writeT (\<lambda>w. set_outbound (AList.update i e (outbound w)) w)"

definition CompleteOutbound :: "string \<Rightarrow> string \<Rightarrow> int \<Rightarrow> gotime \<Rightarrow> (world, unit) tx" where
  "CompleteOutbound eventID claimToken fence now =
     bindT (ownedOutbound eventID claimToken fence) (\<lambda>e.
     put_outbound eventID (e\<lparr>o_DeliveryState := DeliveryDelivered, o_DeliveredAt := Some now, o_NextAttemptAt := None,
       o_ClaimToken := None, o_LeaseUntil := None, o_AttemptCount := wrap64 (o_AttemptCount e + 1)\<rparr>))"

definition RetryOutbound :: "string \<Rightarrow> string \<Rightarrow> int \<Rightarrow> gotime \<Rightarrow> string \<Rightarrow> (world, unit) tx" where
  "RetryOutbound eventID claimToken fence nxt errClass =
     bindT (ownedOutbound eventID claimToken fence) (\<lambda>e.
     put_outbound eventID (e\<lparr>o_NextAttemptAt := Some nxt, o_LastErrorClass := Some errClass,
       o_ClaimToken := None, o_LeaseUntil := None, o_AttemptCount := wrap64 (o_AttemptCount e + 1)\<rparr>))"

definition DeadLetterOutbound :: "string \<Rightarrow> string \<Rightarrow> int \<Rightarrow> gotime \<Rightarrow> string \<Rightarrow> (world, unit) tx" where
  "DeadLetterOutbound eventID claimToken fence now errClass =
     bindT (ownedOutbound eventID claimToken fence) (\<lambda>e.
     put_outbound eventID (e\<lparr>o_DeliveryState := DeliveryDeadLettered, o_DeadLetteredAt := Some now,
       o_NextAttemptAt := None, o_ClaimToken := None, o_LeaseUntil := None, o_LastErrorClass := Some errClass,
       o_AttemptCount := wrap64 (o_AttemptCount e + 1)\<rparr>))"

definition AbandonOutbound :: "string \<Rightarrow> string \<Rightarrow> string \<Rightarrow> gotime \<Rightarrow> (world, unit) tx" where
  "AbandonOutbound eventID reason actor now =
     bindT (lookup_row outbound eventID) (\<lambda>e.
     thenT (guardT (o_DeliveryState e = DeliveryPending) ErrConflict) (
     thenT (put_outbound eventID (e\<lparr>o_DeliveryState := DeliveryAbandoned, o_AbandonedAt := Some now,
       o_NextAttemptAt := None, o_ClaimToken := None, o_LeaseUntil := None\<rparr>)) (
     bindT mustToken (\<lambda>i.
     InsertAudit \<lparr>u_AuditID = i, u_Action = ''abandon-event'', u_TargetType = ''event'', u_TargetID = eventID,
       u_Actor = actor, u_Reason = reason, u_Metadata = []\<rparr>))))"

definition RequeueOutbound :: "string \<Rightarrow> string \<Rightarrow> string \<Rightarrow> gotime \<Rightarrow> (world, unit) tx" where
  "RequeueOutbound eventID reason actor now =
     bindT (lookup_row outbound eventID) (\<lambda>e.
     thenT (guardT (o_DeliveryState e = DeliveryDeadLettered \<or> o_DeliveryState e = DeliveryAbandoned) ErrConflict) (
     thenT (put_outbound eventID (e\<lparr>o_DeliveryState := DeliveryPending, o_NextAttemptAt := Some now,
       o_DeadLetteredAt := None, o_AbandonedAt := None, o_DeliveredAt := None,
       o_ClaimToken := None, o_LeaseUntil := None\<rparr>)) (
     bindT mustToken (\<lambda>i.
     InsertAudit \<lparr>u_AuditID = i, u_Action = ''requeue-event'', u_TargetType = ''event'', u_TargetID = eventID,
       u_Actor = actor, u_Reason = reason, u_Metadata = []\<rparr>))))"

text \<open>The scan keeps the first event of the greatest version.\<close>

fun latest_version :: "outbound_event option \<Rightarrow> outbound_event list \<Rightarrow> outbound_event option" where
  "latest_version best [] = best"
| "latest_version best (e # es) =
     latest_version (case best of None \<Rightarrow> Some e
       | Some b \<Rightarrow> if o_StateVersion b < o_StateVersion e then Some e else best) es"

definition LatestOutbound :: "string \<Rightarrow> (world, outbound_event) tx" where
  "LatestOutbound ref = (\<lambda>w.
     (case latest_version None (filter (\<lambda>e. o_SubscriptionRef e = ref) (vals (outbound w))) of
        None \<Rightarrow> Inl ErrNotFound | Some e \<Rightarrow> Inr e, w))"

section \<open>Processor events and processing leases\<close>

definition procKey :: "string \<Rightarrow> string \<Rightarrow> string" where
  "procKey family i = family @ [char_of (0::nat)] @ i"

definition InsertProcessorEvent :: "processor_event \<Rightarrow> (world, bool) tx" where
  "InsertProcessorEvent e = (\<lambda>w.
     let k = procKey (p_ProcessorFamily e) (p_ProcessorEventID e)
     in if map_of (procEvents w) k \<noteq> None then (Inr False, w)
        else (Inr True, set_procEvents (AList.update k
               (if IsZero (p_ReceivedAt e) then e\<lparr>p_ReceivedAt := Now w\<rparr> else e) (procEvents w)) w))"

definition GetProcessorEvent :: "string \<Rightarrow> string \<Rightarrow> (world, processor_event) tx" where
  "GetProcessorEvent family i = lookup_row procEvents (procKey family i)"

definition lease_held :: "processing_lease option \<Rightarrow> string \<Rightarrow> gotime \<Rightarrow> bool" where
  "lease_held row actionID now \<longleftrightarrow>
     (case row of None \<Rightarrow> False
      | Some r \<Rightarrow> l_Status r = ''running'' \<and> (case l_LeaseUntil r of None \<Rightarrow> False | Some u \<Rightarrow> now < u)
          \<and> l_ActiveActionID r \<noteq> Some actionID)"

definition stamp_lease :: "string \<Rightarrow> string \<Rightarrow> string \<Rightarrow> gotime \<Rightarrow> processing_lease \<Rightarrow> processing_lease" where
  "stamp_lease key actionID token until r =
     r\<lparr>l_ProcessingKey := key, l_Status := ''running'', l_ActiveActionID := Some actionID,
       l_ClaimToken := Some token, l_FencingToken := wrap64 (l_FencingToken r + 1), l_LeaseUntil := Some until\<rparr>"

definition ClaimProcessorEvent ::
  "string \<Rightarrow> string \<Rightarrow> string \<Rightarrow> gotime \<Rightarrow> duration \<Rightarrow> (world, processor_event \<times> processing_lease) tx" where
  "ClaimProcessorEvent family i processingKey now lease =
     bindT (GetProcessorEvent family i) (\<lambda>e.
     thenT (guardT (p_ProcessingState e \<notin> {''processed'', ''quarantined'', ''manual_review''}) ErrConflict) (
     bindT (readT (\<lambda>w. map_of (leases w) processingKey)) (\<lambda>row.
     thenT (guardT (\<not> lease_held row (p_ProcessingActionID e) now) ErrConflict) (
     bindT newToken (\<lambda>token.
     let r = stamp_lease processingKey (p_ProcessingActionID e) token (now + lease)
               (case row of None \<Rightarrow> zero_processing_lease | Some r \<Rightarrow> r);
         e = e\<lparr>p_ProcessingState := ''running'', p_ClaimToken := Some token,
               p_FencingToken := l_FencingToken r, p_LeaseUntil := Some (now + lease)\<rparr>
     in thenT (writeT (\<lambda>w. set_leases (AList.update processingKey r (leases w)) w)) (
        thenT (writeT (\<lambda>w. set_procEvents (AList.update (procKey family i) e (procEvents w)) w)) (
        retT (e, r))))))))"

definition owned_processor_event :: "string \<Rightarrow> int \<Rightarrow> processor_event \<Rightarrow> bool" where
  "owned_processor_event claimToken fence e \<longleftrightarrow>
     p_ProcessingState e = ''running'' \<and> p_ClaimToken e = Some claimToken \<and> p_FencingToken e = fence"

definition FinishProcessorEvent ::
  "string \<Rightarrow> string \<Rightarrow> string \<Rightarrow> int \<Rightarrow> string \<Rightarrow> string option \<Rightarrow> gotime \<Rightarrow> (world, unit) tx" where
  "FinishProcessorEvent family i claimToken fence state subRef now =
     bindT (GetProcessorEvent family i) (\<lambda>e.
     thenT (guardT (owned_processor_event claimToken fence e) ErrNotOwned) (
     let e = e\<lparr>p_ProcessingState := state, p_ClaimToken := None, p_LeaseUntil := None, p_SubscriptionRef := subRef\<rparr>;
         e = (if state = ''processed'' then e\<lparr>p_ProcessedAt := Some now\<rparr> else e)
     in writeT (\<lambda>w. set_procEvents (AList.update (procKey family i) e (procEvents w)) w)))"

definition owned_lease :: "string \<Rightarrow> int \<Rightarrow> processing_lease \<Rightarrow> bool" where
  "owned_lease claimToken fence r \<longleftrightarrow> l_ClaimToken r = Some claimToken \<and> l_FencingToken r = fence"

definition ReleaseProcessorLease :: "string \<Rightarrow> string \<Rightarrow> int \<Rightarrow> (world, unit) tx" where
  "ReleaseProcessorLease key claimToken fence =
     bindT (lookup_row leases key) (\<lambda>r.
     thenT (guardT (owned_lease claimToken fence r) ErrNotOwned) (
     writeT (\<lambda>w. set_leases (AList.update key (r\<lparr>l_Status := ''idle'', l_ActiveActionID := None,
       l_ClaimToken := None, l_LeaseUntil := None\<rparr>) (leases w)) w)))"

section \<open>Scheduled actions\<close>

definition InsertAction :: "scheduled_action \<Rightarrow> (world, unit) tx" where
  "InsertAction a = (\<lambda>w.
     if map_of (actions w) (a_ActionID a) \<noteq> None then (Inl ErrConflict, w)
     else if list_ex (\<lambda>x. a_ActionKey x = a_ActionKey a) (vals (actions w)) then (Inl ErrConflict, w)
     else (Inr (), set_actions (AList.update (a_ActionID a) a (actions w)) w))"

definition GetAction :: "string \<Rightarrow> (world, scheduled_action) tx" where
  "GetAction = lookup_row actions"

definition GetActionByKey :: "string \<Rightarrow> (world, scheduled_action) tx" where
  "GetActionByKey key = scan_row actions (\<lambda>a. a_ActionKey a = key)"

definition kindAllowed :: "string list \<Rightarrow> string \<Rightarrow> bool" where
  "kindAllowed kinds actionType \<longleftrightarrow> kinds = [] \<or> actionType \<in> set kinds"

text \<open>A renewal is only due for a subscription that exists and whose charging is not blocked.\<close>

definition charging_open :: "world \<Rightarrow> scheduled_action \<Rightarrow> bool" where
  "charging_open w a \<longleftrightarrow>
     (a_ActionType a = ActionRenew \<longrightarrow>
       (case map_of (subs w) (a_SubscriptionRef a) of None \<Rightarrow> False | Some s \<Rightarrow> \<not> s_AutomaticChargingBlocked s))"

definition lease_live :: "gotime option \<Rightarrow> gotime \<Rightarrow> bool" where
  "lease_live u now \<longleftrightarrow> (case u of None \<Rightarrow> False | Some u \<Rightarrow> now < u)"

definition actionDue :: "world \<Rightarrow> scheduled_action \<Rightarrow> gotime \<Rightarrow> string \<Rightarrow> bool" where
  "actionDue w a now status \<longleftrightarrow>
     (if a_Status a = status then True
      else if a_Status a = ''running''
      then (status = ''pending'' \<or> status = ''uncertain'') \<and> \<not> lease_live (a_LeaseUntil a) now
      else False)
     \<and> \<not> (now < a_DueAt a \<and> a_Status a \<noteq> ''running'')
     \<and> \<not> (a_Status a \<noteq> ''running'' \<and> lease_live (a_LeaseUntil a) now)
     \<and> charging_open w a"

definition LockDueAction :: "gotime \<Rightarrow> string \<Rightarrow> string list \<Rightarrow> (world, scheduled_action) tx" where
  "LockDueAction now status kinds = (\<lambda>w.
     (case earliest a_DueAt None
        (filter (\<lambda>a. actionDue w a now status \<and> kindAllowed kinds (a_ActionType a)) (vals (actions w))) of
        None \<Rightarrow> Inl ErrNotFound | Some a \<Rightarrow> Inr a, w))"

definition stamp_action :: "string \<Rightarrow> gotime \<Rightarrow> scheduled_action \<Rightarrow> scheduled_action" where
  "stamp_action token until a =
     a\<lparr>a_Status := ''running'', a_ClaimToken := Some token, a_FencingToken := wrap64 (a_FencingToken a + 1),
       a_LeaseUntil := Some until\<rparr>"

definition action_claimable :: "scheduled_action \<Rightarrow> gotime \<Rightarrow> bool" where
  "action_claimable a now \<longleftrightarrow>
     a_Status a = ''pending'' \<or> a_Status a = ''uncertain''
     \<or> a_Status a = ''running'' \<and> \<not> lease_live (a_LeaseUntil a) now"

definition ClaimAction :: "string \<Rightarrow> gotime \<Rightarrow> duration \<Rightarrow> (world, scheduled_action) tx" where
  "ClaimAction actionID now lease =
     bindT (lookup_row actions actionID) (\<lambda>a.
     thenT (guardT (action_claimable a now) ErrNotOwned) (
     bindT (readT (\<lambda>w. charging_open w a)) (\<lambda>ok.
     thenT (guardT ok ErrAutomaticChargeBlocked) (
     bindT newToken (\<lambda>token.
     let a = stamp_action token (now + lease) a
     in thenT (writeT (\<lambda>w. set_actions (AList.update (a_ActionID a) a (actions w)) w)) (retT a))))))"

definition ClaimDueAction :: "gotime \<Rightarrow> duration \<Rightarrow> string \<Rightarrow> string list \<Rightarrow> (world, scheduled_action) tx" where
  "ClaimDueAction now lease status kinds =
     bindT (LockDueAction now status kinds) (\<lambda>a. ClaimAction (a_ActionID a) now lease)"

definition owned_action :: "string \<Rightarrow> int \<Rightarrow> scheduled_action \<Rightarrow> bool" where
  "owned_action claimToken fence a \<longleftrightarrow>
     a_Status a = ''running'' \<and> a_ClaimToken a = Some claimToken \<and> a_FencingToken a = fence"

definition FinishAction ::
  "string \<Rightarrow> string \<Rightarrow> int \<Rightarrow> string \<Rightarrow> gotime option \<Rightarrow> string option \<Rightarrow> (world, unit) tx" where
  "FinishAction actionID claimToken fence status dueAt errClass =
     bindT (lookup_row actions actionID) (\<lambda>a.
     thenT (guardT (owned_action claimToken fence a) ErrNotOwned) (
     let a = a\<lparr>a_Status := status, a_LastErrorClass := errClass\<rparr>;
         a = (case dueAt of None \<Rightarrow> a | Some d \<Rightarrow> a\<lparr>a_DueAt := d\<rparr>);
         a = (if status \<noteq> ''running'' then a\<lparr>a_ClaimToken := None, a_LeaseUntil := None\<rparr> else a)
     in writeT (\<lambda>w. set_actions (AList.update actionID a (actions w)) w)))"

definition ForceFinishAction :: "string \<Rightarrow> string \<Rightarrow> gotime option \<Rightarrow> string option \<Rightarrow> (world, unit) tx" where
  "ForceFinishAction actionID status dueAt errClass =
     bindT (lookup_row actions actionID) (\<lambda>a.
     if a_Status a \<notin> {''pending'', ''running'', ''uncertain''} then retT ()
     else let a = a\<lparr>a_Status := status, a_LastErrorClass := errClass\<rparr>;
              a = (case dueAt of None \<Rightarrow> a | Some d \<Rightarrow> a\<lparr>a_DueAt := d\<rparr>);
              a = a\<lparr>a_ClaimToken := None, a_LeaseUntil := None\<rparr>
          in writeT (\<lambda>w. set_actions (AList.update actionID a (actions w)) w))"

definition cancelable :: "string \<Rightarrow> string \<Rightarrow> scheduled_action \<Rightarrow> bool" where
  "cancelable ref exceptKey a \<longleftrightarrow>
     a_SubscriptionRef a = ref \<and> a_ActionKey a \<noteq> exceptKey \<and> (a_Status a = ''pending'' \<or> a_Status a = ''uncertain'')"

definition CancelActionsForSubscription :: "string \<Rightarrow> string \<Rightarrow> (world, unit) tx" where
  "CancelActionsForSubscription ref exceptKey =
     writeT (\<lambda>w. set_actions (map (\<lambda>(i, a). (i, if cancelable ref exceptKey a
        then a\<lparr>a_Status := ''canceled'', a_ClaimToken := None, a_LeaseUntil := None\<rparr> else a)) (actions w)) w)"

definition ListActions :: "int \<Rightarrow> (world, scheduled_action list) tx" where
  "ListActions limit = readT (\<lambda>w. limited limit (sort_key a_DueAt (vals (actions w))))"

section \<open>Charge attempts\<close>

definition attempt_clash :: "charge_attempt \<Rightarrow> charge_attempt \<Rightarrow> bool" where
  "attempt_clash a x \<longleftrightarrow>
     t_AttemptReference x = t_AttemptReference a \<or> t_IdempotencyKey x = t_IdempotencyKey a
     \<or> t_SubscriptionRef x = t_SubscriptionRef a \<and> t_PeriodStart x = t_PeriodStart a
       \<and> t_AttemptNumber x = t_AttemptNumber a"

definition InsertAttempt :: "charge_attempt \<Rightarrow> (world, unit) tx" where
  "InsertAttempt a = (\<lambda>w.
     if map_of (attempts w) (t_AttemptID a) \<noteq> None then (Inl ErrConflict, w)
     else if list_ex (attempt_clash a) (vals (attempts w)) then (Inl ErrConflict, w)
     else (Inr (), set_attempts (AList.update (t_AttemptID a) a (attempts w)) w))"

definition GetAttempt :: "string \<Rightarrow> (world, charge_attempt) tx" where
  "GetAttempt = lookup_row attempts"

definition GetAttemptByReference :: "string \<Rightarrow> (world, charge_attempt) tx" where
  "GetAttemptByReference ref = scan_row attempts (\<lambda>a. t_AttemptReference a = ref)"

definition GetAttemptsForAction :: "string \<Rightarrow> (world, charge_attempt list) tx" where
  "GetAttemptsForAction actionID =
     readT (\<lambda>w. sort_key t_AttemptNumber (filter (\<lambda>a. t_ActionID a = actionID) (vals (attempts w))))"

definition ListAttempts :: "string list \<Rightarrow> int \<Rightarrow> (world, charge_attempt list) tx" where
  "ListAttempts statuses limit =
     readT (\<lambda>w. limited limit (sort_key t_AttemptNumber
       (filter (\<lambda>a. statuses = [] \<or> t_Status a \<in> set statuses) (vals (attempts w)))))"

definition UpdateAttempt :: "charge_attempt \<Rightarrow> (world, unit) tx" where
  "UpdateAttempt a = (\<lambda>w.
     if map_of (attempts w) (t_AttemptID a) = None then (Inl ErrNotFound, w)
     else (Inr (), set_attempts (AList.update (t_AttemptID a) a (attempts w)) w))"

definition ClaimAttemptWithAction ::
  "string \<Rightarrow> string \<Rightarrow> string \<Rightarrow> int \<Rightarrow> gotime \<Rightarrow> duration \<Rightarrow> gotime
     \<Rightarrow> (world, scheduled_action \<times> charge_attempt) tx" where
  "ClaimAttemptWithAction actionID attemptID claimToken fence now lease resolutionDeadline =
     bindT (lookup_row actions actionID) (\<lambda>a.
     thenT (guardT (owned_action claimToken fence a) ErrNotOwned) (
     bindT (lookup_row attempts attemptID) (\<lambda>att.
     let att = att\<lparr>t_Status := ''running'', t_ClaimToken := Some claimToken, t_FencingToken := fence,
                 t_LeaseUntil := Some (now + lease)\<rparr>;
         att = (if t_FirstSubmittedAt att = None
                then let n = TruncateUTC now; dl = TruncateUTC resolutionDeadline
                     in att\<lparr>t_FirstSubmittedAt := Some n,
                          t_ResolutionDeadline := Some (if IsZero dl then n + 6 * 24 * hour else dl)\<rparr>
                else att)
     in thenT (writeT (\<lambda>w. set_attempts (AList.update attemptID att (attempts w)) w)) (retT (a, att)))))"

section \<open>Keyed tables\<close>

text \<open>A table keyed by one field whose rows are told apart by another.\<close>

definition keyed_by :: "('v \<Rightarrow> 'k) \<Rightarrow> ('v \<Rightarrow> 'a) \<Rightarrow> ('k \<times> 'v) list \<Rightarrow> bool" where
  "keyed_by key f m \<longleftrightarrow> well_keyed key m \<and> inj_on f (set (vals m))"

lemma keyed_by_Nil [simp]: "keyed_by key f []"
  by (simp add: keyed_by_def vals_def)

lemma keyed_byD: "keyed_by key f m \<Longrightarrow> map_of m (key v) = Some v \<Longrightarrow> map_of m (key u) = Some u \<Longrightarrow> f v = f u \<Longrightarrow> v = u"
  unfolding keyed_by_def by (metis inj_onD well_keyed_values)

lemma well_keyed_distinct: "well_keyed key m \<Longrightarrow> distinct (map fst m)"
  by (simp add: well_keyed_def)

lemma keyed_by_insert:
  assumes "keyed_by key f m" and "key v = k" and "map_of m k = None"
    and "\<And>x. x \<in> set (vals m) \<Longrightarrow> f x \<noteq> f v"
  shows "keyed_by key f (AList.update k v m)"
proof -
  have wk: "well_keyed key m" using assms(1) by (simp add: keyed_by_def)
  have sub: "set (vals (AList.update k v m)) \<subseteq> insert v (set (vals m))"
    using values_update [OF well_keyed_distinct [OF wk], of k v] map_of_SomeD by (force simp: vals_def)
  have "inj_on f (insert v (set (vals m)))"
    using assms(1,4) by (simp add: keyed_by_def inj_on_insert) (metis DiffD1 imageE)
  with sub have "inj_on f (set (vals (AList.update k v m)))" by (rule inj_on_subset [rotated])
  with well_keyed_update [OF wk assms(2)] show ?thesis by (simp add: keyed_by_def)
qed

lemma keyed_by_replace:
  assumes "keyed_by key f m" and "key v = k" and "map_of m k = Some u" and "f v = f u"
  shows "keyed_by key f (AList.update k v m)"
proof -
  have wk: "well_keyed key m" and inj: "inj_on f (set (vals m))" using assms(1) by (simp_all add: keyed_by_def)
  have u: "u \<in> set (vals m)" "key u = k"
    using assms(3) well_keyed_key [OF wk assms(3)] well_keyed_values [OF wk, of u] by simp_all
  have "set (vals (AList.update k v m)) = insert v {x \<in> set (vals m). key x \<noteq> k}"
    unfolding values_update [OF well_keyed_distinct [OF wk]]
    using well_keyed_values [OF wk] well_keyed_key [OF wk] by blast
  moreover have "inj_on f (insert v {x \<in> set (vals m). key x \<noteq> k})"
    using inj u assms(4) by (auto simp: inj_on_def)
  ultimately show ?thesis using well_keyed_update [OF wk assms(2)] by (simp add: keyed_by_def)
qed

text \<open>Rewriting rows in place, keys and distinguishing field kept.\<close>

lemma keyed_by_rewrite:
  assumes "keyed_by key f m" and "\<And>v. key (g v) = key v" and "\<And>v. f (g v) = f v"
  shows "keyed_by key f (map (\<lambda>(k, v). (k, g v)) m)"
proof -
  have 1: "map fst (map (\<lambda>(k, v). (k, g v)) m) = map fst m" by (induction m) auto
  have 2: "vals (map (\<lambda>(k, v). (k, g v)) m) = map g (vals m)" by (induction m) (auto simp: vals_def)
  have "inj_on f (set (map g (vals m)))"
    using assms(1,3) by (force simp: keyed_by_def inj_on_def)
  then show ?thesis using assms(1,2) unfolding keyed_by_def well_keyed_def 1 2 by auto
qed

lemma map_of_rewrite: "map_of (map (\<lambda>(k, v). (k, g v)) m) k = map_option g (map_of m k)"
  by (induction m) auto

subsection \<open>The interface of a table\<close>

text \<open>
  What the engine relies on when it inserts, loads and updates a row: \<open>get\<close> is a lookup that
  changes nothing, \<open>insert\<close> refuses a known key and otherwise makes the row, with its timestamps,
  the one found under its key and changes no other.
\<close>

locale row_table =
  fixes rows :: "world \<Rightarrow> (string \<times> 'v) list" and key :: "'v \<Rightarrow> string"
    and get :: "string \<Rightarrow> (world, 'v) tx" and insert_row :: "'v \<Rightarrow> (world, unit) tx"
    and stored :: "world \<Rightarrow> 'v \<Rightarrow> 'v"
  assumes get_run: "get k w = (case map_of (rows w) k of None \<Rightarrow> Inl ErrNotFound | Some v \<Rightarrow> Inr v, w)"
    and insert_known: "map_of (rows w) (key v) \<noteq> None \<Longrightarrow> insert_row v w = (Inl ErrConflict, w)"
    and insert_Inl: "insert_row v w = (Inl e, w') \<Longrightarrow> e = ErrConflict \<and> w' = w"
    and insert_Inr: "insert_row v w = (Inr u, w') \<Longrightarrow>
      map_of (rows w) (key v) = None \<and> map_of (rows w') = (map_of (rows w))(key v \<mapsto> stored w v)"
begin

lemma get_insert: "insert_row v w = (Inr u, w') \<Longrightarrow> get (key v) w' = (Inr (stored w v), w')"
  using insert_Inr [of v w u w'] by (simp add: get_run)

lemma get_insert_other: "insert_row v w = (Inr u, w') \<Longrightarrow> k \<noteq> key v \<Longrightarrow> fst (get k w') = fst (get k w)"
  using insert_Inr [of v w u w'] by (simp add: get_run)

lemma insert_twice: "insert_row v w = (Inr u, w') \<Longrightarrow> key x = key v \<Longrightarrow> insert_row x w' = (Inl ErrConflict, w')"
  using insert_Inr [of v w u w'] by (intro insert_known) simp

lemma get_missing: "get k w = (Inl e, w') \<longleftrightarrow> map_of (rows w) k = None \<and> e = ErrNotFound \<and> w' = w"
  by (auto simp: get_run split: option.splits)

lemma get_found: "get k w = (Inr v, w') \<longleftrightarrow> map_of (rows w) k = Some v \<and> w' = w"
  by (auto simp: get_run split: option.splits)

end

text \<open>A table whose rows are also updated.\<close>

locale updatable_table = row_table +
  fixes update :: "'a \<Rightarrow> (world, unit) tx" and touched :: "world \<Rightarrow> 'a \<Rightarrow> 'a"
  assumes update_run: "map_of (rows w) (key v) = None \<Longrightarrow> update v w = (Inl ErrNotFound, w)"
    and update_Inr: "map_of (rows w) (key v) \<noteq> None \<Longrightarrow>
      \<exists>w'. update v w = (Inr (), w') \<and> map_of (rows w') = (map_of (rows w))(key v \<mapsto> touched w v)"
begin

lemma get_update: "update v w = (Inr u, w') \<Longrightarrow> get (key v) w' = (Inr (touched w v), w')"
  using update_Inr [of w v] update_run [of w v] by (cases "map_of (rows w) (key v)") (auto simp: get_run)

lemma get_update_other: "update v w = (Inr u, w') \<Longrightarrow> k \<noteq> key v \<Longrightarrow> fst (get k w') = fst (get k w)"
  using update_Inr [of w v] update_run [of w v] by (cases "map_of (rows w) (key v)") (auto simp: get_run)

lemma update_iff_known: "(\<exists>w'. update v w = (Inr (), w')) \<longleftrightarrow> map_of (rows w) (key v) \<noteq> None"
  using update_Inr [of w v] update_run [of w v] by (cases "map_of (rows w) (key v)") auto

end

lemmas table_op_defs = lookup_row_def InsertCheckout_def GetCheckout_def UpdateCheckout_def
  InsertSubscription_def GetSubscription_def UpdateSubscription_def InsertOutbound_def GetOutbound_def
  InsertAction_def GetAction_def InsertAttempt_def GetAttempt_def UpdateAttempt_def

interpretation checkout_table: updatable_table checkouts c_CheckoutID GetCheckout InsertCheckout
    "\<lambda>w c. c\<lparr>c_CreatedAt := Now w, c_UpdatedAt := Now w\<rparr>" UpdateCheckout "\<lambda>w c. c\<lparr>c_UpdatedAt := Now w\<rparr>"
  by unfold_locales (auto simp: table_op_defs set_table_defs split: if_split_asm)

interpretation subscription_table: updatable_table subs s_SubscriptionRef GetSubscription InsertSubscription
    "\<lambda>w s. s\<lparr>s_CreatedAt := Now w, s_UpdatedAt := Now w\<rparr>" UpdateSubscription "\<lambda>w s. s\<lparr>s_UpdatedAt := Now w\<rparr>"
  by unfold_locales (auto simp: table_op_defs set_table_defs split: if_split_asm)

interpretation attempt_table: updatable_table attempts t_AttemptID GetAttempt InsertAttempt
    "\<lambda>_ a. a" UpdateAttempt "\<lambda>_ a. a"
  by unfold_locales (auto simp: table_op_defs set_table_defs split: if_split_asm)

interpretation outbound_table: row_table outbound o_EventID GetOutbound InsertOutbound
    "\<lambda>w e. e\<lparr>o_CreatedAt := Now w\<rparr>"
  by unfold_locales (auto simp: table_op_defs set_table_defs split: if_split_asm)

interpretation action_table: row_table actions a_ActionID GetAction InsertAction "\<lambda>_ a. a"
  by unfold_locales (auto simp: table_op_defs set_table_defs split: if_split_asm)

section \<open>Fenced rows\<close>

text \<open>
  The claim discipline outbound events, actions and processing leases share: a claim stamps the row
  with a token, a deadline and the next fence, and only the holder of the current token and fence
  may finish it.
\<close>

locale fenced =
  fixes stamp :: "string \<Rightarrow> gotime \<Rightarrow> 'r \<Rightarrow> 'r" and owned :: "string \<Rightarrow> int \<Rightarrow> 'r \<Rightarrow> bool"
    and fence :: "'r \<Rightarrow> int" and free :: "'r \<Rightarrow> gotime \<Rightarrow> bool" and ready :: "'r \<Rightarrow> bool"
  assumes stamp_fence: "fence (stamp tok u r) = wrap64 (fence r + 1)"
    and stamp_owned: "ready r \<Longrightarrow> owned tok f (stamp tok u r) \<longleftrightarrow> f = wrap64 (fence r + 1)"
    and stamp_token: "owned t f (stamp tok u r) \<Longrightarrow> t = tok"
    and owned_fence: "owned t f r \<Longrightarrow> f = fence r"
    and stamp_held: "free (stamp tok u r) now \<Longrightarrow> u \<le> now"
begin

lemma claim_owned: "ready r \<Longrightarrow> owned tok (fence (stamp tok u r)) (stamp tok u r)"
  by (simp add: stamp_owned stamp_fence)

text \<open>A claim fences off every earlier holder, whatever token it drew.\<close>

lemma stale_holder: "owned t f r \<Longrightarrow> - (2 ^ 63) \<le> fence r \<Longrightarrow> fence r < 2 ^ 63 \<Longrightarrow> \<not> owned t' f (stamp tok u r)"
  using owned_fence [of t f r] owned_fence [of t' f "stamp tok u r"] wrap64_Suc_neq [of "fence r"]
  by (auto simp: stamp_fence)

text \<open>A claimed row is not free before its deadline.\<close>

lemma held: "now < u \<Longrightarrow> \<not> free (stamp tok u r) now"
  using stamp_held by force

end

definition lease_free :: "processing_lease \<Rightarrow> gotime \<Rightarrow> bool" where
  "lease_free r now \<longleftrightarrow> \<not> (l_Status r = ''running'' \<and> lease_live (l_LeaseUntil r) now)"

interpretation outbound_fence: fenced stamp_outbound owned_outbound o_FencingToken
    "\<lambda>e now. outbound_due now e" "\<lambda>e. o_DeliveryState e = DeliveryPending"
  by unfold_locales (auto simp: stamp_outbound_def owned_outbound_def outbound_due_def not_less)

interpretation action_fence: fenced stamp_action owned_action a_FencingToken action_claimable "\<lambda>_. True"
  by unfold_locales (auto simp: stamp_action_def owned_action_def action_claimable_def lease_live_def not_less)

interpretation lease_fence: fenced "stamp_lease key actionID" owned_lease l_FencingToken lease_free "\<lambda>_. True"
  for key actionID
  by unfold_locales (auto simp: stamp_lease_def owned_lease_def lease_free_def lease_live_def not_less)

section \<open>The invariant of the store\<close>

definition event_key :: "processor_event \<Rightarrow> string" where
  "event_key e = procKey (p_ProcessorFamily e) (p_ProcessorEventID e)"

text \<open>
  Every table is keyed by its identifier and no two rows share what must be unique: the provider
  idempotency key of a checkout, the checkout of a subscription, subscription and version of an
  outbound event, the key of an action; and the reference, idempotency key and (subscription, period,
  number) of a charge attempt.
\<close>

definition store_ok :: "world \<Rightarrow> bool" where
  "store_ok w \<longleftrightarrow>
     keyed_by c_CheckoutID c_ProviderIdempotencyKey (checkouts w)
     \<and> keyed_by s_SubscriptionRef s_CheckoutID (subs w)
     \<and> keyed_by o_EventID (\<lambda>e. (o_SubscriptionRef e, o_StateVersion e)) (outbound w)
     \<and> well_keyed event_key (procEvents w)
     \<and> well_keyed l_ProcessingKey (leases w)
     \<and> keyed_by a_ActionID a_ActionKey (actions w)
     \<and> keyed_by t_AttemptID t_AttemptReference (attempts w)
     \<and> keyed_by t_AttemptID t_IdempotencyKey (attempts w)
     \<and> keyed_by t_AttemptID (\<lambda>a. (t_SubscriptionRef a, t_PeriodStart a, t_AttemptNumber a)) (attempts w)"

lemma store_ok_mem: "mem w' = mem w \<Longrightarrow> store_ok w' = store_ok w"
  by (simp add: store_ok_def)

lemma newToken_mem: "newToken w = (r, w') \<Longrightarrow> mem w' = mem w \<and> clk w' = clk w"
  by (simp add: newToken_def newUUID_mem)

lemma mustToken_mem: "mustToken w = (r, w') \<Longrightarrow> mem w' = mem w \<and> clk w' = clk w"
  by (auto simp: mustToken_def split: prod.splits sum.splits dest: newToken_mem)

text \<open>A computation that leaves the tables alone keeps every invariant of the tables.\<close>

definition mem_only :: "(world \<Rightarrow> bool) \<Rightarrow> bool" where
  "mem_only I \<longleftrightarrow> (\<forall>w w'. mem w' = mem w \<longrightarrow> I w' = I w)"

lemma mem_only_store_ok [simp]: "mem_only store_ok"
  unfolding mem_only_def by (blast dest: store_ok_mem)

lemma mem_onlyD: "mem_only I \<Longrightarrow> mem w' = mem w \<Longrightarrow> I w \<Longrightarrow> I w'"
  unfolding mem_only_def by blast

lemma mem_only_keeps:
  assumes "mem_only I" and "\<And>w r w'. m w = (r, w') \<Longrightarrow> mem w' = mem w \<and> clk w' = clk w"
  shows "keepsT I m"
  by (rule keepsT_I) (blast intro: mem_onlyD [OF assms(1)] dest: assms(2))

lemma keepsT_newToken [keeps]: "mem_only I \<Longrightarrow> keepsT I newToken"
  by (erule mem_only_keeps, erule newToken_mem)

lemma keepsT_mustToken [keeps]: "mem_only I \<Longrightarrow> keepsT I mustToken"
  by (erule mem_only_keeps, erule mustToken_mem)

lemma keepsT_newUUID [keeps]: "mem_only I \<Longrightarrow> keepsT I newUUID"
  by (erule mem_only_keeps, erule newUUID_mem)

lemma keepsT_NewOpaqueID [keeps]: "mem_only I \<Longrightarrow> keepsT I (NewOpaqueID p)"
  by (erule mem_only_keeps, erule NewOpaqueID_mem)

lemma keepsT_write: "(\<And>w. I w \<Longrightarrow> I (f w)) \<Longrightarrow> keepsT I (writeT f)"
  by (simp add: keepsT_def wp)

text \<open>Reads.\<close>

lemma keepsT_lookup [keeps]: "keepsT I (lookup_row tab k)"
  by (rule keepsT_I) (simp add: lookup_row_def)

lemma keepsT_scan [keeps]: "keepsT I (scan_row tab p)"
  by (rule keepsT_I) (simp add: scan_row_def)

lemma keepsT_reads [keeps]:
  "keepsT I (GetCheckout k)" "keepsT I (GetCheckoutForUpdate k)" "keepsT I (GetSubscription k)"
  "keepsT I (GetSubscriptionForUpdate k)" "keepsT I (GetSubscriptionByCheckout k)"
  "keepsT I (GetSubscriptionByProcessor f k)" "keepsT I (GetSubscriptionByInitialPayment f k)"
  "keepsT I (ListSubscriptions n)" "keepsT I (GetOutbound k)" "keepsT I (ListOutbound k n)"
  "keepsT I (GetProcessorEvent f k)" "keepsT I (GetAction k)" "keepsT I (GetActionByKey k)"
  "keepsT I (ListActions n)" "keepsT I (GetAttempt k)" "keepsT I (GetAttemptByReference k)"
  "keepsT I (GetAttemptsForAction k)" "keepsT I (ListAttempts ss n)" "keepsT I nowT"
  by (simp_all add: GetCheckout_def GetCheckoutForUpdate_def GetSubscription_def GetSubscriptionForUpdate_def
      GetSubscriptionByCheckout_def GetSubscriptionByProcessor_def GetSubscriptionByInitialPayment_def
      ListSubscriptions_def GetOutbound_def ListOutbound_def
      GetProcessorEvent_def GetAction_def GetActionByKey_def ListActions_def GetAttempt_def
      GetAttemptByReference_def GetAttemptsForAction_def ListAttempts_def nowT_def keeps)

lemma keepsT_LatestOutbound [keeps]: "keepsT I (LatestOutbound k)"
  by (rule keepsT_I) (simp add: LatestOutbound_def)

lemma keepsT_LockDueAction [keeps]: "keepsT I (LockDueAction now st ks)"
  by (rule keepsT_I) (simp add: LockDueAction_def)

lemma keepsT_composite_reads [keeps]:
  "keepsT I (GetSubscriptionByChargePayment k)" "keepsT I (ownedOutbound k t n)"
  unfolding GetSubscriptionByChargePayment_def ownedOutbound_def
  by (intro keeps)+

subsection \<open>What a row is bound to\<close>

text \<open>
  The part of a row that no operation changes once it is inserted: what a checkout, a subscription, an
  outbound event, an action and a charge attempt are bound to.  A pin states the binding of one row;
  \<open>winv P\<close> is the store invariant together with the pins of \<open>P\<close>.
\<close>

definition bind_checkout where
  "bind_checkout c = (c_PlanID c, c_NormalizedReturnURL c, c_ProcessorFamily c, c_RequestFingerprint c,
     c_ProviderIdempotencyKey c, c_ProcessorShopperReference c, c_CreatedAt c)"

definition bind_sub where
  "bind_sub s = (s_CheckoutID s, s_ProcessorFamily s, s_ProcessorCustomerID s, s_ProcessorSubscriptionID s,
     s_ProcessorInitialPaymentID s, s_ProcessorShopperReference s)"

definition bind_outbound where
  "bind_outbound e = (o_EventType e, o_SubscriptionRef e, o_CheckoutID e, o_StateVersion e, o_PayloadBody e,
     o_CreatedAt e)"

definition bind_action where
  "bind_action a = (a_ActionKey a, a_SubscriptionRef a, a_ActionType a, a_TargetAt a)"

definition bind_attempt where
  "bind_attempt a = (t_ActionID a, t_SubscriptionRef a, t_PeriodStart a, t_PeriodEnd a, t_AttemptNumber a,
     t_AmountMinor a, t_Currency a, t_AttemptReference a, t_ShopperReference a, t_IdempotencyKey a,
     t_RequestFingerprint a, t_RequestCiphertext a, t_RequestNonce a, t_RequestKeyVersion a)"

lemmas bind_defs = bind_checkout_def bind_sub_def bind_outbound_def bind_action_def bind_attempt_def

datatype pin =
    PinCheckout string "string \<times> string \<times> string \<times> bytes \<times> string \<times> string option \<times> gotime"
  | PinSub string "string \<times> string \<times> string option \<times> string option \<times> string option \<times> string option"
  | PinOutbound string "string \<times> string \<times> string \<times> int \<times> bytes \<times> gotime"
  | PinAction string "string \<times> string \<times> string \<times> gotime"
  | PinAttempt string "string \<times> string \<times> gotime \<times> gotime \<times> int \<times> int \<times> string \<times> string \<times> string
      \<times> string \<times> bytes \<times> bytes \<times> bytes \<times> string"

definition pinned :: "world \<Rightarrow> pin \<Rightarrow> bool" where
  "pinned w p = (case p of
     PinCheckout k b \<Rightarrow> map_option bind_checkout (map_of (checkouts w) k) = Some b
   | PinSub k b \<Rightarrow> map_option bind_sub (map_of (subs w) k) = Some b
   | PinOutbound k b \<Rightarrow> map_option bind_outbound (map_of (outbound w) k) = Some b
   | PinAction k b \<Rightarrow> map_option bind_action (map_of (actions w) k) = Some b
   | PinAttempt k b \<Rightarrow> map_option bind_attempt (map_of (attempts w) k) = Some b)"

definition winv :: "pin set \<Rightarrow> world \<Rightarrow> bool" where
  "winv P w \<longleftrightarrow> store_ok w \<and> (\<forall>p\<in>P. pinned w p)"

lemma mem_only_inv [simp]: "mem_only (winv P)"
proof -
  have "winv P w' = winv P w" if "mem w' = mem w" for w w'
    using that by (simp add: winv_def pinned_def store_ok_def cong: pin.case_cong)
  then show ?thesis unfolding mem_only_def by blast
qed

lemma inv_store_ok: "winv P w \<Longrightarrow> store_ok w"
  by (simp add: winv_def)

lemma inv_insert: "winv (insert p P) w \<longleftrightarrow> winv P w \<and> pinned w p"
  by (auto simp: winv_def)

text \<open>Replacing a row by one with the same binding.\<close>

lemma pinned_put:
  "map_of (checkouts w) k = Some c \<Longrightarrow> bind_checkout c' = bind_checkout c \<Longrightarrow>
     pinned (set_checkouts (AList.update k c' (checkouts w)) w) p = pinned w p"
  "map_of (subs w) k = Some s \<Longrightarrow> bind_sub s' = bind_sub s \<Longrightarrow>
     pinned (set_subs (AList.update k s' (subs w)) w) p = pinned w p"
  "map_of (outbound w) k = Some e \<Longrightarrow> bind_outbound e' = bind_outbound e \<Longrightarrow>
     pinned (set_outbound (AList.update k e' (outbound w)) w) p = pinned w p"
  "map_of (actions w) k = Some a \<Longrightarrow> bind_action a' = bind_action a \<Longrightarrow>
     pinned (set_actions (AList.update k a' (actions w)) w) p = pinned w p"
  "map_of (attempts w) k = Some t \<Longrightarrow> bind_attempt t' = bind_attempt t \<Longrightarrow>
     pinned (set_attempts (AList.update k t' (attempts w)) w) p = pinned w p"
  "pinned (set_procEvents pe w) p = pinned w p" "pinned (set_leases le w) p = pinned w p"
  "pinned (set_audits au w) p = pinned w p"
  by (simp_all add: pinned_def set_table_defs split: pin.split)

lemma store_ok_put:
  "store_ok w \<Longrightarrow> map_of (checkouts w) k = Some c \<Longrightarrow> c_CheckoutID c' = k \<Longrightarrow> bind_checkout c' = bind_checkout c \<Longrightarrow>
     store_ok (set_checkouts (AList.update k c' (checkouts w)) w)"
  "store_ok w \<Longrightarrow> map_of (subs w) k = Some s \<Longrightarrow> s_SubscriptionRef s' = k \<Longrightarrow> bind_sub s' = bind_sub s \<Longrightarrow>
     store_ok (set_subs (AList.update k s' (subs w)) w)"
  "store_ok w \<Longrightarrow> map_of (outbound w) k = Some e \<Longrightarrow> o_EventID e' = k \<Longrightarrow> bind_outbound e' = bind_outbound e \<Longrightarrow>
     store_ok (set_outbound (AList.update k e' (outbound w)) w)"
  "store_ok w \<Longrightarrow> map_of (actions w) k = Some a \<Longrightarrow> a_ActionID a' = k \<Longrightarrow> bind_action a' = bind_action a \<Longrightarrow>
     store_ok (set_actions (AList.update k a' (actions w)) w)"
  "store_ok w \<Longrightarrow> map_of (attempts w) k = Some t \<Longrightarrow> t_AttemptID t' = k \<Longrightarrow> bind_attempt t' = bind_attempt t \<Longrightarrow>
     store_ok (set_attempts (AList.update k t' (attempts w)) w)"
  by (simp_all add: store_ok_def set_table_defs bind_defs keyed_by_replace)

lemma store_ok_put_other:
  "store_ok w \<Longrightarrow> event_key e = k \<Longrightarrow> store_ok (set_procEvents (AList.update k e (procEvents w)) w)"
  "store_ok w \<Longrightarrow> l_ProcessingKey l = k \<Longrightarrow> store_ok (set_leases (AList.update k l (leases w)) w)"
  "store_ok w \<Longrightarrow> store_ok (set_audits au w)"
  by (simp_all add: store_ok_def set_table_defs well_keyed_update)

lemma store_ok_keys:
  "store_ok w \<Longrightarrow> map_of (checkouts w) k = Some c \<Longrightarrow> c_CheckoutID c = k"
  "store_ok w \<Longrightarrow> map_of (subs w) k = Some s \<Longrightarrow> s_SubscriptionRef s = k"
  "store_ok w \<Longrightarrow> map_of (outbound w) k = Some e \<Longrightarrow> o_EventID e = k"
  "store_ok w \<Longrightarrow> map_of (procEvents w) k = Some pe \<Longrightarrow> event_key pe = k"
  "store_ok w \<Longrightarrow> map_of (leases w) k = Some l \<Longrightarrow> l_ProcessingKey l = k"
  "store_ok w \<Longrightarrow> map_of (actions w) k = Some a \<Longrightarrow> a_ActionID a = k"
  "store_ok w \<Longrightarrow> map_of (attempts w) k = Some t \<Longrightarrow> t_AttemptID t = k"
  by (auto simp: store_ok_def keyed_by_def dest: well_keyed_key)

lemma inv_put:
  "winv P w \<Longrightarrow> map_of (checkouts w) k = Some c \<Longrightarrow> c_CheckoutID c' = c_CheckoutID c \<Longrightarrow>
     bind_checkout c' = bind_checkout c \<Longrightarrow> winv P (set_checkouts (AList.update k c' (checkouts w)) w)"
  "winv P w \<Longrightarrow> map_of (subs w) k = Some s \<Longrightarrow> s_SubscriptionRef s' = s_SubscriptionRef s \<Longrightarrow>
     bind_sub s' = bind_sub s \<Longrightarrow> winv P (set_subs (AList.update k s' (subs w)) w)"
  "winv P w \<Longrightarrow> map_of (outbound w) k = Some e \<Longrightarrow> o_EventID e' = o_EventID e \<Longrightarrow>
     bind_outbound e' = bind_outbound e \<Longrightarrow> winv P (set_outbound (AList.update k e' (outbound w)) w)"
  "winv P w \<Longrightarrow> map_of (actions w) k = Some a \<Longrightarrow> a_ActionID a' = a_ActionID a \<Longrightarrow>
     bind_action a' = bind_action a \<Longrightarrow> winv P (set_actions (AList.update k a' (actions w)) w)"
  "winv P w \<Longrightarrow> map_of (attempts w) k = Some t \<Longrightarrow> t_AttemptID t' = t_AttemptID t \<Longrightarrow>
     bind_attempt t' = bind_attempt t \<Longrightarrow> winv P (set_attempts (AList.update k t' (attempts w)) w)"
  unfolding winv_def
  by ((elim conjE; intro conjI ballI), (rule store_ok_put, assumption, assumption, simp add: store_ok_keys, assumption),
      simp add: pinned_put)+

lemma inv_put_other:
  "winv P w \<Longrightarrow> event_key e = k \<Longrightarrow> winv P (set_procEvents (AList.update k e (procEvents w)) w)"
  "winv P w \<Longrightarrow> l_ProcessingKey l = k \<Longrightarrow> winv P (set_leases (AList.update k l (leases w)) w)"
  "winv P w \<Longrightarrow> winv P (set_audits au w)"
  by (simp_all add: winv_def pinned_put store_ok_put_other)

text \<open>Inserting a fresh row, and rewriting rows in place.\<close>

lemma pinned_new:
  "pinned w p \<Longrightarrow> map_of (checkouts w) k = None \<Longrightarrow> pinned (set_checkouts (AList.update k c (checkouts w)) w) p"
  "pinned w p \<Longrightarrow> map_of (subs w) k = None \<Longrightarrow> pinned (set_subs (AList.update k s (subs w)) w) p"
  "pinned w p \<Longrightarrow> map_of (outbound w) k = None \<Longrightarrow> pinned (set_outbound (AList.update k e (outbound w)) w) p"
  "pinned w p \<Longrightarrow> map_of (actions w) k = None \<Longrightarrow> pinned (set_actions (AList.update k a (actions w)) w) p"
  "pinned w p \<Longrightarrow> map_of (attempts w) k = None \<Longrightarrow> pinned (set_attempts (AList.update k t (attempts w)) w) p"
  by (auto simp: pinned_def set_table_defs split: pin.splits)

lemma store_ok_new:
  "store_ok w \<Longrightarrow> map_of (checkouts w) k = None \<Longrightarrow> c_CheckoutID c = k \<Longrightarrow>
     \<forall>x\<in>set (vals (checkouts w)). c_ProviderIdempotencyKey x \<noteq> c_ProviderIdempotencyKey c \<Longrightarrow>
     store_ok (set_checkouts (AList.update k c (checkouts w)) w)"
  "store_ok w \<Longrightarrow> map_of (subs w) k = None \<Longrightarrow> s_SubscriptionRef s = k \<Longrightarrow>
     \<forall>x\<in>set (vals (subs w)). s_CheckoutID x \<noteq> s_CheckoutID s \<Longrightarrow>
     store_ok (set_subs (AList.update k s (subs w)) w)"
  "store_ok w \<Longrightarrow> map_of (outbound w) k = None \<Longrightarrow> o_EventID e = k \<Longrightarrow>
     \<forall>x\<in>set (vals (outbound w)). \<not> (o_SubscriptionRef x = o_SubscriptionRef e \<and> o_StateVersion x = o_StateVersion e) \<Longrightarrow>
     store_ok (set_outbound (AList.update k e (outbound w)) w)"
  "store_ok w \<Longrightarrow> map_of (actions w) k = None \<Longrightarrow> a_ActionID a = k \<Longrightarrow>
     \<forall>x\<in>set (vals (actions w)). a_ActionKey x \<noteq> a_ActionKey a \<Longrightarrow>
     store_ok (set_actions (AList.update k a (actions w)) w)"
  "store_ok w \<Longrightarrow> map_of (attempts w) k = None \<Longrightarrow> t_AttemptID t = k \<Longrightarrow>
     \<forall>x\<in>set (vals (attempts w)). \<not> attempt_clash t x \<Longrightarrow>
     store_ok (set_attempts (AList.update k t (attempts w)) w)"
  by (auto simp: store_ok_def set_table_defs attempt_clash_def intro!: keyed_by_insert)

lemma inv_new:
  "winv P w \<Longrightarrow> map_of (checkouts w) k = None \<Longrightarrow> c_CheckoutID c = k \<Longrightarrow>
     \<forall>x\<in>set (vals (checkouts w)). c_ProviderIdempotencyKey x \<noteq> c_ProviderIdempotencyKey c \<Longrightarrow>
     winv P (set_checkouts (AList.update k c (checkouts w)) w)"
  "winv P w \<Longrightarrow> map_of (subs w) k = None \<Longrightarrow> s_SubscriptionRef s = k \<Longrightarrow>
     \<forall>x\<in>set (vals (subs w)). s_CheckoutID x \<noteq> s_CheckoutID s \<Longrightarrow>
     winv P (set_subs (AList.update k s (subs w)) w)"
  "winv P w \<Longrightarrow> map_of (outbound w) k = None \<Longrightarrow> o_EventID e = k \<Longrightarrow>
     \<forall>x\<in>set (vals (outbound w)). \<not> (o_SubscriptionRef x = o_SubscriptionRef e \<and> o_StateVersion x = o_StateVersion e) \<Longrightarrow>
     winv P (set_outbound (AList.update k e (outbound w)) w)"
  "winv P w \<Longrightarrow> map_of (actions w) k = None \<Longrightarrow> a_ActionID a = k \<Longrightarrow>
     \<forall>x\<in>set (vals (actions w)). a_ActionKey x \<noteq> a_ActionKey a \<Longrightarrow>
     winv P (set_actions (AList.update k a (actions w)) w)"
  "winv P w \<Longrightarrow> map_of (attempts w) k = None \<Longrightarrow> t_AttemptID t = k \<Longrightarrow>
     \<forall>x\<in>set (vals (attempts w)). \<not> attempt_clash t x \<Longrightarrow>
     winv P (set_attempts (AList.update k t (attempts w)) w)"
  unfolding winv_def
  by ((elim conjE; intro conjI ballI), (rule store_ok_new; assumption), (rule pinned_new; blast))+

lemma inv_rewrite_checkouts:
  assumes "winv P w" and "\<And>c. c_CheckoutID (g c) = c_CheckoutID c" and "\<And>c. bind_checkout (g c) = bind_checkout c"
  shows "winv P (set_checkouts (map (\<lambda>(k, c). (k, g c)) (checkouts w)) w)"
proof -
  have "store_ok (set_checkouts (map (\<lambda>(k, c). (k, g c)) (checkouts w)) w)"
    using assms by (simp add: winv_def store_ok_def set_table_defs keyed_by_rewrite bind_checkout_def)
  moreover have "pinned (set_checkouts (map (\<lambda>(k, c). (k, g c)) (checkouts w)) w) p = pinned w p" for p
    using assms(3) by (simp add: pinned_def set_table_defs map_of_rewrite option.map_comp comp_def split: pin.split)
  ultimately show ?thesis using assms(1) by (simp add: winv_def)
qed

lemma inv_rewrite_actions:
  assumes "winv P w" and "\<And>c. a_ActionID (g c) = a_ActionID c" and "\<And>c. bind_action (g c) = bind_action c"
  shows "winv P (set_actions (map (\<lambda>(k, c). (k, g c)) (actions w)) w)"
proof -
  have "store_ok (set_actions (map (\<lambda>(k, c). (k, g c)) (actions w)) w)"
    using assms by (simp add: winv_def store_ok_def set_table_defs keyed_by_rewrite bind_action_def)
  moreover have "pinned (set_actions (map (\<lambda>(k, c). (k, g c)) (actions w)) w) p = pinned w p" for p
    using assms(3) by (simp add: pinned_def set_table_defs map_of_rewrite option.map_comp comp_def split: pin.split)
  ultimately show ?thesis using assms(1) by (simp add: winv_def)
qed

subsection \<open>Every operation keeps the invariant and every pin\<close>

lemma keepsT_InsertCheckout [keeps]: "keepsT (winv P) (InsertCheckout c)"
  by (rule keepsT_I) (auto simp: InsertCheckout_def list_ex_iff intro!: inv_new split: if_split_asm)

lemma keepsT_InsertSubscription [keeps]: "keepsT (winv P) (InsertSubscription s)"
  by (rule keepsT_I) (auto simp: InsertSubscription_def list_ex_iff intro!: inv_new split: if_split_asm)

lemma keepsT_InsertOutbound [keeps]: "keepsT (winv P) (InsertOutbound e)"
  by (rule keepsT_I) (auto simp: InsertOutbound_def list_ex_iff intro!: inv_new split: if_split_asm)

lemma keepsT_InsertAction [keeps]: "keepsT (winv P) (InsertAction a)"
  by (rule keepsT_I) (auto simp: InsertAction_def list_ex_iff intro!: inv_new split: if_split_asm)

lemma keepsT_InsertAttempt [keeps]: "keepsT (winv P) (InsertAttempt t)"
  by (rule keepsT_I) (auto simp: InsertAttempt_def list_ex_iff intro!: inv_new split: if_split_asm)

lemma keepsT_InsertAudit [keeps]: "keepsT (winv P) (InsertAudit u)"
  by (rule keepsT_I) (auto simp: InsertAudit_def intro!: inv_put_other)

lemma keepsT_InsertProcessorEvent [keeps]: "keepsT (winv P) (InsertProcessorEvent e)"
  by (rule keepsT_I)
    (auto simp: InsertProcessorEvent_def Let_def event_key_def intro!: inv_put_other split: if_split_asm)

lemma keepsT_ExpireDueCheckouts [keeps]: "keepsT (winv P) (ExpireDueCheckouts now)"
  by (rule keepsT_I)
    (auto simp: ExpireDueCheckouts_def bind_checkout_def intro!: inv_rewrite_checkouts)

lemma keepsT_CancelActions [keeps]: "keepsT (winv P) (CancelActionsForSubscription ref k)"
  by (rule keepsT_I)
    (auto simp: CancelActionsForSubscription_def bind_action_def intro!: inv_rewrite_actions)

text \<open>An update needs the pin of the row it writes.\<close>

lemma pinned_row:
  "winv P w \<Longrightarrow> PinCheckout k cb \<in> P \<Longrightarrow> \<exists>c. map_of (checkouts w) k = Some c \<and> c_CheckoutID c = k \<and> bind_checkout c = cb"
  "winv P w \<Longrightarrow> PinSub k sb \<in> P \<Longrightarrow> \<exists>s. map_of (subs w) k = Some s \<and> s_SubscriptionRef s = k \<and> bind_sub s = sb"
  "winv P w \<Longrightarrow> PinAttempt k tb \<in> P \<Longrightarrow> \<exists>t. map_of (attempts w) k = Some t \<and> t_AttemptID t = k \<and> bind_attempt t = tb"
  by (auto simp: winv_def pinned_def store_ok_keys dest!: bspec)

lemma keepsT_UpdateCheckout [keeps]:
  assumes "PinCheckout (c_CheckoutID c) (bind_checkout c) \<in> P"
  shows "keepsT (winv P) (UpdateCheckout c)"
proof (rule keepsT_I)
  fix w x t assume *: "winv P w" "UpdateCheckout c w = (Inr x, t)"
  from pinned_row(1) [OF *(1) assms] obtain u where "map_of (checkouts w) (c_CheckoutID c) = Some u"
    "c_CheckoutID u = c_CheckoutID c" "bind_checkout u = bind_checkout c" by blast
  then have "winv P (set_checkouts (AList.update (c_CheckoutID c) (c\<lparr>c_UpdatedAt := Now w\<rparr>) (checkouts w)) w)"
    by (intro inv_put(1) [OF *(1), of _ u]) (simp_all add: bind_checkout_def)
  with * show "winv P t" by (auto simp: UpdateCheckout_def split: if_split_asm)
qed

lemma keepsT_UpdateSubscription [keeps]:
  assumes "PinSub (s_SubscriptionRef s) (bind_sub s) \<in> P"
  shows "keepsT (winv P) (UpdateSubscription s)"
proof (rule keepsT_I)
  fix w x t assume *: "winv P w" "UpdateSubscription s w = (Inr x, t)"
  from pinned_row(2) [OF *(1) assms] obtain u where "map_of (subs w) (s_SubscriptionRef s) = Some u"
    "s_SubscriptionRef u = s_SubscriptionRef s" "bind_sub u = bind_sub s" by blast
  then have "winv P (set_subs (AList.update (s_SubscriptionRef s) (s\<lparr>s_UpdatedAt := Now w\<rparr>) (subs w)) w)"
    by (intro inv_put(2) [OF *(1), of _ u]) (simp_all add: bind_sub_def)
  with * show "winv P t" by (auto simp: UpdateSubscription_def split: if_split_asm)
qed

lemma keepsT_UpdateAttempt [keeps]:
  assumes "PinAttempt (t_AttemptID a) (bind_attempt a) \<in> P"
  shows "keepsT (winv P) (UpdateAttempt a)"
proof (rule keepsT_I)
  fix w x t assume *: "winv P w" "UpdateAttempt a w = (Inr x, t)"
  from pinned_row(3) [OF *(1) assms] obtain u where "map_of (attempts w) (t_AttemptID a) = Some u"
    "t_AttemptID u = t_AttemptID a" "bind_attempt u = bind_attempt a" by blast
  then have "winv P (set_attempts (AList.update (t_AttemptID a) a (attempts w)) w)"
    by (intro inv_put(5) [OF *(1), of _ u]) simp_all
  with * show "winv P t" by (auto simp: UpdateAttempt_def split: if_split_asm)
qed

text \<open>Operations that load a row and write it back.\<close>

lemma keepsT_lookup_bind:
  "(\<And>w v. I w \<Longrightarrow> map_of (tab w) k = Some v \<Longrightarrow> wpT (f v) (\<lambda>_. I) w) \<Longrightarrow> keepsT I (bindT (lookup_row tab k) f)"
  by (auto simp: keepsT_def lookup_row_def wpT_def bindT_def split: option.splits)

lemma wpT_newToken: "mem_only I \<Longrightarrow> I w \<Longrightarrow> (\<And>tok w'. I w' \<Longrightarrow> mem w' = mem w \<Longrightarrow> Q tok w') \<Longrightarrow> wpT newToken Q w"
  by (rule wpT_I) (blast dest: newToken_mem mem_onlyD)

lemma wpT_mustToken: "mem_only I \<Longrightarrow> I w \<Longrightarrow> (\<And>tok w'. I w' \<Longrightarrow> Q tok w') \<Longrightarrow> wpT mustToken Q w"
  by (rule wpT_I) (blast dest: mustToken_mem mem_onlyD)

lemma keepsT_ownedOutbound_bind:
  assumes "\<And>w e. I w \<Longrightarrow> map_of (outbound w) i = Some e \<Longrightarrow> wpT (f e) (\<lambda>_. I) w"
  shows "keepsT I (bindT (ownedOutbound i t n) f)"
  using assms
  by (auto simp: keepsT_def ownedOutbound_def lookup_row_def wpT_def bindT_def thenT_def split: option.splits)

lemma keepsT_outbound_ops [keeps]:
  "keepsT (winv P) (CompleteOutbound i t n now)" "keepsT (winv P) (RetryOutbound i t n nxt ec)"
  "keepsT (winv P) (DeadLetterOutbound i t n now ec)"
  unfolding CompleteOutbound_def RetryOutbound_def DeadLetterOutbound_def put_outbound_def
  by (rule keepsT_ownedOutbound_bind; simp add: wp inv_put bind_outbound_def)+

lemma wpT_audit:
  "winv P w \<Longrightarrow> wpT (bindT mustToken (\<lambda>i. InsertAudit (u i))) (\<lambda>_. winv P) w"
  unfolding wpT_bind by (rule wpT_mustToken [of "winv P"]) (simp_all add: InsertAudit_def wpT_def inv_put_other)

lemma keepsT_AbandonOutbound [keeps]: "keepsT (winv P) (AbandonOutbound i r a now)"
  unfolding AbandonOutbound_def put_outbound_def
  by (rule keepsT_lookup_bind, unfold wpT_then wpT_guard wpT_write, intro impI wpT_audit)
    (simp add: inv_put bind_outbound_def)

lemma keepsT_RequeueOutbound [keeps]: "keepsT (winv P) (RequeueOutbound i r a now)"
  unfolding RequeueOutbound_def put_outbound_def
  by (rule keepsT_lookup_bind, unfold wpT_then wpT_guard wpT_write, intro impI wpT_audit)
    (simp add: inv_put bind_outbound_def)

lemma earliest_mem: "earliest t b vs = Some v \<Longrightarrow> v \<in> set vs \<or> b = Some v"
  by (induction vs arbitrary: b) (auto split: option.splits if_split_asm)

lemma store_ok_vals:
  "store_ok w \<Longrightarrow> e \<in> set (vals (outbound w)) \<Longrightarrow> map_of (outbound w) (o_EventID e) = Some e"
  "store_ok w \<Longrightarrow> a \<in> set (vals (actions w)) \<Longrightarrow> map_of (actions w) (a_ActionID a) = Some a"
  unfolding store_ok_def keyed_by_def by (blast dest: well_keyed_values [THEN iffD1])+

lemma keepsT_ClaimDueOutbound [keeps]: "keepsT (winv P) (ClaimDueOutbound now lease)"
proof (rule keepsT_I)
  fix w e t assume *: "winv P w" "ClaimDueOutbound now lease w = (Inr e, t)"
  then obtain chosen tok w' where c: "earliest (\<lambda>e. the (o_NextAttemptAt e)) None (filter (outbound_due now) (vals (outbound w))) = Some chosen"
    and tok: "newToken w = (Inr tok, w')"
    by (auto simp: ClaimDueOutbound_def split: option.splits prod.splits sum.splits)
  have m: "mem w' = mem w" using newToken_mem [OF tok] by simp
  have i: "winv P w'" using mem_onlyD [OF mem_only_inv m] *(1) .
  have "chosen \<in> set (vals (outbound w))" using earliest_mem [OF c] by auto
  then have look: "map_of (outbound w') (o_EventID chosen) = Some chosen"
    using store_ok_vals(1) [OF inv_store_ok [OF *(1)]] by (simp add: m)
  have "winv P (set_outbound (AList.update (o_EventID chosen) (stamp_outbound tok (now + lease) chosen) (outbound w')) w')"
    by (rule inv_put(3) [OF i look]) (simp_all add: stamp_outbound_def bind_outbound_def)
  moreover have "o_EventID (stamp_outbound tok (now + lease) chosen) = o_EventID chosen"
    by (simp add: stamp_outbound_def)
  ultimately show "winv P t" using *(2) c tok look by (auto simp: ClaimDueOutbound_def Let_def)
qed


lemma keepsT_FinishAction [keeps]: "keepsT (winv P) (FinishAction i t n st due ec)"
  unfolding FinishAction_def
  by (rule keepsT_lookup_bind)
    (auto simp: wp Let_def intro!: inv_put(4) split: option.split simp: bind_action_def)

lemma keepsT_ForceFinishAction [keeps]: "keepsT (winv P) (ForceFinishAction i st due ec)"
  unfolding ForceFinishAction_def
  by (rule keepsT_lookup_bind)
    (auto simp: wp Let_def intro!: inv_put(4) split: option.split simp: bind_action_def)

lemma keepsT_ClaimAction [keeps]: "keepsT (winv P) (ClaimAction i now lease)"
  unfolding ClaimAction_def
proof (rule keepsT_lookup_bind, unfold wpT_then wpT_bind wpT_guard wpT_read Let_def, intro impI)
  fix w a assume *: "winv P w" "map_of (actions w) i = Some a"
  show "wpT newToken (\<lambda>token. wpT (writeT (\<lambda>w. set_actions (AList.update
      (a_ActionID (stamp_action token (now + lease) a)) (stamp_action token (now + lease) a) (actions w)) w))
      (\<lambda>_. wpT (retT (stamp_action token (now + lease) a)) (\<lambda>_. winv P))) w"
  proof (rule wpT_newToken [OF mem_only_inv *(1)])
    fix tok w' assume w': "winv P w'" "mem w' = mem w"
    have k: "a_ActionID a = i" using store_ok_keys(6) [OF inv_store_ok [OF *(1)] *(2)] .
    have "map_of (actions w') (a_ActionID a) = Some a" using *(2) w'(2) k by simp
    then have "winv P (set_actions (AList.update (a_ActionID a) (stamp_action tok (now + lease) a) (actions w')) w')"
      by (rule inv_put(4) [OF w'(1)]) (simp_all add: stamp_action_def bind_action_def)
    then show "wpT (writeT (\<lambda>w. set_actions (AList.update
        (a_ActionID (stamp_action tok (now + lease) a)) (stamp_action tok (now + lease) a) (actions w)) w))
        (\<lambda>_. wpT (retT (stamp_action tok (now + lease) a)) (\<lambda>_. winv P)) w'"
      by (simp add: wp) (simp add: stamp_action_def)
  qed
qed

lemma keepsT_ClaimDueAction [keeps]: "keepsT (winv P) (ClaimDueAction now lease st ks)"
  unfolding ClaimDueAction_def by (intro keeps)

lemma keepsT_ClaimAttemptWithAction [keeps]: "keepsT (winv P) (ClaimAttemptWithAction i j t n now lease dl)"
  unfolding ClaimAttemptWithAction_def
  by (rule keepsT_bind [OF keepsT_lookup], rule keepsT_then [OF keepsT_guard], rule keepsT_lookup_bind)
    (auto simp: wp Let_def intro!: inv_put(5) simp: bind_attempt_def)

lemmas winv_keys = store_ok_keys [OF inv_store_ok]
lemmas winv_event_key = store_ok_keys(4) [OF inv_store_ok, unfolded event_key_def]

lemma keepsT_FinishProcessorEvent [keeps]: "keepsT (winv P) (FinishProcessorEvent f i t n st r now)"
  unfolding FinishProcessorEvent_def GetProcessorEvent_def
  by (rule keepsT_lookup_bind) (auto simp: wp Let_def event_key_def winv_event_key intro!: inv_put_other)

lemma keepsT_ReleaseProcessorLease [keeps]: "keepsT (winv P) (ReleaseProcessorLease k t n)"
  unfolding ReleaseProcessorLease_def
  by (rule keepsT_lookup_bind) (auto simp: wp Let_def winv_keys(5) intro!: inv_put_other)

lemma keepsT_ClaimProcessorEvent [keeps]: "keepsT (winv P) (ClaimProcessorEvent f i k now lease)"
  unfolding ClaimProcessorEvent_def GetProcessorEvent_def Let_def
proof (rule keepsT_lookup_bind, unfold wpT_then wpT_bind wpT_guard wpT_read wpT_write wpT_ret, intro impI,
    rule wpT_newToken [OF mem_only_inv], assumption)
  fix w and e :: processor_event and tok w'
  let ?r = "stamp_lease k (p_ProcessingActionID e) tok (now + lease)
    (case map_of (leases w) k of None \<Rightarrow> zero_processing_lease | Some r \<Rightarrow> r)"
  let ?w = "set_leases (AList.update k ?r (leases w')) w'"
  assume *: "winv P w" "map_of (procEvents w) (procKey f i) = Some e" "winv P w'"
  have "winv P ?w" by (rule inv_put_other(2) [OF *(3)]) (simp add: stamp_lease_def)
  then show "winv P (set_procEvents (AList.update (procKey f i)
      (e\<lparr>p_ProcessingState := ''running'', p_ClaimToken := Some tok, p_FencingToken := l_FencingToken ?r,
         p_LeaseUntil := Some (now + lease)\<rparr>) (procEvents ?w)) ?w)"
    by (rule inv_put_other(1)) (simp add: event_key_def winv_event_key [OF *(1,2)])
qed

text \<open>A transaction keeps the invariant whatever its outcome, short of a panic.\<close>

lemma InTx_atomic:
  assumes "InTx m w = (Inl e, w')" and "e \<noteq> ErrPanic"
  shows "mem w' = (mem w)\<lparr>m_schema := m_schema (mem w')\<rparr>"
  using assms by (auto simp: InTx_def split: prod.splits sum.splits)

lemma winv_schema: "winv P (w'\<lparr>mem := (mem w)\<lparr>m_schema := v\<rparr>\<rparr>) = winv P w"
  by (simp add: winv_def store_ok_def pinned_def cong: pin.case_cong)

lemma InTx_inv:
  assumes "keepsT (winv P) m" and "winv P w" and "InTx m w = (r, w')" and "r \<noteq> Inl ErrPanic"
  shows "winv P w'"
  using assms by (auto simp: InTx_def winv_schema split: prod.splits sum.splits if_split_asm dest: keepsT_D)

lemma keepsT_InTx [keeps]: "keepsT (winv P) m \<Longrightarrow> keepsT (winv P) (InTx m)"
  by (rule keepsT_I) (auto intro: InTx_inv)

end
