(* ===== verification/StoreRuns.thy ===== *)
theory StoreRuns
  imports Memory
begin

text \<open>
  Runs of the in-memory store of \<^verbatim>\<open>internal/store/memory.go\<close>: sequences of transactions of any number
  of workers, the fences of claimed rows along them, and the properties the rest of the service rests
  on: unique and immutable bindings, final deliveries, exclusive and fenced claims.
\<close>

section \<open>Runs of the store\<close>

text \<open>The operations of a transaction that write, and their meaning.\<close>

datatype store_op =
    InsertCheckoutOp checkout | UpdateCheckoutOp checkout | ExpireCheckoutsOp gotime
  | InsertSubscriptionOp subscription | UpdateSubscriptionOp subscription
  | InsertOutboundOp outbound_event | ClaimOutboundOp gotime duration
  | CompleteOutboundOp string string int gotime | RetryOutboundOp string string int gotime string
  | DeadLetterOutboundOp string string int gotime string
  | AbandonOutboundOp string string string gotime | RequeueOutboundOp string string string gotime
  | InsertEventOp processor_event | ClaimEventOp string string string gotime duration
  | FinishEventOp string string string int string "string option" gotime | ReleaseLeaseOp string string int
  | InsertActionOp scheduled_action | ClaimActionOp string gotime duration
  | ClaimDueActionOp gotime duration string "string list"
  | FinishActionOp string string int string "gotime option" "string option"
  | ForceFinishActionOp string string "gotime option" "string option" | CancelActionsOp string string
  | InsertAttemptOp charge_attempt | UpdateAttemptOp charge_attempt
  | ClaimAttemptOp string string string int gotime duration gotime | InsertAuditOp audit

definition discard :: "(world, 'a) tx \<Rightarrow> (world, unit) tx" where
  "discard m = bindT m (\<lambda>_. retT ())"

fun exec :: "store_op \<Rightarrow> (world, unit) tx" where
  "exec (InsertCheckoutOp c) = InsertCheckout c"
| "exec (UpdateCheckoutOp c) = UpdateCheckout c"
| "exec (ExpireCheckoutsOp now) = discard (ExpireDueCheckouts now)"
| "exec (InsertSubscriptionOp s) = InsertSubscription s"
| "exec (UpdateSubscriptionOp s) = UpdateSubscription s"
| "exec (InsertOutboundOp e) = InsertOutbound e"
| "exec (ClaimOutboundOp now lease) = discard (ClaimDueOutbound now lease)"
| "exec (CompleteOutboundOp i t n now) = CompleteOutbound i t n now"
| "exec (RetryOutboundOp i t n nxt ec) = RetryOutbound i t n nxt ec"
| "exec (DeadLetterOutboundOp i t n now ec) = DeadLetterOutbound i t n now ec"
| "exec (AbandonOutboundOp i r a now) = AbandonOutbound i r a now"
| "exec (RequeueOutboundOp i r a now) = RequeueOutbound i r a now"
| "exec (InsertEventOp e) = discard (InsertProcessorEvent e)"
| "exec (ClaimEventOp f i k now lease) = discard (ClaimProcessorEvent f i k now lease)"
| "exec (FinishEventOp f i t n st r now) = FinishProcessorEvent f i t n st r now"
| "exec (ReleaseLeaseOp k t n) = ReleaseProcessorLease k t n"
| "exec (InsertActionOp a) = InsertAction a"
| "exec (ClaimActionOp i now lease) = discard (ClaimAction i now lease)"
| "exec (ClaimDueActionOp now lease st ks) = discard (ClaimDueAction now lease st ks)"
| "exec (FinishActionOp i t n st due ec) = FinishAction i t n st due ec"
| "exec (ForceFinishActionOp i st due ec) = ForceFinishAction i st due ec"
| "exec (CancelActionsOp ref k) = CancelActionsForSubscription ref k"
| "exec (InsertAttemptOp a) = InsertAttempt a"
| "exec (UpdateAttemptOp a) = UpdateAttempt a"
| "exec (ClaimAttemptOp i j t n now lease dl) = discard (ClaimAttemptWithAction i j t n now lease dl)"
| "exec (InsertAuditOp u) = InsertAudit u"

text \<open>
  The discipline the callers of an update keep: the row they write back carries the binding of the
  row they loaded (the store itself does not check it).
\<close>

fun lawful :: "store_op \<Rightarrow> world \<Rightarrow> bool" where
  "lawful (UpdateCheckoutOp c) w = pinned w (PinCheckout (c_CheckoutID c) (bind_checkout c))"
| "lawful (UpdateSubscriptionOp s) w = pinned w (PinSub (s_SubscriptionRef s) (bind_sub s))"
| "lawful (UpdateAttemptOp a) w = pinned w (PinAttempt (t_AttemptID a) (bind_attempt a))"
| "lawful _ w = True"

lemma keepsT_discard [keeps]: "keepsT I m \<Longrightarrow> keepsT I (discard m)"
  unfolding discard_def by (intro keeps)

lemma exec_keeps:
  assumes "winv P w" and "lawful op w" and "exec op w = (Inr u, w')"
  shows "winv P w'"
proof -
  define Q where "Q = (case op of
      UpdateCheckoutOp c \<Rightarrow> insert (PinCheckout (c_CheckoutID c) (bind_checkout c)) P
    | UpdateSubscriptionOp s \<Rightarrow> insert (PinSub (s_SubscriptionRef s) (bind_sub s)) P
    | UpdateAttemptOp a \<Rightarrow> insert (PinAttempt (t_AttemptID a) (bind_attempt a)) P
    | _ \<Rightarrow> P)"
  have "winv Q w" using assms(1,2) by (cases op) (auto simp: Q_def inv_insert)
  moreover have "keepsT (winv Q) (exec op)" by (cases op) (auto simp: Q_def intro!: keeps)
  ultimately have "winv Q w'" using keepsT_D [where I = "winv Q" and m = "exec op", OF _ _ assms(3)] by blast
  then show ?thesis by (cases op) (auto simp: Q_def inv_insert)
qed

text \<open>
  Runs: any number of transactions, failing or not, of any workers in any order, with the clock
  moving between them; the counter bounds the number of transactions.
\<close>

inductive store_run :: "nat \<Rightarrow> world \<Rightarrow> world \<Rightarrow> bool" where
  start: "store_run 0 w w"
| transact: "store_run n w w1 \<Longrightarrow> lawful op w1 \<Longrightarrow> InTx (exec op) w1 = (r, w2) \<Longrightarrow> r \<noteq> Inl ErrPanic \<Longrightarrow>
    store_run (Suc n) w w2"
| tick: "store_run n w w1 \<Longrightarrow> store_run n w (w1\<lparr>clk := t\<rparr>)"

lemma InTx_outcome:
  assumes "InTx m w = (r, w')" and "r \<noteq> Inl ErrPanic"
  obtains (committed) x where "r = Inr x" "m w = (Inr x, w')"
    | (rolled_back) e v where "r = Inl e" "mem w' = (mem w)\<lparr>m_schema := v\<rparr>"
proof (cases "m w")
  case (Pair q w1)
  show ?thesis
  proof (cases q)
    case (Inl e)
    with Pair assms have r: "r = Inl e" by (auto simp: InTx_def)
    with assms(2) have "e \<noteq> ErrPanic" by simp
    with Pair Inl assms(1) have "mem w' = (mem w)\<lparr>m_schema := m_schema (mem w1)\<rparr>" by (auto simp: InTx_def)
    with r show ?thesis by (rule rolled_back)
  next
    case (Inr x)
    with Pair assms show ?thesis by (intro committed [of x]) (auto simp: InTx_def)
  qed
qed

lemma tables_of_mem:
  "mem w' = (mem w)\<lparr>m_schema := v\<rparr> \<Longrightarrow> winv P w' = winv P w"
  by (simp add: winv_def store_ok_def pinned_def cong: pin.case_cong)

lemma store_run_inv: "store_run n w w' \<Longrightarrow> winv P w \<Longrightarrow> winv P w'"
proof (induction rule: store_run.induct)
  case (transact n w w1 op r w2)
  from transact.hyps(3,4) show ?case
  proof (cases rule: InTx_outcome)
    case (committed x)
    with transact show ?thesis by (auto intro: exec_keeps)
  next
    case (rolled_back e v)
    with transact tables_of_mem show ?thesis by blast
  qed
next
  case (tick n w w1 t)
  then show ?case using mem_onlyD [OF mem_only_inv, of "w1\<lparr>clk := t\<rparr>" w1 P] by simp
qed

lemma store_run_trans: "store_run n w1 w2 \<Longrightarrow> store_run m w0 w1 \<Longrightarrow> store_run (m + n) w0 w2"
  by (induction rule: store_run.induct) (auto intro: store_run.intros simp del: exec.simps)

subsection \<open>Which tables an operation leaves alone\<close>

lemma other_tables:
  "keepsT (\<lambda>w. Q (actions w)) (InsertCheckout c)" "keepsT (\<lambda>w. Q (actions w)) (UpdateCheckout c)"
  "keepsT (\<lambda>w. Q (actions w)) (ExpireDueCheckouts now)" "keepsT (\<lambda>w. Q (actions w)) (InsertSubscription s)"
  "keepsT (\<lambda>w. Q (actions w)) (UpdateSubscription s)" "keepsT (\<lambda>w. Q (actions w)) (InsertOutbound e)"
  "keepsT (\<lambda>w. Q (actions w)) (InsertAttempt t)" "keepsT (\<lambda>w. Q (actions w)) (UpdateAttempt t)"
  "keepsT (\<lambda>w. Q (actions w)) (InsertAudit u)" "keepsT (\<lambda>w. Q (actions w)) (InsertProcessorEvent pe)"
  "keepsT (\<lambda>w. Q' (outbound w)) (InsertCheckout c)" "keepsT (\<lambda>w. Q' (outbound w)) (UpdateCheckout c)"
  "keepsT (\<lambda>w. Q' (outbound w)) (ExpireDueCheckouts now)" "keepsT (\<lambda>w. Q' (outbound w)) (InsertSubscription s)"
  "keepsT (\<lambda>w. Q' (outbound w)) (UpdateSubscription s)" "keepsT (\<lambda>w. Q' (outbound w)) (InsertAction a)"
  "keepsT (\<lambda>w. Q' (outbound w)) (InsertAttempt t)" "keepsT (\<lambda>w. Q' (outbound w)) (UpdateAttempt t)"
  "keepsT (\<lambda>w. Q' (outbound w)) (InsertAudit u)" "keepsT (\<lambda>w. Q' (outbound w)) (InsertProcessorEvent pe)"
  by (simp_all add: keepsT_def wpT_def InsertCheckout_def UpdateCheckout_def ExpireDueCheckouts_def
      InsertSubscription_def UpdateSubscription_def InsertOutbound_def InsertAttempt_def UpdateAttempt_def
      InsertAudit_def InsertProcessorEvent_def InsertAction_def set_table_defs Let_def)

lemma mem_only_table [simp]: "mem_only (\<lambda>w. Q (actions w))" "mem_only (\<lambda>w. Q' (outbound w))"
  by (simp_all add: mem_only_def)

lemma other_tables_actions:
  "keepsT (\<lambda>w. Q (actions w)) (CompleteOutbound i t n now)"
  "keepsT (\<lambda>w. Q (actions w)) (RetryOutbound i t n now ec)"
  "keepsT (\<lambda>w. Q (actions w)) (DeadLetterOutbound i t n now ec)"
  "keepsT (\<lambda>w. Q (actions w)) (AbandonOutbound i r a now)"
  "keepsT (\<lambda>w. Q (actions w)) (RequeueOutbound i r a now)"
  "keepsT (\<lambda>w. Q (actions w)) (ClaimProcessorEvent f i k now lease)"
  "keepsT (\<lambda>w. Q (actions w)) (FinishProcessorEvent f i t n st ro now)"
  "keepsT (\<lambda>w. Q (actions w)) (ReleaseProcessorLease k t n)"
  "keepsT (\<lambda>w. Q (actions w)) (ClaimAttemptWithAction i j t n now lease dl)"
  unfolding CompleteOutbound_def RetryOutbound_def DeadLetterOutbound_def AbandonOutbound_def RequeueOutbound_def
    ClaimProcessorEvent_def FinishProcessorEvent_def ReleaseProcessorLease_def ClaimAttemptWithAction_def
    put_outbound_def Let_def
  by (intro keeps keepsT_write other_tables; simp add: set_table_defs)+

lemma other_tables_claim: "keepsT (\<lambda>w. Q (actions w)) (ClaimDueOutbound now lease)"
proof (rule keepsT_I)
  fix w e t assume "Q (actions w)" "ClaimDueOutbound now lease w = (Inr e, t)"
  then show "Q (actions t)"
    by (auto simp: ClaimDueOutbound_def Let_def set_table_defs dest!: newToken_mem
        split: option.splits prod.splits sum.splits)
qed

lemma other_tables_outbound:
  "keepsT (\<lambda>w. Q (outbound w)) (ClaimProcessorEvent f i k now lease)"
  "keepsT (\<lambda>w. Q (outbound w)) (FinishProcessorEvent f i t n st ro now)"
  "keepsT (\<lambda>w. Q (outbound w)) (ReleaseProcessorLease k t n)"
  "keepsT (\<lambda>w. Q (outbound w)) (ClaimAttemptWithAction i j t n now lease dl)"
  "keepsT (\<lambda>w. Q (outbound w)) (ClaimAction i now lease)"
  "keepsT (\<lambda>w. Q (outbound w)) (FinishAction i t n st due eco)"
  "keepsT (\<lambda>w. Q (outbound w)) (ForceFinishAction i st due eco)"
  "keepsT (\<lambda>w. Q (outbound w)) (CancelActionsForSubscription i k)"
  unfolding ClaimProcessorEvent_def FinishProcessorEvent_def ReleaseProcessorLease_def ClaimAttemptWithAction_def
    ClaimAction_def FinishAction_def ForceFinishAction_def CancelActionsForSubscription_def Let_def
  by (intro keeps keepsT_write; simp add: set_table_defs)+

lemma other_tables_claim_due: "keepsT (\<lambda>w. Q (outbound w)) (ClaimDueAction now lease st ks)"
  unfolding ClaimDueAction_def by (intro keeps other_tables_outbound)

lemmas untouched = other_tables other_tables_actions other_tables_claim other_tables_outbound other_tables_claim_due

subsection \<open>Fences along a run\<close>

text \<open>The fence of a row after at most \<open>n\<close> further claims.\<close>

definition fence_after :: "nat \<Rightarrow> int \<Rightarrow> int \<Rightarrow> bool" where
  "fence_after n f g \<longleftrightarrow> (\<exists>j\<le>n. g = wrap64 (f + int j))"

definition int64 :: "int \<Rightarrow> bool" where
  "int64 x \<longleftrightarrow> - (2 ^ 63) \<le> x \<and> x < 2 ^ 63"

lemma wrap64_wrap64: "wrap64 (wrap64 x + y) = wrap64 (x + y)"
proof -
  have "(((x + 2 ^ 63) mod 2 ^ 64 - 2 ^ 63) + y + 2 ^ 63) mod 2 ^ 64 = ((x + 2 ^ 63) mod 2 ^ 64 + y) mod 2 ^ 64"
    by simp
  also have "\<dots> = (x + y + 2 ^ 63) mod 2 ^ 64" by (simp add: mod_simps algebra_simps)
  finally show ?thesis by (simp add: wrap64_def)
qed

lemma wrap64_wrap64_right: "wrap64 (y + wrap64 x) = wrap64 (y + x)"
  using wrap64_wrap64 [of x y] by (simp add: add.commute)

lemma fence_after_0: "int64 f \<Longrightarrow> fence_after n f f"
  unfolding fence_after_def int64_def by (rule exI [of _ 0]) (simp add: wrap64_id)

lemma fence_after_Suc: "fence_after n f g \<Longrightarrow> fence_after (Suc n) f (wrap64 (g + 1))"
  unfolding fence_after_def by (elim exE conjE, rule_tac x = "Suc j" in exI) (simp add: wrap64_wrap64 wrap64_wrap64_right algebra_simps)

lemma fence_after_mono: "fence_after n f g \<Longrightarrow> n \<le> m \<Longrightarrow> fence_after m f g"
  unfolding fence_after_def by (blast intro: le_trans)

lemma fence_after_int64: "fence_after n f g \<Longrightarrow> int64 g"
  using wrap64_range by (auto simp: fence_after_def int64_def)

text \<open>Fewer than \<open>2 ^ 64\<close> claims never bring an old fence back.\<close>

lemma wrap64_fresh:
  assumes "0 < k" and "k < 2 ^ 64" shows "wrap64 (f + k) \<noteq> wrap64 f"
proof
  assume "wrap64 (f + k) = wrap64 f"
  then have "(f + 2 ^ 63 + k) mod 2 ^ 64 = (f + 2 ^ 63) mod 2 ^ 64"
    by (simp add: wrap64_def algebra_simps)
  then have "(2 ^ 64 :: int) dvd k" by (simp add: mod_eq_dvd_iff)
  with assms show False by (auto dest: zdvd_imp_le)
qed

lemma fence_never_returns:
  assumes "fence_after n (wrap64 (f + 1)) g" and "int n < 2 ^ 64 - 1" and "int64 f"
  shows "g \<noteq> f"
proof -
  obtain j where j: "j \<le> n" "g = wrap64 (wrap64 (f + 1) + int j)" using assms(1) by (auto simp: fence_after_def)
  then have "g = wrap64 (f + (1 + int j))" by (simp add: wrap64_wrap64 wrap64_wrap64_right algebra_simps)
  moreover have "wrap64 (f + (1 + int j)) \<noteq> wrap64 f" using j(1) assms(2) by (intro wrap64_fresh) simp_all
  moreover have "wrap64 f = f" using assms(3) by (simp add: int64_def wrap64_id)
  ultimately show ?thesis by simp
qed

definition stepped :: "int \<Rightarrow> int \<Rightarrow> bool" where
  "stepped f g \<longleftrightarrow> g = f \<or> g = wrap64 (f + 1)"

definition action_at :: "string \<Rightarrow> int \<Rightarrow> world \<Rightarrow> bool" where
  "action_at k f w \<longleftrightarrow> (\<exists>a. map_of (actions w) k = Some a \<and> stepped f (a_FencingToken a))"

definition action_is :: "string \<Rightarrow> int \<Rightarrow> world \<Rightarrow> bool" where
  "action_is k f w \<longleftrightarrow> (\<exists>a. map_of (actions w) k = Some a \<and> a_FencingToken a = f)"

definition outbound_is :: "string \<Rightarrow> int \<Rightarrow> world \<Rightarrow> bool" where
  "outbound_is k f w \<longleftrightarrow> (\<exists>e. map_of (outbound w) k = Some e \<and> o_FencingToken e = f)"

definition outbound_at :: "string \<Rightarrow> int \<Rightarrow> world \<Rightarrow> bool" where
  "outbound_at k f w \<longleftrightarrow> (\<exists>e. map_of (outbound w) k = Some e \<and> stepped f (o_FencingToken e))"

lemma stepped_refl [simp]: "stepped f f"
  by (simp add: stepped_def)

lemma action_keep:
  "keepsT (action_is k f) (InsertAction a)" "keepsT (action_is k f) (CancelActionsForSubscription ref x)"
  "keepsT (action_is k f) (FinishAction i t n st due ec)" "keepsT (action_is k f) (ForceFinishAction i st due ec)"
proof -
  show "keepsT (action_is k f) (InsertAction a)"
    by (rule keepsT_I) (auto simp: InsertAction_def action_is_def set_table_defs split: if_split_asm)
  show "keepsT (action_is k f) (CancelActionsForSubscription ref x)"
    by (rule keepsT_I) (auto simp: CancelActionsForSubscription_def action_is_def set_table_defs map_of_rewrite)
  show "keepsT (action_is k f) (FinishAction i t n st due ec)"
    unfolding FinishAction_def
    by (rule keepsT_lookup_bind) (auto simp: wp Let_def action_is_def set_table_defs split: option.split)
  show "keepsT (action_is k f) (ForceFinishAction i st due ec)"
    unfolding ForceFinishAction_def
    by (rule keepsT_lookup_bind) (auto simp: wp Let_def action_is_def set_table_defs split: option.split)
qed

lemma ClaimAction_Inr:
  assumes "ClaimAction i now lease w = (Inr a', w')" and "winv P w"
  obtains a tok where "map_of (actions w) i = Some a" "action_claimable a now" "charging_open w a"
    "a' = stamp_action tok (now + lease) a" "actions w' = AList.update i a' (actions w)"
proof -
  obtain a where a: "map_of (actions w) i = Some a" "action_claimable a now" "charging_open w a"
    and *: "bindT newToken (\<lambda>token. let a = stamp_action token (now + lease) a
        in thenT (writeT (\<lambda>w. set_actions (AList.update (a_ActionID a) a (actions w)) w)) (retT a)) w = (Inr a', w')"
    using assms(1)
    by (auto simp: ClaimAction_def bindT_eq_Inr thenT_eq_Inr lookup_row_def split: option.splits if_split_asm)
  from * obtain tok w1 where tok: "newToken w = (Inr tok, w1)"
    and r: "a' = stamp_action tok (now + lease) a" "w' = set_actions (AList.update (a_ActionID a') a' (actions w1)) w1"
    by (auto simp: bindT_eq_Inr thenT_eq_Inr Let_def)
  have "a_ActionID a' = i" using r(1) winv_keys(6) [OF assms(2) a(1)] by (simp add: stamp_action_def)
  with r newToken_mem [OF tok] have "actions w' = AList.update i a' (actions w)" by (simp add: set_table_defs)
  with a r(1) show ?thesis by (rule that)
qed

lemma action_claim:
  assumes "winv P w" and "action_is k f w"
  shows "wpT (ClaimAction i now lease) (\<lambda>_. action_at k f) w"
proof (rule wpT_I)
  fix a' w' assume "ClaimAction i now lease w = (Inr a', w')"
  then obtain a tok where "map_of (actions w) i = Some a" "a' = stamp_action tok (now + lease) a"
    "actions w' = AList.update i a' (actions w)" by (rule ClaimAction_Inr [OF _ assms(1)])
  then show "action_at k f w'"
    using assms(2) by (cases "i = k") (auto simp: action_is_def action_at_def stamp_action_def stepped_def)
qed

lemma action_claim_due:
  assumes "winv P w" and "action_is k f w"
  shows "wpT (ClaimDueAction now lease st ks) (\<lambda>_. action_at k f) w"
  unfolding ClaimDueAction_def wpT_bind
  by (rule wpT_I) (auto simp: LockDueAction_def intro!: action_claim [OF assms])

lemma wpT_discard: "wpT (discard m) (\<lambda>_. Q) w = wpT m (\<lambda>_. Q) w"
  by (simp add: discard_def wpT_def bindT_def split: prod.splits sum.splits)

lemma action_at_is: "action_is k f w \<Longrightarrow> action_at k f w"
  by (auto simp: action_is_def action_at_def)

lemma action_steps:
  assumes "winv P w" and "action_is k f w" and "exec op w = (Inr u, w')"
  shows "action_at k f w'"
proof -
  have keep: "wpT m (\<lambda>_. action_at k f) w" if "keepsT (action_is k f) m" for m :: "(world, 'x) tx"
    using that assms(2) unfolding keepsT_def by (blast intro: wpT_mono action_at_is)
  have other: "keepsT (action_is k f) m" if "\<And>Q. keepsT (\<lambda>w. Q (actions w)) m" for m :: "(world, 'x) tx"
    using that [of "\<lambda>m. \<exists>a. map_of m k = Some a \<and> a_FencingToken a = f"] by (simp add: action_is_def [abs_def])
  have "wpT (exec op) (\<lambda>_. action_at k f) w"
    using action_claim [OF assms(1,2)] action_claim_due [OF assms(1,2)]
    by (cases op) (auto simp: wpT_discard intro!: keep action_keep intro: other untouched)
  from wpT_D [OF this assms(3)] show ?thesis .
qed

lemma outbound_keep:
  "keepsT (outbound_is k f) (InsertOutbound e)"
  "keepsT (outbound_is k f) (CompleteOutbound i t n now)" "keepsT (outbound_is k f) (RetryOutbound i t n nxt ec)"
  "keepsT (outbound_is k f) (DeadLetterOutbound i t n now ec)"
  "keepsT (outbound_is k f) (AbandonOutbound i r a now)" "keepsT (outbound_is k f) (RequeueOutbound i r a now)"
proof -
  have mo: "mem_only (outbound_is k f)" by (simp add: mem_only_def outbound_is_def)
  have audit: "wpT (bindT mustToken (\<lambda>i. InsertAudit (u i))) (\<lambda>_. outbound_is k f) w" if "outbound_is k f w" for u w
    unfolding wpT_bind
    by (rule wpT_mustToken [OF mo that]) (simp add: InsertAudit_def wpT_def outbound_is_def set_table_defs)
  show "keepsT (outbound_is k f) (InsertOutbound e)"
    by (rule keepsT_I) (auto simp: InsertOutbound_def outbound_is_def set_table_defs split: if_split_asm)
  show "keepsT (outbound_is k f) (CompleteOutbound i t n now)" "keepsT (outbound_is k f) (RetryOutbound i t n nxt ec)"
    "keepsT (outbound_is k f) (DeadLetterOutbound i t n now ec)"
    unfolding CompleteOutbound_def RetryOutbound_def DeadLetterOutbound_def put_outbound_def
    by (rule keepsT_ownedOutbound_bind; simp add: wp; auto simp: outbound_is_def set_table_defs)+
  show "keepsT (outbound_is k f) (AbandonOutbound i r a now)"
    unfolding AbandonOutbound_def put_outbound_def
    by (rule keepsT_lookup_bind, unfold wpT_then wpT_guard wpT_write, intro impI audit)
      (auto simp: outbound_is_def set_table_defs)
  show "keepsT (outbound_is k f) (RequeueOutbound i r a now)"
    unfolding RequeueOutbound_def put_outbound_def
    by (rule keepsT_lookup_bind, unfold wpT_then wpT_guard wpT_write, intro impI audit)
      (auto simp: outbound_is_def set_table_defs)
qed

lemma ClaimDueOutbound_Inr:
  assumes "ClaimDueOutbound now lease w = (Inr e', w')" and "winv P w"
  obtains e tok where "map_of (outbound w) (o_EventID e') = Some e" "outbound_due now e"
    "e' = stamp_outbound tok (now + lease) e" "outbound w' = AList.update (o_EventID e') e' (outbound w)"
    "\<And>x. x \<in> set (vals (outbound w)) \<Longrightarrow> outbound_due now x \<Longrightarrow> the (o_NextAttemptAt e) \<le> the (o_NextAttemptAt x)"
proof -
  have least: "v \<in> set vs \<or> b = Some v" "\<And>x. x \<in> set vs \<Longrightarrow> t v \<le> t x" "\<And>x. b = Some x \<Longrightarrow> t v \<le> t x"
    if "earliest t b vs = Some v" for t :: "outbound_event \<Rightarrow> int" and b vs v
    using that by (induction vs arbitrary: b) (fastforce split: option.splits if_split_asm)+
  obtain e where c: "earliest (\<lambda>e. the (o_NextAttemptAt e)) None (filter (outbound_due now) (vals (outbound w))) = Some e"
    using assms(1) by (auto simp: ClaimDueOutbound_def split: option.splits)
  obtain tok w1 where tok: "newToken w = (Inr tok, w1)"
    using assms(1) c by (auto simp: ClaimDueOutbound_def split: prod.splits sum.splits)
  have e: "e \<in> set (vals (outbound w))" "outbound_due now e" using least(1) [OF c] by auto
  then have look: "map_of (outbound w) (o_EventID e) = Some e"
    using store_ok_vals(1) [OF inv_store_ok [OF assms(2)]] by simp
  with assms(1) c tok newToken_mem [OF tok]
  have r: "e' = stamp_outbound tok (now + lease) e" "w' = set_outbound (AList.update (o_EventID e') e' (outbound w1)) w1"
    by (auto simp: ClaimDueOutbound_def Let_def)
  have i: "o_EventID e' = o_EventID e" using r(1) by (simp add: stamp_outbound_def)
  show ?thesis
  proof (rule that)
    show "map_of (outbound w) (o_EventID e') = Some e" using look i by simp
    show "outbound w' = AList.update (o_EventID e') e' (outbound w)"
      using r(2) newToken_mem [OF tok] by (simp add: set_table_defs)
    show "the (o_NextAttemptAt e) \<le> the (o_NextAttemptAt x)"
      if "x \<in> set (vals (outbound w))" "outbound_due now x" for x using that least(2) [OF c] by simp
  qed (rule e(2) r(1))+
qed

lemma outbound_steps:
  assumes "winv P w" and "outbound_is k f w" and "exec op w = (Inr u, w')"
  shows "outbound_at k f w'"
proof -
  have weak: "outbound_is k f v \<Longrightarrow> outbound_at k f v" for v by (auto simp: outbound_is_def outbound_at_def)
  have keep: "wpT m (\<lambda>_. outbound_at k f) w" if "keepsT (outbound_is k f) m" for m :: "(world, 'x) tx"
    using that assms(2) unfolding keepsT_def by (blast intro: wpT_mono weak)
  have other: "keepsT (outbound_is k f) m" if "\<And>Q. keepsT (\<lambda>w. Q (outbound w)) m" for m :: "(world, 'x) tx"
    using that [of "\<lambda>m. \<exists>a. map_of m k = Some a \<and> o_FencingToken a = f"] by (simp add: outbound_is_def [abs_def])
  have claim: "wpT (ClaimDueOutbound now lease) (\<lambda>_. outbound_at k f) w" for now lease
  proof (rule wpT_I)
    fix e' v assume "ClaimDueOutbound now lease w = (Inr e', v)"
    then obtain e tok where "map_of (outbound w) (o_EventID e') = Some e" "e' = stamp_outbound tok (now + lease) e"
      "outbound v = AList.update (o_EventID e') e' (outbound w)" by (rule ClaimDueOutbound_Inr [OF _ assms(1)])
    then show "outbound_at k f v"
      using assms(2) by (cases "o_EventID e' = k") (auto simp: outbound_is_def outbound_at_def stamp_outbound_def stepped_def)
  qed
  have "wpT (exec op) (\<lambda>_. outbound_at k f) w"
    using claim by (cases op) (auto simp: wpT_discard intro!: keep outbound_keep intro: other untouched)
  from wpT_D [OF this assms(3)] show ?thesis .
qed

text \<open>Along a run the fence of a row only moves forward, by at most one per transaction.\<close>

lemma stepped_after: "fence_after n f g \<Longrightarrow> stepped g h \<Longrightarrow> fence_after (Suc n) f h"
  by (auto simp: stepped_def intro: fence_after_Suc fence_after_mono)

lemma action_run:
  "store_run n w w' \<Longrightarrow> winv P w \<Longrightarrow> action_is k f w \<Longrightarrow> int64 f \<Longrightarrow> \<exists>g. action_is k g w' \<and> fence_after n f g"
proof (induction rule: store_run.induct)
  case (start w)
  then show ?case using fence_after_0 by blast
next
  case (transact n w w1 op r w2)
  then obtain g where g: "action_is k g w1" "fence_after n f g" by blast
  have i: "winv P w1" using store_run_inv transact by blast
  from transact.hyps(3,4) show ?case
  proof (cases rule: InTx_outcome)
    case (committed x)
    from action_steps [OF i g(1) this(2)] obtain h where "action_is k h w2" "stepped g h"
      by (auto simp: action_at_def action_is_def)
    then show ?thesis using stepped_after [OF g(2)] by blast
  next
    case (rolled_back e v)
    then have "action_is k g w2" using g(1) by (simp add: action_is_def)
    then show ?thesis using fence_after_mono [OF g(2), of "Suc n"] by auto
  qed
next
  case (tick n w w1 t)
  then show ?case by (auto simp: action_is_def)
qed

lemma outbound_run:
  "store_run n w w' \<Longrightarrow> winv P w \<Longrightarrow> outbound_is k f w \<Longrightarrow> int64 f \<Longrightarrow> \<exists>g. outbound_is k g w' \<and> fence_after n f g"
proof (induction rule: store_run.induct)
  case (start w)
  then show ?case using fence_after_0 by blast
next
  case (transact n w w1 op r w2)
  then obtain g where g: "outbound_is k g w1" "fence_after n f g" by blast
  have i: "winv P w1" using store_run_inv transact by blast
  from transact.hyps(3,4) show ?case
  proof (cases rule: InTx_outcome)
    case (committed x)
    from outbound_steps [OF i g(1) this(2)] obtain h where "outbound_is k h w2" "stepped g h"
      by (auto simp: outbound_at_def outbound_is_def)
    then show ?thesis using stepped_after [OF g(2)] by blast
  next
    case (rolled_back e v)
    then have "outbound_is k g w2" using g(1) by (simp add: outbound_is_def)
    then show ?thesis using fence_after_mono [OF g(2), of "Suc n"] by auto
  qed
next
  case (tick n w w1 t)
  then show ?case by (auto simp: outbound_is_def)
qed

lemma delivered_keep:
  fixes e :: outbound_event and k :: string
  assumes "o_DeliveryState e = DeliveryDelivered"
  defines "I \<equiv> \<lambda>w. map_of (outbound w) k = Some e"
  shows "keepsT I (InsertOutbound x)"
    "keepsT I (CompleteOutbound i t n now)" "keepsT I (RetryOutbound i t n nxt ec)"
    "keepsT I (DeadLetterOutbound i t n now ec)"
    "keepsT I (AbandonOutbound i r a now)" "keepsT I (RequeueOutbound i r a now)"
proof -
  have mo: "mem_only I" by (simp add: mem_only_def I_def)
  have audit: "wpT (bindT mustToken (\<lambda>i. InsertAudit (u i))) (\<lambda>_. I) w" if "I w" for u w
    unfolding wpT_bind
    by (rule wpT_mustToken [OF mo that]) (simp add: InsertAudit_def wpT_def I_def set_table_defs)
  have owned: "i \<noteq> k" if "I w" "map_of (outbound w) i = Some v" "owned_outbound t n v" for w v
    using that assms(1) by (auto simp: I_def owned_outbound_def)
  have put: "I (set_outbound (AList.update i v (outbound w)) w)" if "I w" "i \<noteq> k" for v w
    using that by (simp add: I_def set_table_defs)
  have bind: "keepsT I (bindT (ownedOutbound i t n) (\<lambda>e. put_outbound i (f e)))" for f
  proof (rule keepsT_I)
    fix w x v assume *: "I w" "bindT (ownedOutbound i t n) (\<lambda>e. put_outbound i (f e)) w = (Inr x, v)"
    then obtain y where y: "map_of (outbound w) i = Some y" "owned_outbound t n y"
      and v: "v = set_outbound (AList.update i (f y) (outbound w)) w"
      by (auto simp: ownedOutbound_def bindT_eq_Inr thenT_eq_Inr lookup_row_def put_outbound_def
          split: option.splits if_split_asm)
    show "I v" unfolding v by (rule put [OF *(1) owned [OF *(1) y]])
  qed
  show "keepsT I (InsertOutbound x)"
    by (rule keepsT_I) (auto simp: InsertOutbound_def I_def set_table_defs split: if_split_asm)
  show "keepsT I (CompleteOutbound i t n now)" "keepsT I (RetryOutbound i t n nxt ec)"
    "keepsT I (DeadLetterOutbound i t n now ec)"
    unfolding CompleteOutbound_def RetryOutbound_def DeadLetterOutbound_def by (rule bind)+
  show "keepsT I (AbandonOutbound i r a now)"
    unfolding AbandonOutbound_def put_outbound_def
    by (rule keepsT_lookup_bind, unfold wpT_then wpT_guard wpT_write, intro impI audit put)
      (use assms(1) in \<open>auto simp: I_def\<close>)
  show "keepsT I (RequeueOutbound i r a now)"
    unfolding RequeueOutbound_def put_outbound_def
    by (rule keepsT_lookup_bind, unfold wpT_then wpT_guard wpT_write, intro impI audit put)
      (use assms(1) in \<open>auto simp: I_def\<close>)
qed

lemma delivered_exec:
  assumes "winv P w" and "map_of (outbound w) k = Some e" and "o_DeliveryState e = DeliveryDelivered"
    and "exec op w = (Inr u, w')"
  shows "map_of (outbound w') k = Some e"
proof -
  let ?I = "\<lambda>w. map_of (outbound w) k = Some e"
  have keep: "wpT m (\<lambda>_. ?I) w" if "keepsT ?I m" for m :: "(world, 'x) tx"
    using that assms(2) unfolding keepsT_def by blast
  have other: "keepsT ?I m" if "\<And>Q. keepsT (\<lambda>w. Q (outbound w)) m" for m :: "(world, 'x) tx"
    using that [of "\<lambda>m. map_of m k = Some e"] .
  have claim: "wpT (ClaimDueOutbound now lease) (\<lambda>_. ?I) w" for now lease
  proof (rule wpT_I)
    fix e' v assume "ClaimDueOutbound now lease w = (Inr e', v)"
    then obtain x where "map_of (outbound w) (o_EventID e') = Some x" "outbound_due now x"
      "outbound v = AList.update (o_EventID e') e' (outbound w)" by (rule ClaimDueOutbound_Inr [OF _ assms(1)])
    then show "?I v" using assms(2,3) by (cases "o_EventID e' = k") (auto simp: outbound_due_def)
  qed
  have "wpT (exec op) (\<lambda>_. ?I) w"
    using claim by (cases op) (auto simp: wpT_discard intro!: keep delivered_keep [OF assms(3)] intro: other untouched)
  from wpT_D [OF this assms(4)] show ?thesis .
qed

lemma delivered_run:
  "store_run n w w' \<Longrightarrow> winv P w \<Longrightarrow> map_of (outbound w) k = Some e \<Longrightarrow> o_DeliveryState e = DeliveryDelivered \<Longrightarrow>
   map_of (outbound w') k = Some e"
proof (induction rule: store_run.induct)
  case (transact n w w1 op r w2)
  have i: "winv P w1" using store_run_inv transact by blast
  have at: "map_of (outbound w1) k = Some e" using transact by blast
  from transact.hyps(3,4) show ?case
  proof (cases rule: InTx_outcome)
    case (committed x)
    from delivered_exec [OF i at transact.prems(3) this(2)] show ?thesis .
  next
    case (rolled_back e v)
    then show ?thesis using at by simp
  qed
qed simp_all

lemma fence_between:
  assumes "fence_after n f g" and "fence_after m (wrap64 (g + 1)) h" and "int64 f" and "int (n + m) < 2 ^ 64 - 1"
  shows "h \<noteq> f"
proof -
  obtain i where i: "i \<le> n" "g = wrap64 (f + int i)" using assms(1) by (auto simp: fence_after_def)
  obtain j where j: "j \<le> m" "h = wrap64 (wrap64 (g + 1) + int j)" using assms(2) by (auto simp: fence_after_def)
  have "h = wrap64 (f + (int i + 1 + int j))"
    by (simp add: i j wrap64_wrap64 wrap64_wrap64_right algebra_simps)
  moreover have "wrap64 (f + (int i + 1 + int j)) \<noteq> wrap64 f"
    using i(1) j(1) assms(4) by (intro wrap64_fresh) simp_all
  moreover have "wrap64 f = f" using assms(3) by (simp add: int64_def wrap64_id)
  ultimately show ?thesis by simp
qed

section \<open>Properties\<close>

definition sample_world :: world where
  "sample_world = \<lparr>mem = NewMemory, clk = 1767225600 * second, ent = [1, 2, 3, 4, 5, 6, 7, 8, 9]\<rparr>"

lemma sample_world_ok: "store_ok sample_world"
  by (simp add: store_ok_def sample_world_def NewMemory_def)

lemma store_ok_winv: "store_ok w \<longleftrightarrow> winv {} w"
  by (simp add: winv_def)

text \<open>
  The store invariant along every run: whatever transactions any workers run in any order, failing ones
  included, every table stays keyed by its identifier and no two rows ever share what must be unique; and as
  long as every update writes back the bindings that are stored, which \<open>lawful\<close> asks of the steps, no row
  loses its binding.
\<close>

lemma store_run_invariant:
  assumes "store_run n w w'" and "store_ok w"
  shows "store_ok w' \<and> (\<forall>p. pinned w p \<longrightarrow> pinned w' p)"
proof -
  have "winv {p. pinned w p} w" using assms(2) by (simp add: winv_def)
  from store_run_inv [OF assms(1) this] show ?thesis by (auto simp: winv_def)
qed

definition sample_event :: outbound_event where
  "sample_event = zero_outbound_event\<lparr>o_EventID := ''evt_1'', o_SubscriptionRef := ''sub_1'', o_StateVersion := 1,
     o_DeliveryState := DeliveryPending, o_NextAttemptAt := Some 0\<rparr>"

definition sample_run :: world where
  "sample_run = snd (InTx (exec (InsertOutboundOp sample_event)) sample_world)"

lemma sample_insert: "InTx (exec (InsertOutboundOp sample_event)) sample_world = (Inr (), sample_run)"
  by (simp add: sample_run_def InTx_def InsertOutbound_def sample_world_def NewMemory_def vals_def)

lemma sample_run_step: "store_run 1 sample_world sample_run"
  using transact [OF start _ sample_insert] by simp

lemma store_run_invariant_sample: "store_ok sample_run"
  using store_run_invariant [OF sample_run_step sample_world_ok] by simp

text \<open>
  C6. A delivered callback is final: no run of the store ever changes its row again, so it is never
  claimed, retried, abandoned or requeued.
\<close>

theorem delivered_is_final:
  assumes "store_run n w w'" and "store_ok w"
    and "map_of (outbound w) k = Some e" and "o_DeliveryState e = DeliveryDelivered"
  shows "map_of (outbound w') k = Some e"
  using delivered_run [OF assms(1) _ assms(3,4)] assms(2) by (simp add: store_ok_winv)

definition delivered_world :: world where
  "delivered_world = set_outbound [(''evt_1'', sample_event\<lparr>o_DeliveryState := DeliveryDelivered\<rparr>)] sample_world"

theorem delivered_is_final_witness:
  "map_of (outbound (snd (InTx (exec (RequeueOutboundOp ''evt_1'' ''r'' ''op'' 7)) delivered_world))) ''evt_1''
     = Some (sample_event\<lparr>o_DeliveryState := DeliveryDelivered\<rparr>)"
proof -
  let ?op = "RequeueOutboundOp ''evt_1'' ''r'' ''op'' 7"
  have at: "map_of (outbound delivered_world) ''evt_1'' = Some (sample_event\<lparr>o_DeliveryState := DeliveryDelivered\<rparr>)"
    by (simp add: delivered_world_def set_table_defs)
  have ok: "store_ok delivered_world"
    by (simp add: delivered_world_def store_ok_def sample_world_def NewMemory_def set_table_defs keyed_by_def
        well_keyed_def vals_def sample_event_def)
  have "InTx (exec ?op) delivered_world = (Inl ErrConflict, snd (InTx (exec ?op) delivered_world))"
    using at by (simp add: InTx_def RequeueOutbound_def lookup_row_def bindT_def thenT_def)
  then have "store_run 1 delivered_world (snd (InTx (exec ?op) delivered_world))"
    using transact [OF start, of ?op] by simp
  from delivered_is_final [OF this ok at] show ?thesis by simp
qed

text \<open>
  C7. Fencing of the notifier: a worker that claimed an event, and whose claim was followed, after any
  run of the store, by another claim of the same event, can no longer report any outcome for it: the
  store answers \<open>ErrNotOwned\<close> and changes nothing, however many of fewer than \<open>2 ^ 64\<close> transactions
  ran in between and whatever tokens were drawn.
\<close>

theorem stale_notifier_rejected:
  assumes "store_ok w0" and "int64 (o_FencingToken e1)"
    and "ClaimDueOutbound now1 lease1 w0 = (Inr e1, w1)" and "store_run n w1 w2"
    and "ClaimDueOutbound now2 lease2 w2 = (Inr e2, w3)" and "store_run m w3 w4"
    and "o_EventID e2 = o_EventID e1" and "int (n + m) < 2 ^ 64 - 1"
  shows "CompleteOutbound (o_EventID e1) tok (o_FencingToken e1) now w4 = (Inl ErrNotOwned, w4)
    \<and> RetryOutbound (o_EventID e1) tok (o_FencingToken e1) nxt cls w4 = (Inl ErrNotOwned, w4)
    \<and> DeadLetterOutbound (o_EventID e1) tok (o_FencingToken e1) now cls w4 = (Inl ErrNotOwned, w4)"
proof -
  let ?k = "o_EventID e1"
  have i0: "winv {} w0" using assms(1) by (simp add: store_ok_winv)
  have i1: "winv {} w1" using keepsT_D [OF keepsT_ClaimDueOutbound i0 assms(3)] .
  have i2: "winv {} w2" using store_run_inv [OF assms(4) i1] .
  have i3: "winv {} w3" using keepsT_D [OF keepsT_ClaimDueOutbound i2 assms(5)] .
  have "outbound_is ?k (o_FencingToken e1) w1"
    by (rule ClaimDueOutbound_Inr [OF assms(3) i0]) (simp add: outbound_is_def)
  from outbound_run [OF assms(4) i1 this assms(2)]
  obtain g where g: "outbound_is ?k g w2" "fence_after n (o_FencingToken e1) g" by blast
  have "outbound_is ?k (wrap64 (g + 1)) w3"
    by (rule ClaimDueOutbound_Inr [OF assms(5) i2])
      (use g(1) assms(7) in \<open>auto simp: outbound_is_def stamp_outbound_def\<close>)
  moreover have "int64 (wrap64 (g + 1))" using wrap64_range by (simp add: int64_def)
  ultimately obtain h where h: "outbound_is ?k h w4" "fence_after m (wrap64 (g + 1)) h"
    using outbound_run [OF assms(6) i3] by blast
  have "h \<noteq> o_FencingToken e1" using fence_between [OF g(2) h(2)] assms(2,8) by simp
  then show ?thesis
    using h(1)
    by (auto simp: outbound_is_def CompleteOutbound_def RetryOutbound_def DeadLetterOutbound_def ownedOutbound_def
        lookup_row_def owned_outbound_def bindT_def thenT_def)
qed

lemma newToken_Cons: "ent w = x # xs \<Longrightarrow> \<exists>tok. newToken w = (Inr tok, w\<lparr>ent := xs\<rparr>)"
  by (simp add: newToken_def newUUID_def RandomClaimToken_def rand_read_def bindT_def)

lemma sample_claims:
  obtains e1 w1 e2 w2 where "ClaimDueOutbound 0 1 sample_run = (Inr e1, w1)" "ClaimDueOutbound 10 1 w1 = (Inr e2, w2)"
    "o_EventID e1 = ''evt_1''" "o_EventID e2 = ''evt_1''" "o_FencingToken e1 = 1"
proof -
  let ?e = "sample_event\<lparr>o_CreatedAt := Now sample_world\<rparr>"
  have out: "outbound sample_run = [(''evt_1'', ?e)]" and ent: "ent sample_run = 1 # 2 # [3, 4, 5, 6, 7, 8, 9]"
    by (simp_all add: sample_run_def InTx_def InsertOutbound_def sample_world_def NewMemory_def vals_def
        set_table_defs sample_event_def zero_outbound_event_def)
  obtain t1 where t1: "newToken sample_run = (Inr t1, sample_run\<lparr>ent := 2 # [3, 4, 5, 6, 7, 8, 9]\<rparr>)"
    using newToken_Cons [OF ent] by blast
  let ?e1 = "stamp_outbound t1 1 ?e"
  let ?w1 = "set_outbound [(''evt_1'', ?e1)] (sample_run\<lparr>ent := 2 # [3, 4, 5, 6, 7, 8, 9]\<rparr>)"
  have due: "outbound_due 0 ?e" and due1: "outbound_due 10 ?e1" and id: "o_EventID ?e = ''evt_1''" "o_EventID ?e1 = ''evt_1''"
    by (simp_all add: outbound_due_def sample_event_def zero_outbound_event_def stamp_outbound_def)
  have c1: "ClaimDueOutbound 0 1 sample_run = (Inr ?e1, ?w1)"
    using due id by (simp add: ClaimDueOutbound_def out vals_def t1 Let_def)
  obtain t2 where t2: "newToken ?w1 = (Inr t2, ?w1\<lparr>ent := [3, 4, 5, 6, 7, 8, 9]\<rparr>)"
    using newToken_Cons [of ?w1 2] by (auto simp: set_table_defs)
  have o1: "outbound ?w1 = [(''evt_1'', ?e1)]" by (simp add: set_table_defs)
  have "\<exists>e2 w2. ClaimDueOutbound 10 1 ?w1 = (Inr e2, w2) \<and> o_EventID e2 = ''evt_1''"
    using due1 id by (simp add: ClaimDueOutbound_def o1 vals_def t2 Let_def) (simp add: stamp_outbound_def)
  then obtain e2 w2 where e2: "ClaimDueOutbound 10 1 ?w1 = (Inr e2, w2)" "o_EventID e2 = ''evt_1''" by blast
  show ?thesis
    by (rule that [OF c1 e2(1) _ e2(2)]) (simp_all add: stamp_outbound_def sample_event_def zero_outbound_event_def wrap64_def)
qed

theorem stale_notifier_rejected_witness:
  "\<exists>e1 w1 e2 w2 tok. ClaimDueOutbound 0 1 sample_run = (Inr e1, w1) \<and> ClaimDueOutbound 10 1 w1 = (Inr e2, w2)
     \<and> CompleteOutbound ''evt_1'' tok 1 20 w2 = (Inl ErrNotOwned, w2)"
proof -
  obtain e1 w1 e2 w2 where c: "ClaimDueOutbound 0 1 sample_run = (Inr e1, w1)" "ClaimDueOutbound 10 1 w1 = (Inr e2, w2)"
    "o_EventID e1 = ''evt_1''" "o_EventID e2 = ''evt_1''" "o_FencingToken e1 = 1" by (rule sample_claims)
  have ok: "store_ok sample_run"
    using store_run_inv [OF sample_run_step] sample_world_ok by (simp add: store_ok_winv)
  show ?thesis
    using c stale_notifier_rejected [OF ok _ c(1) start c(2) start, of "''tok''" 20 0 "''x''"] by (auto simp: int64_def)
qed

text \<open>
  C8. Fencing of the scheduler: once an action that a worker had claimed has been claimed again, after
  any run of the store, neither finishing the action nor submitting a charge under the first claim is
  accepted, and a refused call changes nothing.
\<close>

theorem stale_worker_rejected:
  assumes "store_ok w0" and "int64 (a_FencingToken a1)"
    and "ClaimAction i now1 lease1 w0 = (Inr a1, w1)" and "store_run n w1 w2"
    and "ClaimAction i now2 lease2 w2 = (Inr a2, w3)" and "store_run m w3 w4"
    and "int (n + m) < 2 ^ 64 - 1"
  shows "FinishAction i tok (a_FencingToken a1) st due cls w4 = (Inl ErrNotOwned, w4)
    \<and> ClaimAttemptWithAction i j tok (a_FencingToken a1) now lease dl w4 = (Inl ErrNotOwned, w4)"
proof -
  have i0: "winv {} w0" using assms(1) by (simp add: store_ok_winv)
  have i1: "winv {} w1" using keepsT_D [OF keepsT_ClaimAction i0 assms(3)] .
  have i2: "winv {} w2" using store_run_inv [OF assms(4) i1] .
  have i3: "winv {} w3" using keepsT_D [OF keepsT_ClaimAction i2 assms(5)] .
  have "action_is i (a_FencingToken a1) w1"
    by (rule ClaimAction_Inr [OF assms(3) i0]) (simp add: action_is_def)
  from action_run [OF assms(4) i1 this assms(2)]
  obtain g where g: "action_is i g w2" "fence_after n (a_FencingToken a1) g" by blast
  have "action_is i (wrap64 (g + 1)) w3"
    by (rule ClaimAction_Inr [OF assms(5) i2]) (use g(1) in \<open>auto simp: action_is_def stamp_action_def\<close>)
  moreover have "int64 (wrap64 (g + 1))" using wrap64_range by (simp add: int64_def)
  ultimately obtain h where h: "action_is i h w4" "fence_after m (wrap64 (g + 1)) h"
    using action_run [OF assms(6) i3] by blast
  have "h \<noteq> a_FencingToken a1" using fence_between [OF g(2) h(2)] assms(2,7) by simp
  then show ?thesis
    using h(1)
    by (auto simp: action_is_def FinishAction_def ClaimAttemptWithAction_def lookup_row_def owned_action_def
        bindT_def thenT_def)
qed

definition sample_action :: scheduled_action where
  "sample_action = zero_scheduled_action\<lparr>a_ActionID := ''act_1'', a_ActionType := ActionExpire, a_Status := ''pending''\<rparr>"

definition action_world :: world where
  "action_world = set_actions [(''act_1'', sample_action)] sample_world"

theorem stale_worker_rejected_witness:
  "\<exists>a1 w1 a2 w2. ClaimAction ''act_1'' 0 1 action_world = (Inr a1, w1) \<and> ClaimAction ''act_1'' 5 1 w1 = (Inr a2, w2)
     \<and> FinishAction ''act_1'' (the (a_ClaimToken a1)) 1 ''completed'' None None w2 = (Inl ErrNotOwned, w2)"
proof -
  have out: "actions action_world = [(''act_1'', sample_action)]" and ent: "ent action_world = 1 # 2 # [3, 4, 5, 6, 7, 8, 9]"
    by (simp_all add: action_world_def sample_world_def set_table_defs)
  obtain t1 where t1: "newToken action_world = (Inr t1, action_world\<lparr>ent := 2 # [3, 4, 5, 6, 7, 8, 9]\<rparr>)"
    using newToken_Cons [OF ent] by blast
  let ?a1 = "stamp_action t1 1 sample_action"
  let ?w1 = "set_actions [(''act_1'', ?a1)] (action_world\<lparr>ent := 2 # [3, 4, 5, 6, 7, 8, 9]\<rparr>)"
  have defs: "action_claimable sample_action 0" "charging_open w sample_action" "a_ActionID ?a1 = ''act_1''"
    "action_claimable ?a1 5" "charging_open w ?a1" "a_ActionID (stamp_action t u ?a1) = ''act_1''" for w t u
    by (simp_all add: action_claimable_def charging_open_def sample_action_def stamp_action_def
        zero_scheduled_action_def lease_live_def)
  have c1: "ClaimAction ''act_1'' 0 1 action_world = (Inr ?a1, ?w1)"
    using out t1 by (simp add: ClaimAction_def lookup_row_def bindT_def thenT_def Let_def set_table_defs defs)
  obtain t2 where t2: "newToken ?w1 = (Inr t2, ?w1\<lparr>ent := [3, 4, 5, 6, 7, 8, 9]\<rparr>)"
    using newToken_Cons [of ?w1 2] by (auto simp: set_table_defs)
  have o1: "actions ?w1 = [(''act_1'', ?a1)]" by (simp add: set_table_defs)
  have "\<exists>a2 w2. ClaimAction ''act_1'' 5 1 ?w1 = (Inr a2, w2)"
    using t2 o1 by (simp add: ClaimAction_def lookup_row_def bindT_def thenT_def Let_def defs)
  then obtain a2 w2 where c2: "ClaimAction ''act_1'' 5 1 ?w1 = (Inr a2, w2)" by blast
  have ok: "store_ok action_world"
    by (simp add: action_world_def store_ok_def sample_world_def NewMemory_def set_table_defs keyed_by_def
        well_keyed_def vals_def sample_action_def)
  have f: "a_FencingToken ?a1 = 1"
    by (simp add: stamp_action_def sample_action_def zero_scheduled_action_def wrap64_def)
  show ?thesis
    using c1 c2 f stale_worker_rejected [OF ok _ c1 start c2 start, of "the (a_ClaimToken ?a1)" "''completed''" None None]
    by (auto simp: int64_def)
qed

lemma earliest_least:
  "earliest t b vs = Some v \<Longrightarrow>
     (v \<in> set vs \<or> b = Some v) \<and> (\<forall>x\<in>set vs. t v \<le> t x) \<and> (\<forall>x. b = Some x \<longrightarrow> t v \<le> t x)"
  by (induction vs arbitrary: b) (fastforce split: option.splits if_split_asm)+

lemma earliest_None: "earliest t b vs = None \<longleftrightarrow> b = None \<and> vs = []"
  by (induction vs arbitrary: b) (auto split: option.splits)

text \<open>
  What a worker is handed is due: a claimed action was due for the requested status and of an
  allowed kind, its charging was not blocked if it is a renewal, no other claimable due action was due
  earlier, and the returned row is the stored one under a fresh claim; nothing is returned only when
  nothing is due.
\<close>

theorem ClaimDueAction_due:
  assumes "store_ok w"
  shows "case ClaimDueAction now lease status kinds w of
      (Inr a', w') \<Rightarrow> \<exists>a tok. map_of (actions w) (a_ActionID a') = Some a
        \<and> actionDue w a now status \<and> kindAllowed kinds (a_ActionType a) \<and> charging_open w a
        \<and> (\<forall>x\<in>set (vals (actions w)). actionDue w x now status \<and> kindAllowed kinds (a_ActionType x) \<longrightarrow> a_DueAt a \<le> a_DueAt x)
        \<and> a' = stamp_action tok (now + lease) a \<and> map_of (actions w') (a_ActionID a') = Some a'
    | (Inl e, w') \<Rightarrow> mem w' = mem w \<and> (e = ErrNotFound \<longleftrightarrow>
        (\<forall>x\<in>set (vals (actions w)). \<not> (actionDue w x now status \<and> kindAllowed kinds (a_ActionType x))))"
proof -
  let ?due = "\<lambda>a. actionDue w a now status \<and> kindAllowed kinds (a_ActionType a)"
  have i: "winv {} w" using assms by (simp add: store_ok_winv)
  show ?thesis
  proof (cases "earliest a_DueAt None (filter ?due (vals (actions w)))")
    case None
    then have "ClaimDueAction now lease status kinds w = (Inl ErrNotFound, w)"
      by (simp add: ClaimDueAction_def LockDueAction_def bindT_def)
    with None show ?thesis by (auto simp: earliest_None filter_empty_conv)
  next
    case (Some a)
    note l = earliest_least [OF Some]
    then have a: "a \<in> set (vals (actions w))" "?due a" by auto
    have look: "map_of (actions w) (a_ActionID a) = Some a" by (rule store_ok_vals(2) [OF assms a(1)])
    have run: "ClaimDueAction now lease status kinds w = ClaimAction (a_ActionID a) now lease w"
      using Some by (simp add: ClaimDueAction_def LockDueAction_def bindT_def)
    show ?thesis
    proof (cases "ClaimAction (a_ActionID a) now lease w")
      case (Pair r w')
      show ?thesis
      proof (cases r)
        case (Inr a')
        with Pair have c: "ClaimAction (a_ActionID a) now lease w = (Inr a', w')" by simp
        from ClaimAction_Inr [OF c i] obtain b tok where b: "map_of (actions w) (a_ActionID a) = Some b"
          "charging_open w b" "a' = stamp_action tok (now + lease) b" "actions w' = AList.update (a_ActionID a) a' (actions w)"
          by metis
        with look have "b = a" "a_ActionID a' = a_ActionID a" by (simp_all add: stamp_action_def)
        with b a l look show ?thesis unfolding run c by auto
      next
        case (Inl e)
        with Pair look have "e \<noteq> ErrNotFound \<and> mem w' = mem w"
          by (auto simp: ClaimAction_def lookup_row_def bindT_def thenT_def Let_def newToken_def newUUID_def
              RandomClaimToken_def rand_read_def split: if_split_asm prod.splits sum.splits list.splits)
        then show ?thesis unfolding run Pair Inl using a by auto
      qed
    qed
  qed
qed

theorem ClaimDueAction_due_witness:
  "\<exists>e w'. ClaimDueAction 0 1 ''uncertain'' [] action_world = (Inl e, w') \<and> mem w' = mem action_world"
proof -
  have ok: "store_ok action_world"
    by (simp add: action_world_def store_ok_def sample_world_def NewMemory_def set_table_defs keyed_by_def
        well_keyed_def vals_def sample_action_def)
  have "ClaimDueAction 0 1 ''uncertain'' [] action_world = (Inl ErrNotFound, action_world)"
    by (simp add: ClaimDueAction_def LockDueAction_def bindT_def action_world_def set_table_defs vals_def actionDue_def
        sample_action_def)
  with ClaimDueAction_due [OF ok, where now = 0 and lease = 1 and status = "''uncertain''" and kinds = "[]"] show ?thesis by auto
qed

lemma ClaimProcessorEvent_Inr:
  assumes "ClaimProcessorEvent f i k now lease w = (Inr (e', r'), w')"
  obtains e tok where "map_of (procEvents w) (procKey f i) = Some e"
    "\<not> lease_held (map_of (leases w) k) (p_ProcessingActionID e) now"
    "l_ClaimToken r' = Some tok" "p_ClaimToken e' = Some tok" "p_FencingToken e' = l_FencingToken r'"
    "p_ProcessingState e' = ''running''" "p_ProcessingActionID e' = p_ProcessingActionID e"
    "l_Status r' = ''running''" "l_LeaseUntil r' = Some (now + lease)" "l_ActiveActionID r' = Some (p_ProcessingActionID e)"
    "map_of (leases w') k = Some r'" "map_of (procEvents w') (procKey f i) = Some e'"
  using assms
  by (auto simp: ClaimProcessorEvent_def GetProcessorEvent_def lookup_row_def bindT_eq_Inr thenT_eq_Inr Let_def
      set_table_defs stamp_lease_def split: option.splits if_split_asm dest!: newToken_mem)

text \<open>
  C9. Processing is exclusive and completable: a claim of a provider event is refused while another
  event's action holds the processing key with a live lease; a granted claim holds the key against
  every other event until its deadline; and its holder can finish the event and release the key.
\<close>

theorem processing_lease_exclusive:
  assumes "ClaimProcessorEvent f i k now lease w = (Inr (e, r), w1)"
  shows "\<not> lease_held (map_of (leases w) k) (p_ProcessingActionID e) now
    \<and> (\<forall>f' i' e' t d. map_of (procEvents w1) (procKey f' i') = Some e'
         \<and> p_ProcessingActionID e' \<noteq> p_ProcessingActionID e \<and> t < now + lease \<longrightarrow>
         ClaimProcessorEvent f' i' k t d w1 = (Inl ErrConflict, w1))
    \<and> (\<exists>w2 w3. FinishProcessorEvent f i (the (p_ClaimToken e)) (p_FencingToken e) st ref t w1 = (Inr (), w2)
         \<and> ReleaseProcessorLease k (the (l_ClaimToken r)) (l_FencingToken r) w2 = (Inr (), w3)
         \<and> (\<forall>a t. \<not> lease_held (map_of (leases w3) k) a t))"
proof -
  obtain e0 :: processor_event and tok where c: "\<not> lease_held (map_of (leases w) k) (p_ProcessingActionID e0) now"
    "l_ClaimToken r = Some tok" "p_ClaimToken e = Some tok" "p_FencingToken e = l_FencingToken r"
    "p_ProcessingState e = ''running''" "p_ProcessingActionID e = p_ProcessingActionID e0"
    "l_Status r = ''running''" "l_LeaseUntil r = Some (now + lease)" "l_ActiveActionID r = Some (p_ProcessingActionID e0)"
    "map_of (leases w1) k = Some r" "map_of (procEvents w1) (procKey f i) = Some e"
    by (rule ClaimProcessorEvent_Inr [OF assms]) (rule that)
  have busy: "ClaimProcessorEvent f' i' k t d w1 = (Inl ErrConflict, w1)"
    if "map_of (procEvents w1) (procKey f' i') = Some e'" "p_ProcessingActionID e' \<noteq> p_ProcessingActionID e" "t < now + lease"
    for f' i' e' t d
    using that c
    by (auto simp: ClaimProcessorEvent_def GetProcessorEvent_def lookup_row_def bindT_def thenT_def lease_held_def)
  let ?e = "\<lambda>st. (let e = e\<lparr>p_ProcessingState := st, p_ClaimToken := None, p_LeaseUntil := None, p_SubscriptionRef := ref\<rparr>
      in if st = ''processed'' then e\<lparr>p_ProcessedAt := Some t\<rparr> else e)"
  let ?w2 = "set_procEvents (AList.update (procKey f i) (?e st) (procEvents w1)) w1"
  have f: "FinishProcessorEvent f i (the (p_ClaimToken e)) (p_FencingToken e) st ref t w1 = (Inr (), ?w2)"
    using c by (simp add: FinishProcessorEvent_def GetProcessorEvent_def lookup_row_def bindT_def thenT_def
        owned_processor_event_def Let_def)
  have "map_of (leases ?w2) k = Some r" using c(10) by (simp add: set_table_defs)
  then have "\<exists>w3. ReleaseProcessorLease k (the (l_ClaimToken r)) (l_FencingToken r) ?w2 = (Inr (), w3)
      \<and> (\<forall>a t. \<not> lease_held (map_of (leases w3) k) a t)"
    using c(2) by (simp add: ReleaseProcessorLease_def lookup_row_def bindT_def thenT_def owned_lease_def)
      (simp add: set_table_defs lease_held_def)
  with f busy c(1,6) show ?thesis by auto
qed

definition sample_processor_event :: processor_event where
  "sample_processor_event = zero_processor_event\<lparr>p_ProcessorFamily := ''stripe'', p_ProcessorEventID := ''e1'',
     p_ProcessingActionID := ''a1'', p_ProcessingState := ''pending''\<rparr>"

theorem processing_lease_exclusive_witness:
  "\<exists>e r w1 w2. ClaimProcessorEvent ''stripe'' ''e1'' ''key'' 0 9
      (set_procEvents [(procKey ''stripe'' ''e1'', sample_processor_event)] sample_world) = (Inr (e, r), w1)
     \<and> FinishProcessorEvent ''stripe'' ''e1'' (the (p_ClaimToken e)) (p_FencingToken e) ''processed'' None 3 w1 = (Inr (), w2)"
proof -
  let ?w = "set_procEvents [(procKey ''stripe'' ''e1'', sample_processor_event)] sample_world"
  obtain tok where "newToken ?w = (Inr tok, ?w\<lparr>ent := [2, 3, 4, 5, 6, 7, 8, 9]\<rparr>)"
    using newToken_Cons [of ?w 1] by (auto simp: set_table_defs sample_world_def)
  then have "\<exists>e r w1. ClaimProcessorEvent ''stripe'' ''e1'' ''key'' 0 9 ?w = (Inr (e, r), w1)"
    by (simp add: ClaimProcessorEvent_def GetProcessorEvent_def lookup_row_def bindT_def thenT_def Let_def
        set_table_defs sample_processor_event_def sample_world_def NewMemory_def lease_held_def)
  then obtain e r w1 where "ClaimProcessorEvent ''stripe'' ''e1'' ''key'' 0 9 ?w = (Inr (e, r), w1)" by blast
  with processing_lease_exclusive [OF this, where st = "''processed''" and ref = None and t = 3] show ?thesis by blast
qed

end
