(* ===== verification/Aes.thy ===== *)
theory Aes
  imports Identifiers
begin

text \<open>
  What \<^verbatim>\<open>internal/envelope\<close> uses of Go's \<^verbatim>\<open>crypto/aes\<close> and \<^verbatim>\<open>crypto/cipher\<close>: the block cipher with a
  256-bit key (FIPS 197) and Galois/counter mode with a 96-bit nonce and a 128-bit tag (SP 800-38D).
  Bytes are numbers below 256 here.
\<close>

section \<open>AES-256\<close>

text \<open>The field of 256 elements, with the polynomial \<open>0x11b\<close>.\<close>

definition xtime :: "nat \<Rightarrow> nat" where
  "xtime b = (let c = 2 * b in if 256 \<le> c then (c - 256) XOR 27 else c)"

fun gf_mul :: "nat \<Rightarrow> nat \<Rightarrow> nat \<Rightarrow> nat" where
  "gf_mul 0 a b = 0"
| "gf_mul (Suc n) a b = (if odd b then a else 0) XOR gf_mul n (xtime a) (b div 2)"

text \<open>The inverse is the 254th power: \<open>254 = 2 + 4 + 8 + 16 + 32 + 64 + 128\<close>.\<close>

fun gf_powers :: "nat \<Rightarrow> nat \<Rightarrow> nat" where
  "gf_powers 0 a = 1"
| "gf_powers (Suc n) a = (let s = gf_mul 8 a a in gf_mul 8 s (gf_powers n s))"

definition rotl8 :: "nat \<Rightarrow> nat \<Rightarrow> nat" where
  "rotl8 k b = (b * 2 ^ k + b div 2 ^ (8 - k)) mod 256"

definition sbox_at :: "nat \<Rightarrow> nat" where
  "sbox_at b = (let i = gf_powers 7 b in i XOR rotl8 1 i XOR rotl8 2 i XOR rotl8 3 i XOR rotl8 4 i XOR 99)"

definition sbox :: "nat list" where
  "sbox = map sbox_at [0..<256]"

definition sub_byte :: "nat \<Rightarrow> nat" where
  "sub_byte b = sbox ! b"

definition xors :: "nat list \<Rightarrow> nat list \<Rightarrow> nat list" where
  "xors a b = map2 (XOR) a b"

definition rcon :: "nat \<Rightarrow> nat list" where
  "rcon k = [(xtime ^^ (k - 1)) 1, 0, 0, 0]"

definition chunk :: "nat list \<Rightarrow> nat \<Rightarrow> nat list" where
  "chunk bs i = take 4 (drop (4 * i) bs)"

text \<open>The key schedule: sixty words of four bytes.\<close>

definition next_word :: "nat list list \<Rightarrow> nat \<Rightarrow> nat list" where
  "next_word ws i =
     (let t = ws ! (i - 1);
          t = (if i mod 8 = 0 then xors (map sub_byte (rotate1 t)) (rcon (i div 8))
               else if i mod 8 = 4 then map sub_byte t else t)
      in xors (ws ! (i - 8)) t)"

definition key_schedule :: "nat list \<Rightarrow> nat list list" where
  "key_schedule key = foldl (\<lambda>ws i. ws @ [next_word ws i]) (map (chunk key) [0..<8]) [8..<60]"

definition round_key :: "nat list list \<Rightarrow> nat \<Rightarrow> nat list" where
  "round_key ws r = concat (take 4 (drop (4 * r) ws))"

definition shift_rows :: "nat list \<Rightarrow> nat list" where
  "shift_rows s = map (\<lambda>k. s ! (k mod 4 + 4 * ((k div 4 + k mod 4) mod 4))) [0..<16]"

definition mix_column :: "nat list \<Rightarrow> nat list" where
  "mix_column c = map (\<lambda>r. xtime (c ! r) XOR (xtime (c ! ((r + 1) mod 4)) XOR c ! ((r + 1) mod 4))
      XOR c ! ((r + 2) mod 4) XOR c ! ((r + 3) mod 4)) [0..<4]"

definition mix_columns :: "nat list \<Rightarrow> nat list" where
  "mix_columns s = concat (map (\<lambda>i. mix_column (chunk s i)) [0..<4])"

definition aes_round :: "nat list list \<Rightarrow> nat list \<Rightarrow> nat \<Rightarrow> nat list" where
  "aes_round ws s r = xors (mix_columns (shift_rows (map sub_byte s))) (round_key ws r)"

definition aes_block :: "nat list list \<Rightarrow> nat list \<Rightarrow> nat list" where
  "aes_block ws block =
     (let s = foldl (aes_round ws) (xors block (round_key ws 0)) [1..<14]
      in xors (shift_rows (map sub_byte s)) (round_key ws 14))"

section \<open>Galois/counter mode\<close>

text \<open>GHASH multiplication of 128-bit blocks, most significant bit first.\<close>

definition block_word :: "nat list \<Rightarrow> 128 word" where
  "block_word bs = foldl (\<lambda>w b. push_bit 8 w OR word_of_nat b) 0 bs"

definition word_block :: "128 word \<Rightarrow> nat list" where
  "word_block w = map (\<lambda>i. nat (uint (drop_bit (120 - 8 * i) w) mod 256)) [0..<16]"

fun ghash_mul :: "nat \<Rightarrow> 128 word \<Rightarrow> 128 word \<Rightarrow> 128 word" where
  "ghash_mul 0 x v = 0"
| "ghash_mul (Suc n) x v =
     (if bit x n then v else 0) XOR
     ghash_mul n x (if bit v 0 then drop_bit 1 v XOR push_bit 120 0xe1 else drop_bit 1 v)"

definition pad16 :: "nat list \<Rightarrow> nat list" where
  "pad16 bs = bs @ replicate ((16 - length bs mod 16) mod 16) 0"

fun blocks_of :: "nat \<Rightarrow> nat list \<Rightarrow> nat list list" where
  "blocks_of 0 bs = []"
| "blocks_of (Suc n) bs = take 16 bs # blocks_of n (drop 16 bs)"

definition ghash :: "128 word \<Rightarrow> nat list \<Rightarrow> 128 word" where
  "ghash h bs = foldl (\<lambda>y b. ghash_mul 128 (y XOR block_word b) h) 0 (blocks_of (length bs div 16) bs)"

definition be64 :: "nat \<Rightarrow> nat list" where
  "be64 n = map (\<lambda>i. nat (int n div 256 ^ (7 - i) mod 256)) [0..<8]"

definition be32 :: "nat \<Rightarrow> nat list" where
  "be32 n = map (\<lambda>i. nat (int n div 256 ^ (3 - i) mod 256)) [0..<4]"

text \<open>The key stream for a 96-bit nonce: the counter blocks from 2 on; counter 1 masks the tag.\<close>

definition gcm_stream :: "nat list list \<Rightarrow> nat list \<Rightarrow> nat \<Rightarrow> nat list" where
  "gcm_stream ws nonce n = concat (map (\<lambda>i. aes_block ws (nonce @ be32 (i + 2))) [0..<n])"

definition gcm_crypt :: "nat list list \<Rightarrow> nat list \<Rightarrow> nat list \<Rightarrow> nat list" where
  "gcm_crypt ws nonce pt = xors pt (gcm_stream ws nonce (length pt div 16 + 1))"

definition gcm_tag :: "nat list list \<Rightarrow> nat list \<Rightarrow> nat list \<Rightarrow> nat list \<Rightarrow> nat list" where
  "gcm_tag ws nonce aad ct =
     (let h = block_word (aes_block ws (replicate 16 0));
          s = ghash h (pad16 aad @ pad16 ct @ be64 (8 * length aad) @ be64 (8 * length ct))
      in xors (word_block s) (aes_block ws (nonce @ be32 1)))"

definition gcm_seal :: "nat list \<Rightarrow> nat list \<Rightarrow> nat list \<Rightarrow> nat list \<Rightarrow> nat list" where
  "gcm_seal key nonce pt aad =
     (let ws = key_schedule key; ct = gcm_crypt ws nonce pt in ct @ gcm_tag ws nonce aad ct)"

definition gcm_open :: "nat list \<Rightarrow> nat list \<Rightarrow> nat list \<Rightarrow> nat list \<Rightarrow> nat list option" where
  "gcm_open key nonce sealed aad =
     (if length sealed < 16 then None
      else let ws = key_schedule key; ct = take (length sealed - 16) sealed; tag = drop (length sealed - 16) sealed
           in if gcm_tag ws nonce aad ct = tag then Some (gcm_crypt ws nonce ct) else None)"

section \<open>Opening what was sealed\<close>

lemma length_xors [simp]: "length (xors a b) = min (length a) (length b)"
  by (simp add: xors_def)

lemma xors_xors: "length a \<le> length b \<Longrightarrow> xors (xors a b) b = a"
proof (induction a arbitrary: b)
  case (Cons x a)
  then obtain y b' where "b = y # b'" by (cases b) auto
  with Cons show ?case by (simp add: xors_def xor.assoc)
qed (simp add: xors_def)

lemma length_shift_rows [simp]: "length (shift_rows s) = 16"
  by (simp add: shift_rows_def)

definition words_ok :: "nat list list \<Rightarrow> bool" where
  "words_ok ws \<longleftrightarrow> 8 \<le> length ws \<and> (\<forall>w\<in>set ws. length w = 4)"

lemma words_ok_next: "words_ok ws \<Longrightarrow> words_ok (ws @ [next_word ws (length ws)])"
proof -
  assume ok: "words_ok ws"
  then have "length (ws ! (length ws - 1)) = 4" "length (ws ! (length ws - 8)) = 4"
    by (auto simp: words_ok_def)
  then have "length (next_word ws (length ws)) = 4"
    by (simp add: next_word_def Let_def rcon_def)
  with ok show ?thesis by (auto simp: words_ok_def)
qed

lemma words_ok_foldl:
  "words_ok ws \<Longrightarrow> words_ok (foldl (\<lambda>ws i. ws @ [next_word ws i]) ws [length ws..<length ws + n])
     \<and> length (foldl (\<lambda>ws i. ws @ [next_word ws i]) ws [length ws..<length ws + n]) = length ws + n"
proof (induction n arbitrary: ws)
  case (Suc n)
  let ?ws = "ws @ [next_word ws (length ws)]"
  have "[length ws..<length ws + Suc n] = length ws # [length ?ws..<length ?ws + n]"
    by (simp add: upt_rec [of "length ws"])
  with Suc.IH [OF words_ok_next [OF Suc.prems]] show ?case by simp
qed simp

lemma key_schedule_ok:
  assumes "length key = 32"
  shows "words_ok (key_schedule key) \<and> length (key_schedule key) = 60"
proof -
  have c: "length (chunk key i) = 4" if "i < 8" for i using that assms by (simp add: chunk_def)
  then have ok: "words_ok (map (chunk key) [0..<8])" by (simp add: words_ok_def)
  have len: "length (map (chunk key) [0..<8]) = 8" by simp
  show ?thesis
    using words_ok_foldl [OF ok, of 52] unfolding len key_schedule_def by (simp del: upt_Suc upt_rec_numeral)
qed

lemma sum_list_const: "(\<forall>x\<in>set xs. f x = (c::nat)) \<Longrightarrow> sum_list (map f xs) = c * length xs"
  by (induction xs) auto

lemma length_round_key:
  assumes "words_ok ws" and "length ws = 60" and "r \<le> 14"
  shows "length (round_key ws r) = 16"
proof -
  have "\<forall>w\<in>set (take 4 (drop (4 * r) ws)). length w = 4"
    using assms(1) by (auto simp: words_ok_def dest: in_set_takeD in_set_dropD)
  from sum_list_const [of _ length, OF this] show ?thesis using assms(2,3) by (simp add: round_key_def length_concat)
qed

lemma length_aes_block: "length key = 32 \<Longrightarrow> length (aes_block (key_schedule key) b) = 16"
  using key_schedule_ok [of key] by (simp add: aes_block_def Let_def length_round_key)

lemma length_gcm_stream: "length key = 32 \<Longrightarrow> length (gcm_stream (key_schedule key) nonce n) = 16 * n"
  by (simp add: gcm_stream_def length_concat comp_def length_aes_block sum_list_triv)

lemma length_gcm_crypt:
  "length key = 32 \<Longrightarrow> length (gcm_crypt (key_schedule key) nonce pt) = length pt"
  by (simp add: gcm_crypt_def length_gcm_stream)

lemma gcm_crypt_twice:
  assumes "length key = 32"
  shows "gcm_crypt (key_schedule key) nonce (gcm_crypt (key_schedule key) nonce pt) = pt"
proof -
  have "length pt \<le> 16 * (length pt div 16 + 1)" by presburger
  then show ?thesis
    using length_gcm_crypt [OF assms, of nonce pt] length_gcm_stream [OF assms]
    by (simp add: gcm_crypt_def xors_xors)
qed

lemma length_gcm_tag: "length key = 32 \<Longrightarrow> length (gcm_tag (key_schedule key) nonce aad ct) = 16"
  by (simp add: gcm_tag_def Let_def word_block_def length_aes_block)

lemma gcm_open_seal: "length key = 32 \<Longrightarrow> gcm_open key nonce (gcm_seal key nonce pt aad) aad = Some pt"
  by (simp add: gcm_open_def gcm_seal_def Let_def length_gcm_crypt length_gcm_tag gcm_crypt_twice)

text \<open>Anything that opens carries the tag of its ciphertext and associated data.\<close>

lemma gcm_open_Some:
  "gcm_open key nonce sealed aad = Some pt \<Longrightarrow> length key = 32 \<Longrightarrow> gcm_seal key nonce pt aad = sealed"
  by (auto simp: gcm_open_def gcm_seal_def Let_def gcm_crypt_twice split: if_split_asm)

section \<open>Bytes\<close>

definition octets :: "nat list \<Rightarrow> bool" where
  "octets ns \<longleftrightarrow> (\<forall>n\<in>set ns. n < 256)"

lemma xor_byte: "(a::nat) < 256 \<Longrightarrow> b < 256 \<Longrightarrow> a XOR b < 256"
proof -
  assume "a < 256" "b < 256"
  then have "take_bit 8 a = a" "take_bit 8 b = b" by (simp_all add: take_bit_eq_mod)
  then have "take_bit 8 (a XOR b) = a XOR b" by (simp add: take_bit_xor)
  then show ?thesis using take_bit_nat_less_exp [of 8 "a XOR b"] by simp
qed

lemma octets_simps [simp]:
  "octets []" "octets (n # ns) \<longleftrightarrow> n < 256 \<and> octets ns" "octets (a @ b) \<longleftrightarrow> octets a \<and> octets b"
  by (auto simp: octets_def)

lemma octets_nth: "octets ns \<Longrightarrow> i < length ns \<Longrightarrow> ns ! i < 256"
  by (simp add: octets_def)

lemma octets_take_drop: "octets ns \<Longrightarrow> octets (take i ns)" "octets ns \<Longrightarrow> octets (drop i ns)"
  by (auto simp: octets_def dest: in_set_takeD in_set_dropD)

lemma octets_xors: "octets a \<Longrightarrow> octets b \<Longrightarrow> octets (xors a b)"
  by (auto simp: octets_def xors_def set_zip xor_byte)

lemma xtime_byte: "b < 256 \<Longrightarrow> xtime b < 256"
  by (simp add: xtime_def Let_def xor_byte)

lemma gf_mul_byte: "a < 256 \<Longrightarrow> gf_mul n a b < 256"
  by (induction n a b rule: gf_mul.induct) (auto intro!: xor_byte xtime_byte)

lemma sbox_at_byte: "b < 256 \<Longrightarrow> sbox_at b < 256"
proof -
  assume "b < 256"
  have p: "gf_powers n a < 256" if "a < 256" for n a
    using that by (induction n arbitrary: a) (simp_all add: Let_def gf_mul_byte)
  have r: "rotl8 k i < 256" for k i by (simp add: rotl8_def)
  show ?thesis unfolding sbox_at_def Let_def by (intro xor_byte p r) (simp_all add: \<open>b < 256\<close>)
qed

lemma sub_byte_byte: "b < 256 \<Longrightarrow> sub_byte b < 256"
  by (simp add: sub_byte_def sbox_def sbox_at_byte del: upt_Suc upt_rec_numeral)

lemma octets_sub: "octets s \<Longrightarrow> octets (map sub_byte s)"
  by (auto simp: octets_def sub_byte_byte)

lemma octets_shift_rows: "octets s \<Longrightarrow> length s = 16 \<Longrightarrow> octets (shift_rows s)"
proof -
  assume s: "octets s" "length s = 16"
  have "k mod 4 + 4 * ((k div 4 + k mod 4) mod 4) < 16" for k :: nat
    using mod_less_divisor [of 4 k] mod_less_divisor [of 4 "k div 4 + k mod 4"] by linarith
  with s show ?thesis by (auto simp: shift_rows_def octets_def intro!: nth_mem)
qed

lemma octets_mix_column: "octets c \<Longrightarrow> length c = 4 \<Longrightarrow> octets (mix_column c)"
proof -
  assume c: "octets c" "length c = 4"
  have "c ! r < 256" if "r < 4" for r using that c by (simp add: octets_nth)
  then show ?thesis by (auto simp: mix_column_def octets_def intro!: xor_byte xtime_byte)
qed

lemma mix_columns_16: "octets s \<Longrightarrow> length s = 16 \<Longrightarrow> octets (mix_columns s) \<and> length (mix_columns s) = 16"
proof -
  assume s: "octets s" "length s = 16"
  have l: "length (mix_column c) = 4" for c by (simp add: mix_column_def)
  have "octets (mix_column (chunk s i))" if "i < 4" for i
    by (rule octets_mix_column) (use s that in \<open>simp_all add: chunk_def octets_take_drop\<close>)
  then have "octets (concat (map (\<lambda>i. mix_column (chunk s i)) [0..<4]))"
    by (auto simp: octets_def)
  moreover have "length (concat (map (\<lambda>i. mix_column (chunk s i)) [0..<4])) = 16"
    by (simp add: length_concat comp_def l sum_list_triv)
  ultimately show ?thesis by (simp add: mix_columns_def)
qed

definition words_octets :: "nat list list \<Rightarrow> bool" where
  "words_octets ws \<longleftrightarrow> words_ok ws \<and> (\<forall>w\<in>set ws. octets w)"

lemma words_octets_next: "words_octets ws \<Longrightarrow> words_octets (ws @ [next_word ws (length ws)])"
proof -
  assume ok: "words_octets ws"
  have x: "(xtime ^^ k) (Suc 0) < 256" for k by (induction k) (simp_all add: xtime_byte)
  have "octets (ws ! (length ws - 1))" "octets (ws ! (length ws - 8))"
    using ok by (auto simp: words_octets_def words_ok_def)
  then have "octets (next_word ws (length ws))"
    by (auto simp: next_word_def Let_def rcon_def x intro!: octets_xors octets_sub) (auto simp: octets_def x)
  moreover have "words_ok (ws @ [next_word ws (length ws)])"
    using ok words_ok_next by (simp add: words_octets_def)
  ultimately show ?thesis using ok by (auto simp: words_octets_def)
qed

lemma words_octets_foldl:
  "words_octets ws \<Longrightarrow> words_octets (foldl (\<lambda>ws i. ws @ [next_word ws i]) ws [length ws..<length ws + n])"
proof (induction n arbitrary: ws)
  case (Suc n)
  let ?ws = "ws @ [next_word ws (length ws)]"
  have "[length ws..<length ws + Suc n] = length ws # [length ?ws..<length ?ws + n]"
    by (simp add: upt_rec [of "length ws"])
  with Suc.IH [OF words_octets_next [OF Suc.prems]] show ?case by simp
qed simp

lemma key_schedule_octets:
  assumes "length key = 32" and "octets key"
  shows "words_octets (key_schedule key)"
proof -
  have c: "length (chunk key i) = 4 \<and> octets (chunk key i)" if "i < 8" for i
    using that assms by (simp add: chunk_def octets_take_drop)
  then have ok: "words_octets (map (chunk key) [0..<8])" by (auto simp: words_octets_def words_ok_def)
  have len: "length (map (chunk key) [0..<8]) = 8" by simp
  show ?thesis
    using words_octets_foldl [OF ok, of 52] unfolding len key_schedule_def by (simp del: upt_Suc upt_rec_numeral)
qed

lemma octets_round_key: "words_octets ws \<Longrightarrow> octets (round_key ws r)"
  by (auto simp: words_octets_def round_key_def octets_def dest!: in_set_takeD in_set_dropD)

lemma aes_rounds_16:
  assumes "words_octets ws" "length ws = 60" "octets s" "length s = 16" "\<forall>r\<in>set rs. r \<le> 14"
  shows "octets (foldl (aes_round ws) s rs) \<and> length (foldl (aes_round ws) s rs) = 16"
  using assms(3-)
proof (induction rs arbitrary: s)
  case (Cons r rs)
  have "octets (shift_rows (map sub_byte s))" using Cons.prems by (intro octets_shift_rows octets_sub) simp_all
  then have m: "octets (mix_columns (shift_rows (map sub_byte s)))"
      "length (mix_columns (shift_rows (map sub_byte s))) = 16"
    using mix_columns_16 by simp_all
  have "octets (aes_round ws s r) \<and> length (aes_round ws s r) = 16"
    unfolding aes_round_def using assms(1,2) Cons.prems(3) m
    by (simp add: octets_xors octets_round_key length_round_key words_octets_def)
  with Cons show ?case by simp
qed simp

lemma octets_aes_block:
  assumes "length key = 32" "octets key" "octets b" "length b = 16"
  shows "octets (aes_block (key_schedule key) b)"
proof -
  have ws: "words_octets (key_schedule key)" "length (key_schedule key) = 60"
    using key_schedule_octets [OF assms(1,2)] key_schedule_ok [OF assms(1)] by simp_all
  have "octets (xors b (round_key (key_schedule key) 0))" "length (xors b (round_key (key_schedule key) 0)) = 16"
    using assms(3,4) ws by (simp_all add: octets_xors octets_round_key length_round_key words_octets_def)
  from aes_rounds_16 [OF ws this, of "[1..<14]"]
  show ?thesis
    using ws by (auto simp: aes_block_def Let_def intro!: octets_xors octets_round_key octets_shift_rows octets_sub)
qed

lemma be32_octets [simp]: "octets (be32 n)" "length (be32 n) = 4"
  by (auto simp: be32_def octets_def nat_less_iff)

lemma octets_gcm_crypt:
  assumes "length key = 32" "octets key" "octets nonce" "length nonce = 12" "octets pt"
  shows "octets (gcm_crypt (key_schedule key) nonce pt)"
proof -
  have "octets (aes_block (key_schedule key) (nonce @ be32 i))" for i
    using assms by (intro octets_aes_block) simp_all
  then have "octets (gcm_stream (key_schedule key) nonce n)" for n
    by (auto simp: gcm_stream_def octets_def)
  then show ?thesis using assms(5) by (simp add: gcm_crypt_def octets_xors)
qed

lemma octets_gcm_tag:
  assumes "length key = 32" "octets key" "octets nonce" "length nonce = 12"
  shows "octets (gcm_tag (key_schedule key) nonce aad ct)"
proof -
  have "octets (aes_block (key_schedule key) (nonce @ be32 1))"
    using assms by (intro octets_aes_block) simp_all
  moreover have "octets (word_block w)" for w by (auto simp: word_block_def octets_def nat_less_iff)
  ultimately show ?thesis by (simp add: gcm_tag_def Let_def octets_xors)
qed

lemma octets_gcm_seal:
  assumes "length key = 32" "octets key" "octets nonce" "length nonce = 12" "octets pt"
  shows "octets (gcm_seal key nonce pt aad)"
  using octets_gcm_crypt [OF assms] octets_gcm_tag [OF assms(1-4)] by (simp add: gcm_seal_def Let_def)

end
