(* ===== verification/Envelope.thy ===== *)
theory Envelope
  imports Aes
begin

text \<open>
  \<^verbatim>\<open>internal/envelope/envelope.go\<close>: encryption of payment methods and of canonical charge requests at
  rest, AES-256-GCM under a versioned key with the purpose and record identifier as associated data.
\<close>

section \<open>The box\<close>

record box =
  b_key :: bytes
  b_version :: string

abbreviation VersionV1 :: string where "VersionV1 \<equiv> ''v1''"

definition KeySize :: nat where
  "KeySize = 32"

definition NewBox :: "string \<Rightarrow> gerr + box" where
  "NewBox configuredHex =
     (if length configuredHex \<noteq> 64 then Inl (ErrOther ''invalid key'')
      else if \<not> list_all is_lower_hex configuredHex then Inl (ErrOther ''invalid key'')
      else case hex_decode configuredHex of
             None \<Rightarrow> Inl (ErrOther ''invalid key'')
           | Some key \<Rightarrow> if length key \<noteq> KeySize then Inl (ErrOther ''invalid key'')
                         else Inr \<lparr>b_key = key, b_version = VersionV1\<rparr>)"

definition AAD :: "string \<Rightarrow> string \<Rightarrow> bytes" where
  "AAD purpose recordID = ''subscription-bridge/v1/'' @ purpose @ ''/'' @ recordID"

definition nums :: "bytes \<Rightarrow> nat list" where
  "nums b = map ord b"

definition chars :: "nat list \<Rightarrow> bytes" where
  "chars ns = map char_of ns"

text \<open>
  Sealing draws a twelve-byte nonce.  \<open>aes.NewCipher\<close> only fails on a key of another size, which
  \<open>New\<close> never makes.
\<close>

definition Seal :: "box \<Rightarrow> bytes \<Rightarrow> bytes \<Rightarrow> (world, bytes \<times> bytes \<times> string) tx" where
  "Seal b plaintext aad =
     thenT (guardT (length (b_key b) = KeySize) (ErrOther ''invalid key size'')) (
     bindT rand_read (\<lambda>r.
     let nonce = take 12 r
     in retT (chars (gcm_seal (nums (b_key b)) (nums nonce) (nums plaintext) (nums aad)), nonce, b_version b)))"

definition Open :: "box \<Rightarrow> bytes \<Rightarrow> bytes \<Rightarrow> bytes \<Rightarrow> string \<Rightarrow> gerr + bytes" where
  "Open b ciphertext nonce aad keyVersion =
     (if keyVersion \<noteq> b_version b then Inl (ErrOther ''unknown encryption key version'')
      else if length (b_key b) \<noteq> KeySize then Inl (ErrOther ''invalid key size'')
      else case gcm_open (nums (b_key b)) (nums nonce) (nums ciphertext) (nums aad) of
             None \<Rightarrow> Inl (ErrOther ''envelope open failed'')
           | Some plain \<Rightarrow> Inr (chars plain))"

section \<open>Facts\<close>

lemma chars_nums [simp]: "chars (nums b) = b"
  by (induction b) (simp_all add: chars_def nums_def)

lemma nums_chars: "\<forall>n\<in>set ns. n < 256 \<Longrightarrow> nums (chars ns) = ns"
  by (induction ns) (simp_all add: chars_def nums_def)

lemma length_nums [simp]: "length (nums b) = length b" by (simp add: nums_def)
lemma length_chars [simp]: "length (chars b) = length b" by (simp add: chars_def)

lemma nums_range: "n \<in> set (nums b) \<Longrightarrow> n < 256"
  by (auto simp: nums_def)

lemma length_hex_decode: "hex_decode h = Some b \<Longrightarrow> 2 * length b = length h"
  by (induction h arbitrary: b rule: hex_decode.induct) (auto split: option.splits)

lemma NewBox_Inr: "NewBox h = Inr b \<Longrightarrow> length (b_key b) = KeySize \<and> b_version b = VersionV1 \<and> hex_encode (b_key b) = h"
  by (auto simp: NewBox_def KeySize_def split: if_split_asm option.splits intro: hex_encode_decode)

lemma NewBox_accepts: "length h = 64 \<Longrightarrow> list_all is_lower_hex h \<Longrightarrow> \<exists>b. NewBox h = Inr b"
  using hex_decode_lower [of h] length_hex_decode [of h] by (auto simp: NewBox_def KeySize_def)

lemma Seal_run:
  assumes "length (b_key b) = KeySize"
  shows "Seal b pt aad w = (case ent w of [] \<Rightarrow> (Inl ErrRand, w)
     | r # rs \<Rightarrow> (Inr (chars (gcm_seal (nums (b_key b)) (nums (take 12 (word_bytes r))) (nums pt) (nums aad)),
         take 12 (word_bytes r), b_version b), w\<lparr>ent := rs\<rparr>))"
  using assms by (simp add: Seal_def rand_read_def bindT_def thenT_def Let_def split: list.split)

lemma Seal_mem: "Seal b pt aad w = (r, w') \<Longrightarrow> mem w' = mem w \<and> clk w' = clk w"
  by (auto simp: Seal_def thenT_def bindT_def Let_def split: prod.splits sum.splits if_split_asm
      dest!: rand_read_mem)

text \<open>Ciphertexts are bytes, so writing and reading them back loses nothing.\<close>

lemma octets_nums [simp]: "octets (nums b)"
  by (simp add: octets_def nums_range)

lemma Open_Seal:
  assumes "length (b_key b) = KeySize" and "Seal b pt aad w = (Inr (ct, nonce, ver), w')"
  shows "Open b ct nonce aad ver = Inr pt"
proof -
  obtain r where ct: "ct = chars (gcm_seal (nums (b_key b)) (nums nonce) (nums pt) (nums aad))"
    and n: "nonce = take 12 (word_bytes r)" and v: "ver = b_version b"
    using assms(2) by (auto simp: Seal_run [OF assms(1)] split: list.splits)
  have "octets (gcm_seal (nums (b_key b)) (nums nonce) (nums pt) (nums aad))"
    using assms(1) n by (intro octets_gcm_seal) (simp_all add: KeySize_def)
  then have "nums ct = gcm_seal (nums (b_key b)) (nums nonce) (nums pt) (nums aad)"
    using nums_chars by (simp add: ct octets_def)
  then show ?thesis using assms(1) by (simp add: Open_def v gcm_open_seal KeySize_def)
qed

lemma Open_Inr:
  assumes "Open b ct nonce aad ver = Inr pt" and "length (b_key b) = KeySize"
  shows "ver = b_version b \<and> (\<exists>ns. pt = chars ns \<and> gcm_seal (nums (b_key b)) (nums nonce) ns (nums aad) = nums ct)"
proof -
  obtain ns where "gcm_open (nums (b_key b)) (nums nonce) (nums ct) (nums aad) = Some ns" "pt = chars ns" "ver = b_version b"
    using assms by (auto simp: Open_def split: if_split_asm option.splits)
  then show ?thesis using gcm_open_Some [of "nums (b_key b)"] assms(2) by (auto simp: KeySize_def)
qed

section \<open>Properties\<close>

definition sample_key :: string where
  "sample_key = concat (replicate 32 ''0f'')"

lemma NewBox_iff: "(\<exists>b. NewBox h = Inr b) \<longleftrightarrow> length h = 64 \<and> list_all is_lower_hex h"
  using NewBox_accepts [of h] by (auto simp: NewBox_def split: if_split_asm)

text \<open>
  C22. A box is configured by exactly the strings of 64 lowercase hexadecimal digits, which write its key, and it
  seals reversibly: whatever it sealed under an associated data opens under the same associated data and key
  version to the plaintext; a failing random source is the only error.
\<close>

theorem envelope_roundtrip:
  "((\<exists>b. NewBox h = Inr b) \<longleftrightarrow> length h = 64 \<and> list_all is_lower_hex h)
   \<and> (\<forall>b. NewBox h = Inr b \<longrightarrow> length (b_key b) = 32 \<and> hex_encode (b_key b) = h
      \<and> (case Seal b pt aad w of
           (Inr (ct, nonce, ver), w') \<Rightarrow> Open b ct nonce aad ver = Inr pt \<and> length nonce = 12 \<and> length ct = length pt + 16
         | (Inl e, w') \<Rightarrow> e = ErrRand \<and> ent w = []))"
proof (intro conjI allI impI)
  show "(\<exists>b. NewBox h = Inr b) \<longleftrightarrow> length h = 64 \<and> list_all is_lower_hex h" by (rule NewBox_iff)
next
  fix b assume b: "NewBox h = Inr b"
  have k: "length (b_key b) = KeySize" "hex_encode (b_key b) = h" using NewBox_Inr [OF b] by simp_all
  then show "length (b_key b) = 32" "hex_encode (b_key b) = h" by (simp_all add: KeySize_def)
  have l: "length (gcm_seal (nums (b_key b)) n p a) = length p + 16" for n p a
    using k(1) by (simp add: gcm_seal_def Let_def length_gcm_crypt length_gcm_tag KeySize_def)
  show "case Seal b pt aad w of
      (Inr (ct, nonce, ver), w') \<Rightarrow> Open b ct nonce aad ver = Inr pt \<and> length nonce = 12 \<and> length ct = length pt + 16
    | (Inl e, w') \<Rightarrow> e = ErrRand \<and> ent w = []"
    using Open_Seal [OF k(1), of pt aad w] by (auto simp: Seal_run [OF k(1)] l split: list.split)
qed

theorem envelope_roundtrip_witness:
  "\<exists>b. NewBox sample_key = Inr b \<and> hex_encode (b_key b) = sample_key"
proof -
  have "length sample_key = 64 \<and> list_all is_lower_hex sample_key"
    by (simp add: sample_key_def eval_nat_numeral is_lower_hex_def ord_def)
  then obtain b where b: "NewBox sample_key = Inr b" using NewBox_iff by blast
  with envelope_roundtrip [of sample_key] show ?thesis by blast
qed

end
