(* ===== verification/Engine.thy ===== *)
theory Engine
  imports StoreRuns Envelope
begin

text \<open>
  \<^verbatim>\<open>internal/engine/engine.go\<close> and \<^verbatim>\<open>refusal.go\<close>: the state changes of the service, each a
  transaction on the store.  An engine is what its configuration fixes: the dunning delays, the map
  of Stripe prices to plans, and the encryption box when there is one.  What a
  processor answers when it is observed is a parameter.  The engine's clock is the store's.
\<close>

section \<open>Refusal codes\<close>

text \<open>
  \<open>strings.ToUpper\<close> as far as it can produce ASCII: the lower-case letters, and the two other
  characters whose upper case is an ASCII letter.
\<close>

definition upper_rune :: "nat \<Rightarrow> nat" where
  "upper_rune c = (if 97 \<le> c \<and> c \<le> 122 then c - 32 else if c = 305 then 73 else if c = 383 then 83 else c)"

definition trim_space :: "nat list \<Rightarrow> nat list" where
  "trim_space rs = rev (dropWhile is_space (rev (dropWhile is_space rs)))"

definition hard_refusals :: "string list" where
  "hard_refusals = [''STOLEN'', ''INVALID'', ''CLOSED'', ''REVOKED'', ''STOLEN_CARD'', ''INVALID_CARD'',
     ''INVALID_CARD_NUMBER'', ''EXPIRED_CARD'', ''RESTRICTED_CARD'', ''BLOCKED_CARD'', ''6'', ''8'', ''5'', ''25'']"

definition IsRetryableRefusal :: "string \<Rightarrow> bool" where
  "IsRetryableRefusal code =
     (case runes (map ord code) of
        None \<Rightarrow> True
      | Some rs \<Rightarrow>
          let c = map (\<lambda>r. if r = 32 then 95 else r) (map upper_rune (trim_space rs))
          in c \<notin> set (map (map ord) hard_refusals))"

definition retryableRefusal :: "string option \<Rightarrow> bool" where
  "retryableRefusal code = (case code of None \<Rightarrow> True | Some c \<Rightarrow> IsRetryableRefusal c)"

section \<open>What the engine is given\<close>

record engine =
  e_RenewalRetryDelays :: "duration list"
  e_DunningTermination :: duration
  e_StripePriceMap :: "(string \<times> string) list"
  e_Box :: "box option"

record normalized_event =
  n_ProcessorFamily :: string
  n_ProcessorEventID :: string
  n_ProviderEventType :: string
  n_NormalizedKind :: string
  n_PayloadHash :: bytes
  n_OccurredAt :: gotime
  n_Fields :: "(string \<times> anyval) list"
  n_SensitivePlain :: bytes

record subscription_state =
  ss_Status :: string
  ss_PlanPriceID :: string
  ss_CurrentPeriodStart :: gotime
  ss_CurrentPeriodEnd :: gotime
  ss_CancelAtPeriodEnd :: bool
  ss_ProcessorCustomerID :: string
  ss_ProcessorSubID :: string
  ss_ImmediateCancel :: bool
  ss_Deleted :: bool

abbreviation KindStripeCheckoutChanged :: string where "KindStripeCheckoutChanged \<equiv> ''stripe.checkout_changed''"
abbreviation KindStripeSubscriptionChanged :: string where
  "KindStripeSubscriptionChanged \<equiv> ''stripe.subscription_changed''"
abbreviation KindAdyenInitialAuthorisation :: string where
  "KindAdyenInitialAuthorisation \<equiv> ''adyen.initial_authorisation''"
abbreviation KindAdyenRenewalAuthorisation :: string where
  "KindAdyenRenewalAuthorisation \<equiv> ''adyen.renewal_authorisation''"
abbreviation KindAdyenContractChanged :: string where "KindAdyenContractChanged \<equiv> ''adyen.contract_changed''"
abbreviation KindAdyenOperationalAdjustment :: string where
  "KindAdyenOperationalAdjustment \<equiv> ''adyen.operational_adjustment''"

text \<open>\<open>v, _ := ev.Fields[k].(string)\<close> and the same for \<open>bool\<close>: the zero value when absent or of another type.\<close>

definition field_string :: "normalized_event \<Rightarrow> string \<Rightarrow> string" where
  "field_string ev k = (case map_of (n_Fields ev) k of Some (AStr s) \<Rightarrow> s | _ \<Rightarrow> [])"

definition field_bool :: "normalized_event \<Rightarrow> string \<Rightarrow> bool" where
  "field_bool ev k = (case map_of (n_Fields ev) k of Some (ABool b) \<Rightarrow> b | _ \<Rightarrow> False)"

definition strPtr :: "string \<Rightarrow> string option" where
  "strPtr s = (if s = [] then None else Some s)"

section \<open>Committing a change\<close>

definition marshalCallback :: "subscription \<Rightarrow> string \<Rightarrow> (world, bytes \<times> string) tx" where
  "marshalCallback s eventType =
     bindT NewEventID (\<lambda>eventID.
     bindT (liftT (NewCallback eventID eventType (s_CheckoutID s) (s_SubscriptionRef s) (s_PlanID s)
        (s_StateVersion s) (s_Status s) (s_CurrentPeriodStart s) (s_CurrentPeriodEnd s)
        (s_StateChangedAt s) (s_CancelAtPeriodEnd s))) (\<lambda>cb.
     retT (marshal_callback cb, eventID)))"

text \<open>\<open>ignoreConflict(tx.InsertAction(...))\<close>: a known key counts as done.\<close>

definition insertActionOnce :: "scheduled_action \<Rightarrow> (world, unit) tx" where
  "insertActionOnce a = bindT (attemptT (InsertAction a)) (\<lambda>r.
     case r of Inr _ \<Rightarrow> retT () | Inl e \<Rightarrow> if e = ErrConflict then retT () else errT e)"

definition new_action :: "string \<Rightarrow> string \<Rightarrow> string \<Rightarrow> string \<Rightarrow> gotime \<Rightarrow> scheduled_action" where
  "new_action aid key ref ty target = zero_scheduled_action\<lparr>a_ActionID := aid, a_ActionKey := key,
     a_SubscriptionRef := ref, a_ActionType := ty, a_TargetAt := target, a_DueAt := target, a_Status := ''pending''\<rparr>"

text \<open>Making one action the subscription's only open one: cancel the others, insert it under its key.\<close>

definition schedule_only :: "subscription \<Rightarrow> string \<Rightarrow> (world, unit) tx" where
  "schedule_only nxt ty =
     (let key = ActionKey (s_SubscriptionRef nxt) ty (s_CurrentPeriodEnd nxt)
      in bindT newUUID (\<lambda>aid.
         thenT (CancelActionsForSubscription (s_SubscriptionRef nxt) key)
           (insertActionOnce (new_action aid key (s_SubscriptionRef nxt) ty (s_CurrentPeriodEnd nxt)))))"

definition commitChange :: "subscription \<Rightarrow> subscription \<Rightarrow> string \<Rightarrow> (world, unit) tx" where
  "commitChange current nxt eventType =
     bindT (marshalCallback nxt eventType) (\<lambda>(body, eventID).
     thenT (if s_SubscriptionRef current = [] then InsertSubscription nxt else UpdateSubscription nxt) (
     bindT nowT (\<lambda>now.
     thenT (InsertOutbound (zero_outbound_event\<lparr>o_EventID := eventID, o_EventType := eventType,
        o_SubscriptionRef := s_SubscriptionRef nxt, o_CheckoutID := s_CheckoutID nxt,
        o_StateVersion := s_StateVersion nxt, o_PayloadBody := body, o_DeliveryState := DeliveryPending,
        o_NextAttemptAt := Some now\<rparr>)) (
     thenT (whenT (s_ProcessorFamily nxt = ProcessorAdyen \<and> (eventType = EventActivated \<or> eventType = EventRenewed)
              \<and> s_Status nxt = StatusActive) (schedule_only nxt ActionRenew)) (
     thenT (whenT (eventType = EventCanceled) (schedule_only nxt ActionExpire)) (
     whenT (eventType = EventExpired) (CancelActionsForSubscription (s_SubscriptionRef nxt) [])))))))"

definition Commit :: "subscription \<Rightarrow> decision \<Rightarrow> (world, unit) tx" where
  "Commit current dec = (if d_Noop dec then retT () else commitChange current (d_Next dec) (d_EventType dec))"

text \<open>The common step: decide on an observation of a row and commit what was decided; the row that results.\<close>

definition decide_commit :: "subscription \<Rightarrow> observation \<Rightarrow> gotime \<Rightarrow> (world, subscription) tx" where
  "decide_commit s obs now =
     bindT (liftT (Decide s obs now)) (\<lambda>dec.
     if d_Noop dec then retT s
     else thenT (commitChange s (d_Next dec) (d_EventType dec)) (retT (d_Next dec)))"

section \<open>Applying what a processor reported\<close>

definition assignStoredPaymentMethod ::
  "engine \<Rightarrow> subscription \<Rightarrow> string \<Rightarrow> normalized_event \<Rightarrow> (world, subscription) tx" where
  "assignStoredPaymentMethod eng s ref ev =
     (case e_Box eng of
        None \<Rightarrow> retT s
      | Some box \<Rightarrow>
          if n_SensitivePlain ev = [] then retT s
          else bindT (Seal box (n_SensitivePlain ev) (AAD ''payment-method'' ref)) (\<lambda>(ct, nonce, ver).
               retT (s\<lparr>s_PaymentMethodCiphertext := ct, s_PaymentMethodNonce := nonce,
                 s_PaymentMethodKeyVersion := Some ver\<rparr>)))"

definition replaceStoredPaymentMethod ::
  "engine \<Rightarrow> string \<Rightarrow> normalized_event \<Rightarrow> gotime \<Rightarrow> (world, string option) tx" where
  "replaceStoredPaymentMethod eng ref ev now =
     (if n_SensitivePlain ev = [] then retT (Some ref)
      else bindT (GetSubscriptionForUpdate ref) (\<lambda>s.
        if s_Status s = StatusExpired then retT (Some ref)
        else bindT (assignStoredPaymentMethod eng s (s_SubscriptionRef s) ev) (\<lambda>s'.
          let clearedBlock = s_AutomaticChargingBlocked s'
          in thenT (UpdateSubscription (s'\<lparr>s_AutomaticChargingBlocked := False, s_ChargingBlockReason := None,
                     s_UpdatedAt := now\<rparr>)) (
             bindT newUUID (\<lambda>auditID.
             thenT (InsertAudit \<lparr>u_AuditID = auditID, u_Action = ''payment-method-replaced'',
                 u_TargetType = ''subscription'', u_TargetID = s_SubscriptionRef s', u_Actor = ''engine'',
                 u_Reason = ''adyen-stored-payment-method'',
                 u_Metadata = (if clearedBlock then [(''cleared_charging_block'', ABool True)] else [])\<rparr>)
               (retT (Some ref)))))))"

text \<open>\<open>sub, err = tx.Get...\<close> with the error left unread: the zero row when nothing was found.\<close>

definition or_zero :: "(world, subscription) tx \<Rightarrow> (world, subscription) tx" where
  "or_zero m = bindT (attemptT m) (\<lambda>r. case r of Inl _ \<Rightarrow> retT zero_subscription | Inr s \<Rightarrow> retT s)"

text \<open>
  What applying an event gives: the subscription it concerned and, for the two errors the caller
  turns into a state of the event, that error.
\<close>

type_synonym applied = "string option \<times> gerr option"

definition complete_checkout :: "checkout \<Rightarrow> string \<Rightarrow> (world, unit) tx" where
  "complete_checkout co ref = UpdateCheckout (co\<lparr>c_Status := CheckoutCompleted, c_SubscriptionRef := Some ref\<rparr>)"

definition applyStripe ::
  "engine \<Rightarrow> normalized_event \<Rightarrow> subscription_state option \<Rightarrow> gotime \<Rightarrow> (world, applied) tx" where
  "applyStripe eng ev state now =
     (case state of
        None \<Rightarrow> retT (None, None)
      | Some st \<Rightarrow>
          let checkoutID = field_string ev ''checkout_id'' in
          bindT (if ss_ProcessorSubID st \<noteq> []
                 then or_zero (GetSubscriptionByProcessor ProcessorStripe (ss_ProcessorSubID st))
                 else retT zero_subscription) (\<lambda>s0.
          bindT (if s_SubscriptionRef s0 = [] \<and> checkoutID \<noteq> []
                 then or_zero (GetSubscriptionByCheckout checkoutID) else retT s0) (\<lambda>s.
          if s_SubscriptionRef s = [] then
            (if checkoutID = [] then retT (None, None)
             else bindT (GetCheckoutForUpdate checkoutID) (\<lambda>co.
               if ss_Status st \<noteq> StatusActive \<and> ss_Status st \<noteq> StatusTrialing then retT (None, None)
               else bindT NewSubscriptionRef (\<lambda>ref.
                 let created = FirstActivation co ref (ss_Status st) (ss_CurrentPeriodStart st)
                       (ss_CurrentPeriodEnd st) now (strPtr (ss_ProcessorCustomerID st))
                       (strPtr (ss_ProcessorSubID st)) None None
                 in thenT (commitChange zero_subscription created EventActivated) (
                    thenT (complete_checkout co ref) (retT (Some ref, None))))))
          else
            let obs = zero_observation\<lparr>ob_Status := ss_Status st, ob_PeriodStart := ss_CurrentPeriodStart st,
                  ob_PeriodEnd := ss_CurrentPeriodEnd st, ob_CancelAtPeriodEnd := ss_CancelAtPeriodEnd st,
                  ob_ImmediateExpire := (ss_ImmediateCancel st \<or> ss_Deleted st)\<rparr>
            in if ss_PlanPriceID st = []
               then bindT (decide_commit s obs now) (\<lambda>s'. retT (Some (s_SubscriptionRef s'), None))
               else case map_of (e_StripePriceMap eng) (ss_PlanPriceID st) of
                      None \<Rightarrow> retT (Some (s_SubscriptionRef s), Some ErrUnknownStripePrice)
                    | Some planID \<Rightarrow>
                        let obs = obs\<lparr>ob_PlanID := planID,
                              ob_EventType := (if planID \<noteq> s_PlanID s then EventPlanChanged else [])\<rparr>
                        in bindT (decide_commit s obs now) (\<lambda>s'. retT (Some (s_SubscriptionRef s'), None)))))"

definition applyAdyenInitial :: "engine \<Rightarrow> normalized_event \<Rightarrow> gotime \<Rightarrow> (world, applied) tx" where
  "applyAdyenInitial eng ev now =
     (let success = field_bool ev ''success''; checkoutID = field_string ev ''checkout_id''
      in if \<not> success \<or> checkoutID = [] then retT (None, None)
         else bindT (GetCheckoutForUpdate checkoutID) (\<lambda>co.
           case (if c_Status co = CheckoutCompleted then c_SubscriptionRef co else None) of
             Some ref \<Rightarrow> bindT (replaceStoredPaymentMethod eng ref ev now) (\<lambda>r. retT (r, None))
           | None \<Rightarrow>
               bindT NewSubscriptionRef (\<lambda>ref.
               let payID = field_string ev ''processor_payment_id'';
                   created = FirstActivation co ref StatusActive now (AddCalendarMonths now 1) now None None
                     (strPtr payID) (c_ProcessorShopperReference co)
               in bindT (assignStoredPaymentMethod eng created ref ev) (\<lambda>created.
                  thenT (commitChange zero_subscription created EventActivated) (
                  thenT (complete_checkout co ref) (retT (Some ref, None)))))))"

text \<open>
  Dunning: retry at the delay of the attempt's number while the refusal is soft and a delay is left,
  otherwise give the renewal up and schedule the expiry.  Go indexes the delays with
  \<open>AttemptNumber-1\<close> and panics when that is negative.
\<close>

definition rescheduleOrExpireAfterRefusal ::
  "engine \<Rightarrow> charge_attempt \<Rightarrow> subscription \<Rightarrow> gotime \<Rightarrow> (world, unit) tx" where
  "rescheduleOrExpireAfterRefusal eng att s now =
     (if \<not> retryableRefusal (t_RefusalReasonCode att) \<or> int (length (e_RenewalRetryDelays eng)) \<le> t_AttemptNumber att
      then thenT (ForceFinishAction (t_ActionID att) ''completed'' None (Some ''refused'')) (
           let target = TruncateUTC (now + e_DunningTermination eng);
               key = ActionKey (s_SubscriptionRef s) ActionExpire target
           in bindT newUUID (\<lambda>aid. insertActionOnce (new_action aid key (s_SubscriptionRef s) ActionExpire target)))
      else if t_AttemptNumber att < 1 then errT ErrPanic
      else ForceFinishAction (t_ActionID att) ''pending''
             (Some (now + e_RenewalRetryDelays eng ! nat (t_AttemptNumber att - 1))) (Some ''refused''))"

definition finish_attempt :: "charge_attempt \<Rightarrow> string \<Rightarrow> gotime \<Rightarrow> charge_attempt" where
  "finish_attempt att payID now =
     (let att = att\<lparr>t_ClaimToken := None, t_LeaseUntil := None, t_CompletedAt := Some now\<rparr>
      in if payID \<noteq> [] then att\<lparr>t_ProcessorPaymentID := Some payID\<rparr> else att)"

definition applyAdyenRenewal :: "engine \<Rightarrow> normalized_event \<Rightarrow> gotime \<Rightarrow> (world, applied) tx" where
  "applyAdyenRenewal eng ev now =
     (let attemptRef = field_string ev ''attempt_reference''; success = field_bool ev ''success''
      in if attemptRef = [] then retT (None, Some ErrManualReview)
         else bindT (attemptT (GetAttemptByReference attemptRef)) (\<lambda>r. case r of
           Inl _ \<Rightarrow> retT (None, Some ErrManualReview)
         | Inr att \<Rightarrow>
             if t_Status att = ''authorized''
             then bindT (GetSubscription (t_SubscriptionRef att)) (\<lambda>s. retT (Some (s_SubscriptionRef s), None))
             else if t_Status att \<in> {''refused'', ''canceled'', ''manual_review''}
             then retT (Some (t_SubscriptionRef att), None)
             else
               let payID = field_string ev ''processor_payment_id''; refusal = field_string ev ''refusal_code'';
                   att = finish_attempt att payID now
               in bindT (GetSubscriptionForUpdate (t_SubscriptionRef att)) (\<lambda>s.
                  if success then
                    thenT (UpdateAttempt (att\<lparr>t_Status := ''authorized''\<rparr>)) (
                    thenT (ForceFinishAction (t_ActionID att) ''completed'' None None) (
                    bindT (decide_commit s (zero_observation\<lparr>ob_Status := StatusActive,
                        ob_PeriodStart := t_PeriodStart att, ob_PeriodEnd := t_PeriodEnd att\<rparr>) now) (\<lambda>s'.
                    retT (Some (s_SubscriptionRef s'), None))))
                  else
                    let att = att\<lparr>t_Status := ''refused''\<rparr>;
                        att = (if refusal \<noteq> [] then att\<lparr>t_RefusalReasonCode := Some refusal\<rparr> else att)
                    in thenT (UpdateAttempt att) (
                       bindT (decide_commit s (zero_observation\<lparr>ob_Status := StatusPastDue\<rparr>) now) (\<lambda>s'.
                       thenT (rescheduleOrExpireAfterRefusal eng att s' now) (
                       retT (Some (s_SubscriptionRef s'), None)))))))"

definition applyAdyenContract :: "normalized_event \<Rightarrow> gotime \<Rightarrow> (world, applied) tx" where
  "applyAdyenContract ev now =
     (let payID = field_string ev ''processor_payment_id''
      in if payID = [] then retT (None, Some ErrManualReview)
         else bindT (attemptT (GetSubscriptionByInitialPayment ProcessorAdyen payID)) (\<lambda>initial.
              bindT (attemptT (GetSubscriptionByChargePayment payID)) (\<lambda>charge.
              case (case (initial, charge) of
                      (Inr i, Inr c) \<Rightarrow> if s_SubscriptionRef i \<noteq> s_SubscriptionRef c then None else Some i
                    | (Inr i, Inl _) \<Rightarrow> Some i
                    | (Inl _, Inr c) \<Rightarrow> Some c
                    | (Inl _, Inl _) \<Rightarrow> None) of
                None \<Rightarrow> retT (None, Some ErrManualReview)
              | Some s \<Rightarrow>
                  bindT (decide_commit s (zero_observation\<lparr>ob_Status := StatusCanceled, ob_CancelAtPeriodEnd := True\<rparr>) now)
                    (\<lambda>s'. retT (Some (s_SubscriptionRef s'), None)))))"

definition applyObservation ::
  "engine \<Rightarrow> normalized_event \<Rightarrow> subscription_state option \<Rightarrow> gotime \<Rightarrow> (world, applied) tx" where
  "applyObservation eng ev state now =
     (if n_NormalizedKind ev = KindStripeCheckoutChanged \<or> n_NormalizedKind ev = KindStripeSubscriptionChanged
      then applyStripe eng ev state now
      else if n_NormalizedKind ev = KindAdyenInitialAuthorisation then applyAdyenInitial eng ev now
      else if n_NormalizedKind ev = KindAdyenRenewalAuthorisation then applyAdyenRenewal eng ev now
      else if n_NormalizedKind ev = KindAdyenContractChanged then applyAdyenContract ev now
      else retT (None, None))"

section \<open>Processing an event\<close>

definition processingKeyFor :: "normalized_event \<Rightarrow> string" where
  "processingKeyFor ev =
     (if field_string ev ''checkout_id'' \<noteq> [] then field_string ev ''checkout_id''
      else if field_string ev ''processor_subscription_id'' \<noteq> [] then field_string ev ''processor_subscription_id''
      else if field_string ev ''attempt_reference'' \<noteq> [] then field_string ev ''attempt_reference''
      else n_ProcessorFamily ev @ '':'' @ n_ProcessorEventID ev)"

text \<open>
  \<open>get_state\<close> is the adapter's \<open>GetSubscription\<close> on the family and subscription identifier, called
  outside any transaction.
\<close>

definition observeProvider ::
  "(string \<Rightarrow> string \<Rightarrow> gerr + subscription_state option) \<Rightarrow> normalized_event \<Rightarrow> gerr + subscription_state option" where
  "observeProvider get_state ev =
     (if n_NormalizedKind ev = KindStripeCheckoutChanged \<or> n_NormalizedKind ev = KindStripeSubscriptionChanged
      then let subID = field_string ev ''processor_subscription_id''
           in if subID = [] then Inr None else get_state (n_ProcessorFamily ev) subID
      else Inr None)"

definition settle_event ::
  "normalized_event \<Rightarrow> string \<Rightarrow> processing_lease \<Rightarrow> processor_event \<Rightarrow> string \<Rightarrow> string option \<Rightarrow> gotime
     \<Rightarrow> (world, unit) tx" where
  "settle_event ev key lease cur state subRef now =
     thenT (FinishProcessorEvent (n_ProcessorFamily ev) (n_ProcessorEventID ev) (the (p_ClaimToken cur))
        (p_FencingToken cur) state subRef now)
       (ReleaseProcessorLease key (the (l_ClaimToken lease)) (l_FencingToken lease))"

definition apply_claimed ::
  "engine \<Rightarrow> normalized_event \<Rightarrow> subscription_state option \<Rightarrow> string \<Rightarrow> processing_lease \<Rightarrow> gotime \<Rightarrow> (world, unit) tx" where
  "apply_claimed eng ev state key lease now =
     bindT (GetProcessorEvent (n_ProcessorFamily ev) (n_ProcessorEventID ev)) (\<lambda>cur.
     if p_ProcessingState cur \<noteq> ''running'' \<or> p_ClaimToken cur = None \<or> l_ClaimToken lease = None
        \<or> p_ClaimToken cur \<noteq> l_ClaimToken lease \<or> p_FencingToken cur \<noteq> l_FencingToken lease
     then retT ()
     else bindT (applyObservation eng ev state now) (\<lambda>(subRef, err).
       settle_event ev key lease cur
         (case err of None \<Rightarrow> ''processed''
          | Some e \<Rightarrow> if e = ErrUnknownStripePrice then ''quarantined'' else ''manual_review'')
         subRef now))"

definition seal_sensitive :: "engine \<Rightarrow> normalized_event \<Rightarrow> processor_event \<Rightarrow> (world, processor_event) tx" where
  "seal_sensitive eng ev row =
     (case e_Box eng of
        None \<Rightarrow> retT row
      | Some box \<Rightarrow>
          if n_SensitivePlain ev = [] then retT row
          else bindT (Seal box (n_SensitivePlain ev) (AAD ''provider-sensitive'' (n_ProcessorEventID ev)))
               (\<lambda>(ct, nonce, ver). retT (row\<lparr>p_SensitiveCiphertext := ct, p_SensitiveNonce := nonce,
                 p_SensitiveKeyVersion := Some ver\<rparr>)))"

definition processNormalized ::
  "engine \<Rightarrow> (string \<Rightarrow> string \<Rightarrow> gerr + subscription_state option) \<Rightarrow> normalized_event \<Rightarrow> (world, unit) tx" where
  "processNormalized eng get_state ev =
     bindT nowT (\<lambda>now.
     bindT newUUID (\<lambda>actionID.
     bindT (seal_sensitive eng ev (zero_processor_event\<lparr>p_ProcessorFamily := n_ProcessorFamily ev,
        p_ProcessorEventID := n_ProcessorEventID ev, p_ProcessingActionID := actionID,
        p_ProviderEventType := n_ProviderEventType ev, p_PayloadHash := n_PayloadHash ev,
        p_NormalizedFields := n_Fields ev, p_ProcessingState := ''pending''\<rparr>)) (\<lambda>row.
     bindT (InTx (InsertProcessorEvent row)) (\<lambda>inserted.
     if \<not> inserted then retT ()
     else let key = processingKeyFor ev in
       bindT (InTx (ClaimProcessorEvent (n_ProcessorFamily ev) (n_ProcessorEventID ev) key now (2 * minute)))
         (\<lambda>(_, lease).
       bindT (liftT (observeProvider get_state ev)) (\<lambda>state.
       InTx (apply_claimed eng ev state key lease now)))))))"

fun process_all ::
  "engine \<Rightarrow> (string \<Rightarrow> string \<Rightarrow> gerr + subscription_state option) \<Rightarrow> normalized_event list \<Rightarrow> (world, unit) tx" where
  "process_all eng get_state [] = retT ()"
| "process_all eng get_state (ev # evs) = thenT (processNormalized eng get_state ev) (process_all eng get_state evs)"

text \<open>\<open>parse\<close> is the adapter's \<open>ParseWebhook\<close>; \<open>None\<close> is a family without an adapter.\<close>

definition IngestAndProcess ::
  "engine \<Rightarrow> (gerr + normalized_event list) option \<Rightarrow> (string \<Rightarrow> string \<Rightarrow> gerr + subscription_state option)
     \<Rightarrow> (world, unit) tx" where
  "IngestAndProcess eng parsed get_state =
     (case parsed of
        None \<Rightarrow> errT (ErrOther ''no adapter'')
      | Some r \<Rightarrow> bindT (liftT r) (process_all eng get_state))"

section \<open>Operations\<close>

definition CancelAtPeriodEnd :: "string \<Rightarrow> (world, unit) tx" where
  "CancelAtPeriodEnd ref =
     bindT nowT (\<lambda>now.
     InTx (bindT (GetSubscriptionForUpdate ref) (\<lambda>s.
       bindT (decide_commit s (zero_observation\<lparr>ob_Status := StatusCanceled, ob_CancelAtPeriodEnd := True\<rparr>) now)
         (\<lambda>_. retT ()))))"

definition ExpireNow :: "string \<Rightarrow> (world, unit) tx" where
  "ExpireNow ref =
     bindT nowT (\<lambda>now.
     InTx (bindT (GetSubscriptionForUpdate ref) (\<lambda>s.
       bindT (decide_commit s (zero_observation\<lparr>ob_Status := StatusExpired, ob_ImmediateExpire := True\<rparr>) now)
         (\<lambda>_. retT ()))))"

text \<open>
  An operator's resolution of an uncertain or manually reviewed attempt.  An authorised one that
  changes nothing else still stores the row with its charging block lifted.
\<close>

definition ResolveAttempt ::
  "engine \<Rightarrow> string \<Rightarrow> string \<Rightarrow> string \<Rightarrow> string \<Rightarrow> string \<Rightarrow> (world, unit) tx" where
  "ResolveAttempt eng attemptID outcome reason0 actor0 paymentID =
     bindT nowT (\<lambda>now.
     let reason = (if reason0 = [] then ''operator'' else reason0);
         actor = (if actor0 = [] then ''cli'' else actor0)
     in InTx (
       bindT (GetAttempt attemptID) (\<lambda>att.
       thenT (guardT (t_Status att = ''uncertain'' \<or> t_Status att = ''manual_review'') (ErrOther ''attempt status'')) (
       bindT (GetSubscriptionForUpdate (t_SubscriptionRef att)) (\<lambda>s.
       bindT newUUID (\<lambda>auditID.
       thenT (InsertAudit \<lparr>u_AuditID = auditID, u_Action = ''resolve-attempt'', u_TargetType = ''attempt'',
           u_TargetID = t_AttemptID att, u_Actor = actor, u_Reason = reason,
           u_Metadata = [(''outcome'', AStr outcome)]\<rparr>) (
       let att = finish_attempt att paymentID now in
       if outcome = ''authorized'' then
         thenT (UpdateAttempt (att\<lparr>t_Status := ''authorized''\<rparr>)) (
         thenT (ForceFinishAction (t_ActionID att) ''completed'' None None) (
         let s = s\<lparr>s_AutomaticChargingBlocked := False, s_ChargingBlockReason := None\<rparr>
         in bindT (liftT (Decide s (zero_observation\<lparr>ob_Status := StatusActive,
               ob_PeriodStart := t_PeriodStart att, ob_PeriodEnd := t_PeriodEnd att\<rparr>) now)) (\<lambda>dec.
            if d_Noop dec then UpdateSubscription s else commitChange s (d_Next dec) (d_EventType dec))))
       else if outcome = ''refused'' then
         thenT (UpdateAttempt (att\<lparr>t_Status := ''refused''\<rparr>)) (
         bindT (decide_commit s (zero_observation\<lparr>ob_Status := StatusPastDue\<rparr>) now) (\<lambda>s'.
         rescheduleOrExpireAfterRefusal eng (att\<lparr>t_Status := ''refused''\<rparr>) s' now))
       else if outcome = ''expired'' then
         thenT (UpdateAttempt (att\<lparr>t_Status := ''canceled''\<rparr>)) (
         thenT (ForceFinishAction (t_ActionID att) ''canceled'' None (Some ''operator'')) (
         bindT (decide_commit s (zero_observation\<lparr>ob_Status := StatusExpired, ob_ImmediateExpire := True\<rparr>) now)
           (\<lambda>_. retT ())))
       else errT (ErrOther ''unknown outcome''))))))))"

definition ReplayLatest :: "string \<Rightarrow> string \<Rightarrow> string \<Rightarrow> (world, unit) tx" where
  "ReplayLatest ref reason0 actor0 =
     (let reason = (if reason0 = [] then ''mock-replay'' else reason0);
          actor = (if actor0 = [] then ''mock'' else actor0)
      in InTx (bindT (LatestOutbound ref) (\<lambda>ev.
         if o_DeliveryState ev = DeliveryPending then retT ()
         else bindT nowT (\<lambda>now. RequeueOutbound (o_EventID ev) reason actor now))))"

definition BlockAutomaticCharging :: "subscription \<Rightarrow> string \<Rightarrow> gotime \<Rightarrow> (world, unit) tx" where
  "BlockAutomaticCharging s reason now =
     bindT (if s_Status s \<noteq> StatusPastDue
            then decide_commit s (zero_observation\<lparr>ob_Status := StatusPastDue\<rparr>) now
            else retT s) (\<lambda>s.
     UpdateSubscription (s\<lparr>s_AutomaticChargingBlocked := True, s_ChargingBlockReason := Some reason\<rparr>))"

definition ActivateCheckout :: "string \<Rightarrow> (world, unit) tx" where
  "ActivateCheckout checkoutID =
     bindT nowT (\<lambda>now.
     InTx (bindT (GetCheckoutForUpdate checkoutID) (\<lambda>co.
       if c_SubscriptionRef co \<noteq> None then retT ()
       else bindT NewSubscriptionRef (\<lambda>ref.
         let created = FirstActivation co ref StatusActive now (AddCalendarMonths now 1) now None None None
               (c_ProcessorShopperReference co)
         in thenT (commitChange zero_subscription created EventActivated) (complete_checkout co ref)))))"

definition SweepCheckouts :: "(world, unit) tx" where
  "SweepCheckouts = InTx (bindT nowT (\<lambda>now. bindT (ExpireDueCheckouts now) (\<lambda>_. retT ())))"

definition snapshotFrom :: "subscription \<Rightarrow> snapshot" where
  "snapshotFrom s =
     \<lparr>sn_Protocol = ProtocolName, sn_Version = ProtocolVersion, sn_CheckoutID = s_CheckoutID s,
      sn_SubscriptionRef = s_SubscriptionRef s, sn_PlanID = s_PlanID s, sn_StateVersion = s_StateVersion s,
      sn_Status = s_Status s, sn_CurrentPeriodStart = FormatUTC (s_CurrentPeriodStart s),
      sn_CurrentPeriodEnd = FormatUTC (s_CurrentPeriodEnd s), sn_CancelAtPeriodEnd = s_CancelAtPeriodEnd s,
      sn_StateChangedAt = FormatUTC (s_StateChangedAt s)\<rparr>"

definition Snapshot :: "string \<Rightarrow> (world, snapshot) tx" where
  "Snapshot ref =
     thenT (liftT (ValidateSubscriptionRef ref)) (
     bindT (attemptT (InTx (GetSubscription ref))) (\<lambda>r. case r of
       Inl e \<Rightarrow> errT (if e = ErrNotFound then ErrProtocolNotFound else e)
     | Inr s \<Rightarrow> retT (snapshotFrom s)))"

section \<open>The invariant of the store\<close>

text \<open>A computation that never touches the store, such as a read whose error is inspected.\<close>

definition pure_read :: "(world, 'a) tx \<Rightarrow> bool" where
  "pure_read m \<longleftrightarrow> (\<forall>w. snd (m w) = w)"

lemma keepsT_attempt [keeps]: "pure_read m \<Longrightarrow> keepsT I (attemptT m)"
  by (rule keepsT_I) (auto simp: pure_read_def)

lemma pure_reads [simp]:
  "pure_read (lookup_row tab k)" "pure_read (scan_row tab p)" "pure_read (GetSubscription k)"
  "pure_read (GetSubscriptionByProcessor f k)" "pure_read (GetSubscriptionByCheckout k)"
  "pure_read (GetSubscriptionByInitialPayment f k)" "pure_read (GetAttemptByReference k)"
  by (simp_all add: pure_read_def lookup_row_def scan_row_def GetSubscription_def GetSubscriptionByProcessor_def
      GetSubscriptionByCheckout_def GetSubscriptionByInitialPayment_def GetAttemptByReference_def)

lemma pure_read_charge [simp]: "pure_read (GetSubscriptionByChargePayment k)"
  unfolding pure_read_def
proof
  fix w
  show "snd (GetSubscriptionByChargePayment k w) = w"
    by (cases "find (\<lambda>a. t_ProcessorPaymentID a = Some k) (vals (attempts w))")
      (simp_all add: GetSubscriptionByChargePayment_def GetSubscription_def scan_row_def lookup_row_def bindT_def)
qed

lemma keepsT_insertActionOnce [keeps]: "keepsT (winv P) (insertActionOnce a)"
proof (rule keepsT_I)
  fix w x w' assume *: "winv P w" "insertActionOnce a w = (Inr x, w')"
  show "winv P w'"
  proof (cases "InsertAction a w")
    case (Pair r v)
    show ?thesis
    proof (cases r)
      case (Inl e)
      with Pair have "v = w" by (auto simp: InsertAction_def split: if_split_asm)
      with * Pair Inl show ?thesis by (auto simp: insertActionOnce_def bindT_eq_Inr split: if_split_asm)
    next
      case (Inr u)
      with * Pair keepsT_D [OF keepsT_InsertAction *(1), of a u v] show ?thesis
        by (auto simp: insertActionOnce_def bindT_eq_Inr)
    qed
  qed
qed

lemma keepsT_schedule_only [keeps]: "keepsT (winv P) (schedule_only nxt ty)"
  unfolding schedule_only_def Let_def by (intro keeps mem_only_inv)

lemma keepsT_marshalCallback [keeps]: "keepsT (winv P) (marshalCallback s ty)"
  unfolding marshalCallback_def NewEventID_def by (intro keeps mem_only_inv)

lemma keepsT_commitChange [keeps]:
  assumes "s_SubscriptionRef c = [] \<or> PinSub (s_SubscriptionRef n) (bind_sub n) \<in> P"
  shows "keepsT (winv P) (commitChange c n ty)"
  unfolding commitChange_def by (intro keeps) (use assms in auto)

lemma same_identity_pin: "same_identity n s \<Longrightarrow> s_SubscriptionRef n = s_SubscriptionRef s \<and> bind_sub n = bind_sub s"
  by (simp add: same_identity_def bind_sub_def)

lemma keepsT_decide_commit [keeps]:
  assumes "PinSub (s_SubscriptionRef s) (bind_sub s) \<in> P"
  shows "keepsT (winv P) (decide_commit s obs now)"
proof -
  have "keepsT (winv P) (if d_Noop d then retT s
      else thenT (commitChange s (d_Next d) (d_EventType d)) (retT (d_Next d)))"
    if "Decide s obs now = Inr d" for d
    using that assms same_identity_pin [OF Decide_identity [OF that]]
    by (cases "d_Noop d") (auto intro!: keeps)
  then show ?thesis
    unfolding decide_commit_def by (cases "Decide s obs now") (auto simp: keepsT_def wp)
qed

end
