(* ===== verification/Config.thy ===== *)
theory Config
  imports Hmac
begin

text \<open>
  \<^verbatim>\<open>internal/config/config.go\<close>: the configuration and its catalog of plans, the resolution of a plan and
  the checks a catalog must pass.  The catalog is a Go map, so an association list visited in list
  order.  \<open>pd\<close> is \<open>time.ParseDuration\<close>, whose fractions are floating-point computations.
\<close>

section \<open>The configuration\<close>

record stripe_plan =
  sp_PriceID :: string

record adyen_plan =
  ap_MerchantAccount :: string
  ap_CountryCode :: string

record plan =
  pl_Processor :: string
  pl_Currency :: string
  pl_AmountMinor :: int
  pl_Interval :: string
  pl_Stripe :: stripe_plan
  pl_Adyen :: adyen_plan

record catalog =
  cat_DefaultProcessor :: string
  cat_Plans :: "(string \<times> plan) list"

record config =
  g_PublicURL :: string
  g_ConsumerWebhookURL :: string
  g_PairingRoot :: string
  g_DefaultProcessor :: string
  g_StripeSecretKey :: string
  g_StripeWebhookSecret :: string
  g_AdyenAPIKey :: string
  g_AdyenHMACKey :: string
  g_AdyenClientKey :: string
  g_AdyenLivePrefix :: string
  g_AdyenEnvironment :: string
  g_AdyenDataEncryptionKey :: string
  g_Listen :: string
  g_DatabaseURL :: string
  g_LogLevel :: string
  g_SchedulerEnabled :: bool
  g_RenewalRetryDelays :: "duration list"
  g_DunningTermination :: duration
  g_AdyenResolutionDeadline :: duration
  g_QuarantineEnabled :: bool
  g_QuarantineMaxRetention :: duration
  g_PlansPath :: string
  g_Catalog :: catalog
  g_DevMode :: bool

section \<open>Plans\<close>

definition ResolvePlan :: "config \<Rightarrow> string \<Rightarrow> gerr + plan \<times> string" where
  "ResolvePlan c planID =
     (case map_of (cat_Plans (g_Catalog c)) planID of
        None \<Rightarrow> Inl ErrUnknownPlan
      | Some p \<Rightarrow>
          let proc = (if pl_Processor p = []
                      then (if g_DefaultProcessor c = [] then cat_DefaultProcessor (g_Catalog c) else g_DefaultProcessor c)
                      else pl_Processor p)
          in Inr (p\<lparr>pl_Processor := proc\<rparr>, proc))"

text \<open>\<open>out[price] = id\<close> for every plan: the last plan visited with a price keeps it.\<close>

definition StripePriceMap :: "config \<Rightarrow> (string \<times> string) list" where
  "StripePriceMap c = fold (\<lambda>(i, p) out.
     if sp_PriceID (pl_Stripe p) \<noteq> [] then AList.update (sp_PriceID (pl_Stripe p)) i out else out)
     (cat_Plans (g_Catalog c)) []"

text \<open>The checks of one plan; the result is the processor it selects.\<close>

definition plan_check :: "string \<Rightarrow> string \<times> plan \<Rightarrow> gerr + string" where
  "plan_check def = (\<lambda>(i, p).
     bindR (ValidatePlanID i) (\<lambda>_.
     let proc = (if pl_Processor p = [] then def else pl_Processor p)
     in bindR (guardR (proc = ProcessorStripe \<or> proc = ProcessorAdyen) (ErrOther ''unknown processor'')) (\<lambda>_.
        bindR (guardR (\<not> (pl_AmountMinor p \<le> 0 \<or> pl_Currency p = [] \<or> pl_Interval p = []))
          (ErrOther ''amount, currency, and interval are required'')) (\<lambda>_.
        bindR (guardR (\<not> (proc = ProcessorStripe \<and> sp_PriceID (pl_Stripe p) = []))
          (ErrOther ''stripe.price_id is required'')) (\<lambda>_.
        bindR (guardR (\<not> (proc = ProcessorAdyen \<and> (ap_MerchantAccount (pl_Adyen p) = [] \<or> ap_CountryCode (pl_Adyen p) = [])))
          (ErrOther ''adyen merchant_account and country_code are required'')) (\<lambda>_.
        Inr proc))))))"

fun plan_checks :: "string \<Rightarrow> (string \<times> plan) list \<Rightarrow> gerr + string list" where
  "plan_checks def [] = Inr []"
| "plan_checks def (p # ps) = bindR (plan_check def p) (\<lambda>proc. bindR (plan_checks def ps) (\<lambda>procs. Inr (proc # procs)))"

definition ValidatePlans :: "config \<Rightarrow> gerr + unit" where
  "ValidatePlans c =
     bindR (guardR (\<not> (cat_DefaultProcessor (g_Catalog c) = [] \<and> g_DefaultProcessor c = []))
       (ErrOther ''default processor is required'')) (\<lambda>_.
     let def = (if g_DefaultProcessor c = [] then cat_DefaultProcessor (g_Catalog c) else g_DefaultProcessor c)
     in bindR (guardR (def = ProcessorStripe \<or> def = ProcessorAdyen) (ErrOther ''unknown default processor'')) (\<lambda>_.
        bindR (plan_checks def (cat_Plans (g_Catalog c))) (\<lambda>selected.
        bindR (guardR (ProcessorStripe \<in> set selected \<longrightarrow> \<not> (g_StripeSecretKey c = [] \<or> g_StripeWebhookSecret c = []))
          (ErrOther ''stripe credentials are required for configured stripe plans'')) (\<lambda>_.
        if ProcessorAdyen \<in> set selected then
          bindR (guardR (\<not> (g_AdyenAPIKey c = [] \<or> g_AdyenHMACKey c = [] \<or> g_AdyenClientKey c = []
              \<or> g_AdyenDataEncryptionKey c = []))
            (ErrOther ''adyen credentials, client key, and data-encryption key are required for configured adyen plans'')) (\<lambda>_.
          bindR (guardR (g_AdyenEnvironment c = ''test'' \<or> g_AdyenEnvironment c = ''live'')
            (ErrOther ''ADYEN_ENVIRONMENT must be test or live'')) (\<lambda>_.
          guardR (\<not> (g_AdyenEnvironment c = ''live'' \<and> g_AdyenLivePrefix c = []))
            (ErrOther ''ADYEN_LIVE_PREFIX is required in live'')))
        else Inr ()))))"

text \<open>
  \<open>LoadCatalog\<close> after the file is read and its YAML decoded: \<open>file\<close> is what was decoded, a missing map
  of plans being the empty one.
\<close>

definition LoadCatalog :: "config \<Rightarrow> gerr + catalog \<Rightarrow> gerr + config" where
  "LoadCatalog c file =
     bindR file (\<lambda>cat.
     let c = (if g_DefaultProcessor c = [] then c\<lparr>g_DefaultProcessor := cat_DefaultProcessor cat\<rparr> else c);
         c = c\<lparr>g_Catalog := cat\<rparr>
     in bindR (ValidatePlans c) (\<lambda>_. Inr c))"

section \<open>Durations\<close>

fun collect_durations :: "(string \<Rightarrow> gerr + duration) \<Rightarrow> string list \<Rightarrow> gerr + duration list" where
  "collect_durations pd [] = Inr []"
| "collect_durations pd (p # ps) =
     (let p = TrimSpace p
      in if p = [] then collect_durations pd ps
         else case pd p of
                Inl _ \<Rightarrow> Inl (ErrOther ''invalid duration'')
              | Inr d \<Rightarrow> if d \<le> 0 then Inl (ErrOther ''invalid duration'')
                        else bindR (collect_durations pd ps) (\<lambda>ds. Inr (d # ds)))"

definition parseDurations :: "(string \<Rightarrow> gerr + duration) \<Rightarrow> string \<Rightarrow> gerr + duration list" where
  "parseDurations pd raw =
     bindR (collect_durations pd (split_on (CHR '','') raw)) (\<lambda>out.
     if out = [] then Inl (ErrOther ''renewal retry delays required'') else Inr out)"

definition parseBoundedDuration ::
  "(string \<Rightarrow> gerr + duration) \<Rightarrow> string \<Rightarrow> duration \<Rightarrow> duration \<Rightarrow> gerr + duration" where
  "parseBoundedDuration pd raw lo hi =
     bindR (pd raw) (\<lambda>d. if d < lo \<or> hi < d then Inl (ErrOther ''duration out of bounds'') else Inr d)"

section \<open>Facts\<close>

lemma ResolvePlan_Inr: "ResolvePlan c i = Inr (p, proc) \<Longrightarrow>
    pl_Processor p = proc \<and> (\<exists>q. map_of (cat_Plans (g_Catalog c)) i = Some q \<and> p = q\<lparr>pl_Processor := proc\<rparr>)"
  by (auto simp: ResolvePlan_def Let_def split: option.splits)

lemma ResolvePlan_unknown: "ResolvePlan c i = Inl e \<longleftrightarrow> e = ErrUnknownPlan \<and> map_of (cat_Plans (g_Catalog c)) i = None"
  by (auto simp: ResolvePlan_def Let_def split: option.splits)

lemma plan_check_Inr: "plan_check def (i, p) = Inr proc \<longleftrightarrow>
    ValidatePlanID i = Inr () \<and> proc = (if pl_Processor p = [] then def else pl_Processor p)
    \<and> (proc = ProcessorStripe \<or> proc = ProcessorAdyen) \<and> 0 < pl_AmountMinor p \<and> pl_Currency p \<noteq> [] \<and> pl_Interval p \<noteq> []
    \<and> (proc = ProcessorStripe \<longrightarrow> sp_PriceID (pl_Stripe p) \<noteq> [])
    \<and> (proc = ProcessorAdyen \<longrightarrow> ap_MerchantAccount (pl_Adyen p) \<noteq> [] \<and> ap_CountryCode (pl_Adyen p) \<noteq> [])"
  by (auto simp: plan_check_def bindR_eq_Inr Let_def)

lemma plan_checks_Inr: "plan_checks def ps = Inr procs \<Longrightarrow>
    \<forall>q \<in> set ps. \<exists>proc \<in> set procs. plan_check def q = Inr proc"
  by (induction ps arbitrary: procs) (auto simp: bindR_eq_Inr)

text \<open>The price map inverts the catalog when no two plans share a price.\<close>

lemma StripePriceMap_fold:
  assumes "\<forall>(i, p) \<in> set ps. sp_PriceID (pl_Stripe p) = price \<longrightarrow> i = j" and "price \<noteq> []"
  shows "map_of (fold (\<lambda>(i, p) out. if sp_PriceID (pl_Stripe p) \<noteq> []
      then AList.update (sp_PriceID (pl_Stripe p)) i out else out) ps out) price
    = (if \<exists>(i, p) \<in> set ps. sp_PriceID (pl_Stripe p) = price then Some j else map_of out price)"
  using assms
proof (induction ps arbitrary: out)
  case (Cons q ps)
  then show ?case by (cases q) (auto split: if_split_asm)
qed simp

end
