(* ===== verification/Processor.thy ===== *)
theory Processor
  imports Engine Json Config
begin

text \<open>
  What the adapters of the two processors share: the requests and answers of
  \<^verbatim>\<open>internal/adapters/adapter.go\<close>, documents decoded into \<open>map[string]any\<close>, and the lenient decoding of
  an answer into a struct.
\<close>

section \<open>Requests and answers\<close>

record checkout_request =
  rq_CheckoutID :: string
  rq_PlanID :: string
  rq_ReturnURL :: string
  rq_IdempotencyKey :: string
  rq_ShopperRef :: string
  rq_AmountMinor :: int
  rq_Currency :: string
  rq_Interval :: string
  rq_StripePriceID :: string
  rq_MerchantAccount :: string
  rq_CountryCode :: string
  rq_PublicBaseURL :: string
  rq_ExpiresAt :: gotime

record checkout_result =
  rs_RedirectURL :: string
  rs_ProcessorCheckoutID :: string
  rs_ProcessorCustomerID :: string
  rs_ExpiresAt :: gotime
  rs_Uncertain :: bool

record payment_update_request =
  pu_CheckoutID :: string
  pu_ShopperRef :: string
  pu_ReturnURL :: string
  pu_IdempotencyKey :: string
  pu_AmountMinor :: int
  pu_Currency :: string
  pu_MerchantAccount :: string
  pu_CountryCode :: string

record payment_update_session =
  us_ID :: string
  us_SessionData :: string

record renewal_request =
  rr_Endpoint :: string
  rr_APIVersion :: string
  rr_MerchantAccount :: string
  rr_AmountMinor :: int
  rr_Currency :: string
  rr_AttemptReference :: string
  rr_ShopperReference :: string
  rr_PaymentMethodID :: string
  rr_IdempotencyKey :: string
  rr_CanonicalBody :: bytes

record renewal_result =
  rw_Status :: string
  rw_ProcessorPaymentID :: string
  rw_RefusalCode :: string
  rw_Uncertain :: bool

definition zero_renewal_request :: renewal_request where
  "zero_renewal_request = \<lparr>rr_Endpoint = [], rr_APIVersion = [], rr_MerchantAccount = [], rr_AmountMinor = 0,
     rr_Currency = [], rr_AttemptReference = [], rr_ShopperReference = [], rr_PaymentMethodID = [],
     rr_IdempotencyKey = [], rr_CanonicalBody = []\<rparr>"

definition zero_renewal_result :: renewal_result where
  "zero_renewal_result = \<lparr>rw_Status = [], rw_ProcessorPaymentID = [], rw_RefusalCode = [], rw_Uncertain = False\<rparr>"

record renewal_attempt =
  ra_Endpoint :: string
  ra_APIVersion :: string
  ra_IdempotencyKey :: string
  ra_CanonicalBody :: bytes
  ra_AttemptRef :: string

section \<open>Documents\<close>

fun json_depth :: "json \<Rightarrow> nat" where
  "json_depth (JArr vs) = Suc (foldr max (map json_depth vs) 0)"
| "json_depth (JObj ms) = Suc (foldr max (map (json_depth \<circ> snd) ms) 0)"
| "json_depth _ = 0"

text \<open>\<open>json.Unmarshal\<close>'s reading of a whole document: one value, white space around it, at most 10000 levels.\<close>

definition json_document :: "bytes \<Rightarrow> json option" where
  "json_document s =
     (case json_value s of None \<Rightarrow> None
      | Some (v, r) \<Rightarrow> if json_ws r = [] \<and> json_depth v \<le> 10000 then Some v else None)"

text \<open>Decoding into a map keeps the last of repeated members; indexing a nil map finds nothing.\<close>

definition jget :: "(string \<times> json) list \<Rightarrow> string \<Rightarrow> json option" where
  "jget ms k = map_of (rev ms) k"

definition jobj :: "json option \<Rightarrow> (string \<times> json) list option" where
  "jobj v = (case v of Some (JObj ms) \<Rightarrow> Some ms | _ \<Rightarrow> None)"

definition jarr :: "json option \<Rightarrow> json list option" where
  "jarr v = (case v of Some (JArr vs) \<Rightarrow> Some vs | _ \<Rightarrow> None)"

definition jstr :: "json option \<Rightarrow> string" where
  "jstr v = (case v of Some (JStr s) \<Rightarrow> s | _ \<Rightarrow> [])"

text \<open>
  A number decoded into \<^verbatim>\<open>any\<close> becomes a \<^verbatim>\<open>float64\<close>, which fails when it rounds to infinity: at the middle between the
  greatest finite value \<open>2 ^ 1024 - 2 ^ 971\<close> and the next power of two, or beyond.  \<open>float64_range\<close> compares the
  literal's digits, scaled by its exponent; like \<^verbatim>\<open>strconv\<close>, it stops reading an exponent at 10000.
\<close>

definition exponent_val :: "string \<Rightarrow> int" where
  "exponent_val x =
     (let e = foldl (\<lambda>e c. if e < 10000 then 10 * e + (int (ord c) - 48) else e) 0 (filter is_digit x)
      in if CHR ''-'' \<in> set x then - e else e)"

definition float64_range :: "string \<Rightarrow> bool" where
  "float64_range n =
     (let m = takeWhile (\<lambda>c. c \<noteq> CHR ''e'' \<and> c \<noteq> CHR ''E'') n;
          frac = drop 1 (dropWhile (\<lambda>c. c \<noteq> CHR ''.'') m);
          mant = int (digits_val (filter is_digit m));
          scale = exponent_val (drop (length m) n) - int (length frac)
      in if 0 \<le> scale then mant * 10 ^ nat scale < 2 ^ 1024 - 2 ^ 970
         else mant < (2 ^ 1024 - 2 ^ 970) * 10 ^ nat (- scale))"

fun numbers_ok :: "json \<Rightarrow> bool" where
  "numbers_ok (JNum n) = float64_range n"
| "numbers_ok (JArr vs) = list_all numbers_ok vs"
| "numbers_ok (JObj ms) = list_all (numbers_ok \<circ> snd) ms"
| "numbers_ok _ = True"

text \<open>
  Decoding into a struct matches a member's name to a field up to case, U+017F counting as s and U+212A as
  k; the last member that matches decides.
\<close>

fun fold_name :: "string \<Rightarrow> string" where
  "fold_name [] = []"
| "fold_name (c # s) =
     (case (c # s) of
        a # b # r \<Rightarrow>
          if ord a = 197 \<and> ord b = 191 then CHR ''s'' # fold_name (drop 1 s)
          else (case r of d # _ \<Rightarrow>
                  if ord a = 226 \<and> ord b = 132 \<and> ord d = 170 then CHR ''k'' # fold_name (drop 2 s)
                  else lower_char c # fold_name s
                | [] \<Rightarrow> lower_char c # fold_name s)
      | _ \<Rightarrow> [lower_char c])"

definition field :: "(string \<times> json) list \<Rightarrow> string \<Rightarrow> json option" where
  "field ms name = map_option snd (find (\<lambda>(k, v). fold_name k = fold_name name) (rev ms))"

text \<open>
  A string field after a lenient decode: the last matching member that is a string; values of another type
  are skipped.
\<close>

definition field_str :: "(string \<times> json) list \<Rightarrow> string \<Rightarrow> string" where
  "field_str ms name =
     (case find (\<lambda>(k, v). fold_name k = fold_name name \<and> (case v of JStr _ \<Rightarrow> True | _ \<Rightarrow> False)) (rev ms) of
        Some (_, JStr s) \<Rightarrow> s | _ \<Rightarrow> [])"

text \<open>\<open>strings.Join\<close>.\<close>

fun join_with :: "string \<Rightarrow> string list \<Rightarrow> string" where
  "join_with sep [] = []"
| "join_with sep [s] = s"
| "join_with sep (s # ss) = s @ sep @ join_with sep ss"

end
