(* ===== verification/Outbox.thy ===== *)
theory Outbox
  imports Engine
begin

text \<open>
  The transactional outbox of \<^verbatim>\<open>internal/engine/engine.go\<close>: every operation of the engine and every
  operation on outbound events keeps, along with the store invariant, that each version of each
  subscription is reported by exactly one outbound event whose callback agrees with the row.
  Reading a row within a transaction gives the fact that it is stored, which is what the decision
  committed later in the transaction builds on; the triples carry these facts.
\<close>

section \<open>Triples\<close>

text \<open>\<open>tripT A m B\<close>: a run of \<open>m\<close> from a state in \<open>A\<close> that returns without an error ends in \<open>B\<close> of its result.\<close>

named_theorems trip \<open>triples of the operations\<close>

definition tripT :: "('s \<Rightarrow> bool) \<Rightarrow> ('s, 'a) tx \<Rightarrow> ('a \<Rightarrow> 's \<Rightarrow> bool) \<Rightarrow> bool" where
  "tripT A m B \<longleftrightarrow> (\<forall>s. A s \<longrightarrow> wpT m B s)"

lemma tripT_I: "(\<And>s x t. A s \<Longrightarrow> m s = (Inr x, t) \<Longrightarrow> B x t) \<Longrightarrow> tripT A m B"
  by (auto simp: tripT_def intro: wpT_I)

lemma tripT_D: "tripT A m B \<Longrightarrow> A s \<Longrightarrow> m s = (Inr x, t) \<Longrightarrow> B x t"
  unfolding tripT_def by (blast dest: wpT_D)

lemma tripT_keeps: "keepsT I m \<Longrightarrow> tripT I m (\<lambda>_. I)"
  by (simp add: tripT_def keepsT_def)

lemma keepsT_tripT: "tripT I m (\<lambda>_. I) \<Longrightarrow> keepsT I m"
  by (simp add: tripT_def keepsT_def)

lemma tripT_bind: "tripT A m B \<Longrightarrow> (\<And>x. tripT (B x) (f x) C) \<Longrightarrow> tripT A (bindT m f) C"
  by (rule tripT_I) (auto simp: bindT_eq_Inr dest: tripT_D)

lemma tripT_then: "tripT A m B \<Longrightarrow> (\<And>x. tripT (B x) n C) \<Longrightarrow> tripT A (thenT m n) C"
  by (simp add: thenT_def tripT_bind)

lemma tripT_post: "tripT A m B \<Longrightarrow> (\<And>x w. B x w \<Longrightarrow> C x w) \<Longrightarrow> tripT A m C"
  by (rule tripT_I) (blast dest: tripT_D)

lemma tripT_pre: "tripT B m C \<Longrightarrow> (\<And>w. A w \<Longrightarrow> B w) \<Longrightarrow> tripT A m C"
  by (rule tripT_I) (blast dest: tripT_D)

lemma tripT_ret: "(\<And>w. A w \<Longrightarrow> B x w) \<Longrightarrow> tripT A (retT x) B"
  by (simp add: tripT_def wp)

lemma tripT_err: "tripT A (errT e) B"
  by (simp add: tripT_def wp)

lemma tripT_when: "(b \<Longrightarrow> tripT A m (\<lambda>_. B)) \<Longrightarrow> (\<And>w. A w \<Longrightarrow> B w) \<Longrightarrow> tripT A (whenT b m) (\<lambda>_. B)"
  by (simp add: tripT_def wp)

lemma tripT_if: "(b \<Longrightarrow> tripT A m B) \<Longrightarrow> (\<not> b \<Longrightarrow> tripT A n B) \<Longrightarrow> tripT A (if b then m else n) B"
  by simp

lemma tripT_option:
  "(r = None \<Longrightarrow> tripT A m B) \<Longrightarrow> (\<And>x. r = Some x \<Longrightarrow> tripT A (f x) B) \<Longrightarrow>
   tripT A (case r of None \<Rightarrow> m | Some x \<Rightarrow> f x) B"
  by (cases r) simp_all

lemma tripT_sum:
  "(\<And>e. r = Inl e \<Longrightarrow> tripT A (g e) B) \<Longrightarrow> (\<And>x. r = Inr x \<Longrightarrow> tripT A (f x) B) \<Longrightarrow>
   tripT A (case r of Inl e \<Rightarrow> g e | Inr x \<Rightarrow> f x) B"
  by (cases r) simp_all

lemma tripT_prod:
  "(\<And>x y. p = (x, y) \<Longrightarrow> tripT A (f x y) B) \<Longrightarrow> tripT A (case p of (x, y) \<Rightarrow> f x y) B"
  by (cases p) simp

lemma tripT_lift: "(\<And>x. r = Inr x \<Longrightarrow> tripT A (f x) B) \<Longrightarrow> tripT A (bindT (liftT r) f) B"
  by (rule tripT_I) (auto simp: bindT_eq_Inr dest: tripT_D)

lemma tripT_guard: "(b \<Longrightarrow> tripT A m B) \<Longrightarrow> tripT A (thenT (guardT b e) m) B"
  by (rule tripT_I) (auto simp: thenT_eq_Inr dest: tripT_D split: if_split_asm)

section \<open>The outbox\<close>

text \<open>
  Every version of every subscription is reported by an outbound event, no event is for anything else,
  and the event of the current version carries the callback that shows what the row shows.
\<close>

definition event_of :: "world \<Rightarrow> string \<Rightarrow> (string \<times> string \<times> string \<times> int \<times> bytes \<times> gotime) option" where
  "event_of w k = map_option bind_outbound (map_of (outbound w) k)"

definition reports :: "world \<Rightarrow> subscription \<Rightarrow> string \<Rightarrow> bool" where
  "reports w s k \<longleftrightarrow> (\<exists>cb t. ValidateCallback cb = Inr () \<and> cb_EventID cb = k \<and> SnapshotFromCallback cb = snapshotFrom s
     \<and> event_of w k = Some (cb_EventType cb, s_SubscriptionRef s, s_CheckoutID s, s_StateVersion s, marshal_callback cb, t))"

definition reported :: "world \<Rightarrow> subscription \<Rightarrow> bool" where
  "reported w s \<longleftrightarrow> 1 \<le> s_StateVersion s \<and> s_StateVersion s < 2 ^ 63 \<and> (\<exists>k. reports w s k)
     \<and> (\<forall>v. 1 \<le> v \<and> v \<le> s_StateVersion s \<longrightarrow> (\<exists>k ty co b t. event_of w k = Some (ty, s_SubscriptionRef s, co, v, b, t)))"

definition outbox :: "world \<Rightarrow> bool" where
  "outbox w \<longleftrightarrow>
     (\<forall>k ty r co v b t. event_of w k = Some (ty, r, co, v, b, t) \<longrightarrow>
        (\<exists>s. map_of (subs w) r = Some s \<and> 1 \<le> v \<and> v \<le> s_StateVersion s))
     \<and> (\<forall>r s. map_of (subs w) r = Some s \<longrightarrow> reported w s)"

text \<open>A row is stored as it was read, up to the times the store stamps.\<close>

definition stored :: "world \<Rightarrow> subscription \<Rightarrow> bool" where
  "stored w s \<longleftrightarrow> (\<exists>cr t. map_of (subs w) (s_SubscriptionRef s) = Some (s\<lparr>s_CreatedAt := cr, s_UpdatedAt := t\<rparr>))"

definition oinv :: "pin set \<Rightarrow> subscription set \<Rightarrow> world \<Rightarrow> bool" where
  "oinv P c w \<longleftrightarrow> winv P w \<and> outbox w \<and> (\<forall>s\<in>c. stored w s)"

lemma oinv_mono: "oinv P c w \<Longrightarrow> Q \<subseteq> P \<Longrightarrow> d \<subseteq> c \<Longrightarrow> oinv Q d w"
  unfolding oinv_def winv_def by blast

lemma oinv_weak [intro]: "oinv Q c w \<Longrightarrow> P \<subseteq> Q \<Longrightarrow> oinv P {} w"
  by (erule oinv_mono; simp)

lemmas pins = subset_refl subset_insertI subset_insertI2

text \<open>What a computation that touches neither subscriptions nor outbound events keeps.\<close>

definition quiet :: "(world, 'a) tx \<Rightarrow> bool" where
  "quiet m \<longleftrightarrow> (\<forall>Q. keepsT (\<lambda>w. Q (subs w) (outbound w)) m)"

lemma outbox_cong:
  "subs w' = subs w \<Longrightarrow> event_of w' = event_of w \<Longrightarrow> outbox w' = outbox w"
  "event_of w' = event_of w \<Longrightarrow> reported w' s = reported w s"
  "subs w' = subs w \<Longrightarrow> stored w' s = stored w s"
  by (simp_all add: outbox_def reported_def reports_def stored_def)

lemma quiet_keeps:
  assumes "quiet m" and "keepsT (winv P) m"
  shows "keepsT (oinv P c) m"
proof (rule keepsT_I)
  fix w x w' assume *: "oinv P c w" "m w = (Inr x, w')"
  have "subs w' = subs w \<and> outbound w' = outbound w"
    using assms(1) [unfolded quiet_def, rule_format, of "\<lambda>a b. a = subs w \<and> b = outbound w"] *(2)
    by (auto dest: keepsT_D)
  moreover have "winv P w'" using *(1) keepsT_D [OF assms(2) _ *(2)] by (simp add: oinv_def)
  ultimately show "oinv P c w'" using *(1) outbox_cong(1,3) [of w' w] by (simp add: oinv_def event_of_def fun_eq_iff)
qed

lemma quiet_I: "(\<And>Q. keepsT (\<lambda>w. Q (subs w) (outbound w)) m) \<Longrightarrow> quiet m"
  by (simp add: quiet_def)

lemma mem_only_tables [simp]: "mem_only (\<lambda>w. Q (subs w) (outbound w))"
  by (simp add: mem_only_def)

named_theorems quietI \<open>computations that touch neither subscriptions nor outbound events\<close>

lemma quiet_writes [quietI]:
  "quiet (InsertCheckout c)" "quiet (UpdateCheckout c)" "quiet (ExpireDueCheckouts now)"
  "quiet (InsertAction a)" "quiet (InsertAttempt t)" "quiet (UpdateAttempt t)" "quiet (InsertAudit u)"
  "quiet (InsertProcessorEvent pe)" "quiet (CancelActionsForSubscription ref k)"
  by (simp_all add: quiet_def keepsT_def wpT_def InsertCheckout_def UpdateCheckout_def ExpireDueCheckouts_def
      InsertAttempt_def UpdateAttempt_def InsertAudit_def InsertProcessorEvent_def InsertAction_def
      CancelActionsForSubscription_def set_table_defs Let_def)

lemma quiet_claims [quietI]:
  "quiet (FinishAction i t n st due ec)" "quiet (ForceFinishAction i st due ec)" "quiet (ClaimAction i now lease)"
  "quiet (ClaimProcessorEvent f i k now lease)" "quiet (FinishProcessorEvent f i t n st ro now)"
  "quiet (ReleaseProcessorLease k t n)" "quiet (ClaimAttemptWithAction i j t n now lease dl)"
  unfolding FinishAction_def ForceFinishAction_def ClaimAction_def ClaimProcessorEvent_def
    FinishProcessorEvent_def ReleaseProcessorLease_def ClaimAttemptWithAction_def Let_def
  by (rule quiet_I, intro keeps keepsT_write; simp add: set_table_defs)+

lemma quiet_claim_due [quietI]: "quiet (ClaimDueAction now lease st ks)"
  unfolding ClaimDueAction_def
  by (rule quiet_I) (intro keeps quiet_claims [unfolded quiet_def, rule_format])

lemma quiet_random [quietI]: "quiet newUUID" "quiet (NewOpaqueID p)" "quiet mustToken" "quiet newToken"
  by (rule quiet_I, intro keeps; simp)+

lemma quiet_insertActionOnce [quietI]: "quiet (insertActionOnce a)"
proof (rule quiet_I, rule keepsT_I)
  fix Q w x w' assume *: "Q (subs w) (outbound w)" "insertActionOnce a w = (Inr (x::unit), w')"
  show "Q (subs w') (outbound w')"
    using * by (auto simp: insertActionOnce_def InsertAction_def bindT_def set_table_defs split: if_split_asm)
qed

lemma quiet_bind [quietI]: "quiet m \<Longrightarrow> (\<And>x. quiet (f x)) \<Longrightarrow> quiet (bindT m f)"
  unfolding quiet_def by (blast intro: keepsT_bind)

lemma quiet_then [quietI]: "quiet m \<Longrightarrow> quiet n \<Longrightarrow> quiet (thenT m n)"
  unfolding quiet_def by (blast intro: keepsT_then)

lemma quiet_when [quietI]: "quiet m \<Longrightarrow> quiet (whenT b m)"
  unfolding quiet_def by (blast intro: keepsT_when)

lemma quiet_schedule_only [quietI]: "quiet (schedule_only nxt ty)"
  unfolding schedule_only_def Let_def by (intro quietI)

text \<open>The rule that lifts the preservation of the store invariant to the outbox.\<close>

lemma trip_quiet: "quiet m \<Longrightarrow> keepsT (winv P) m \<Longrightarrow> tripT (oinv P c) m (\<lambda>_. oinv P c)"
  by (rule tripT_keeps, rule quiet_keeps)

lemma trip_quiet_any:
  assumes "\<And>I. mem_only I \<Longrightarrow> keepsT I m"
  shows "tripT (oinv P c) m (\<lambda>_. oinv P c)"
  by (rule trip_quiet [OF quiet_I]) (auto intro: assms)

subsection \<open>Reading a row\<close>

lemma stored_row:
  assumes "store_ok w" and "map_of (subs w) k = Some s"
  shows "stored w s" and "s_SubscriptionRef s = k"
proof -
  show k: "s_SubscriptionRef s = k" using assms store_ok_keys(2) by blast
  have "s\<lparr>s_CreatedAt := s_CreatedAt s, s_UpdatedAt := s_UpdatedAt s\<rparr> = s" by simp
  with assms(2) k show "stored w s" unfolding stored_def by metis
qed

lemma oinv_stored: "oinv P c w \<Longrightarrow> stored w s \<Longrightarrow> oinv P (insert s c) w"
  by (simp add: oinv_def)

lemma oinv_pinned: "oinv P c w \<Longrightarrow> pinned w p \<Longrightarrow> oinv (insert p P) c w"
  by (simp add: oinv_def inv_insert)

lemma oinv_ok: "oinv P c w \<Longrightarrow> store_ok w"
  by (simp add: oinv_def winv_def)

lemma store_ok_members:
  "store_ok w \<Longrightarrow> s \<in> set (vals (subs w)) \<Longrightarrow> map_of (subs w) (s_SubscriptionRef s) = Some s"
  "store_ok w \<Longrightarrow> a \<in> set (vals (attempts w)) \<Longrightarrow> map_of (attempts w) (t_AttemptID a) = Some a"
  unfolding store_ok_def keyed_by_def by (blast dest: well_keyed_values [THEN iffD1])+

lemma found_row:
  assumes "store_ok w" and "find p (vals (subs w)) = Some s"
  shows "stored w s"
proof -
  have "s \<in> set (vals (subs w))" using find_values_Some assms(2) by (metis find_Some_iff nth_mem)
  then have "map_of (subs w) (s_SubscriptionRef s) = Some s"
    by (rule store_ok_members(1) [OF assms(1)])
  then show ?thesis using stored_row(1) [OF assms(1)] by blast
qed

lemma read_subscription [trip]:
  "tripT (oinv P c) (GetSubscription r) (\<lambda>s. oinv P (insert s c))"
  "tripT (oinv P c) (GetSubscriptionForUpdate r) (\<lambda>s. oinv P (insert s c))"
  "tripT (oinv P c) (GetSubscriptionByProcessor f r) (\<lambda>s. oinv P (insert s c))"
  "tripT (oinv P c) (GetSubscriptionByCheckout r) (\<lambda>s. oinv P (insert s c))"
  "tripT (oinv P c) (GetSubscriptionByInitialPayment f r) (\<lambda>s. oinv P (insert s c))"
  "tripT (oinv P c) (GetSubscriptionByChargePayment r) (\<lambda>s. oinv P (insert s c))"
proof -
  have look: "tripT (oinv P c) (lookup_row subs r) (\<lambda>s. oinv P (insert s c))" for r
    by (rule tripT_I) (auto simp: lookup_row_def split: option.splits intro: oinv_stored stored_row dest: oinv_ok)
  have scan: "tripT (oinv P c) (scan_row subs p) (\<lambda>s. oinv P (insert s c))" for p
    by (rule tripT_I) (auto simp: scan_row_def split: option.splits intro: oinv_stored found_row dest: oinv_ok)
  have att: "tripT (oinv P c) (scan_row attempts p) (\<lambda>_. oinv P c)" for p
    by (rule tripT_keeps) (rule keepsT_scan)
  show "tripT (oinv P c) (GetSubscription r) (\<lambda>s. oinv P (insert s c))"
    "tripT (oinv P c) (GetSubscriptionForUpdate r) (\<lambda>s. oinv P (insert s c))"
    "tripT (oinv P c) (GetSubscriptionByProcessor f r) (\<lambda>s. oinv P (insert s c))"
    "tripT (oinv P c) (GetSubscriptionByCheckout r) (\<lambda>s. oinv P (insert s c))"
    "tripT (oinv P c) (GetSubscriptionByInitialPayment f r) (\<lambda>s. oinv P (insert s c))"
    "tripT (oinv P c) (GetSubscriptionByChargePayment r) (\<lambda>s. oinv P (insert s c))"
    using look scan tripT_bind [OF att look]
    by (simp_all add: GetSubscription_def GetSubscriptionForUpdate_def GetSubscriptionByProcessor_def
        GetSubscriptionByCheckout_def GetSubscriptionByInitialPayment_def GetSubscriptionByChargePayment_def)
qed

section \<open>Committing a change\<close>

lemma marshalCallback_Inr:
  assumes "marshalCallback s ty w = (Inr (body, k), w')"
  obtains cb where "mem w' = mem w" "ValidateCallback cb = Inr ()" "cb_EventID cb = k" "cb_EventType cb = ty"
    "body = marshal_callback cb" "SnapshotFromCallback cb = snapshotFrom s"
proof -
  from assms obtain w1 cb where e: "NewEventID w = (Inr k, w1)"
    and n: "NewCallback k ty (s_CheckoutID s) (s_SubscriptionRef s) (s_PlanID s) (s_StateVersion s) (s_Status s)
        (s_CurrentPeriodStart s) (s_CurrentPeriodEnd s) (s_StateChangedAt s) (s_CancelAtPeriodEnd s) = Inr cb"
    and b: "body = marshal_callback cb" "w' = w1"
    by (auto simp: marshalCallback_def bindT_eq_Inr)
  have "mem w1 = mem w" using NewOpaqueID_mem e by (simp add: NewEventID_def)
  moreover note NewCallback_valid [OF n]
  moreover have "SnapshotFromCallback cb = snapshotFrom s"
    using NewCallback_valid [OF n] by (simp add: SnapshotFromCallback_def snapshotFrom_def ValidateCallback_iff)
  ultimately show ?thesis using b by (intro that [of cb]) simp_all
qed

lemma valid_snapshot:
  assumes "ValidateCallback cb = Inr ()" and "SnapshotFromCallback cb = snapshotFrom s"
  shows "1 \<le> s_StateVersion s" and "ValidateSubscriptionRef (s_SubscriptionRef s) = Inr ()" and "s_SubscriptionRef s \<noteq> []"
proof -
  have e: "cb_StateVersion cb = s_StateVersion s" "cb_SubscriptionRef cb = s_SubscriptionRef s"
    using assms(2) by (simp_all add: SnapshotFromCallback_def snapshotFrom_def)
  show "1 \<le> s_StateVersion s" "ValidateSubscriptionRef (s_SubscriptionRef s) = Inr ()"
    using assms(1) by (simp_all add: ValidateCallback_iff e [symmetric])
  then show "s_SubscriptionRef s \<noteq> []" by (auto simp: ValidateSubscriptionRef_def ValidateOpaqueID_def)
qed

text \<open>
  The tables after the row \<open>n\<close> and its event are written: \<open>w'\<close> extends \<open>w\<close> by the event \<open>k\<close>, and the
  row of \<open>n\<close> is new or the successor of the stored one.
\<close>

lemma outbox_extend:
  assumes ob: "outbox w"
    and subs: "map_of (subs w') = (map_of (subs w))(s_SubscriptionRef n \<mapsto> n')"
    and n': "n' = n\<lparr>s_CreatedAt := cr, s_UpdatedAt := up\<rparr>"
    and ev: "event_of w' = (event_of w)(k \<mapsto> (ty, s_SubscriptionRef n, s_CheckoutID n, s_StateVersion n, marshal_callback cb, t))"
    and fresh: "event_of w k = None"
    and cb: "ValidateCallback cb = Inr ()" "cb_EventID cb = k" "cb_EventType cb = ty" "SnapshotFromCallback cb = snapshotFrom n"
    and prev: "(map_of (subs w) (s_SubscriptionRef n) = None \<and> s_StateVersion n = 1)
       \<or> (\<exists>s. map_of (subs w) (s_SubscriptionRef n) = Some s \<and> s_SubscriptionRef s = s_SubscriptionRef n
            \<and> s_StateVersion n = wrap64 (s_StateVersion s + 1))"
  shows "outbox w'"
proof -
  let ?r = "s_SubscriptionRef n"
  have v1: "1 \<le> s_StateVersion n" using valid_snapshot(1) [OF cb(1,4)] .
  have snap: "snapshotFrom n' = snapshotFrom n" by (simp add: n' snapshotFrom_def)
  have old: "event_of w' j = Some x" if "event_of w j = Some x" for j x
    using that fresh by (auto simp: ev)
  have rep: "reported w' s" if "reported w s" for s
    using that old unfolding reported_def reports_def by blast
  have vs: "(\<forall>v. 1 \<le> v \<and> v < s_StateVersion n \<longrightarrow> (\<exists>j ty co b t. event_of w j = Some (ty, ?r, co, v, b, t))) \<and> s_StateVersion n < 2 ^ 63
      \<and> (\<forall>s. map_of (subs w) ?r = Some s \<longrightarrow> s_StateVersion s \<le> s_StateVersion n)"
    using prev
  proof (elim disjE exE conjE)
    assume "s_StateVersion n = 1" "map_of (subs w) ?r = None"
    then show ?thesis by auto
  next
    fix s assume s: "map_of (subs w) ?r = Some s" "s_SubscriptionRef s = ?r" "s_StateVersion n = wrap64 (s_StateVersion s + 1)"
    with ob have r: "reported w s" by (simp add: outbox_def)
    then have b: "1 \<le> s_StateVersion s" "s_StateVersion s < 2 ^ 63" by (simp_all add: reported_def)
    have "s_StateVersion n = s_StateVersion s + 1"
    proof (cases "s_StateVersion s + 1 < 2 ^ 63")
      case True
      then show ?thesis using wrap64_id [of "s_StateVersion s + 1"] b s(3) by simp
    next
      case False
      with b have "s_StateVersion s = 2 ^ 63 - 1" by simp
      with s(3) v1 show ?thesis by (simp add: wrap64_def)
    qed
    moreover have "s_StateVersion n < 2 ^ 63" using s(3) wrap64_range by simp
    ultimately show ?thesis using r s(1,2) by (auto simp: reported_def)
  qed
  show ?thesis
    unfolding outbox_def
  proof (intro conjI allI impI)
    fix j ty' r co v b t' assume j: "event_of w' j = Some (ty', r, co, v, b, t')"
    show "\<exists>s. map_of (subs w') r = Some s \<and> 1 \<le> v \<and> v \<le> s_StateVersion s"
    proof (cases "j = k")
      case True
      with j show ?thesis using v1 by (auto simp: ev subs n')
    next
      case False
      with j have "event_of w j = Some (ty', r, co, v, b, t')" by (simp add: ev)
      with ob obtain s where s: "map_of (subs w) r = Some s" "1 \<le> v" "v \<le> s_StateVersion s"
        unfolding outbox_def by blast
      then show ?thesis using vs by (cases "r = ?r") (force simp: subs n')+
    qed
  next
    fix r s assume s: "map_of (subs w') r = Some s"
    show "reported w' s"
    proof (cases "r = ?r")
      case False
      with s ob have "reported w s" by (simp add: subs outbox_def)
      then show ?thesis by (rule rep)
    next
      case True
      with s have sn: "s = n'" by (simp add: subs)
      have "reports w' n' k"
        unfolding reports_def using cb by (intro exI [of _ cb] exI [of _ t]) (simp add: ev n' snapshotFrom_def)
      moreover have "\<exists>j ty co b t. event_of w' j = Some (ty, ?r, co, v, b, t)" if "1 \<le> v \<and> v \<le> s_StateVersion n" for v
      proof (cases "v = s_StateVersion n")
        case True
        then have "event_of w' k = Some (ty, ?r, s_CheckoutID n, v, marshal_callback cb, t)" by (simp add: ev)
        then show ?thesis by blast
      next
        case False
        with that have "1 \<le> v \<and> v < s_StateVersion n" by simp
        with vs obtain j ty co b t where "event_of w j = Some (ty, ?r, co, v, b, t)" by blast
        from old [OF this] show ?thesis by blast
      qed
      ultimately show ?thesis unfolding reported_def sn using v1 vs by (auto simp: n')
    qed
  qed
qed

lemma InsertOutbound_Inr:
  assumes "InsertOutbound e w = (Inr u, w')"
  shows "subs w' = subs w" and "event_of w (o_EventID e) = None"
    and "\<exists>t. event_of w' = (event_of w)(o_EventID e \<mapsto> (o_EventType e, o_SubscriptionRef e, o_CheckoutID e,
            o_StateVersion e, o_PayloadBody e, t))"
proof -
  from assms have w': "set_outbound (AList.update (o_EventID e) (e\<lparr>o_CreatedAt := Now w\<rparr>) (outbound w)) w = w'"
    and n: "map_of (outbound w) (o_EventID e) = None"
    by (simp_all add: InsertOutbound_def split: if_split_asm)
  show "subs w' = subs w" by (subst w' [symmetric]) (simp add: set_table_defs)
  show "event_of w (o_EventID e) = None" using n by (simp add: event_of_def)
  show "\<exists>t. event_of w' = (event_of w)(o_EventID e \<mapsto> (o_EventType e, o_SubscriptionRef e, o_CheckoutID e,
      o_StateVersion e, o_PayloadBody e, t))"
    by (rule exI [of _ "Now w"], rule ext, subst w' [symmetric])
      (simp add: event_of_def set_table_defs bind_outbound_def)
qed

lemma write_sub_Inr:
  assumes "set_subs (AList.update r v (subs w)) w = w'"
  shows "map_of (subs w') = (map_of (subs w))(r \<mapsto> v)" and "event_of w' = event_of w"
  by (subst assms [symmetric], rule ext, simp add: set_table_defs event_of_def)+

text \<open>The two writes of a commit, and the actions scheduled after them.\<close>

definition follow_up :: "subscription \<Rightarrow> string \<Rightarrow> (world, unit) tx" where
  "follow_up nxt eventType =
     thenT (whenT (s_ProcessorFamily nxt = ProcessorAdyen \<and> (eventType = EventActivated \<or> eventType = EventRenewed)
              \<and> s_Status nxt = StatusActive) (schedule_only nxt ActionRenew)) (
     thenT (whenT (eventType = EventCanceled) (schedule_only nxt ActionExpire)) (
     whenT (eventType = EventExpired) (CancelActionsForSubscription (s_SubscriptionRef nxt) [])))"

lemma quiet_follow_up [quietI]: "quiet (follow_up nxt ty)"
  unfolding follow_up_def by (intro quietI)

lemma keepsT_follow_up [keeps]: "keepsT (winv P) (follow_up nxt ty)"
  unfolding follow_up_def by (intro keeps)

lemma commitChange_Inr:
  assumes "commitChange c n ty w = (Inr u, w')"
  obtains k cb w1 w2 w3 t where
    "mem w1 = mem w" "ValidateCallback cb = Inr ()" "cb_EventID cb = k" "cb_EventType cb = ty"
    "SnapshotFromCallback cb = snapshotFrom n"
    "(if s_SubscriptionRef c = [] then InsertSubscription n else UpdateSubscription n) w1 = (Inr (), w2)"
    "subs w3 = subs w2" "event_of w2 k = None"
    "event_of w3 = (event_of w2)(k \<mapsto> (ty, s_SubscriptionRef n, s_CheckoutID n, s_StateVersion n, marshal_callback cb, t))"
    "follow_up n ty w3 = (Inr u, w')"
proof -
  have "\<exists>body k w1 w2 w3 u1 u2. marshalCallback n ty w = (Inr (body, k), w1)
      \<and> (if s_SubscriptionRef c = [] then InsertSubscription n else UpdateSubscription n) w1 = (Inr u1, w2)
      \<and> InsertOutbound (zero_outbound_event\<lparr>o_EventID := k, o_EventType := ty, o_SubscriptionRef := s_SubscriptionRef n,
        o_CheckoutID := s_CheckoutID n, o_StateVersion := s_StateVersion n, o_PayloadBody := body,
        o_DeliveryState := DeliveryPending, o_NextAttemptAt := Some (Now w2)\<rparr>) w2 = (Inr u2, w3)
      \<and> follow_up n ty w3 = (Inr u, w')"
    using assms
    unfolding commitChange_def follow_up_def [symmetric] bindT_eq_Inr thenT_eq_Inr nowT_def readT_run split_paired_Ex split
    by - (elim exE conjE Pair_inject, drule Inr_inject, hypsubst, intro exI conjI, assumption+)
  then obtain body k w1 w2 w3 and u1 u2 :: unit where
    m: "marshalCallback n ty w = (Inr (body, k), w1)"
    and s: "(if s_SubscriptionRef c = [] then InsertSubscription n else UpdateSubscription n) w1 = (Inr u1, w2)"
    and o: "InsertOutbound (zero_outbound_event\<lparr>o_EventID := k, o_EventType := ty, o_SubscriptionRef := s_SubscriptionRef n,
        o_CheckoutID := s_CheckoutID n, o_StateVersion := s_StateVersion n, o_PayloadBody := body,
        o_DeliveryState := DeliveryPending, o_NextAttemptAt := Some (Now w2)\<rparr>) w2 = (Inr u2, w3)"
    and f: "follow_up n ty w3 = (Inr u, w')"
    by (elim exE conjE)
  obtain cb where cb: "mem w1 = mem w" "ValidateCallback cb = Inr ()" "cb_EventID cb = k" "cb_EventType cb = ty"
    "body = marshal_callback cb" "SnapshotFromCallback cb = snapshotFrom n"
    using marshalCallback_Inr [OF m] .
  from InsertOutbound_Inr [OF o] obtain t where "subs w3 = subs w2" "event_of w2 k = None"
    "event_of w3 = (event_of w2)(k \<mapsto> (ty, s_SubscriptionRef n, s_CheckoutID n, s_StateVersion n, marshal_callback cb, t))"
    by (auto simp: cb(5))
  with cb s f show ?thesis by (intro that [of w1 cb k w2 w3 t]) simp_all
qed

lemma event_of_mem: "mem w' = mem w \<Longrightarrow> event_of w' = event_of w"
  by (simp add: event_of_def fun_eq_iff)

lemma commit_outbox:
  assumes i: "oinv P c w" and m: "commitChange s n ty w = (Inr u, w')"
    and c: "(s_SubscriptionRef s = [] \<and> s_StateVersion n = 1) \<or>
      (s \<in> c \<and> s_SubscriptionRef n = s_SubscriptionRef s \<and> s_StateVersion n = wrap64 (s_StateVersion s + 1))"
  shows "outbox w' \<and> stored w' n"
proof -
  from commitChange_Inr [OF m] obtain k cb w1 w2 w3 t where w1: "mem w1 = mem w"
    and cb: "ValidateCallback cb = Inr ()" "cb_EventID cb = k" "cb_EventType cb = ty" "SnapshotFromCallback cb = snapshotFrom n"
    and wr: "(if s_SubscriptionRef s = [] then InsertSubscription n else UpdateSubscription n) w1 = (Inr (), w2)"
    and w3: "subs w3 = subs w2" "event_of w2 k = None"
      "event_of w3 = (event_of w2)(k \<mapsto> (ty, s_SubscriptionRef n, s_CheckoutID n, s_StateVersion n, marshal_callback cb, t))"
    and f: "follow_up n ty w3 = (Inr u, w')" .
  have ob: "outbox w1" and at: "s \<in> c \<Longrightarrow> stored w1 s"
    using i outbox_cong(1,3) [of w1 w] event_of_mem [OF w1] w1 by (simp_all add: oinv_def)
  have rn: "s_SubscriptionRef n \<noteq> []" using valid_snapshot(3) [OF cb(1,4)] .
  have "\<exists>cr up. map_of (subs w2) = (map_of (subs w1))(s_SubscriptionRef n \<mapsto> n\<lparr>s_CreatedAt := cr, s_UpdatedAt := up\<rparr>)
      \<and> event_of w2 = event_of w1 \<and>
      ((map_of (subs w1) (s_SubscriptionRef n) = None \<and> s_StateVersion n = 1)
       \<or> (\<exists>s. map_of (subs w1) (s_SubscriptionRef n) = Some s \<and> s_SubscriptionRef s = s_SubscriptionRef n
            \<and> s_StateVersion n = wrap64 (s_StateVersion s + 1)))"
  proof (cases "s_SubscriptionRef s = []")
    case True
    with c rn have v: "s_StateVersion n = 1" by auto
    from True wr have "map_of (subs w1) (s_SubscriptionRef n) = None"
      and w2: "set_subs (AList.update (s_SubscriptionRef n) (n\<lparr>s_CreatedAt := Now w1, s_UpdatedAt := Now w1\<rparr>) (subs w1)) w1 = w2"
      by (simp_all add: InsertSubscription_def split: if_split_asm)
    with v write_sub_Inr [OF w2] show ?thesis by blast
  next
    case False
    with c have s: "s \<in> c" "s_SubscriptionRef n = s_SubscriptionRef s" "s_StateVersion n = wrap64 (s_StateVersion s + 1)"
      by auto
    from at [OF s(1)] obtain v u where u: "map_of (subs w1) (s_SubscriptionRef s) = Some (s\<lparr>s_CreatedAt := v, s_UpdatedAt := u\<rparr>)"
      by (auto simp: stored_def)
    have "n\<lparr>s_UpdatedAt := Now w1\<rparr> = n\<lparr>s_CreatedAt := s_CreatedAt n, s_UpdatedAt := Now w1\<rparr>" by simp
    moreover from wr False have
      w2: "set_subs (AList.update (s_SubscriptionRef n) (n\<lparr>s_UpdatedAt := Now w1\<rparr>) (subs w1)) w1 = w2"
      by (simp add: UpdateSubscription_def split: if_split_asm)
    moreover have "s_SubscriptionRef (s\<lparr>s_CreatedAt := v, s_UpdatedAt := u\<rparr>) = s_SubscriptionRef n
        \<and> s_StateVersion n = wrap64 (s_StateVersion (s\<lparr>s_CreatedAt := v, s_UpdatedAt := u\<rparr>) + 1)"
      using s(2,3) by simp
    ultimately show ?thesis using write_sub_Inr [OF w2] u s(2) by metis
  qed
  then obtain cr up where s2: "map_of (subs w2) = (map_of (subs w1))(s_SubscriptionRef n \<mapsto> n\<lparr>s_CreatedAt := cr, s_UpdatedAt := up\<rparr>)"
    and e2: "event_of w2 = event_of w1"
    and prev: "(map_of (subs w1) (s_SubscriptionRef n) = None \<and> s_StateVersion n = 1)
       \<or> (\<exists>s. map_of (subs w1) (s_SubscriptionRef n) = Some s \<and> s_SubscriptionRef s = s_SubscriptionRef n
            \<and> s_StateVersion n = wrap64 (s_StateVersion s + 1))" by blast
  have o3: "outbox w3"
    by (rule outbox_extend [where w = w1 and n = n and k = k, OF ob _ refl w3(3) [unfolded e2] _ cb prev])
      (use s2 w3 e2 in simp_all)
  have st3: "stored w3 n" using s2 w3(1) by (auto simp: stored_def)
  have "subs w' = subs w3 \<and> outbound w' = outbound w3"
    using quiet_follow_up [of n ty, unfolded quiet_def, rule_format, of "\<lambda>a b. a = subs w3 \<and> b = outbound w3"] f
    by (auto dest: keepsT_D)
  with o3 st3 outbox_cong(1,3) [of w' w3] show ?thesis by (auto simp: event_of_def fun_eq_iff)
qed

lemma stored_pinned: "stored w s \<Longrightarrow> pinned w (PinSub (s_SubscriptionRef s) (bind_sub s))"
  by (auto simp: stored_def pinned_def bind_sub_def)

lemma commit_trip:
  assumes c: "(s_SubscriptionRef s = [] \<and> s_StateVersion n = 1) \<or>
      (s \<in> c \<and> s_SubscriptionRef n = s_SubscriptionRef s \<and> bind_sub n = bind_sub s
        \<and> s_StateVersion n = wrap64 (s_StateVersion s + 1))"
  shows "tripT (oinv P c) (commitChange s n ty) (\<lambda>_. oinv P {n})"
proof (rule tripT_I)
  fix w u w' assume *: "oinv P c w" "commitChange s n ty w = (Inr u, w')"
  have o: "outbox w' \<and> stored w' n" by (rule commit_outbox [OF *]) (use c in auto)
  define Q where "Q = (if s_SubscriptionRef s = [] then P else insert (PinSub (s_SubscriptionRef n) (bind_sub n)) P)"
  have "winv Q w" using *(1) c stored_pinned [of w s] by (auto simp: Q_def oinv_def inv_insert)
  moreover have "keepsT (winv Q) (commitChange s n ty)" by (rule keepsT_commitChange) (auto simp: Q_def)
  ultimately have "winv Q w'" using *(2) by (blast dest: keepsT_D)
  then have "winv P w'" by (simp add: Q_def inv_insert split: if_split_asm)
  with o show "oinv P {n} w'" by (simp add: oinv_def)
qed

lemma commit_new [trip]:
  "s_StateVersion n = 1 \<Longrightarrow> tripT (oinv P c) (commitChange zero_subscription n ty) (\<lambda>_. oinv P {n})"
  by (rule commit_trip) (simp add: zero_subscription_def)

lemma commit_decision:
  assumes "s \<in> c" and "Decide s obs now = Inr d" and "\<not> d_Noop d"
  shows "tripT (oinv P c) (commitChange s (d_Next d) (d_EventType d)) (\<lambda>_. oinv P {d_Next d})"
proof (rule commit_trip, rule disjI2, intro conjI)
  show "s_SubscriptionRef (d_Next d) = s_SubscriptionRef s" "bind_sub (d_Next d) = bind_sub s"
    using same_identity_pin [OF Decide_identity [OF assms(2,3)]] by simp_all
  show "s_StateVersion (d_Next d) = wrap64 (s_StateVersion s + 1)"
    using Decide_extends [OF assms(2,3)] by (simp add: extends_candidate_def)
qed (rule assms(1))

lemma decide_commit_trip [trip]:
  assumes "s \<in> c"
  shows "tripT (oinv P c) (decide_commit s obs now) (\<lambda>s'. oinv P {s'})"
  unfolding decide_commit_def
proof (rule tripT_lift, rule tripT_if)
  fix d assume d: "Decide s obs now = Inr d"
  show "tripT (oinv P c) (retT s) (\<lambda>s'. oinv P {s'})"
    by (rule tripT_ret) (erule oinv_mono; use assms in simp)
  assume "\<not> d_Noop d"
  then show "tripT (oinv P c) (thenT (commitChange s (d_Next d) (d_EventType d)) (retT (d_Next d))) (\<lambda>s'. oinv P {s'})"
    by (intro tripT_then [OF commit_decision [OF assms d]] tripT_ret)
qed

text \<open>Writing a row back with what the wire shows unchanged.\<close>

lemma snapshot_fields:
  "snapshotFrom s' = snapshotFrom s \<Longrightarrow> s_SubscriptionRef s' = s_SubscriptionRef s \<and> s_StateVersion s' = s_StateVersion s
     \<and> s_CheckoutID s' = s_CheckoutID s"
  by (simp add: snapshotFrom_def)

lemma snapshot_stamps [simp]: "snapshotFrom (s\<lparr>s_CreatedAt := x, s_UpdatedAt := y\<rparr>) = snapshotFrom s"
  "snapshotFrom (s\<lparr>s_UpdatedAt := y\<rparr>) = snapshotFrom s" "snapshotFrom (s\<lparr>s_CreatedAt := x\<rparr>) = snapshotFrom s"
  by (simp_all add: snapshotFrom_def)

lemma reported_snapshot:
  assumes "snapshotFrom s' = snapshotFrom s" and "event_of w' = event_of w"
  shows "reported w' s' = reported w s"
  using assms snapshot_fields [OF assms(1)] by (simp add: reported_def reports_def)

lemma update_trip:
  assumes s: "s \<in> c" and snap: "snapshotFrom s' = snapshotFrom s" and b: "bind_sub s' = bind_sub s"
  shows "tripT (oinv P c) (UpdateSubscription s') (\<lambda>_. oinv P {s'})"
proof (rule tripT_I)
  fix w u w' assume *: "oinv P c w" "UpdateSubscription s' w = (Inr u, w')"
  have st: "stored w s" and ob: "outbox w" and wi: "winv P w" using *(1) s by (simp_all add: oinv_def)
  note f = snapshot_fields [OF snap]
  from st obtain cr t where r: "map_of (subs w) (s_SubscriptionRef s') = Some (s\<lparr>s_CreatedAt := cr, s_UpdatedAt := t\<rparr>)"
    using f by (auto simp: stored_def)
  from *(2) r have w': "set_subs (AList.update (s_SubscriptionRef s') (s'\<lparr>s_UpdatedAt := Now w\<rparr>) (subs w)) w = w'"
    by (simp add: UpdateSubscription_def)
  note ww = write_sub_Inr [OF w']
  have "outbox w'"
    unfolding outbox_def ww
  proof (intro conjI allI impI)
    fix k ty q co v b t assume "event_of w k = Some (ty, q, co, v, b, t)"
    with ob obtain x where x: "map_of (subs w) q = Some x" "1 \<le> v" "v \<le> s_StateVersion x" unfolding outbox_def by blast
    then show "\<exists>s. ((map_of (subs w))(s_SubscriptionRef s' \<mapsto> s'\<lparr>s_UpdatedAt := Now w\<rparr>)) q = Some s \<and> 1 \<le> v \<and> v \<le> s_StateVersion s"
      using r f by (cases "q = s_SubscriptionRef s'") auto
  next
    fix q x assume x: "((map_of (subs w))(s_SubscriptionRef s' \<mapsto> s'\<lparr>s_UpdatedAt := Now w\<rparr>)) q = Some x"
    show "reported w' x"
    proof (cases "q = s_SubscriptionRef s'")
      case True
      have "reported w (s\<lparr>s_CreatedAt := cr, s_UpdatedAt := t\<rparr>)" using ob r by (simp add: outbox_def)
      moreover have "snapshotFrom x = snapshotFrom (s\<lparr>s_CreatedAt := cr, s_UpdatedAt := t\<rparr>)"
        using x True snap by auto
      ultimately show ?thesis using reported_snapshot [OF _ ww(2)] by blast
    next
      case False
      with x ob have "reported w x" by (simp add: outbox_def)
      then show ?thesis using outbox_cong(2) [OF ww(2)] by simp
    qed
  qed
  moreover have "stored w' s'"
    unfolding stored_def ww by (rule exI [of _ "s_CreatedAt s'"], rule exI [of _ "Now w"]) simp
  moreover have "winv P w'"
  proof -
    have "keepsT (winv (insert (PinSub (s_SubscriptionRef s') (bind_sub s')) P)) (UpdateSubscription s')"
      by (rule keepsT_UpdateSubscription) simp
    moreover have "winv (insert (PinSub (s_SubscriptionRef s') (bind_sub s')) P) w"
      using wi stored_pinned [OF st] f b by (simp add: inv_insert)
    ultimately show ?thesis using *(2) by (auto simp: inv_insert dest: keepsT_D)
  qed
  ultimately show "oinv P {s'} w'" by (simp add: oinv_def)
qed

section \<open>The operations of the engine\<close>

lemma trip_attempt:
  assumes "tripT A m B" and "\<And>w e w'. A w \<Longrightarrow> m w = (Inl e, w') \<Longrightarrow> A w'"
  shows "tripT A (attemptT m) (\<lambda>r. case r of Inl _ \<Rightarrow> A | Inr x \<Rightarrow> B x)"
proof (rule tripT_I)
  fix w r w' assume *: "A w" "attemptT m w = (Inr r, w')"
  then have m: "m w = (r, w')" by (cases "m w") simp
  show "(case r of Inl _ \<Rightarrow> A | Inr x \<Rightarrow> B x) w'"
    using assms(2) [OF *(1)] tripT_D [OF assms(1) *(1)] m by (cases r) auto
qed

lemma pure_read_snd: "pure_read m \<Longrightarrow> m w = (r, w') \<Longrightarrow> w' = w"
  unfolding pure_read_def by (metis snd_conv)

lemma trip_attempt_read:
  assumes "pure_read m" and "tripT (oinv P c) m (\<lambda>s. oinv P (insert s c))"
  shows "tripT (oinv P c) (attemptT m) (\<lambda>r. oinv P (case r of Inl _ \<Rightarrow> c | Inr s \<Rightarrow> insert s c))"
  by (rule tripT_post [OF trip_attempt [OF assms(2)]])
    (use pure_read_snd [OF assms(1)] in \<open>auto split: sum.splits\<close>)

lemma or_zero_trip:
  assumes "pure_read m" and "tripT (oinv P c) m (\<lambda>s. oinv P (insert s c))"
  shows "tripT (oinv P c) (or_zero m) (\<lambda>s. oinv P (if s_SubscriptionRef s = [] then c else insert s c))"
  unfolding or_zero_def
proof (rule tripT_bind [OF trip_attempt_read [OF assms]], rule tripT_sum)
  fix r :: "gerr + subscription" and e assume "r = Inl e"
  then show "tripT (oinv P (case r of Inl _ \<Rightarrow> c | Inr s \<Rightarrow> insert s c)) (retT zero_subscription)
      (\<lambda>s. oinv P (if s_SubscriptionRef s = [] then c else insert s c))"
    by (intro tripT_ret) (simp add: zero_subscription_def)
next
  fix r :: "gerr + subscription" and s assume "r = Inr s"
  then show "tripT (oinv P (case r of Inl _ \<Rightarrow> c | Inr s \<Rightarrow> insert s c)) (retT s)
      (\<lambda>s. oinv P (if s_SubscriptionRef s = [] then c else insert s c))"
    by (intro tripT_ret) (auto elim: oinv_mono split: if_splits)
qed

lemma read_attempt [trip]:
  "tripT (oinv P c) (GetAttempt i) (\<lambda>a. oinv (insert (PinAttempt (t_AttemptID a) (bind_attempt a)) P) c)"
  by (rule tripT_I) (auto simp: GetAttempt_def lookup_row_def pinned_def dest: store_ok_keys(7) [OF oinv_ok]
      split: option.splits intro!: oinv_pinned)

lemma found_attempt:
  assumes "store_ok w" and "find p (vals (attempts w)) = Some a"
  shows "pinned w (PinAttempt (t_AttemptID a) (bind_attempt a))"
proof -
  have "a \<in> set (vals (attempts w))" using assms(2) by (metis find_Some_iff nth_mem)
  from store_ok_members(2) [OF assms(1) this] show ?thesis by (simp add: pinned_def)
qed

lemma read_attempt_ref:
  "tripT (oinv P c) (attemptT (GetAttemptByReference i)) (\<lambda>r. case r of Inl _ \<Rightarrow> oinv P c
     | Inr a \<Rightarrow> oinv (insert (PinAttempt (t_AttemptID a) (bind_attempt a)) P) c)"
proof (rule trip_attempt)
  show "tripT (oinv P c) (GetAttemptByReference i) (\<lambda>a. oinv (insert (PinAttempt (t_AttemptID a) (bind_attempt a)) P) c)"
    by (rule tripT_I) (auto simp: GetAttemptByReference_def scan_row_def split: option.splits
        intro!: oinv_pinned found_attempt dest: oinv_ok)
qed (simp add: GetAttemptByReference_def scan_row_def)

lemma read_checkout [trip]:
  "tripT (oinv P c) (GetCheckoutForUpdate i) (\<lambda>a. oinv (insert (PinCheckout (c_CheckoutID a) (bind_checkout a)) P) c)"
  by (rule tripT_I) (auto simp: GetCheckoutForUpdate_def GetCheckout_def lookup_row_def pinned_def
      dest: store_ok_keys(1) [OF oinv_ok] split: option.splits intro!: oinv_pinned)

text \<open>Operations that touch neither table, as triples.\<close>

lemma trip_quiet_ops [trip]:
  "tripT (oinv P c) newUUID (\<lambda>_. oinv P c)" "tripT (oinv P c) (NewOpaqueID p) (\<lambda>_. oinv P c)"
  "tripT (oinv P c) NewSubscriptionRef (\<lambda>_. oinv P c)" "tripT (oinv P c) nowT (\<lambda>_. oinv P c)"
  "tripT (oinv P c) (InsertAudit u) (\<lambda>_. oinv P c)" "tripT (oinv P c) (insertActionOnce a) (\<lambda>_. oinv P c)"
  "tripT (oinv P c) (ForceFinishAction i st due ec) (\<lambda>_. oinv P c)"
  "tripT (oinv P c) (FinishAction i t n st due ec) (\<lambda>_. oinv P c)"
  "tripT (oinv P c) (FinishProcessorEvent f i t n st ro now) (\<lambda>_. oinv P c)"
  "tripT (oinv P c) (ReleaseProcessorLease i t n) (\<lambda>_. oinv P c)"
  "tripT (oinv P c) (GetProcessorEvent f i) (\<lambda>_. oinv P c)"
  unfolding NewSubscriptionRef_def
  by (rule trip_quiet; intro quietI keeps mem_only_inv quiet_I)+

lemma trip_update_checkout [trip]:
  "PinCheckout (c_CheckoutID co) (bind_checkout co) \<in> P \<Longrightarrow> tripT (oinv P c) (UpdateCheckout co) (\<lambda>_. oinv P c)"
  by (rule trip_quiet) (intro quietI keeps; assumption)+

lemma trip_update_attempt [trip]:
  "PinAttempt (t_AttemptID a) (bind_attempt a) \<in> P \<Longrightarrow> tripT (oinv P c) (UpdateAttempt a) (\<lambda>_. oinv P c)"
  by (rule trip_quiet) (intro quietI keeps; assumption)+

lemma trip_complete_checkout [trip]:
  "PinCheckout (c_CheckoutID co) (bind_checkout co) \<in> P \<Longrightarrow> tripT (oinv P c) (complete_checkout co ref) (\<lambda>_. oinv P c)"
  unfolding complete_checkout_def by (rule trip_update_checkout) (simp add: bind_checkout_def)

lemma FirstActivation_version [simp]: "s_StateVersion (FirstActivation co r st a b n pc ps ip sh) = 1"
  by (simp add: FirstActivation_def)

lemma trip_Seal [trip]: "tripT (oinv P c) (Seal b pt aad) (\<lambda>_. oinv P c)"
  by (rule trip_quiet_any, erule mem_only_keeps, erule Seal_mem)

lemma trip_assign [trip]: "tripT (oinv P c) (assignStoredPaymentMethod eng s ref ev)
    (\<lambda>s' w. oinv P c w \<and> snapshotFrom s' = snapshotFrom s \<and> bind_sub s' = bind_sub s)"
  unfolding assignStoredPaymentMethod_def
  by (intro tripT_option tripT_if tripT_ret tripT_bind [OF trip_Seal] tripT_prod)
    (simp_all add: snapshotFrom_def bind_sub_def)

lemma tripT_fact: "(b \<Longrightarrow> tripT A m B) \<Longrightarrow> tripT (\<lambda>w. A w \<and> b) m B"
  by (simp add: tripT_def)

lemma trip_replace [trip]: "tripT (oinv P c) (replaceStoredPaymentMethod eng ref ev now) (\<lambda>_. oinv P {})"
  unfolding replaceStoredPaymentMethod_def Let_def
  by (intro tripT_if tripT_ret tripT_bind [OF read_subscription(2)] tripT_bind [OF trip_assign] tripT_fact
      tripT_then [OF update_trip] tripT_bind [OF trip_quiet_ops(1)] tripT_then [OF trip_quiet_ops(5)])
    (auto simp: snapshotFrom_def bind_sub_def)

lemma trip_done: "P \<subseteq> Q \<Longrightarrow> tripT (oinv Q c) (retT x) (\<lambda>_. oinv P {})"
  by (rule tripT_ret) (erule oinv_mono, simp_all)

lemma trip_weak: "tripT (oinv Q c) m (\<lambda>_. oinv Q d) \<Longrightarrow> P \<subseteq> Q \<Longrightarrow> tripT (oinv Q c) m (\<lambda>_. oinv P {})"
  by (erule tripT_post) (erule oinv_mono, simp_all)

lemma trip_applyStripe [trip]: "tripT (oinv P c) (applyStripe eng ev st now) (\<lambda>_. oinv P {})"
proof (cases st)
  case None
  then show ?thesis by (simp add: applyStripe_def trip_done)
next
  case (Some st)
  let ?c = "\<lambda>d s. if s_SubscriptionRef s = [] then d else insert s d"
  have lookup: "tripT (oinv P d) (if b then or_zero (GetSubscriptionByProcessor f i) else retT s)
      (\<lambda>s. oinv P (?c d s))" if "s_SubscriptionRef s = [] \<or> s \<in> d" for d b f i s
    by (intro tripT_if or_zero_trip pure_reads read_subscription tripT_ret) (use that in \<open>auto elim: oinv_mono\<close>)
  have lookup2: "tripT (oinv P d) (if b then or_zero (GetSubscriptionByCheckout i) else retT s)
      (\<lambda>s. oinv P (?c d s))" if "s_SubscriptionRef s = [] \<or> s \<in> d" for d b i s
    by (intro tripT_if or_zero_trip pure_reads read_subscription tripT_ret) (use that in \<open>auto elim: oinv_mono\<close>)
  show ?thesis
    unfolding applyStripe_def Some option.case Let_def
    by (intro tripT_bind [OF lookup] tripT_bind [OF lookup2] tripT_if tripT_option trip_done pins
        tripT_bind [OF read_checkout] tripT_bind [OF trip_quiet_ops(3)] tripT_then [OF commit_new]
        tripT_then [OF trip_complete_checkout] tripT_bind [OF decide_commit_trip])
      (simp_all add: zero_subscription_def)
qed

lemma trip_applyAdyenInitial [trip]: "tripT (oinv P c) (applyAdyenInitial eng ev now) (\<lambda>_. oinv P {})"
  unfolding applyAdyenInitial_def Let_def
  by (intro tripT_if tripT_option trip_done pins tripT_bind [OF read_checkout] tripT_bind [OF trip_replace]
      tripT_bind [OF trip_quiet_ops(3)] tripT_bind [OF trip_assign] tripT_fact tripT_then [OF commit_new]
      tripT_then [OF trip_complete_checkout]) (auto dest!: snapshot_fields)

lemma trip_reschedule [trip]:
  "tripT (oinv P c) (rescheduleOrExpireAfterRefusal eng att s now) (\<lambda>_. oinv P c)"
  unfolding rescheduleOrExpireAfterRefusal_def Let_def
  by (intro tripT_if tripT_then [OF trip_quiet_ops(7)] tripT_bind [OF trip_quiet_ops(1)] trip_quiet_ops tripT_err)

lemma finish_attempt_bind [simp]: "t_AttemptID (finish_attempt a p n) = t_AttemptID a" "bind_attempt (finish_attempt a p n) = bind_attempt a"
  by (simp_all add: finish_attempt_def bind_attempt_def Let_def)

lemma bind_attempt_ref:
  assumes "\<And>e. tripT (oinv P c) (g e) B"
    and "\<And>a. tripT (oinv (insert (PinAttempt (t_AttemptID a) (bind_attempt a)) P) c) (f a) B"
  shows "tripT (oinv P c) (bindT (attemptT (GetAttemptByReference i)) (\<lambda>r. case r of Inl e \<Rightarrow> g e | Inr a \<Rightarrow> f a)) B"
  by (rule tripT_bind [OF read_attempt_ref]) (auto split: sum.split intro: assms)

lemma trip_refused:
  assumes "PinAttempt (t_AttemptID a) (bind_attempt a) \<in> P" and "s \<in> c"
  shows "tripT (oinv P c) (thenT (UpdateAttempt a) (bindT (decide_commit s ob now) (\<lambda>s'.
      thenT (rescheduleOrExpireAfterRefusal eng a s' now) (retT (f s'))))) (\<lambda>_. oinv P {})"
  by (intro tripT_then [OF trip_update_attempt] tripT_bind [OF decide_commit_trip] tripT_then [OF trip_reschedule]
      trip_done pins assms)

lemma trip_applyAdyenRenewal [trip]: "tripT (oinv P c) (applyAdyenRenewal eng ev now) (\<lambda>_. oinv P {})"
  unfolding applyAdyenRenewal_def Let_def
  by (intro tripT_if trip_done pins bind_attempt_ref tripT_bind [OF read_subscription(1)] tripT_bind [OF read_subscription(2)]
      trip_weak [OF trip_refused] tripT_then [OF trip_update_attempt] tripT_then [OF trip_quiet_ops(7)]
      tripT_bind [OF decide_commit_trip]) (auto simp: bind_attempt_def finish_attempt_def Let_def)

lemma trip_applyAdyenContract [trip]: "tripT (oinv P c) (applyAdyenContract ev now) (\<lambda>_. oinv P {})"
  unfolding applyAdyenContract_def Let_def
  by (intro tripT_if trip_done pins tripT_bind [OF trip_attempt_read] pure_reads pure_read_charge read_subscription
      tripT_option tripT_bind [OF decide_commit_trip])
    (auto split: sum.splits if_splits)

lemma trip_applyObservation [trip]: "tripT (oinv P c) (applyObservation eng ev st now) (\<lambda>_. oinv P {})"
  unfolding applyObservation_def by (intro tripT_if trip trip_done pins)

lemma trip_settle: "tripT (oinv P c) (settle_event ev key lease cur st subRef now) (\<lambda>_. oinv P c)"
  unfolding settle_event_def by (intro tripT_then [OF trip_quiet_ops(9)] trip_quiet_ops)

lemma trip_apply_claimed [trip]: "tripT (oinv P c) (apply_claimed eng ev st key lease now) (\<lambda>_. oinv P {})"
  unfolding apply_claimed_def
  by (intro tripT_bind [OF trip_quiet_ops(11)] tripT_if trip_done pins tripT_bind [OF trip_applyObservation] tripT_prod trip_settle)

lemma trip_decide_only:
  "tripT (oinv P c) (bindT (GetSubscriptionForUpdate ref) (\<lambda>s. bindT (decide_commit s obs now) (\<lambda>_. retT ()))) (\<lambda>_. oinv P {})"
  by (intro tripT_bind [OF read_subscription(2)] tripT_bind [OF decide_commit_trip] trip_done pins) simp

lemma trip_Block [trip]:
  assumes "s \<in> c"
  shows "tripT (oinv P c) (BlockAutomaticCharging s reason now) (\<lambda>_. oinv P {})"
proof -
  have "tripT (oinv P c) (if s_Status s \<noteq> StatusPastDue then decide_commit s (zero_observation\<lparr>ob_Status := StatusPastDue\<rparr>) now
      else retT s) (\<lambda>s'. oinv P {s'})"
    by (intro tripT_if decide_commit_trip assms tripT_ret) (auto elim!: oinv_mono simp: assms)
  moreover have "tripT (oinv P {s'}) (UpdateSubscription (s'\<lparr>s_AutomaticChargingBlocked := True,
      s_ChargingBlockReason := Some reason\<rparr>)) (\<lambda>_. oinv P {})" for s'
    by (rule tripT_post [OF update_trip [of s']]) (auto simp: snapshotFrom_def bind_sub_def)
  ultimately show ?thesis unfolding BlockAutomaticCharging_def by (rule tripT_bind)
qed

lemma trip_resolved_authorized:
  assumes "s \<in> c"
  shows "tripT (oinv P c)
     (bindT (liftT (Decide (s\<lparr>s_AutomaticChargingBlocked := False, s_ChargingBlockReason := None\<rparr>) ob now)) (\<lambda>dec.
        if d_Noop dec then UpdateSubscription (s\<lparr>s_AutomaticChargingBlocked := False, s_ChargingBlockReason := None\<rparr>)
        else commitChange (s\<lparr>s_AutomaticChargingBlocked := False, s_ChargingBlockReason := None\<rparr>)
               (d_Next dec) (d_EventType dec))) (\<lambda>_. oinv P {})"
proof (rule tripT_lift, rule tripT_if)
  let ?s = "s\<lparr>s_AutomaticChargingBlocked := False, s_ChargingBlockReason := None\<rparr>"
  fix d assume d: "Decide ?s ob now = Inr d"
  show "tripT (oinv P c) (UpdateSubscription ?s) (\<lambda>_. oinv P {})"
    by (rule tripT_post [OF update_trip [OF assms]]) (auto simp: snapshotFrom_def bind_sub_def)
  assume n: "\<not> d_Noop d"
  have "tripT (oinv P c) (commitChange ?s (d_Next d) (d_EventType d)) (\<lambda>_. oinv P {d_Next d})"
  proof (rule tripT_I)
    fix w u w' assume *: "oinv P c w" "commitChange ?s (d_Next d) (d_EventType d) w = (Inr u, w')"
    note id = same_identity_pin [OF Decide_identity [OF d n]]
    have v: "s_StateVersion (d_Next d) = wrap64 (s_StateVersion s + 1)"
      using Decide_extends [OF d n] by (simp add: extends_candidate_def)
    have "commitChange s (d_Next d) (d_EventType d) w = (Inr u, w')"
      using *(2) by (simp add: commitChange_def)
    moreover have "tripT (oinv P c) (commitChange s (d_Next d) (d_EventType d)) (\<lambda>_. oinv P {d_Next d})"
      by (rule commit_trip) (use assms id v in \<open>simp add: bind_sub_def\<close>)
    ultimately show "oinv P {d_Next d} w'" using *(1) by (blast dest: tripT_D)
  qed
  then show "tripT (oinv P c) (commitChange ?s (d_Next d) (d_EventType d)) (\<lambda>_. oinv P {})"
    by (rule tripT_post) (erule oinv_weak, rule subset_refl)
qed

section \<open>Operations outside transactions\<close>

text \<open>
  \<open>safeT I m\<close>: whatever \<open>m\<close> returns, short of a panic, \<open>I\<close> still holds.  A failed transaction is rolled
  back, so an operation made of transactions is safe when each of them keeps \<open>I\<close> when it succeeds.
\<close>

named_theorems safe \<open>invariant preservation including failures\<close>

definition safeT :: "(world \<Rightarrow> bool) \<Rightarrow> (world, 'a) tx \<Rightarrow> bool" where
  "safeT I m \<longleftrightarrow> (\<forall>w r w'. I w \<longrightarrow> m w = (r, w') \<longrightarrow> r \<noteq> Inl ErrPanic \<longrightarrow> I w')"

lemma safeT_D: "safeT I m \<Longrightarrow> I w \<Longrightarrow> m w = (r, w') \<Longrightarrow> r \<noteq> Inl ErrPanic \<Longrightarrow> I w'"
  unfolding safeT_def by blast

lemma safe_simple [safe]: "safeT I (retT x)" "safeT I (errT e)" "safeT I (liftT r)" "safeT I (readT f)" "safeT I (guardT b e)"
  by (auto simp: safeT_def)

lemma safe_bind [safe]:
  assumes "safeT I m" and "\<And>x. safeT I (f x)"
  shows "safeT I (bindT m f)"
  unfolding safeT_def
proof (intro allI impI)
  fix w r w' assume *: "I w" "bindT m f w = (r, w')" "r \<noteq> Inl ErrPanic"
  obtain q u where m: "m w = (q, u)" by fastforce
  show "I w'"
  proof (cases q)
    case (Inl e)
    with m *(2) have "r = Inl e" "w' = u" by simp_all
    with Inl m *(3) show ?thesis using safeT_D [OF assms(1) *(1), of q u] by simp
  next
    case (Inr x)
    with m have "m w = (Inr x, u)" by simp
    with safeT_D [OF assms(1) *(1) this] have "I u" by simp
    moreover have "f x u = (r, w')" using * \<open>m w = (Inr x, u)\<close> by simp
    ultimately show ?thesis using safeT_D [OF assms(2)] *(3) by blast
  qed
qed

lemma safe_then [safe]: "safeT I m \<Longrightarrow> safeT I n \<Longrightarrow> safeT I (thenT m n)"
  unfolding thenT_def by (rule safe_bind)

lemma safe_if [safe]: "(b \<Longrightarrow> safeT I m) \<Longrightarrow> (\<not> b \<Longrightarrow> safeT I n) \<Longrightarrow> safeT I (if b then m else n)"
  by simp

lemma safe_prod [safe]: "(\<And>x y. safeT I (f x y)) \<Longrightarrow> safeT I (case p of (x, y) \<Rightarrow> f x y)"
  by (cases p) simp

lemma safe_option [safe]: "safeT I m \<Longrightarrow> (\<And>x. safeT I (f x)) \<Longrightarrow> safeT I (case r of None \<Rightarrow> m | Some x \<Rightarrow> f x)"
  by (cases r) simp_all

lemma safe_sum [safe]: "(\<And>e. safeT I (g e)) \<Longrightarrow> (\<And>x. safeT I (f x)) \<Longrightarrow> safeT I (case r of Inl e \<Rightarrow> g e | Inr x \<Rightarrow> f x)"
  by (cases r) simp_all

lemma safe_attempt [safe]:
  "safeT I m \<Longrightarrow> (\<And>w w'. m w \<noteq> (Inl ErrPanic, w')) \<Longrightarrow> safeT I (attemptT m)"
  unfolding safeT_def by (auto simp: split_beta) (metis prod.collapse)

lemma safe_mem_only: "mem_only I \<Longrightarrow> (\<And>w r w'. m w = (r, w') \<Longrightarrow> mem w' = mem w \<and> clk w' = clk w) \<Longrightarrow> safeT I m"
  unfolding safeT_def by (blast intro: mem_onlyD)

lemma mem_only_oinv [simp]: "mem_only (oinv P c)"
proof -
  have "oinv P c w' = oinv P c w" if m: "mem w' = mem w" for w w'
  proof -
    have "winv P w' = winv P w" using mem_only_inv [of P] m unfolding mem_only_def by blast
    moreover have "subs w' = subs w" by (rule arg_cong [OF m])
    ultimately show ?thesis unfolding oinv_def
      using outbox_cong(1) [OF _ event_of_mem [OF m]] outbox_cong(3) by blast
  qed
  then show ?thesis unfolding mem_only_def by blast
qed

lemma oinv_schema: "oinv P c (w'\<lparr>mem := (mem w)\<lparr>m_schema := v\<rparr>\<rparr>) = oinv P c w"
proof -
  let ?w = "w'\<lparr>mem := (mem w)\<lparr>m_schema := v\<rparr>\<rparr>"
  have "subs ?w = subs w" "event_of ?w = event_of w" by (simp_all add: event_of_def fun_eq_iff)
  then show ?thesis using outbox_cong(1,3) [of ?w w] by (simp add: oinv_def winv_schema)
qed

lemma safe_InTx [safe]:
  assumes "tripT (oinv P c) m (\<lambda>_. oinv P c)"
  shows "safeT (oinv P c) (InTx m)"
proof (unfold safeT_def, intro allI impI)
  fix w r w' assume *: "oinv P c w" "InTx m w = (r, w')" "r \<noteq> Inl ErrPanic"
  show "oinv P c w'"
  proof (cases "m w")
    case (Pair q u)
    show ?thesis
    proof (cases q)
      case (Inl e)
      with Pair *(2,3) have "w' = u\<lparr>mem := (mem w)\<lparr>m_schema := m_schema (mem u)\<rparr>\<rparr>"
        by (auto simp: InTx_def split: if_split_asm)
      with *(1) oinv_schema show ?thesis by simp
    next
      case (Inr x)
      with Pair *(1,2) tripT_D [OF assms, of w x u] show ?thesis by (auto simp: InTx_def)
    qed
  qed
qed

lemma safe_reads [safe]: "safeT I nowT" "safeT (oinv P c) newUUID" "safeT (oinv P c) (Seal b pt aad)"
  unfolding nowT_def
  by (rule safe_simple, (rule safe_mem_only [OF mem_only_oinv]; erule newUUID_mem Seal_mem)+)

lemma trip_processor_events [trip]:
  "tripT (oinv P c) (InsertProcessorEvent row) (\<lambda>_. oinv P c)"
  "tripT (oinv P c) (ClaimProcessorEvent f i k now lease) (\<lambda>_. oinv P c)"
  by (rule trip_quiet; intro quietI keeps)+

lemma safe_CancelAtPeriodEnd [safe]: "safeT (oinv P {}) (CancelAtPeriodEnd ref)"
  unfolding CancelAtPeriodEnd_def by (intro safe trip_decide_only)

lemma safe_ExpireNow [safe]: "safeT (oinv P {}) (ExpireNow ref)"
  unfolding ExpireNow_def by (intro safe trip_decide_only)

lemma safe_ResolveAttempt [safe]: "safeT (oinv P {}) (ResolveAttempt eng i outcome reason actor payID)"
  unfolding ResolveAttempt_def Let_def
  by (intro safe tripT_bind [OF read_attempt] tripT_guard tripT_bind [OF read_subscription(2)]
      tripT_bind [OF trip_quiet_ops(1)] tripT_then [OF trip_quiet_ops(5)] tripT_if
      tripT_then [OF trip_update_attempt] tripT_then [OF trip_quiet_ops(7)] trip_weak [OF trip_resolved_authorized] pins
      tripT_bind [OF decide_commit_trip] trip_weak [OF trip_reschedule] trip_done tripT_err)
    (auto simp: finish_attempt_def bind_attempt_def Let_def)

lemma safe_SweepCheckouts [safe]: "safeT (oinv P {}) SweepCheckouts"
  unfolding SweepCheckouts_def
  by (intro safe tripT_bind [OF trip_quiet_ops(4)] tripT_bind [OF trip_quiet] quietI keeps trip_done pins)

lemma safe_ActivateCheckout [safe]: "safeT (oinv P {}) (ActivateCheckout i)"
  unfolding ActivateCheckout_def Let_def
  by (intro safe tripT_bind [OF read_checkout] tripT_if trip_done pins tripT_bind [OF trip_quiet_ops(3)]
      tripT_then [OF commit_new] tripT_post [OF trip_complete_checkout]) auto

subsection \<open>Delivery leaves what is delivered alone\<close>

text \<open>Claiming, settling, abandoning and requeueing events rewrites no binding and adds no event.\<close>

definition same_events :: "(world, 'a) tx \<Rightarrow> bool" where
  "same_events m \<longleftrightarrow> (\<forall>Q. keepsT (\<lambda>w. store_ok w \<and> Q (subs w) (dom (map_of (outbound w)))) m)"

lemma trip_same_events:
  assumes "\<And>P. keepsT (winv P) m" and "same_events m"
  shows "tripT (oinv P c) m (\<lambda>_. oinv P c)"
proof (rule tripT_I)
  fix w x w' assume *: "oinv P c w" "m w = (Inr x, w')"
  have "store_ok w' \<and> subs w' = subs w \<and> dom (map_of (outbound w')) = dom (map_of (outbound w))"
    by (rule keepsT_D [OF assms(2) [unfolded same_events_def, rule_format,
          of "\<lambda>a b. a = subs w \<and> b = dom (map_of (outbound w))"] _ *(2)]) (use oinv_ok [OF *(1)] in simp)
  then have sd: "subs w' = subs w \<and> dom (map_of (outbound w')) = dom (map_of (outbound w))" by blast
  have wi: "winv P w'" using *(1) keepsT_D [OF assms(1) _ *(2)] by (simp add: oinv_def)
  have "event_of w' k = event_of w k" for k
  proof (cases "event_of w k")
    case None
    then have "k \<notin> dom (map_of (outbound w'))" using sd by (simp add: event_of_def domIff)
    then show ?thesis by (simp add: None) (simp add: event_of_def domIff)
  next
    case (Some b)
    then have "winv {PinOutbound k b} w" using oinv_ok [OF *(1)] by (simp add: winv_def pinned_def event_of_def)
    then have "winv {PinOutbound k b} w'" by (rule keepsT_D [OF assms(1) _ *(2)])
    then have "event_of w' k = Some b" by (simp add: winv_def pinned_def event_of_def)
    then show ?thesis using Some by simp
  qed
  then have "event_of w' = event_of w" ..
  then show "oinv P c w'" using *(1) wi sd outbox_cong(1,3) [of w' w] by (simp add: oinv_def)
qed

lemma keepsT_conj: "keepsT A m \<Longrightarrow> keepsT B m \<Longrightarrow> keepsT (\<lambda>w. A w \<and> B w) m"
  by (rule keepsT_I) (blast dest: keepsT_D)

lemma same_events_I:
  assumes "\<And>Q. keepsT (\<lambda>w. Q (subs w) (dom (map_of (outbound w)))) m" and "keepsT store_ok m"
  shows "same_events m"
  unfolding same_events_def by (intro allI keepsT_conj assms)

lemma winv_empty: "winv {} = store_ok"
  by (simp add: winv_def fun_eq_iff)

lemma put_known:
  "map_of (outbound w) i = Some e \<Longrightarrow> Q (subs w) (dom (map_of (outbound w))) \<Longrightarrow>
   wpT (put_outbound i e') (\<lambda>_ w. Q (subs w) (dom (map_of (outbound w)))) w"
  by (simp add: put_outbound_def wp set_table_defs insert_absorb domI)

lemma same_events_owned:
  "same_events (CompleteOutbound i t n now)" "same_events (RetryOutbound i t n nxt ec)"
  "same_events (DeadLetterOutbound i t n now ec)"
  by (rule same_events_I, unfold CompleteOutbound_def RetryOutbound_def DeadLetterOutbound_def,
      (rule keepsT_ownedOutbound_bind, erule put_known, assumption),
      fold CompleteOutbound_def RetryOutbound_def DeadLetterOutbound_def winv_empty, rule keeps)+

lemma audit_keeps_tables:
  "Q (subs w) (dom (map_of (outbound w))) \<Longrightarrow>
   wpT (bindT mustToken (\<lambda>i. InsertAudit (u i))) (\<lambda>_ w. Q (subs w) (dom (map_of (outbound w)))) w"
  unfolding wpT_bind
  by (rule wpT_mustToken [where I = "\<lambda>w. Q (subs w) (dom (map_of (outbound w)))"])
    (simp_all add: mem_only_def InsertAudit_def wpT_def set_table_defs)

lemma same_events_operator:
  "same_events (AbandonOutbound i r a now)" "same_events (RequeueOutbound i r a now)"
  by (rule same_events_I, unfold AbandonOutbound_def RequeueOutbound_def,
      (rule keepsT_lookup_bind, unfold wpT_then wpT_guard, intro impI, rule wpT_mono, erule put_known, assumption,
        erule audit_keeps_tables),
      fold AbandonOutbound_def RequeueOutbound_def winv_empty, rule keeps)+

lemma claim_subs: "keepsT (\<lambda>v. subs v = S) (ClaimDueOutbound now lease)"
proof (rule keepsT_I)
  fix w e t assume "subs w = S" "ClaimDueOutbound now lease w = (Inr e, t)"
  then show "subs t = S"
    by (auto simp: ClaimDueOutbound_def Let_def set_table_defs dest!: newToken_mem
        split: option.splits prod.splits sum.splits)
qed

lemma same_events_claim: "same_events (ClaimDueOutbound now lease)"
  unfolding same_events_def
proof (intro allI keepsT_I)
  fix Q w e w' assume *: "store_ok w \<and> Q (subs w) (dom (map_of (outbound w)))" "ClaimDueOutbound now lease w = (Inr e, w')"
  have i: "winv {} w" using * by (simp add: winv_empty)
  from ClaimDueOutbound_Inr [OF *(2) i] obtain e0 where e0: "map_of (outbound w) (o_EventID e) = Some e0"
    and o: "outbound w' = AList.update (o_EventID e) e (outbound w)" by metis
  have "subs w' = subs w"
    by (rule keepsT_D [OF claim_subs refl *(2)])
  moreover have "dom (map_of (outbound w')) = dom (map_of (outbound w))"
    using e0 by (auto simp: o)
  moreover have "store_ok w'" using keepsT_D [OF keepsT_ClaimDueOutbound i *(2)] by (simp add: winv_empty)
  ultimately show "store_ok w' \<and> Q (subs w') (dom (map_of (outbound w')))" using * by simp
qed

lemma trip_outbound_ops [trip]:
  "tripT (oinv P c) (CompleteOutbound i t n now) (\<lambda>_. oinv P c)"
  "tripT (oinv P c) (RetryOutbound i t n nxt ec) (\<lambda>_. oinv P c)"
  "tripT (oinv P c) (DeadLetterOutbound i t n now ec) (\<lambda>_. oinv P c)"
  "tripT (oinv P c) (AbandonOutbound i r a now) (\<lambda>_. oinv P c)"
  "tripT (oinv P c) (RequeueOutbound i r a now) (\<lambda>_. oinv P c)"
  "tripT (oinv P c) (ClaimDueOutbound now lease) (\<lambda>_. oinv P c)"
  by (rule trip_same_events; intro keeps same_events_owned same_events_operator same_events_claim)+

lemma safe_ReplayLatest [safe]: "safeT (oinv P {}) (ReplayLatest ref reason actor)"
  unfolding ReplayLatest_def Let_def
  by (intro safe tripT_bind [OF tripT_keeps [OF keepsT_LatestOutbound]] tripT_if trip_done pins
      tripT_bind [OF trip_quiet_ops(4)] trip_outbound_ops)

text \<open>Dereferencing a nil pointer panics.\<close>

definition deref :: "string option \<Rightarrow> (world, string) tx" where
  "deref p = (case p of None \<Rightarrow> errT ErrPanic | Some x \<Rightarrow> retT x)"

lemma trip_deref: "tripT (oinv P c) (deref p) (\<lambda>_. oinv P c)"
  unfolding deref_def by (intro tripT_option tripT_err tripT_ret)

text \<open>An error that is inspected: a panic goes on as a panic.\<close>

lemma safe_catch:
  assumes "safeT I m" and "\<And>x. safeT I (f (Inr x))" and "\<And>e. safeT I (f (Inl e))"
    and "f (Inl ErrPanic) = errT ErrPanic"
  shows "safeT I (bindT (attemptT m) f)"
  unfolding safeT_def
proof (intro allI impI)
  fix w r w' assume *: "I w" "bindT (attemptT m) f w = (r, w')" "r \<noteq> Inl ErrPanic"
  obtain q u where m: "m w = (q, u)" by fastforce
  with *(2) have f: "f q u = (r, w')" by (simp add: bindT_def)
  have "q \<noteq> Inl ErrPanic" using f assms(4) *(3) by auto
  then have "I u" using safeT_D [OF assms(1) *(1) m] by blast
  then show "I w'" using f *(3) assms(2,3) by (cases q) (auto dest: safeT_D)
qed

end
