(* ===== verification/Checkout.thy ===== *)
theory Checkout
  imports Claims Processor Outbox
begin

text \<open>
  \<open>StartCheckout\<close> of \<^verbatim>\<open>internal/engine/engine.go\<close>: a start token opens a checkout or resumes it.  The
  processor's hosted checkout is a parameter for each family with an adapter; its first argument counts
  the calls of one start, as resuming may ask twice.
\<close>

section \<open>Starting a checkout\<close>

record start_result =
  sr_RedirectURL :: string
  sr_Resumed :: bool

type_synonym checkout_adapter = "nat \<Rightarrow> checkout_request \<Rightarrow> checkout_result \<times> gerr option"

definition checkoutRequest :: "config \<Rightarrow> checkout \<Rightarrow> plan \<Rightarrow> checkout_request" where
  "checkoutRequest cfg c p =
     \<lparr>rq_CheckoutID = c_CheckoutID c, rq_PlanID = c_PlanID c, rq_ReturnURL = c_NormalizedReturnURL c,
      rq_IdempotencyKey = c_ProviderIdempotencyKey c,
      rq_ShopperRef = (case c_ProcessorShopperReference c of None \<Rightarrow> [] | Some r \<Rightarrow> r),
      rq_AmountMinor = pl_AmountMinor p, rq_Currency = pl_Currency p, rq_Interval = pl_Interval p,
      rq_StripePriceID = sp_PriceID (pl_Stripe p), rq_MerchantAccount = ap_MerchantAccount (pl_Adyen p),
      rq_CountryCode = ap_CountryCode (pl_Adyen p), rq_PublicBaseURL = g_PublicURL cfg, rq_ExpiresAt = c_ExpiresAt c\<rparr>"

definition new_checkout :: "start_claims \<Rightarrow> bytes \<Rightarrow> string \<Rightarrow> string option \<Rightarrow> checkout" where
  "new_checkout claims payload family shopper =
     zero_checkout\<lparr>c_CheckoutID := cl_CheckoutID claims, c_PlanID := cl_PlanID claims,
       c_NormalizedReturnURL := cl_ReturnURL claims, c_ProcessorFamily := family,
       c_RequestFingerprint := Fingerprint payload,
       c_ProviderIdempotencyKey := ''sb_checkout_'' @ cl_CheckoutID claims,
       c_ProcessorShopperReference := shopper, c_Status := CheckoutCreating,
       c_ExpiresAt := TruncateUTC (from_unix (cl_Exp claims) + ClockSkew)\<rparr>"

text \<open>The first transaction: the checkout that is there, or a new row.\<close>

definition find_or_insert :: "checkout \<Rightarrow> (world, checkout option) tx" where
  "find_or_insert row =
     bindT (attemptT (GetCheckoutForUpdate (c_CheckoutID row))) (\<lambda>r. case r of
       Inr c \<Rightarrow> retT (Some c)
     | Inl e \<Rightarrow> if e = ErrNotFound then bindT (InsertCheckout row) (\<lambda>_. retT None) else errT e)"

text \<open>An existing checkout is only resumed by the claims that opened it.\<close>

definition checkout_matches :: "checkout \<Rightarrow> start_claims \<Rightarrow> bytes \<Rightarrow> string \<Rightarrow> bool" where
  "checkout_matches c claims payload family \<longleftrightarrow>
     hex_encode (c_RequestFingerprint c) = hex_encode (Fingerprint payload) \<and> c_PlanID c = cl_PlanID claims
     \<and> c_NormalizedReturnURL c = cl_ReturnURL claims \<and> c_ProcessorFamily c = family"

definition adapterT :: "(string \<Rightarrow> checkout_adapter option) \<Rightarrow> string \<Rightarrow> (world, checkout_adapter) tx" where
  "adapterT ads family = (case ads family of None \<Rightarrow> errT (ErrOther ''no adapter'') | Some f \<Rightarrow> retT f)"

definition resume_checkout ::
  "config \<Rightarrow> (string \<Rightarrow> checkout_adapter option) \<Rightarrow> plan \<Rightarrow> string \<Rightarrow> checkout \<Rightarrow> (world, string option) tx" where
  "resume_checkout cfg ads p family c =
     (if c_Status c = CheckoutPending \<and> c_ProcessorCheckoutID c \<noteq> None
      then bindT (adapterT ads family) (\<lambda>create.
           case create 0 (checkoutRequest cfg c p) of
             (res, Some e) \<Rightarrow> errT e
           | (res, None) \<Rightarrow> retT (if rs_RedirectURL res \<noteq> [] then Some (rs_RedirectURL res) else None))
      else retT None)"

definition loadCheckout :: "string \<Rightarrow> (world, checkout) tx" where
  "loadCheckout i = InTx (GetCheckout i)"

text \<open>The second transaction: the processor's answer on the row as it is by then.\<close>

definition pending_tx :: "string \<Rightarrow> checkout_result \<Rightarrow> (world, unit) tx" where
  "pending_tx checkoutID res =
     bindT (GetCheckoutForUpdate checkoutID) (\<lambda>c.
     let c = c\<lparr>c_Status := CheckoutPending, c_ProcessorCheckoutID := Some (rs_ProcessorCheckoutID res)\<rparr>;
         c = (if IsZero (rs_ExpiresAt res) then c else c\<lparr>c_ExpiresAt := TruncateUTC (rs_ExpiresAt res)\<rparr>)
     in UpdateCheckout c)"

definition open_at_processor ::
  "config \<Rightarrow> (string \<Rightarrow> checkout_adapter option) \<Rightarrow> plan \<Rightarrow> string \<Rightarrow> checkout \<Rightarrow> (world, start_result) tx" where
  "open_at_processor cfg ads p family c =
     bindT (adapterT ads family) (\<lambda>create.
     case create 1 (checkoutRequest cfg c p) of
       (res, Some e) \<Rightarrow> errT e
     | (res, None) \<Rightarrow>
         if rs_Uncertain res then errT (ErrOther ''provider timeout'')
         else thenT (InTx (pending_tx (c_CheckoutID c) res))
                (retT \<lparr>sr_RedirectURL = rs_RedirectURL res, sr_Resumed = False\<rparr>))"

definition continue_checkout ::
  "config \<Rightarrow> (string \<Rightarrow> checkout_adapter option) \<Rightarrow> start_claims \<Rightarrow> bytes \<Rightarrow> plan \<Rightarrow> string \<Rightarrow> checkout
     \<Rightarrow> (world, start_result) tx" where
  "continue_checkout cfg ads claims payload p family c =
     thenT (guardT (checkout_matches c claims payload family) ErrCheckoutConflict) (
     thenT (guardT (\<not> IsTerminalCheckout (c_Status c)) ErrCheckoutTerminal) (
     bindT (resume_checkout cfg ads p family c) (\<lambda>redirect. case redirect of
       Some url \<Rightarrow> retT \<lparr>sr_RedirectURL = url, sr_Resumed = True\<rparr>
     | None \<Rightarrow> open_at_processor cfg ads p family c)))"

definition shopper_reference :: "string \<Rightarrow> (world, string option) tx" where
  "shopper_reference family =
     (if family = ProcessorAdyen then bindT NewShopperReference (\<lambda>r. retT (Some r)) else retT None)"

definition StartCheckout ::
  "urllib \<Rightarrow> keys \<Rightarrow> config \<Rightarrow> (string \<Rightarrow> checkout_adapter option) \<Rightarrow> string \<Rightarrow> (world, start_result) tx" where
  "StartCheckout ul ks cfg ads token =
     bindT nowT (\<lambda>now.
     bindT (liftT (ParseStartToken ul (k_Token ks) token now)) (\<lambda>(claims, payload).
     bindT (liftT (ResolvePlan cfg (cl_PlanID claims))) (\<lambda>(p, family).
     bindT (shopper_reference family) (\<lambda>shopper.
     bindT (InTx (find_or_insert (new_checkout claims payload family shopper))) (\<lambda>found. case found of
       Some c \<Rightarrow> continue_checkout cfg ads claims payload p family c
     | None \<Rightarrow>
         bindT (loadCheckout (cl_CheckoutID claims)) (\<lambda>c. open_at_processor cfg ads p family c))))))"

section \<open>The outbox is kept\<close>

lemma trip_find_or_insert: "tripT (oinv P {}) (find_or_insert row) (\<lambda>_. oinv P {})"
proof -
  have *: "tripT (oinv P {}) (bindT (InsertCheckout row) (\<lambda>_. retT None)) (\<lambda>_. oinv P {})"
    by (intro tripT_bind [OF trip_quiet] quietI keeps tripT_ret)
  show ?thesis unfolding find_or_insert_def
    by (rule tripT_I) (auto simp: bindT_eq_Inr GetCheckoutForUpdate_def GetCheckout_def lookup_row_def
        split: option.splits if_split_asm dest: tripT_D [OF *])
qed

lemma trip_pending_tx: "tripT (oinv P {}) (pending_tx i res) (\<lambda>_. oinv P {})"
  unfolding pending_tx_def Let_def
  by (intro tripT_bind [OF read_checkout] trip_weak [OF trip_update_checkout] pins)
    (simp add: bind_checkout_def)

lemma safe_adapterT [safe]: "safeT I (adapterT ads family)"
  unfolding adapterT_def by (intro safe)

lemma safe_resume [safe]: "safeT I (resume_checkout cfg ads p family c)"
  unfolding resume_checkout_def
  by (intro safe_if safe_bind safe_adapterT safe_simple) (auto intro: safe split: prod.splits option.splits)

lemma shopper_reference_mem: "shopper_reference family w = (r, w') \<Longrightarrow> mem w' = mem w \<and> clk w' = clk w"
  by (auto simp: shopper_reference_def NewShopperReference_def bindT_def dest: NewOpaqueID_mem
      split: if_split_asm prod.splits sum.splits)

section \<open>What a start does\<close>

lemma InTx_Inr: "InTx m w = (Inr x, w') \<longleftrightarrow> m w = (Inr x, w')"
  by (auto simp: InTx_def split: prod.splits sum.splits)

lemma GetCheckout_Inr: "GetCheckout i w = (Inr c, w') \<longleftrightarrow> map_of (checkouts w) i = Some c \<and> w' = w"
  by (auto simp: GetCheckout_def lookup_row_def split: option.splits)

lemma checkout_key: "store_ok w \<Longrightarrow> map_of (checkouts w) i = Some c \<Longrightarrow> c_CheckoutID c = i"
  unfolding store_ok_def keyed_by_def by (blast dest: well_keyed_key)

lemma pending_tx_Inr:
  assumes "pending_tx i res w = (Inr u, w')" and "store_ok w" and "map_of (checkouts w) i = Some c"
  shows "\<exists>c'. map_of (checkouts w') i = Some c' \<and> bind_checkout c' = bind_checkout c \<and> c_Status c' = CheckoutPending
    \<and> c_SubscriptionRef c' = c_SubscriptionRef c \<and> subs w' = subs w"
  using assms(1,3) checkout_key [OF assms(2,3)]
  by (auto simp: pending_tx_def GetCheckoutForUpdate_def GetCheckout_def lookup_row_def UpdateCheckout_def Let_def
      bindT_def set_checkouts_def bind_checkout_def split: if_split_asm)

lemma pending_tx_runs: "map_of (checkouts w) i = Some c \<Longrightarrow> c_CheckoutID c = i \<Longrightarrow> \<exists>w'. pending_tx i res w = (Inr (), w')"
  by (simp add: pending_tx_def GetCheckoutForUpdate_def GetCheckout_def lookup_row_def UpdateCheckout_def Let_def bindT_def)

text \<open>The processor was asked for this very checkout, its answer is the redirect, and the checkout is pending.\<close>

definition answered ::
  "config \<Rightarrow> (string \<Rightarrow> checkout_adapter option) \<Rightarrow> plan \<Rightarrow> string \<Rightarrow> checkout \<Rightarrow> start_result \<Rightarrow> world \<Rightarrow> bool" where
  "answered cfg ads p family c r w \<longleftrightarrow> (\<exists>create n ans c2. ads family = Some create
     \<and> create n (checkoutRequest cfg c p) = (ans, None) \<and> sr_RedirectURL r = rs_RedirectURL ans
     \<and> map_of (checkouts w) (c_CheckoutID c) = Some c2 \<and> bind_checkout c2 = bind_checkout c \<and> c_Status c2 = CheckoutPending)"

lemma open_at_processor_Inr:
  assumes "open_at_processor cfg ads p family c w = (Inr r, w')" and "store_ok w"
    and "map_of (checkouts w) (c_CheckoutID c) = Some c"
  shows "answered cfg ads p family c r w'"
  using assms(1) pending_tx_Inr [OF _ assms(2,3)] unfolding answered_def
  by (fastforce simp: open_at_processor_def adapterT_def bindT_eq_Inr thenT_eq_Inr InTx_Inr
      split: option.splits prod.splits if_split_asm)

lemma resume_checkout_Inr:
  assumes "resume_checkout cfg ads p family c w = (Inr (Some url), w')"
  shows "w' = w \<and> c_Status c = CheckoutPending \<and> (\<exists>create ans. ads family = Some create
    \<and> create 0 (checkoutRequest cfg c p) = (ans, None) \<and> url = rs_RedirectURL ans)"
  using assms by (auto simp: resume_checkout_def adapterT_def bindT_eq_Inr split: option.splits prod.splits if_split_asm)

lemma resume_checkout_same: "resume_checkout cfg ads p family c w = (Inr r, w') \<Longrightarrow> w' = w"
  by (auto simp: resume_checkout_def adapterT_def bindT_eq_Inr split: option.splits prod.splits if_split_asm)

lemma continue_checkout_Inr:
  assumes "continue_checkout cfg ads claims payload p family c w = (Inr r, w')" and "store_ok w"
    and "map_of (checkouts w) (c_CheckoutID c) = Some c"
  shows "checkout_matches c claims payload family \<and> \<not> IsTerminalCheckout (c_Status c) \<and> answered cfg ads p family c r w'"
proof -
  from assms(1) obtain redirect where match: "checkout_matches c claims payload family" "\<not> IsTerminalCheckout (c_Status c)"
    and res: "resume_checkout cfg ads p family c w = (Inr redirect, w)"
    and rest: "(case redirect of Some url \<Rightarrow> retT \<lparr>sr_RedirectURL = url, sr_Resumed = True\<rparr>
       | None \<Rightarrow> open_at_processor cfg ads p family c) w = (Inr r, w')"
    by (auto simp: continue_checkout_def bindT_eq_Inr thenT_eq_Inr split: if_split_asm dest: resume_checkout_same)
  have "answered cfg ads p family c r w'"
  proof (cases redirect)
    case None
    with rest open_at_processor_Inr [OF _ assms(2,3)] show ?thesis by simp
  next
    case (Some url)
    with rest have "sr_RedirectURL r = url" "w' = w" by auto
    with resume_checkout_Inr [OF res [unfolded Some]] assms(3) show ?thesis
      unfolding answered_def by blast
  qed
  with match show ?thesis by simp
qed

lemma find_or_insert_Inr:
  assumes "find_or_insert row w = (Inr r, w')"
  shows "case r of
      Some c \<Rightarrow> w' = w \<and> map_of (checkouts w) (c_CheckoutID row) = Some c
    | None \<Rightarrow> map_of (checkouts w) (c_CheckoutID row) = None \<and> map_of (checkouts w') (c_CheckoutID row)
                = Some (row\<lparr>c_CreatedAt := Now w, c_UpdatedAt := Now w\<rparr>)"
proof (cases "map_of (checkouts w) (c_CheckoutID row)")
  case None
  then show ?thesis using assms
    by (auto simp: find_or_insert_def GetCheckoutForUpdate_def GetCheckout_def lookup_row_def InsertCheckout_def
        set_checkouts_def bindT_eq_Inr split: if_split_asm)
next
  case (Some a)
  then have "(Inr r, w') = (Inr (Some a), w)"
    using assms by (simp add: find_or_insert_def GetCheckoutForUpdate_def GetCheckout_def lookup_row_def bindT_def)
  with Some show ?thesis by simp
qed

lemma find_or_insert_ok: "find_or_insert row w = (Inr r, w') \<Longrightarrow> store_ok w \<Longrightarrow> store_ok w'"
proof -
  have "keepsT (winv {}) (find_or_insert row)" unfolding find_or_insert_def
    by (intro keeps) (simp add: GetCheckoutForUpdate_def GetCheckout_def)
  then show "find_or_insert row w = (Inr r, w') \<Longrightarrow> store_ok w \<Longrightarrow> store_ok w'"
    by (auto simp: winv_empty dest: keepsT_D)
qed

text \<open>The start of a checkout in one piece: the token, the plan, the row and the answer.\<close>

lemma StartCheckout_Inr:
  assumes "StartCheckout ul ks cfg ads token w = (Inr r, w')"
  obtains claims payload p family shopper w1 found w2 where
    "ParseStartToken ul (k_Token ks) token (Now w) = Inr (claims, payload)"
    "ResolvePlan cfg (cl_PlanID claims) = Inr (p, family)" "mem w1 = mem w"
    "find_or_insert (new_checkout claims payload family shopper) w1 = (Inr found, w2)"
    "case found of
       Some c \<Rightarrow> continue_checkout cfg ads claims payload p family c w2 = (Inr r, w')
     | None \<Rightarrow> \<exists>c. map_of (checkouts w2) (cl_CheckoutID claims) = Some c
                 \<and> open_at_processor cfg ads p family c w2 = (Inr r, w')"
proof -
  from assms obtain claims payload p family shopper w1 found w2 where
    "ParseStartToken ul (k_Token ks) token (Now w) = Inr (claims, payload)"
    "ResolvePlan cfg (cl_PlanID claims) = Inr (p, family)" "shopper_reference family w = (Inr shopper, w1)"
    "find_or_insert (new_checkout claims payload family shopper) w1 = (Inr found, w2)"
    "(case found of
       Some c \<Rightarrow> continue_checkout cfg ads claims payload p family c
     | None \<Rightarrow> bindT (loadCheckout (cl_CheckoutID claims)) (\<lambda>c. open_at_processor cfg ads p family c)) w2 = (Inr r, w')"
    by (auto simp: StartCheckout_def nowT_def bindT_eq_Inr InTx_Inr split: prod.splits)
  then show ?thesis
    by (intro that [of claims payload p family w1 shopper found w2])
      (auto simp: loadCheckout_def bindT_eq_Inr InTx_Inr GetCheckout_Inr dest: shopper_reference_mem split: option.splits)
qed

text \<open>A configuration with one plan, and an adapter that answers at once.\<close>

definition sample_keys :: keys where
  "sample_keys = \<lparr>k_Token = [], k_Callback = [], k_Reconcile = []\<rparr>"

definition sample_plan :: plan where
  "sample_plan = \<lparr>pl_Processor = ProcessorStripe, pl_Currency = ''USD'', pl_AmountMinor = 100, pl_Interval = ''month'',
     pl_Stripe = \<lparr>sp_PriceID = ''price_1''\<rparr>, pl_Adyen = \<lparr>ap_MerchantAccount = [], ap_CountryCode = []\<rparr>\<rparr>"

definition sample_config :: config where
  "sample_config = \<lparr>g_PublicURL = [], g_ConsumerWebhookURL = [], g_PairingRoot = [], g_DefaultProcessor =
     ProcessorStripe, g_StripeSecretKey = [], g_StripeWebhookSecret = [], g_AdyenAPIKey = [],
     g_AdyenHMACKey = [], g_AdyenClientKey = [], g_AdyenLivePrefix = [], g_AdyenEnvironment = [],
     g_AdyenDataEncryptionKey = [], g_Listen = [], g_DatabaseURL = [], g_LogLevel = [],
     g_SchedulerEnabled = True, g_RenewalRetryDelays = [], g_DunningTermination = 0,
     g_AdyenResolutionDeadline = 0, g_QuarantineEnabled = False, g_QuarantineMaxRetention = 0,
     g_PlansPath = [], g_Catalog = \<lparr>cat_DefaultProcessor = ProcessorStripe, cat_Plans = [(''pro'',
     sample_plan)]\<rparr>, g_DevMode = False\<rparr>"

definition sample_adapters :: "string \<Rightarrow> checkout_adapter option" where
  "sample_adapters family = Some (\<lambda>n rq. (\<lparr>rs_RedirectURL = ''https://pay'', rs_ProcessorCheckoutID = ''cs_1'',
     rs_ProcessorCustomerID = [], rs_ExpiresAt = rq_ExpiresAt rq, rs_Uncertain = False\<rparr>, None))"

lemma sample_now: "Now w = 1767225600 * second" if "clk w = clk sample_world"
  using that by (simp add: Now_def sample_world_def TruncateUTC_def second_def)

lemma sample_tables: "mem sample_world = NewMemory" "checkouts sample_world = []"
  by (simp_all add: sample_world_def NewMemory_def)

lemma sample_plan_resolves: "ResolvePlan sample_config (cl_PlanID sample_claims) = Inr (sample_plan, ProcessorStripe)"
  by (simp add: ResolvePlan_def sample_config_def sample_claims_def sample_plan_def Let_def)

text \<open>
  C29. A start that succeeds leaves the checkout its token names pending at the processor, bound to the
  claims: the payload's fingerprint, the plan, the return URL and the processor family the configuration
  gives the plan.  A checkout that was there before was bound to the same claims and not terminal, and it
  keeps its binding.  The redirect is the adapter's answer to the request for that checkout, which carries
  the checkout's idempotency key.
\<close>

theorem checkout_bound:
  assumes "StartCheckout ul ks cfg ads token w = (Inr r, w')" and "store_ok w"
  shows "\<exists>claims payload p family c. ParseStartToken ul (k_Token ks) token (Now w) = Inr (claims, payload)
    \<and> ResolvePlan cfg (cl_PlanID claims) = Inr (p, family)
    \<and> map_of (checkouts w') (cl_CheckoutID claims) = Some c \<and> checkout_matches c claims payload family
    \<and> c_Status c = CheckoutPending
    \<and> (\<forall>c0. map_of (checkouts w) (cl_CheckoutID claims) = Some c0 \<longrightarrow>
         bind_checkout c = bind_checkout c0 \<and> \<not> IsTerminalCheckout (c_Status c0))
    \<and> (\<exists>create n rq ans. ads family = Some create \<and> create n rq = (ans, None) \<and> sr_RedirectURL r = rs_RedirectURL ans
         \<and> rq_CheckoutID rq = cl_CheckoutID claims \<and> rq_PlanID rq = cl_PlanID claims
         \<and> rq_ReturnURL rq = cl_ReturnURL claims \<and> rq_IdempotencyKey rq = c_ProviderIdempotencyKey c)"
proof -
  from assms(1) obtain claims payload p family shopper w1 found w2 where
    t: "ParseStartToken ul (k_Token ks) token (Now w) = Inr (claims, payload)"
      "ResolvePlan cfg (cl_PlanID claims) = Inr (p, family)" and m: "mem w1 = mem w"
    and f: "find_or_insert (new_checkout claims payload family shopper) w1 = (Inr found, w2)"
    and k: "case found of
       Some c \<Rightarrow> continue_checkout cfg ads claims payload p family c w2 = (Inr r, w')
     | None \<Rightarrow> \<exists>c. map_of (checkouts w2) (cl_CheckoutID claims) = Some c
                 \<and> open_at_processor cfg ads p family c w2 = (Inr r, w')"
    by (rule StartCheckout_Inr)
  let ?i = "cl_CheckoutID claims"
  have ok1: "store_ok w1" using assms(2) m by (simp add: store_ok_def)
  have id: "c_CheckoutID (new_checkout claims payload family shopper) = ?i" by (simp add: new_checkout_def)
  note found = find_or_insert_Inr [OF f, unfolded id] and ok2 = find_or_insert_ok [OF f ok1]
  have fin: ?thesis if c: "answered cfg ads p family c r w'" "checkout_matches c claims payload family" "c_CheckoutID c = ?i"
    "\<forall>c0. map_of (checkouts w) ?i = Some c0 \<longrightarrow> c = c0 \<and> \<not> IsTerminalCheckout (c_Status c0)" for c
  proof -
    from c(1,3) obtain create n ans c2 where *: "ads family = Some create" "create n (checkoutRequest cfg c p) = (ans, None)"
      "sr_RedirectURL r = rs_RedirectURL ans" "map_of (checkouts w') ?i = Some c2" "bind_checkout c2 = bind_checkout c"
      "c_Status c2 = CheckoutPending" unfolding answered_def by auto
    moreover from *(5) c(2,3) have "checkout_matches c2 claims payload family" "rq_CheckoutID (checkoutRequest cfg c p) = ?i"
      "rq_PlanID (checkoutRequest cfg c p) = cl_PlanID claims" "rq_ReturnURL (checkoutRequest cfg c p) = cl_ReturnURL claims"
      "rq_IdempotencyKey (checkoutRequest cfg c p) = c_ProviderIdempotencyKey c2"
      by (simp_all add: checkoutRequest_def bind_checkout_def checkout_matches_def)
    ultimately show ?thesis using t c(4) by blast
  qed
  show ?thesis
  proof (cases found)
    case None
    with k found m obtain c where c: "map_of (checkouts w2) ?i = Some c" "open_at_processor cfg ads p family c w2 = (Inr r, w')"
      and new: "map_of (checkouts w) ?i = None"
      "c = new_checkout claims payload family shopper\<lparr>c_CreatedAt := Now w1, c_UpdatedAt := Now w1\<rparr>" by auto
    then have "c_CheckoutID c = ?i" "checkout_matches c claims payload family" by (simp_all add: new_checkout_def checkout_matches_def)
    with c new(1) open_at_processor_Inr [OF c(2) ok2] show ?thesis by (intro fin [of c]) simp_all
  next
    case (Some c)
    with k found m checkout_key [OF assms(2), of ?i c] have c: "map_of (checkouts w) ?i = Some c"
      "map_of (checkouts w2) (c_CheckoutID c) = Some c" "c_CheckoutID c = ?i"
      and run: "continue_checkout cfg ads claims payload p family c w2 = (Inr r, w')" by auto
    with continue_checkout_Inr [OF run ok2 c(2)] show ?thesis by (intro fin [of c]) simp_all
  qed
qed

text \<open>
  C30. A start whose checkout exists is refused, and changes nothing in the store, if the checkout was opened by
  another payload (its fingerprint is not the SHA-256 of this one), for another plan, another return URL or
  another processor, which is a conflict, or if it is completed, expired or canceled.
\<close>

theorem checkout_refused:
  assumes "ParseStartToken ul (k_Token ks) token (Now w) = Inr (claims, payload)"
    and "ResolvePlan cfg (cl_PlanID claims) = Inr (p, family)" and "map_of (checkouts w) (cl_CheckoutID claims) = Some c"
    and "c_RequestFingerprint c \<noteq> sha256 payload \<or> c_PlanID c \<noteq> cl_PlanID claims
      \<or> c_NormalizedReturnURL c \<noteq> cl_ReturnURL claims \<or> c_ProcessorFamily c \<noteq> family
      \<or> c_Status c \<in> {''completed'', ''expired'', ''canceled''}"
    and "ent w \<noteq> []"
  shows "\<exists>w'. StartCheckout ul ks cfg ads token w
      = (Inl (if c_RequestFingerprint c = sha256 payload \<and> c_PlanID c = cl_PlanID claims
            \<and> c_NormalizedReturnURL c = cl_ReturnURL claims \<and> c_ProcessorFamily c = family
          then ErrCheckoutTerminal else ErrCheckoutConflict), w')
    \<and> mem w' = mem w"
proof -
  have matches: "checkout_matches c claims payload family \<longleftrightarrow> c_RequestFingerprint c = sha256 payload
      \<and> c_PlanID c = cl_PlanID claims \<and> c_NormalizedReturnURL c = cl_ReturnURL claims \<and> c_ProcessorFamily c = family"
    by (simp add: checkout_matches_def Fingerprint_def)
  obtain shopper w1 where s: "shopper_reference family w = (Inr shopper, w1)"
  proof (cases "family = ProcessorAdyen")
    case True
    then show ?thesis using that NewOpaqueID_run [of ShopperPrefix w] assms(5)
      by (cases "ent w") (auto simp: shopper_reference_def NewShopperReference_def bindT_def ord_def)
  qed (auto simp: shopper_reference_def)
  with shopper_reference_mem [OF s] assms(3)
  have "find_or_insert (new_checkout claims payload family shopper) w1 = (Inr (Some c), w1)"
    by (simp add: find_or_insert_def new_checkout_def GetCheckoutForUpdate_def GetCheckout_def lookup_row_def bindT_def)
  then have "InTx (find_or_insert (new_checkout claims payload family shopper)) w1 = (Inr (Some c), w1)"
    by (simp add: InTx_Inr)
  with s assms(1,2,4) shopper_reference_mem [OF s] show ?thesis
    by (auto simp: StartCheckout_def nowT_def continue_checkout_def matches IsTerminalCheckout_def)
qed

theorem checkout_refused_witness:
  "\<exists>w token w'. StartCheckout sample_urllib sample_keys sample_config (\<lambda>_. None) token w = (Inl ErrCheckoutConflict, w') \<and> mem w' = mem w"
proof -
  let ?c = "zero_checkout\<lparr>c_CheckoutID := ''subchk_1'', c_Status := CheckoutPending\<rparr>"
  let ?w = "sample_world\<lparr>mem := NewMemory\<lparr>m_checkouts := [(''subchk_1'', ?c)]\<rparr>\<rparr>"
  obtain token payload where t: "ParseStartToken sample_urllib (k_Token sample_keys) token (Now ?w) = Inr (sample_claims, payload)"
    using sample_start by (auto simp: sample_now sample_keys_def)
  have no: "c_PlanID ?c \<noteq> cl_PlanID sample_claims" by (simp add: zero_checkout_def sample_claims_def)
  have "map_of (checkouts ?w) (cl_CheckoutID sample_claims) = Some ?c" "ent ?w \<noteq> []"
    by (simp_all add: sample_claims_def sample_world_def)
  from checkout_refused [OF t sample_plan_resolves this(1) _ this(2)] no
  obtain w' where "StartCheckout sample_urllib sample_keys sample_config (\<lambda>_. None) token ?w = (Inl ErrCheckoutConflict, w')"
    "mem w' = mem ?w" by force
  then show ?thesis by blast
qed

theorem checkout_bound_witness:
  "\<exists>token r w' c. StartCheckout sample_urllib sample_keys sample_config sample_adapters token sample_world = (Inr r, w')
     \<and> sr_RedirectURL r = ''https://pay'' \<and> map_of (checkouts w') ''subchk_1'' = Some c \<and> c_Status c = CheckoutPending"
proof -
  obtain token payload where t: "ParseStartToken sample_urllib (k_Token sample_keys) token (Now sample_world) = Inr (sample_claims, payload)"
    using sample_start by (auto simp: sample_now sample_keys_def)
  have i: "cl_CheckoutID sample_claims = ''subchk_1''" by (simp add: sample_claims_def)
  have "\<exists>r w'. StartCheckout sample_urllib sample_keys sample_config sample_adapters token sample_world = (Inr r, w')"
    using t sample_plan_resolves
    by (simp add: StartCheckout_def nowT_def shopper_reference_def find_or_insert_def new_checkout_def GetCheckoutForUpdate_def
        GetCheckout_def lookup_row_def InsertCheckout_def bindT_def thenT_def InTx_def sample_tables NewMemory_def set_checkouts_def vals_def
        loadCheckout_def open_at_processor_def adapterT_def sample_adapters_def pending_tx_def UpdateCheckout_def i Let_def)
  then obtain r w' where run: "StartCheckout sample_urllib sample_keys sample_config sample_adapters token sample_world = (Inr r, w')"
    by blast
  have "store_ok sample_world" by (rule sample_world_ok)
  from checkout_bound [OF run this] t i run show ?thesis
    by (auto simp: sample_adapters_def split: if_split_asm)
qed

lemma activation_once:
  assumes "commitChange zero_subscription n ty w = (Inr u, w')" and "map_of (subs w) ref = Some s"
  shows "s_CheckoutID s \<noteq> s_CheckoutID n"
proof -
  from assms(1) obtain k cb w1 w2 w3 t where "mem w1 = mem w"
    "(if s_SubscriptionRef zero_subscription = [] then InsertSubscription n else UpdateSubscription n) w1 = (Inr (), w2)"
    by (rule commitChange_Inr)
  moreover have "s \<in> set (vals (subs w))" using assms(2) by (force simp: vals_def dest: map_of_SomeD)
  ultimately show ?thesis
    by (auto simp: InsertSubscription_def zero_subscription_def list_ex_iff split: if_split_asm)
qed

lemma assign_Inr: "assignStoredPaymentMethod eng s ref ev w = (Inr s', w') \<Longrightarrow> s_CheckoutID s' = s_CheckoutID s \<and> mem w' = mem w"
  by (auto simp: assignStoredPaymentMethod_def bindT_eq_Inr dest: Seal_mem split: option.splits if_split_asm prod.splits)

text \<open>An initial authorisation of a checkout that is not completed creates its subscription, which there is none of yet.\<close>

lemma initial_activation:
  assumes "applyAdyenInitial eng ev now w = (Inr x, w')" and "map_of (checkouts w) (field_string ev ''checkout_id'') = Some c"
    and "field_bool ev ''success''" and "field_string ev ''checkout_id'' \<noteq> []" and "c_Status c \<noteq> CheckoutCompleted"
    and "map_of (subs w) ref = Some s"
  shows "s_CheckoutID s \<noteq> c_CheckoutID c"
proof -
  from assms(1-5) obtain r w1 n w2 u w3 where "NewSubscriptionRef w = (Inr r, w1)"
    "assignStoredPaymentMethod eng n r ev w1 = (Inr (u::subscription), w2)" "s_CheckoutID n = c_CheckoutID c"
    "commitChange zero_subscription u EventActivated w2 = (Inr (), w3)"
    by (auto simp: applyAdyenInitial_def GetCheckoutForUpdate_def GetCheckout_def lookup_row_def bindT_eq_Inr thenT_eq_Inr
        FirstActivation_def)
  moreover then have "mem w1 = mem w" by (auto simp: NewSubscriptionRef_def dest: NewOpaqueID_mem)
  ultimately show ?thesis using activation_once assms(6) assign_Inr by (metis)
qed

lemma pending_tx_key:
  "pending_tx i res w = (Inr u, w') \<Longrightarrow> map_of (checkouts w) i = Some c \<Longrightarrow> map_of (checkouts w') i = Some c' \<Longrightarrow>
   c_CheckoutID c = i \<Longrightarrow> c_CheckoutID c' = i"
  by (auto simp: pending_tx_def GetCheckoutForUpdate_def GetCheckout_def lookup_row_def UpdateCheckout_def Let_def
      bindT_def set_checkouts_def split: if_split_asm)

text \<open>
  The processor's answer is written over whatever the checkout has become: a checkout completed while
  the processor was asked is pending again, still tied to its subscription, and a later authorisation for
  it, which would have replaced the stored payment method, is rejected because it tries to create the
  subscription once more.
\<close>

theorem late_answer_reopens:
  assumes "store_ok w" and "map_of (checkouts w) i = Some c" and "c_Status c = CheckoutCompleted"
    and "map_of (subs w) ref = Some s" and "s_CheckoutID s = i"
    and "field_bool ev ''success''" and "field_string ev ''checkout_id'' = i" and "i \<noteq> []"
  shows "\<exists>w1 c1 e w2. InTx (pending_tx i res) w = (Inr (), w1) \<and> map_of (checkouts w1) i = Some c1
    \<and> c_Status c1 = CheckoutPending \<and> c_SubscriptionRef c1 = c_SubscriptionRef c
    \<and> applyAdyenInitial eng ev now w1 = (Inl e, w2)"
proof -
  obtain w1 where p: "pending_tx i res w = (Inr (), w1)"
    using pending_tx_runs [OF assms(2) checkout_key [OF assms(1,2)]] by blast
  from pending_tx_Inr [OF p assms(1,2)] obtain c1 where c1: "map_of (checkouts w1) i = Some c1"
    "c_Status c1 = CheckoutPending" "c_SubscriptionRef c1 = c_SubscriptionRef c" "subs w1 = subs w" by blast
  have id: "c_CheckoutID c1 = i" 
    using p assms(2) c1(1) checkout_key [OF assms(1,2)] by (rule pending_tx_key)
  have "applyAdyenInitial eng ev now w1 \<noteq> (Inr x, w2)" for x w2
    using initial_activation [of eng ev now w1 x w2 c1 ref s] assms(4-8) c1 id by auto
  then obtain e w2 where "applyAdyenInitial eng ev now w1 = (Inl e, w2)"
    by (metis surj_pair sum.exhaust)
  with p c1 show ?thesis by (auto simp: InTx_Inr)
qed

theorem late_answer_reopens_witness:
  "\<exists>res eng now w w1 c1 ev e w2. map_option c_Status (map_of (checkouts w) ''subchk_1'') = Some CheckoutCompleted
     \<and> InTx (pending_tx ''subchk_1'' res) w = (Inr (), w1) \<and> map_of (checkouts w1) ''subchk_1'' = Some c1
     \<and> c_Status c1 = CheckoutPending \<and> applyAdyenInitial eng ev now w1 = (Inl e, w2)"
proof -
  let ?c = "zero_checkout\<lparr>c_CheckoutID := ''subchk_1'', c_Status := CheckoutCompleted, c_SubscriptionRef := Some ''subref_1''\<rparr>"
  let ?s = "zero_subscription\<lparr>s_SubscriptionRef := ''subref_1'', s_CheckoutID := ''subchk_1''\<rparr>"
  let ?w = "sample_world\<lparr>mem := NewMemory\<lparr>m_checkouts := [(''subchk_1'', ?c)], m_subs := [(''subref_1'', ?s)]\<rparr>\<rparr>"
  let ?ev = "\<lparr>n_ProcessorFamily = ProcessorAdyen, n_ProcessorEventID = ''e'', n_ProviderEventType = [],
    n_NormalizedKind = KindAdyenInitialAuthorisation, n_PayloadHash = [], n_OccurredAt = 0,
    n_Fields = [(''success'', ABool True), (''checkout_id'', AStr ''subchk_1'')], n_SensitivePlain = []\<rparr>"
  have "store_ok ?w" "map_of (checkouts ?w) ''subchk_1'' = Some ?c" "c_Status ?c = CheckoutCompleted"
    "map_of (subs ?w) ''subref_1'' = Some ?s" "s_CheckoutID ?s = ''subchk_1''"
    "field_bool ?ev ''success''" "field_string ?ev ''checkout_id'' = ''subchk_1''" "''subchk_1'' \<noteq> []"
    by (simp_all add: store_ok_def keyed_by_def well_keyed_def vals_def NewMemory_def field_bool_def field_string_def)
  note w = this
  obtain res eng now w1 c1 e w2 where
    "InTx (pending_tx ''subchk_1'' res) ?w = (Inr (), w1)" "map_of (checkouts w1) ''subchk_1'' = Some c1"
    "c_Status c1 = CheckoutPending" "applyAdyenInitial eng ?ev now w1 = (Inl e, w2)"
    using late_answer_reopens [OF w] by blast
  moreover have "map_option c_Status (map_of (checkouts ?w) ''subchk_1'') = Some CheckoutCompleted" by (simp add: w(2))
  ultimately show ?thesis by blast
qed

end
