(* ===== verification/Stripe.thy ===== *)
theory Stripe
  imports Processor Hmac
begin

text \<open>
  \<^verbatim>\<open>internal/adapters/stripe/stripe.go\<close>: the verification and normalisation of Stripe's webhooks, the
  mapping of a subscription object, and the requests.  The transport is a parameter, from path,
  idempotency key and body to the answer's status and body; so is \<open>num\<close>, a number read through
  \<open>float64\<close> and truncated.  \<open>strings.ToLower\<close> of a received signature is its ASCII part: the signature is
  only compared with hexadecimal digits, which no other letter becomes.
\<close>

section \<open>Webhook signatures\<close>

record stripe =
  st_SecretKey :: string
  st_WebhookSecret :: string
  st_APIBase :: string

text \<open>One part of the header: the last \<open>t\<close> is the time, every \<open>v1\<close> is a candidate.\<close>

definition signature_part :: "string \<times> string list \<Rightarrow> string \<Rightarrow> string \<times> string list" where
  "signature_part acc part =
     (case cut_at (CHR ''='') (TrimSpace part) of
        None \<Rightarrow> acc
      | Some (k, v) \<Rightarrow>
          if k = ''t'' then (v, snd acc) else if k = ''v1'' then (fst acc, snd acc @ [v]) else acc)"

definition signature_parts :: "string \<Rightarrow> string \<times> string list" where
  "signature_parts header = foldl signature_part ([], []) (split_on (CHR '','') header)"

definition stripe_mac :: "string \<Rightarrow> string \<Rightarrow> bytes \<Rightarrow> string" where
  "stripe_mac secret ts body = hex_encode (hmac_sha256 secret (ts @ ''.'' @ body))"

definition verifyStripeSignature :: "string \<Rightarrow> bytes \<Rightarrow> string \<Rightarrow> gotime \<Rightarrow> gerr + unit" where
  "verifyStripeSignature header body secret now =
     (if header = [] \<or> secret = [] then Inl ErrInvalidSignature
      else case signature_parts header of (ts, v1) \<Rightarrow>
        if ts = [] \<or> v1 = [] then Inl ErrInvalidSignature
        else case parse_int64 ts of
          None \<Rightarrow> Inl ErrInvalidSignature
        | Some unix \<Rightarrow>
            bindR (ValidateReplayWindow unix now) (\<lambda>_.
            guardR (list_ex (\<lambda>got. to_lower got = stripe_mac secret ts body) v1) ErrInvalidSignature))"

section \<open>Subscription objects\<close>

text \<open>Walking a decoded object along keys; \<open>asInt64\<close> of a number decoded as \<open>float64\<close>.\<close>

fun nested :: "json option \<Rightarrow> string list \<Rightarrow> json option" where
  "nested v [] = v"
| "nested v (k # ks) = (case jobj v of None \<Rightarrow> None | Some ms \<Rightarrow> nested (jget ms k) ks)"

definition asInt64 :: "(string \<Rightarrow> int) \<Rightarrow> json option \<Rightarrow> int option" where
  "asInt64 num v = (case v of Some (JNum n) \<Rightarrow> Some (num n) | _ \<Rightarrow> None)"

text \<open>The price of the first item, empty when there is none.\<close>

definition price_id :: "(string \<times> json) list \<Rightarrow> string" where
  "price_id obj =
     (case jarr (nested (Some (JObj obj)) [''items'', ''data'']) of
        Some (first # _) \<Rightarrow> jstr (nested (Some first) [''price'', ''id''])
      | _ \<Rightarrow> [])"

definition zero_state :: subscription_state where
  "zero_state = \<lparr>ss_Status = [], ss_PlanPriceID = [], ss_CurrentPeriodStart = zero_time, ss_CurrentPeriodEnd = zero_time,
     ss_CancelAtPeriodEnd = False, ss_ProcessorCustomerID = [], ss_ProcessorSubID = [], ss_ImmediateCancel = False,
     ss_Deleted = False\<rparr>"

definition stripe_status :: "string \<Rightarrow> subscription_state \<Rightarrow> subscription_state" where
  "stripe_status status st =
     (if status = ''trialing'' then st\<lparr>ss_Status := StatusTrialing\<rparr>
      else if status = ''active'' then st\<lparr>ss_Status := StatusActive\<rparr>
      else if status = ''past_due'' \<or> status = ''unpaid'' \<or> status = ''paused'' then st\<lparr>ss_Status := StatusPastDue\<rparr>
      else if status = ''canceled'' \<or> status = ''incomplete_expired''
      then st\<lparr>ss_Status := StatusExpired, ss_Deleted := True\<rparr>
      else st\<lparr>ss_Status := StatusPastDue\<rparr>)"

definition mapStripeSub :: "(string \<Rightarrow> int) \<Rightarrow> (string \<times> json) list \<Rightarrow> gerr + subscription_state option" where
  "mapStripeSub num raw =
     (let st = zero_state\<lparr>ss_ProcessorSubID := jstr (jget raw ''id''), ss_ProcessorCustomerID := jstr (jget raw ''customer'')\<rparr>;
          status = jstr (jget raw ''status'')
      in if status = ''incomplete'' then Inr (Some st)
         else
           let st = stripe_status status st;
               st = (if jget raw ''cancel_at_period_end'' = Some (JBool True) \<and> ss_Status st = StatusActive
                     then st\<lparr>ss_Status := StatusCanceled, ss_CancelAtPeriodEnd := True\<rparr> else st);
               st = (case asInt64 num (jget raw ''current_period_start'') of
                       None \<Rightarrow> st | Some v \<Rightarrow> st\<lparr>ss_CurrentPeriodStart := TruncateUTC (from_unix v)\<rparr>);
               st = (case asInt64 num (jget raw ''current_period_end'') of
                       None \<Rightarrow> st | Some v \<Rightarrow> st\<lparr>ss_CurrentPeriodEnd := TruncateUTC (from_unix v)\<rparr>)
           in Inr (Some (st\<lparr>ss_PlanPriceID := price_id raw\<rparr>)))"

section \<open>Webhooks\<close>

text \<open>
  A string member decoded into a struct: \<open>null\<close> leaves the field alone, a value of another type is an
  error.
\<close>

definition field_text :: "(string \<times> json) list \<Rightarrow> string \<Rightarrow> gerr + string" where
  "field_text ms name =
     (if list_ex (\<lambda>(k, v). fold_name k = fold_name name \<and> (case v of JStr _ \<Rightarrow> False | JNull \<Rightarrow> False | _ \<Rightarrow> True)) ms
      then Inl ErrInvalidJSON else Inr (field_str ms name))"

text \<open>
  The member \<open>object\<close> of \<open>data\<close> as a map.  Its decoding ignores errors; when the member is repeated, objects
  are merged into one map and \<open>null\<close> empties it.
\<close>

definition object_member :: "(string \<times> json) list \<Rightarrow> string \<times> json \<Rightarrow> (string \<times> json) list" where
  "object_member obj = (\<lambda>(k, v).
     if fold_name k \<noteq> ''object'' then obj
     else case v of JObj ms \<Rightarrow> obj @ ms | JNull \<Rightarrow> [] | _ \<Rightarrow> obj)"

definition data_object :: "(string \<times> json) list \<Rightarrow> (string \<times> json) list" where
  "data_object evt = (case field evt ''data'' of Some (JObj data) \<Rightarrow> foldl object_member [] data | _ \<Rightarrow> [])"

definition stripe_event :: "bytes \<Rightarrow> gerr + string \<times> string \<times> (string \<times> json) list" where
  "stripe_event body =
     (case json_document body of
        Some (JObj ms) \<Rightarrow>
          bindR (field_text ms ''id'') (\<lambda>evID.
          bindR (field_text ms ''type'') (\<lambda>ty. Inr (evID, ty, data_object ms)))
      | Some JNull \<Rightarrow> Inr ([], [], [])
      | _ \<Rightarrow> Inl ErrInvalidJSON)"

definition put_text :: "string \<Rightarrow> string \<Rightarrow> (string \<times> anyval) list \<Rightarrow> (string \<times> anyval) list" where
  "put_text k v fs = (if v \<noteq> [] then AList.update k (AStr v) fs else fs)"

definition checkout_fields :: "(string \<times> json) list \<Rightarrow> (string \<times> anyval) list \<Rightarrow> (string \<times> anyval) list" where
  "checkout_fields obj fs =
     put_text ''processor_subscription_id'' (jstr (jget obj ''subscription''))
       (put_text ''processor_customer_id'' (jstr (jget obj ''customer''))
         (put_text ''checkout_id'' (jstr (nested (jget obj ''metadata'') [''checkout_id''])) fs))"

definition subscription_fields :: "(string \<times> json) list \<Rightarrow> (string \<times> anyval) list \<Rightarrow> (string \<times> anyval) list" where
  "subscription_fields obj fs0 =
     (let own = jstr (jget obj ''id'');
          fs1 = (if has_prefix own ''sub_'' then put_text ''processor_subscription_id'' own fs0 else fs0);
          fs2 = put_text ''processor_subscription_id'' (jstr (jget obj ''subscription'')) fs1
      in put_text ''provider_price_id'' (price_id obj) fs2)"

definition subscription_types :: "string list" where
  "subscription_types = [''customer.subscription.created'', ''customer.subscription.updated'',
     ''customer.subscription.deleted'', ''invoice.paid'', ''invoice.payment_failed'']"

definition StripeParseWebhook :: "stripe \<Rightarrow> gotime \<Rightarrow> string \<Rightarrow> bytes \<Rightarrow> gerr + normalized_event list" where
  "StripeParseWebhook a now header body =
     bindR (guardR (TrimSpace (st_WebhookSecret a) \<noteq> []) ErrInvalidSignature) (\<lambda>_.
     bindR (verifyStripeSignature header body (st_WebhookSecret a) now) (\<lambda>_.
     bindR (stripe_event body) (\<lambda>(evID, ty, obj).
     let base = [(''authoritative_refresh_required'', ABool True), (''provider_occurred_at'', AStr (FormatUTC now))];
         event = (\<lambda>kind fs. [\<lparr>n_ProcessorFamily = ProcessorStripe, n_ProcessorEventID = evID, n_ProviderEventType = ty,
           n_NormalizedKind = kind, n_PayloadHash = sha256 body, n_OccurredAt = now, n_Fields = fs, n_SensitivePlain = []\<rparr>])
     in if ty = ''checkout.session.completed''
        then bindR (guardR (jstr (jget obj ''client_reference_id'') = []) ErrIdentityField) (\<lambda>_.
             Inr (event KindStripeCheckoutChanged (checkout_fields obj base)))
        else if ty \<in> set subscription_types
        then Inr (event KindStripeSubscriptionChanged (subscription_fields obj base))
        else Inr [])))"

section \<open>Requests\<close>

text \<open>
  \<open>urlQueryEscape\<close> replaces three characters.  \<open>formEncode\<close> ranges over a map: its argument lists the
  fields in the order of the iteration.
\<close>

definition escape_char :: "char \<Rightarrow> string" where
  "escape_char c = (if c = CHR '' '' then ''+'' else if c = CHR ''&'' then ''%26'' else if c = CHR ''='' then ''%3D'' else [c])"

definition urlQueryEscape :: "string \<Rightarrow> string" where
  "urlQueryEscape s = concat (map escape_char s)"

definition formEncode :: "(string \<times> string) list \<Rightarrow> bytes" where
  "formEncode fs = join_with ''&'' (map (\<lambda>(k, v). k @ ''='' @ urlQueryEscape v) fs)"

type_synonym form_transport = "string \<Rightarrow> string \<Rightarrow> bytes \<Rightarrow> gerr + int \<times> bytes"

text \<open>\<open>postForm\<close> and \<open>doJSON\<close>: the first value of the answer, whatever follows it.\<close>

definition first_value :: "bytes \<Rightarrow> json option" where
  "first_value s = (case json_value s of Some (v, _) \<Rightarrow> if json_depth v \<le> 10000 then Some v else None | None \<Rightarrow> None)"

definition doJSON :: "gerr + int \<times> bytes \<Rightarrow> gerr + json" where
  "doJSON answer =
     bindR answer (\<lambda>(code, raw).
     bindR (guardR (code < 300) (ErrOther ''stripe http'')) (\<lambda>_.
     case first_value raw of None \<Rightarrow> Inl ErrInvalidJSON | Some v \<Rightarrow> Inr v))"

definition postForm :: "form_transport \<Rightarrow> string \<Rightarrow> string \<Rightarrow> (string \<times> string) list \<Rightarrow> gerr + json" where
  "postForm http path idemp fs = doJSON (http path idemp (formEncode fs))"

definition struct_text :: "json \<Rightarrow> string \<Rightarrow> gerr + string" where
  "struct_text v name = (case v of JNull \<Rightarrow> Inr [] | JObj ms \<Rightarrow> field_text ms name | _ \<Rightarrow> Inl ErrInvalidJSON)"

definition checkout_form :: "checkout_request \<Rightarrow> (string \<times> string) list" where
  "checkout_form rq =
     [(''mode'', ''subscription''), (''success_url'', rq_ReturnURL rq), (''cancel_url'', rq_ReturnURL rq),
      (''line_items[0][price]'', rq_StripePriceID rq), (''line_items[0][quantity]'', ''1''),
      (''metadata[checkout_id]'', rq_CheckoutID rq), (''subscription_data[metadata][checkout_id]'', rq_CheckoutID rq)]
     @ (if IsZero (rq_ExpiresAt rq) then [] else [(''expires_at'', format_int (unix_of (rq_ExpiresAt rq)))])"

text \<open>\<open>order\<close> is the order of the map's iteration, \<open>timeout\<close> is \<open>IsTimeout\<close>.\<close>

definition StripeCreateCheckout ::
  "form_transport \<Rightarrow> ((string \<times> string) list \<Rightarrow> (string \<times> string) list) \<Rightarrow> (gerr \<Rightarrow> bool) \<Rightarrow> checkout_request
     \<Rightarrow> checkout_result \<times> gerr option" where
  "StripeCreateCheckout http order timeout rq =
     (let zero = \<lparr>rs_RedirectURL = [], rs_ProcessorCheckoutID = [], rs_ProcessorCustomerID = [], rs_ExpiresAt = zero_time,
            rs_Uncertain = False\<rparr>
      in case bindR (postForm http ''/v1/checkout/sessions'' (rq_IdempotencyKey rq) (order (checkout_form rq))) (\<lambda>v.
              bindR (struct_text v ''id'') (\<lambda>i. bindR (struct_text v ''url'') (\<lambda>url. Inr (i, url)))) of
           Inl e \<Rightarrow> (zero\<lparr>rs_Uncertain := timeout e\<rparr>, Some e)
         | Inr (i, url) \<Rightarrow> (zero\<lparr>rs_RedirectURL := url, rs_ProcessorCheckoutID := i, rs_ExpiresAt := rq_ExpiresAt rq\<rparr>, None))"

text \<open>\<open>get\<close>'s transport answers to a path; the answer is decoded into a map, its numbers into 64-bit floats.\<close>

definition StripeGetSubscription ::
  "(string \<Rightarrow> int) \<Rightarrow> (string \<Rightarrow> gerr + int \<times> bytes) \<Rightarrow> string \<Rightarrow> gerr + subscription_state option" where
  "StripeGetSubscription num http subID =
     bindR (doJSON (http (''/v1/subscriptions/'' @ subID))) (\<lambda>v.
     case v of JObj raw \<Rightarrow> if numbers_ok (JObj raw) then mapStripeSub num raw else Inl ErrInvalidJSON | JNull \<Rightarrow> mapStripeSub num [] | _ \<Rightarrow> Inl ErrInvalidJSON)"

definition StripeCreatePortalSession :: "form_transport \<Rightarrow> ((string \<times> string) list \<Rightarrow> (string \<times> string) list)
     \<Rightarrow> string \<Rightarrow> string \<Rightarrow> gerr + string" where
  "StripeCreatePortalSession http order customer returnURL =
     bindR (postForm http ''/v1/billing_portal/sessions'' [] (order [(''customer'', customer), (''return_url'', returnURL)]))
       (\<lambda>v. struct_text v ''url'')"

text \<open>Cancelling: the answer's body is not read.  \<open>delete\<close> is the transport of a request with that method.\<close>

definition StripeCancelSubscription ::
  "form_transport \<Rightarrow> (string \<Rightarrow> gerr + int \<times> bytes) \<Rightarrow> string \<Rightarrow> bool \<Rightarrow> gerr + unit" where
  "StripeCancelSubscription http delete subID atPeriodEnd =
     (let path = ''/v1/subscriptions/'' @ subID
      in if atPeriodEnd
         then bindR (http path [] (formEncode [(''cancel_at_period_end'', ''true'')])) (\<lambda>(code, _).
                guardR (code < 300) (ErrOther ''stripe http''))
         else bindR (delete path) (\<lambda>(code, _). guardR (code < 300) (ErrOther ''stripe cancel'')))"

text \<open>What Stripe does by itself.\<close>

definition StripeCreatePaymentUpdateSession :: "payment_update_request \<Rightarrow> gerr + payment_update_session" where
  "StripeCreatePaymentUpdateSession rq = Inl ErrProviderManaged"

definition StripeChargeRenewal :: "renewal_request \<Rightarrow> renewal_result \<times> gerr option" where
  "StripeChargeRenewal rq = (zero_renewal_result, Some ErrProviderManaged)"

definition StripeResolveRenewalAttempt :: "renewal_attempt \<Rightarrow> renewal_result \<times> gerr option" where
  "StripeResolveRenewalAttempt att = (zero_renewal_result, Some ErrProviderManaged)"

section \<open>Properties\<close>

lemma period_fields [simp]:
  "ss_Status (case v of None \<Rightarrow> st | Some x \<Rightarrow> st\<lparr>ss_CurrentPeriodStart := h x\<rparr>) = ss_Status st"
  "ss_Status (case v of None \<Rightarrow> st | Some x \<Rightarrow> st\<lparr>ss_CurrentPeriodEnd := h x\<rparr>) = ss_Status st"
  "ss_CancelAtPeriodEnd (case v of None \<Rightarrow> st | Some x \<Rightarrow> st\<lparr>ss_CurrentPeriodStart := h x\<rparr>) = ss_CancelAtPeriodEnd st"
  "ss_CancelAtPeriodEnd (case v of None \<Rightarrow> st | Some x \<Rightarrow> st\<lparr>ss_CurrentPeriodEnd := h x\<rparr>) = ss_CancelAtPeriodEnd st"
  "ss_Deleted (case v of None \<Rightarrow> st | Some x \<Rightarrow> st\<lparr>ss_CurrentPeriodStart := h x\<rparr>) = ss_Deleted st"
  "ss_Deleted (case v of None \<Rightarrow> st | Some x \<Rightarrow> st\<lparr>ss_CurrentPeriodEnd := h x\<rparr>) = ss_Deleted st"
  "ss_ImmediateCancel (case v of None \<Rightarrow> st | Some x \<Rightarrow> st\<lparr>ss_CurrentPeriodStart := h x\<rparr>) = ss_ImmediateCancel st"
  "ss_ImmediateCancel (case v of None \<Rightarrow> st | Some x \<Rightarrow> st\<lparr>ss_CurrentPeriodEnd := h x\<rparr>) = ss_ImmediateCancel st"
  "ss_ProcessorSubID (case v of None \<Rightarrow> st | Some x \<Rightarrow> st\<lparr>ss_CurrentPeriodStart := h x\<rparr>) = ss_ProcessorSubID st"
  "ss_ProcessorSubID (case v of None \<Rightarrow> st | Some x \<Rightarrow> st\<lparr>ss_CurrentPeriodEnd := h x\<rparr>) = ss_ProcessorSubID st"
  by (cases v; simp)+

lemma stripe_status_cases:
  obtains "x = ''trialing''" "stripe_status x st = st\<lparr>ss_Status := StatusTrialing\<rparr>"
    | "x = ''active''" "stripe_status x st = st\<lparr>ss_Status := StatusActive\<rparr>"
    | "x \<in> {''canceled'', ''incomplete_expired''}" "stripe_status x st = st\<lparr>ss_Status := StatusExpired, ss_Deleted := True\<rparr>"
    | "x \<notin> {''trialing'', ''active'', ''canceled'', ''incomplete_expired''}" "stripe_status x st = st\<lparr>ss_Status := StatusPastDue\<rparr>"
proof -
  consider "x = ''trialing''" | "x = ''active''" | "x = ''canceled''" | "x = ''incomplete_expired''"
    | "x \<notin> {''trialing'', ''active'', ''canceled'', ''incomplete_expired''}" by blast
  then show ?thesis
  proof cases
    case 5
    then show ?thesis by (intro that(4)) (simp_all add: stripe_status_def)
  qed (use that in \<open>simp_all add: stripe_status_def\<close>)
qed

definition reported_time :: "(string \<Rightarrow> int) \<Rightarrow> (string \<times> json) list \<Rightarrow> string \<Rightarrow> gotime" where
  "reported_time num raw k =
     (if jstr (jget raw ''status'') = ''incomplete'' then zero_time
      else case jget raw k of Some (JNum n) \<Rightarrow> TruncateUTC (from_unix (num n)) | _ \<Rightarrow> zero_time)"

text \<open>
  C31. The mapping of a Stripe subscription, status by status: \<open>trialing\<close> and \<open>active\<close> are themselves, an active
  one that Stripe will cancel is canceled, \<open>canceled\<close> and \<open>incomplete_expired\<close> are expired and deleted,
  \<open>incomplete\<close> has no status yet, and everything else is past due; identifiers and period are Stripe's, and
  status and cancellation flag are consistent.  Contrary to \<^verbatim>\<open>SPEC.md\<close> 7.2, a scheduled cancellation of a trialing
  or past due subscription is not mapped to canceled.
\<close>

theorem stripe_state_sound:
  "\<exists>st. mapStripeSub num raw = Inr (Some st)
     \<and> ss_Status st =
        (case map_of [(''trialing'', StatusTrialing),
             (''active'', if jget raw ''cancel_at_period_end'' = Some (JBool True) then StatusCanceled else StatusActive),
             (''canceled'', StatusExpired), (''incomplete_expired'', StatusExpired), (''incomplete'', [])] (jstr (jget raw ''status'')) of
           Some s \<Rightarrow> s | None \<Rightarrow> StatusPastDue)
     \<and> ss_CancelAtPeriodEnd st = (jstr (jget raw ''status'') = ''active'' \<and> jget raw ''cancel_at_period_end'' = Some (JBool True))
     \<and> ss_Deleted st = (jstr (jget raw ''status'') \<in> {''canceled'', ''incomplete_expired''}) \<and> \<not> ss_ImmediateCancel st
     \<and> (ss_Status st = [] \<or> ValidateStatusFlags (ss_Status st) (ss_CancelAtPeriodEnd st) = Inr ())
     \<and> ss_ProcessorSubID st = jstr (jget raw ''id'') \<and> ss_ProcessorCustomerID st = jstr (jget raw ''customer'')
     \<and> ss_CurrentPeriodStart st = reported_time num raw ''current_period_start'' \<and> ss_CurrentPeriodEnd st = reported_time num raw ''current_period_end''"
proof (cases "jstr (jget raw ''status'') = ''incomplete''")
  case True
  then show ?thesis by (simp add: mapStripeSub_def Let_def zero_state_def reported_time_def)
next
  case False
  then show ?thesis
    by (cases rule: stripe_status_cases [of "jstr (jget raw ''status'')" "zero_state\<lparr>ss_ProcessorSubID := jstr (jget raw ''id''),
        ss_ProcessorCustomerID := jstr (jget raw ''customer'')\<rparr>"])
      (auto simp: mapStripeSub_def Let_def zero_state_def ValidateStatusFlags_def reported_time_def asInt64_def
        split: option.split json.split)
qed

section \<open>Form values\<close>

text \<open>What a server makes of a form value: plus is a blank, a percent sign opens two hexadecimal digits.\<close>

fun form_unescape :: "string \<Rightarrow> string option" where
  "form_unescape [] = Some []"
| "form_unescape (c # s) =
     (if c = CHR ''+'' then map_option ((#) (CHR '' '')) (form_unescape s)
      else if c \<noteq> CHR ''%'' then map_option ((#) c) (form_unescape s)
      else (case s of
              a # b # r \<Rightarrow> (case (hex_val a, hex_val b) of
                 (Some x, Some y) \<Rightarrow> map_option ((#) (char_of (16 * x + y))) (form_unescape r)
               | _ \<Rightarrow> None)
            | _ \<Rightarrow> None))"

lemma escape_simps [simp]:
  "urlQueryEscape [] = []" "urlQueryEscape (c # s) = escape_char c @ urlQueryEscape s"
  by (simp_all add: urlQueryEscape_def)

lemma hex_marks [simp]: "hex_val (CHR ''%'') = None" "hex_val (CHR ''+'') = None"
  "hex_val (CHR ''2'') = Some 2" "hex_val (CHR ''6'') = Some 6" "hex_val (CHR ''3'') = Some 3" "hex_val (CHR ''D'') = Some 13"
  by (simp_all add: hex_val_def ord_def)

lemma mark_codes: "char_of (38::nat) = CHR ''&''" "char_of (61::nat) = CHR ''=''"
  using char_of_ord [of "CHR ''&''"] char_of_ord [of "CHR ''=''"] by (simp_all add: ord_def)

text \<open>A hexadecimal digit at the front of an escaped value is the value's own.\<close>

lemma escape_hex:
  assumes "urlQueryEscape s = a # u" and "hex_val a \<noteq> None"
  shows "\<exists>r. s = a # r \<and> u = urlQueryEscape r"
  using assms by (cases s) (auto simp: escape_char_def split: if_split_asm)

lemma form_value:
  "form_unescape (urlQueryEscape s) = Some t \<Longrightarrow> length t \<le> length s \<and> (CHR ''%'' \<in> set s \<longrightarrow> length t < length s)
     \<and> (CHR ''%'' \<notin> set s \<longrightarrow> t = map (\<lambda>c. if c = CHR ''+'' then CHR '' '' else c) s)"
proof (induction "length s" arbitrary: s t rule: less_induct)
  case less
  show ?case
  proof (cases s)
    case Nil
    with less(2) show ?thesis by simp
  next
    case (Cons c r)
    show ?thesis
    proof (cases "c = CHR ''%''")
      case False
      then have "\<exists>t'. form_unescape (urlQueryEscape r) = Some t' \<and> t = (if c = CHR ''+'' then CHR '' '' else c) # t'"
        using less(2) Cons by (auto simp: escape_char_def mark_codes split: if_split_asm)
      with False Cons less(1) [of r] show ?thesis by auto
    next
      case True
      with less(2) Cons obtain a b u x y t' where u: "urlQueryEscape r = a # b # u" "hex_val a = Some x" "hex_val b = Some y"
        and t: "form_unescape u = Some t'" "t = char_of (16 * x + y) # t'"
        by (auto simp: escape_char_def split: list.splits option.splits)
      from escape_hex [OF u(1)] u(2) obtain r1 where r1: "r = a # r1" "b # u = urlQueryEscape r1" by auto
      from escape_hex [OF r1(2) [symmetric]] u(3) obtain r2 where r2: "r1 = b # r2" "u = urlQueryEscape r2" by auto
      from less(1) [of r2 t'] t r1 r2 Cons True show ?thesis by auto
    qed
  qed
qed

lemma form_value_kept:
  "CHR ''%'' \<notin> set s \<Longrightarrow> form_unescape (urlQueryEscape s) = Some (map (\<lambda>c. if c = CHR ''+'' then CHR '' '' else c) s)"
  by (induction s) (auto simp: escape_char_def mark_codes)

text \<open>
  A form value reaches Stripe as it is exactly when it has neither a plus nor a percent sign: a
  percent-encoded path or query of a return URL is decoded on the way, as the escaping leaves both alone.
\<close>

theorem form_value_roundtrip:
  "form_unescape (urlQueryEscape s) = Some s \<longleftrightarrow> CHR ''+'' \<notin> set s \<and> CHR ''%'' \<notin> set s"
proof
  assume *: "form_unescape (urlQueryEscape s) = Some s"
  from form_value [OF this] have p: "CHR ''%'' \<notin> set s" by blast
  with form_value [OF *] have "s = map (\<lambda>c. if c = CHR ''+'' then CHR '' '' else c) s" by simp
  then have "CHR ''+'' \<notin> (\<lambda>c. if c = CHR ''+'' then CHR '' '' else c) ` set s \<or> CHR ''+'' \<notin> set s" by auto
  with \<open>s = _\<close> p show "CHR ''+'' \<notin> set s \<and> CHR ''%'' \<notin> set s" by (metis list.set_map)
next
  assume "CHR ''+'' \<notin> set s \<and> CHR ''%'' \<notin> set s"
  then show "form_unescape (urlQueryEscape s) = Some s"
    by (auto simp: form_value_kept intro!: map_idI)
qed

section \<open>Signatures\<close>

lemma ord_literal: "ord (CHR ''t'') = 116" "ord (CHR ''v'') = 118" by (simp_all add: ord_def)

text \<open>The header as Stripe writes it.\<close>

definition stripe_header :: "int \<Rightarrow> string \<Rightarrow> string" where
  "stripe_header unix sig = ''t='' @ format_int unix @ '',v1='' @ sig"

lemma signature_parts_header:
  assumes "0 \<le> unix" and "sig \<noteq> []" and "\<forall>c\<in>set sig. 48 \<le> ord c \<and> ord c < 127"
  shows "signature_parts (stripe_header unix sig) = (format_int unix, [sig])"
proof -
  let ?f = "format_int unix"
  have d: "list_all is_digit ?f" "?f \<noteq> []" using format_int_digits [OF assms(1)] assms(1) by (simp_all add: format_int_def)
  have c: "CHR '','' \<notin> set ?f" "CHR '','' \<notin> set sig"
    using digits_avoid [OF d(1), of "CHR '',''"] assms(3) by (auto simp: is_digit_def ord_def)
  have l: "is_digit (last ?f)" using d by (simp add: list_all_iff)
  have "split_on (CHR '','') (stripe_header unix sig) = [''t='' @ ?f, ''v1='' @ sig]"
    using c split_on_append [of "CHR '',''" "''t='' @ ?f" "''v1='' @ sig"] split_on_no_sep [of "CHR '',''" "''v1='' @ sig"]
    by (simp add: stripe_header_def)
  moreover have "TrimSpace (''t='' @ ?f) = ''t='' @ ?f"
    using d l by (intro TrimSpace_ascii) (simp_all add: is_space_def ord_literal is_digit_def)
  moreover have "TrimSpace (''v1='' @ sig) = ''v1='' @ sig"
  proof -
    have "48 \<le> ord (last sig) \<and> ord (last sig) < 127" using assms(3) last_in_set [OF assms(2)] by blast
    then show ?thesis using assms(2) by (intro TrimSpace_ascii) (simp_all add: is_space_def ord_literal)
  qed
  ultimately show ?thesis by (simp add: signature_parts_def signature_part_def)
qed

lemma signature_parts_empty: "signature_parts [] = ([], [])"
proof -
  have "TrimSpace [] = []" by code_simp
  then show ?thesis by (simp add: signature_parts_def signature_part_def)
qed

lemma verify_iff:
  assumes "secret \<noteq> []"
  shows "verifyStripeSignature header body secret now = Inr () \<longleftrightarrow>
      (\<exists>ts v1 unix got. signature_parts header = (ts, v1) \<and> ts \<noteq> [] \<and> parse_int64 ts = Some unix
         \<and> ValidateReplayWindow unix now = Inr () \<and> got \<in> set v1 \<and> to_lower got = stripe_mac secret ts body)"
proof (cases "signature_parts header")
  case (Pair ts v1)
  have "header = [] \<Longrightarrow> ts = []" using Pair signature_parts_empty by simp
  then show ?thesis
    using assms by (cases "parse_int64 ts") (auto simp: verifyStripeSignature_def Pair bindR_eq_Inr list_ex_iff)
qed

text \<open>
  C32. A Stripe signature is accepted only for a body whose HMAC under the webhook secret, together with the
  header's time, is one of the header's candidates up to letter case, and only within the replay window;
  and the header Stripe writes, with that HMAC, is accepted at every time of the window.
\<close>

theorem stripe_signature_exact:
  assumes "secret \<noteq> []" and "0 \<le> unix" and "unix < 2 ^ 63"
  shows "(verifyStripeSignature header body secret now = Inr ()) =
      (\<exists>ts v1 n got. signature_parts header = (ts, v1) \<and> ts \<noteq> [] \<and> parse_int64 ts = Some n
         \<and> ValidateReplayWindow n now = Inr () \<and> got \<in> set v1 \<and> to_lower got = stripe_mac secret ts body)
    \<and> (verifyStripeSignature (stripe_header unix (stripe_mac secret (format_int unix) body)) body secret now = Inr ())
      = (ValidateReplayWindow unix now = Inr ())"
proof -
  let ?sig = "stripe_mac secret (format_int unix) body"
  have hex: "list_all is_lower_hex ?sig" "?sig \<noteq> []"
    using hex_encode_lower length_hex_encode [of "hmac_sha256 secret (format_int unix @ ''.'' @ body)"]
    unfolding stripe_mac_def by (blast, fastforce simp del: length_hex_encode)
  then have "\<forall>c\<in>set ?sig. 48 \<le> ord c \<and> ord c < 127" by (auto simp: list_all_iff is_lower_hex_def)
  note parts = signature_parts_header [OF assms(2) hex(2) this]
  have "format_int unix \<noteq> []" using assms(2) by (simp add: format_int_def)
  with parse_format_int [OF assms(2,3)] lower_hex_lower [OF hex(1)]
  show ?thesis by (simp only: verify_iff [OF assms(1)] parts) simp
qed

theorem stripe_signature_exact_witness:
  "verifyStripeSignature (stripe_header 1767225600 (stripe_mac ''whsec'' (format_int 1767225600) ''{}'')) ''{}'' ''whsec''
     (1767225600 * second) = Inr ()"
proof -
  have "unix_of (1767225600 * second) = 1767225600" by code_simp
  then have "ValidateReplayWindow 1767225600 (1767225600 * second) = Inr ()" by (subst ValidateReplayWindow_iff) simp_all
  with stripe_signature_exact [of "''whsec''" 1767225600 "[]" "''{}''" "1767225600 * second"] show ?thesis by simp
qed

end
