(* ===== verification/Page.thy ===== *)
theory Page
  imports ProtoTypes
begin

text \<open>
  The page of the hosted portal (\<^verbatim>\<open>internal/httpapi/portal.go\<close>): the bytes that
  \<open>writeAdyenPortalPage\<close> writes, with \<open>html.EscapeString\<close> and the JSON of its configuration, and a proof that
  nothing a request or the configuration holds can add markup to it.
\<close>

section \<open>The page\<close>

record dropin_config =
  dc_Available :: bool
  dc_ClientKey :: string
  dc_Environment :: string
  dc_SessionID :: string
  dc_SessionData :: string

definition adyenCheckoutShopperBase :: "string \<Rightarrow> string" where
  "adyenCheckoutShopperBase env =
     (if env = ''live'' then ''https://checkoutshopper-live.cdn.adyen.com'' else ''https://checkoutshopper-test.cdn.adyen.com'')"

text \<open>\<open>html.EscapeString\<close>.\<close>

definition html_escape_char :: "char \<Rightarrow> string" where
  "html_escape_char c =
     (if c = CHR ''<'' then ''&lt;'' else if c = CHR ''>'' then ''&gt;'' else if c = CHR ''&'' then ''&amp;''
      else if ord c = 39 then ''&#39;'' else if ord c = 34 then ''&#34;'' else [c])"

definition EscapeString :: "string \<Rightarrow> string" where
  "EscapeString s = concat (map html_escape_char s)"

text \<open>\<open>json.Marshal\<close> of the configuration.\<close>

definition marshal_dropin :: "dropin_config \<Rightarrow> bytes" where
  "marshal_dropin cfg = json_object
     [(''available'', json_bool (dc_Available cfg)), (''clientKey'', json_string True (dc_ClientKey cfg)),
      (''environment'', json_string True (dc_Environment cfg)), (''sessionId'', json_string True (dc_SessionID cfg)),
      (''sessionData'', json_string True (dc_SessionData cfg))]"

definition adyenWebSDKVersion :: string where "adyenWebSDKVersion = ''6.41.0''"
definition adyenWebJSSRI :: string where
  "adyenWebJSSRI = ''sha384-B290qKFISOSRqrQlUy+IqPzFioaHcUn49xyVUlpEIqcSAt2+4bTkH0FOsICZ86o9''"
definition adyenWebCSSSRI :: string where
  "adyenWebCSSSRI = ''sha384-QCE3u3lliHH3SEx30M8NEuDhvEGmFCtZl62YVSVWw84cYNt2NYYbVwd/KPaaaIQ9''"

text \<open>The text around the stylesheet's address, up to the first form.\<close>

definition page_top :: string where
  "page_top = ''<!DOCTYPE html><html lang=\"en\"><head>''
     @ ''<meta charset=\"utf-8\">''
     @ ''<meta name=\"viewport\" content=\"width=device-width, initial-scale=1\">''
     @ ''<title>Manage subscription</title>''
     @ ''<link rel=\"stylesheet\" href=\"''"

definition page_body :: string where
  "page_body = ''\" crossorigin=\"anonymous\">''
     @ ''<link rel=\"stylesheet\" href=\"/v1/portal/assets/portal.css\">''
     @ ''</head><body><main class=\"portal-card\">''
     @ ''<h1>Manage subscription</h1>''
     @ ''<section class=\"billing-panel-section\">''
     @ ''<h4>Update payment method</h4>''
     @ ''<div id=\"dropin\"></div>''
     @ ''<p id=\"dropin-status\" hidden></p>''
     @ ''</section>''
     @ ''<section class=\"billing-panel-section\">''
     @ ''<h4>Cancel</h4>''
     @ ''<div class=\"portal-actions\">''"

text \<open>A cancel form; \<open>rest\<close> is its mode and button.\<close>

definition form_open :: string where
  "form_open = ''<form method=\"post\" action=\"/v1/portal/cancel\">'' @ ''<input type=\"hidden\" name=\"token\" value=\"''"
definition form_csrf :: string where "form_csrf = ''\">'' @ ''<input type=\"hidden\" name=\"csrf\" value=\"''"
definition form_return :: string where "form_return = ''\">'' @ ''<input type=\"hidden\" name=\"return_url\" value=\"''"
definition form_period_end :: string where
  "form_period_end = ''\">'' @ ''<input type=\"hidden\" name=\"mode\" value=\"period_end\">''
     @ ''<button type=\"submit\" class=\"btn-secondary\">Cancel at period end</button></form>''"
definition form_immediate :: string where
  "form_immediate = ''\">'' @ ''<input type=\"hidden\" name=\"mode\" value=\"immediate\">''
     @ ''<button type=\"submit\" class=\"danger-button\">Cancel immediately</button></form>''"

definition cancel_form :: "string \<Rightarrow> string \<Rightarrow> string \<Rightarrow> string \<Rightarrow> string" where
  "cancel_form escTok escCSRF escRet rest = form_open @ escTok @ form_csrf @ escCSRF @ form_return @ escRet @ rest"

definition page_link :: string where "page_link = ''</div></section>'' @ ''<a class=\"return-link\" href=\"''"
definition page_config :: string where
  "page_config = ''\">Return to application</a>'' @ ''</main>'' @ ''<script type=\"application/json\" id=\"portal-config\">''"
definition page_sdk :: string where "page_sdk = ''</script>'' @ ''<script src=\"''"
definition page_end :: string where
  "page_end = ''\" crossorigin=\"anonymous\"></script>'' @ ''<script src=\"/v1/portal/assets/portal.js\"></script>''
     @ ''</body></html>''"
definition sdk_path :: string where "sdk_path = ''/checkoutshopper/sdk/''"
definition css_integrity :: string where "css_integrity = ''/adyen.css\" integrity=\"''"
definition js_integrity :: string where "js_integrity = ''/adyen.js\" integrity=\"''"

text \<open>\<open>csrf\<close> is the token's check value.\<close>

definition writeAdyenPortalPage :: "string \<Rightarrow> string \<Rightarrow> string \<Rightarrow> dropin_config \<Rightarrow> bytes" where
  "writeAdyenPortalPage token csrf returnURL cfg =
     (let cfgJSON = marshal_dropin cfg;
          sdk = adyenCheckoutShopperBase (dc_Environment cfg) @ sdk_path @ adyenWebSDKVersion;
          escTok = EscapeString token; escCSRF = EscapeString csrf; escRet = EscapeString returnURL
      in page_top @ sdk @ css_integrity @ adyenWebCSSSRI @ page_body
         @ cancel_form escTok escCSRF escRet form_period_end @ cancel_form escTok escCSRF escRet form_immediate
         @ page_link @ escRet @ page_config @ cfgJSON @ page_sdk @ sdk @ js_integrity @ adyenWebJSSRI @ page_end)"

section \<open>No markup is injected\<close>

text \<open>The angle brackets of a text, in order.\<close>

definition markup :: "string \<Rightarrow> string" where
  "markup s = filter (\<lambda>c. c = CHR ''<'' \<or> c = CHR ''>'') s"

lemma markup_append [simp]: "markup (a @ b) = markup a @ markup b"
  by (simp add: markup_def)

lemma markup_Nil [simp]: "markup [] = []"
  by (simp add: markup_def)

lemma markup_Cons: "markup (c # s) = (if c = CHR ''<'' \<or> c = CHR ''>'' then c # markup s else markup s)"
  by (simp add: markup_def)

lemma of_char_of_angle: "of_char (CHR ''<'') = (60 :: nat)" "of_char (CHR ''>'') = (62 :: nat)"
  by simp_all

lemma markup_char: "b < 256 \<Longrightarrow> b \<noteq> 60 \<Longrightarrow> b \<noteq> 62 \<Longrightarrow> markup (char_of b # s) = markup s" for b :: nat
proof -
  assume b: "b < 256" "b \<noteq> 60" "b \<noteq> 62"
  have "of_char (char_of b :: char) = b" using b(1) by simp
  then have "char_of b \<noteq> CHR ''<''" "char_of b \<noteq> CHR ''>''" using b(2,3) by (metis of_char_of_angle)+
  then show ?thesis by (simp add: markup_Cons)
qed

lemma markup_EscapeString [simp]: "markup (EscapeString s) = []"
  by (induction s) (simp_all add: EscapeString_def html_escape_char_def markup_Cons)

lemma markup_hex [simp]: "n < 16 \<Longrightarrow> markup (hex_digit n # s) = markup s"
  by (simp add: hex_digit_def markup_char)

lemma markup_if: "(b \<Longrightarrow> markup s = []) \<Longrightarrow> (\<not> b \<Longrightarrow> markup t = []) \<Longrightarrow> markup (if b then s else t) = []"
  by simp

lemma markup_letters:
  "markup (CHR ''b'' # s) = markup s" "markup (CHR ''f'' # s) = markup s" "markup (CHR ''n'' # s) = markup s"
  "markup (CHR ''r'' # s) = markup s" "markup (CHR ''t'' # s) = markup s" "markup (CHR ''u'' # s) = markup s"
  "markup (CHR ''0'' # s) = markup s" "markup (CHR ''2'' # s) = markup s" "markup (CHR ''d'' # s) = markup s"
  by (simp_all add: markup_Cons)

lemma markup_escape_ascii: "b < 128 \<Longrightarrow> markup (json_escape_ascii True b) = []"
  unfolding json_escape_ascii_def Let_def
  by (intro markup_if) (auto simp: markup_char markup_letters)

lemma decode_rune_continues:
  assumes "decode_rune (b # r) = Some (c, k)" and "128 \<le> b"
  shows "\<forall>x\<in>set (take k (b # r)). 128 \<le> x"
  using assms by (auto simp: decode_rune.simps cont_def split: if_split_asm list.splits)

lemma markup_high: "\<forall>x\<in>set bs. 128 \<le> x \<and> x < 256 \<Longrightarrow> markup (map char_of bs) = []" for bs :: "nat list"
  by (induction bs) (auto simp: markup_char)

lemma markup_json_escape: "\<forall>b\<in>set bs. b < 256 \<Longrightarrow> markup (json_escape True bs) = []"
proof (induction "length bs" arbitrary: bs rule: less_induct)
  case less
  show ?case
  proof (cases bs)
    case (Cons b r)
    show ?thesis
    proof (cases "b < 128")
      case True
      with less Cons show ?thesis by (subst json_escape.simps) (simp add: markup_escape_ascii)
    next
      case False
      show ?thesis
      proof (cases "decode_rune bs")
        case None
        with less Cons False show ?thesis by (subst json_escape.simps) (simp add: markup_char markup_letters)
      next
        case (Some ck)
        then obtain c k where d: "decode_rune bs = Some (c, k)" by (cases ck) simp
        have "\<forall>x\<in>set (take k bs). 128 \<le> x \<and> x < 256"
          using decode_rune_continues [of b r c k] d False Cons less.prems in_set_takeD [of _ k bs] by auto
        then have "markup (map char_of (take k bs)) = []" by (rule markup_high)
        moreover have "markup (json_escape True (drop k bs)) = []"
          using decode_rune_width [OF d] Cons less.prems in_set_dropD [of _ k bs] by (intro less.hyps) auto
        ultimately show ?thesis using d False Cons
          by (subst json_escape.simps) (simp add: markup_char markup_letters)
      qed
    qed
  qed (simp add: json_escape.simps)
qed

lemma markup_json_string [simp]: "markup (json_string True s) = []"
proof -
  have "markup (json_escape True (map ord s)) = []" by (rule markup_json_escape) auto
  then show ?thesis by (simp add: json_string_def markup_char)
qed

lemma markup_quote: "char_of (34::nat) = CHR 0x22"
  by code_simp

lemma markup_dropin [simp]: "markup (marshal_dropin cfg) = []"
  by (simp add: marshal_dropin_def json_object_def json_member_def json_bool_def markup_char)
    (simp add: markup_Cons markup_quote)

lemma markup_cdn: "markup (adyenCheckoutShopperBase env) = []"
  by (simp add: adyenCheckoutShopperBase_def markup_Cons)

text \<open>
  C34. The hosted page cannot be given markup: whatever the token, the check value, the return URL and the
  configuration are, its angle brackets are those of the page without them, in the same order.
\<close>

theorem page_markup_fixed:
  "filter (\<lambda>c. c = CHR ''<'' \<or> c = CHR ''>'') (writeAdyenPortalPage token csrf returnURL cfg)
    = filter (\<lambda>c. c = CHR ''<'' \<or> c = CHR ''>'')
        (writeAdyenPortalPage [] [] [] \<lparr>dc_Available = False, dc_ClientKey = [], dc_Environment = [], dc_SessionID = [], dc_SessionData = []\<rparr>)"
  unfolding markup_def [symmetric]
  by (simp add: writeAdyenPortalPage_def Let_def cancel_form_def markup_cdn)

end
