(* ===== verification/Http.thy ===== *)
theory Http
  imports Checkout Stripe Page
begin

text \<open>
  \<^verbatim>\<open>internal/httpapi/server.go\<close> and \<^verbatim>\<open>portal.go\<close>: the routes as functions from a request to a response.
  What a handler takes from the environment is in the record \<open>server\<close>: the processors' answers to a
  checkout, a webhook, an observation and a portal session, and the embedded files.  The server's clock
  is the store's, which it only reads in whole seconds.
\<close>

section \<open>Requests and responses\<close>

record server =
  hs_URL :: urllib
  hs_Keys :: keys
  hs_Config :: config
  hs_Engine :: engine
  hs_Checkout :: "string \<Rightarrow> checkout_adapter option"
  hs_Webhook :: "string \<Rightarrow> (string \<Rightarrow> string) \<Rightarrow> bytes \<Rightarrow> (gerr + normalized_event list) option"
  hs_State :: "string \<Rightarrow> string \<Rightarrow> gerr + subscription_state option"
  hs_StripePortal :: "(string \<Rightarrow> string \<Rightarrow> gerr + string) option"
  hs_AdyenSession :: "(payment_update_request \<Rightarrow> gerr + payment_update_session) option"
  hs_Asset :: "string \<Rightarrow> bytes option"
  hs_Healthy :: bool
  hs_EnableMock :: bool

datatype response = Status int | Redirect string | Body bytes | Page bytes

text \<open>A request: the route with what its handler reads; a form that does not parse is \<open>None\<close>.\<close>

datatype request =
    Health
  | Start string
  | Portal string
  | PortalCSS
  | PortalJS
  | PortalCancel "(string \<Rightarrow> string) option"
  | GetSnapshot string string
  | Webhook string "string \<Rightarrow> string" bytes
  | MockActivate string bytes
  | MockExpire string bytes
  | MockReplay string bytes

abbreviation maxWebhookBody :: nat where "maxWebhookBody \<equiv> 262144"

definition readBody :: "nat \<Rightarrow> bytes \<Rightarrow> bytes" where
  "readBody m body = take (m + 1) body"

text \<open>\<open>url.QueryEscape\<close>.\<close>

definition escape_byte :: "char \<Rightarrow> string" where
  "escape_byte c =
     (let n = ord c; digit = (\<lambda>d. char_of (if d < 10 then 48 + d else 55 + d))
      in if 48 \<le> n \<and> n \<le> 57 \<or> 65 \<le> n \<and> n \<le> 90 \<or> 97 \<le> n \<and> n \<le> 122 \<or> c \<in> set ''-_.~'' then [c]
         else if n = 32 then ''+'' else [CHR ''%'', digit (n div 16), digit (n mod 16)])"

definition QueryEscape :: "string \<Rightarrow> string" where
  "QueryEscape s = concat (map escape_byte s)"

text \<open>A call whose error becomes a response; a panic is no error.\<close>

definition respond ::
  "(world, 'a) tx \<Rightarrow> (gerr \<Rightarrow> response) \<Rightarrow> ('a \<Rightarrow> (world, response) tx) \<Rightarrow> (world, response) tx" where
  "respond m f h = bindT (attemptT m) (\<lambda>r. case r of
     Inl e \<Rightarrow> if e = ErrPanic then errT ErrPanic else retT (f e)
   | Inr x \<Rightarrow> h x)"

section \<open>Checkout\<close>

definition mapStartError :: "gerr \<Rightarrow> response" where
  "mapStartError e = Status (if e = ErrCheckoutConflict \<or> e = ErrCheckoutTerminal then 409 else 400)"

definition start_handler :: "server \<Rightarrow> string \<Rightarrow> (world, response) tx" where
  "start_handler s token =
     (if token = [] \<or> MaxTokenBytes < length token then retT (Status 400)
      else respond (StartCheckout (hs_URL s) (hs_Keys s) (hs_Config s) (hs_Checkout s) token) mapStartError
             (\<lambda>r. retT (Redirect (sr_RedirectURL r))))"

section \<open>The portal\<close>

definition csrfFromToken :: "string \<Rightarrow> string" where
  "csrfFromToken token = hex_encode (take 16 (sha256 (''csrf:'' @ token)))"

definition portal_dropin :: "config \<Rightarrow> dropin_config" where
  "portal_dropin cfg =
     \<lparr>dc_Available = False, dc_ClientKey = g_AdyenClientKey cfg,
      dc_Environment = (if g_AdyenEnvironment cfg = [] then ''test'' else g_AdyenEnvironment cfg),
      dc_SessionID = [], dc_SessionData = []\<rparr>"

definition update_request :: "server \<Rightarrow> plan \<Rightarrow> string \<Rightarrow> string \<Rightarrow> string \<Rightarrow> string \<Rightarrow> payment_update_request" where
  "update_request s p token checkoutID shopper updateRef =
     \<lparr>pu_CheckoutID = checkoutID, pu_ShopperRef = shopper,
      pu_ReturnURL = rev (dropWhile (\<lambda>c. c = CHR ''/'') (rev (g_PublicURL (hs_Config s)))) @ ''/v1/portal?token='' @ QueryEscape token,
      pu_IdempotencyKey = updateRef, pu_AmountMinor = 0, pu_Currency = pl_Currency p,
      pu_MerchantAccount = ap_MerchantAccount (pl_Adyen p), pu_CountryCode = ap_CountryCode (pl_Adyen p)\<rparr>"

text \<open>The session of the page, when every step to it succeeds; errors leave the page without one.\<close>

definition dropin_session :: "server \<Rightarrow> string \<Rightarrow> subscription \<Rightarrow> (world, dropin_config) tx" where
  "dropin_session s token row =
     (let base = portal_dropin (hs_Config s);
          shopper = (case s_ProcessorShopperReference row of None \<Rightarrow> [] | Some r \<Rightarrow> r)
      in if s_Status row \<noteq> StatusExpired \<and> shopper \<noteq> [] \<and> s_CheckoutID row \<noteq> [] \<and> dc_ClientKey base \<noteq> [] then
           (case (hs_AdyenSession s, ResolvePlan (hs_Config s) (s_PlanID row)) of
              (Some session, Inr (p, _)) \<Rightarrow>
                bindT (attemptT NewPaymentUpdateReference) (\<lambda>r. case r of
                  Inl _ \<Rightarrow> retT base
                | Inr updateRef \<Rightarrow>
                    (case session (update_request s p token (s_CheckoutID row) shopper updateRef) of
                       Inl _ \<Rightarrow> retT base
                     | Inr sess \<Rightarrow>
                         retT (if us_ID sess \<noteq> [] \<and> us_SessionData sess \<noteq> []
                               then base\<lparr>dc_Available := True, dc_SessionID := us_ID sess, dc_SessionData := us_SessionData sess\<rparr>
                               else base)))
            | _ \<Rightarrow> retT base)
         else retT base)"

definition renderAdyenPortal :: "server \<Rightarrow> string \<Rightarrow> portal_claims \<Rightarrow> subscription \<Rightarrow> (world, response) tx" where
  "renderAdyenPortal s token claims row =
     bindT (dropin_session s token row) (\<lambda>cfg.
     retT (Page (writeAdyenPortalPage token (csrfFromToken token) (pc_ReturnURL claims) cfg)))"

definition portal_handler :: "server \<Rightarrow> string \<Rightarrow> (world, response) tx" where
  "portal_handler s token =
     bindT nowT (\<lambda>now.
     respond (liftT (ParsePortalToken (hs_URL s) (k_Token (hs_Keys s)) token now)) (\<lambda>_. Status 400) (\<lambda>(claims, _).
     respond (InTx (GetSubscription (pc_SubscriptionRef claims))) (\<lambda>_. Status 404) (\<lambda>row.
     case (if s_ProcessorFamily row = ProcessorStripe then hs_StripePortal s else None) of
       Some session \<Rightarrow>
         retT (case session (case s_ProcessorCustomerID row of None \<Rightarrow> [] | Some c \<Rightarrow> c) (pc_ReturnURL claims) of
                 Inl _ \<Rightarrow> Status 502
               | Inr url \<Rightarrow> if url = [] then Status 502 else Redirect url)
     | None \<Rightarrow> renderAdyenPortal s token claims row)))"

text \<open>The embedded files are a parameter.\<close>

definition servePortalAsset :: "server \<Rightarrow> string \<Rightarrow> (world, response) tx" where
  "servePortalAsset s name = retT (case hs_Asset s name of None \<Rightarrow> Status 404 | Some raw \<Rightarrow> Body raw)"

definition portal_cancel_handler :: "server \<Rightarrow> (string \<Rightarrow> string) option \<Rightarrow> (world, response) tx" where
  "portal_cancel_handler s form =
     (case form of
        None \<Rightarrow> retT (Status 400)
      | Some val \<Rightarrow>
          let token = val ''token'' in
          if val ''csrf'' \<noteq> csrfFromToken token then retT (Status 403)
          else bindT nowT (\<lambda>now.
            respond (liftT (ParsePortalToken (hs_URL s) (k_Token (hs_Keys s)) token now)) (\<lambda>_. Status 400) (\<lambda>(claims, _).
            respond (if val ''mode'' = ''immediate'' then ExpireNow (pc_SubscriptionRef claims)
                     else CancelAtPeriodEnd (pc_SubscriptionRef claims))
              (\<lambda>_. Status 400) (\<lambda>_. retT (Redirect (pc_ReturnURL claims))))))"

section \<open>Reconciliation\<close>

definition snapshot_handler :: "server \<Rightarrow> string \<Rightarrow> string \<Rightarrow> (world, response) tx" where
  "snapshot_handler s ref authorization =
     bindT nowT (\<lambda>now.
     respond (liftT (VerifyReconcileHeader (k_Reconcile (hs_Keys s)) authorization (''/v1/subscriptions/'' @ ref) now))
       (\<lambda>_. Status 401) (\<lambda>_.
     respond (Snapshot ref) (\<lambda>_. Status 404) (\<lambda>snap. retT (Body (marshal_snapshot snap)))))"

section \<open>Webhooks\<close>

definition AcceptanceResponse :: bytes where
  "AcceptanceResponse = json_object [(''notificationResponse'', json_string True ''[accepted]'')]"


definition webhook_handler :: "server \<Rightarrow> string \<Rightarrow> (string \<Rightarrow> string) \<Rightarrow> bytes \<Rightarrow> (world, response) tx" where
  "webhook_handler s family header body =
     respond (IngestAndProcess (hs_Engine s) (hs_Webhook s family header (readBody maxWebhookBody body)) (hs_State s))
       (\<lambda>e. Status (if e = ErrInvalidSignature then 400 else 500))
       (\<lambda>_. retT (if family = ProcessorAdyen then Body AcceptanceResponse else Status 200))"

section \<open>Mock routes\<close>

text \<open>The query parameter, or the member of a strict body when it is blank.\<close>

definition mock_argument :: "string \<Rightarrow> string \<Rightarrow> bytes \<Rightarrow> string" where
  "mock_argument name query body =
     (if TrimSpace query \<noteq> [] then TrimSpace query
      else case bindR (UnmarshalStrict (readBody 4096 body) [name]) (\<lambda>ms. to_str (member ms name)) of
             Inl _ \<Rightarrow> [] | Inr v \<Rightarrow> v)"

definition mockActivate :: "string \<Rightarrow> bytes \<Rightarrow> (world, response) tx" where
  "mockActivate query body =
     respond (ActivateCheckout (mock_argument ''checkout_id'' query body)) (\<lambda>_. Status 400) (\<lambda>_. retT (Status 204))"

definition mockExpire :: "string \<Rightarrow> bytes \<Rightarrow> (world, response) tx" where
  "mockExpire query body =
     respond (ExpireNow (mock_argument ''subscription_ref'' query body)) (\<lambda>_. Status 400) (\<lambda>_. retT (Status 204))"

definition mockReplay :: "string \<Rightarrow> bytes \<Rightarrow> (world, response) tx" where
  "mockReplay query body =
     respond (ReplayLatest (mock_argument ''subscription_ref'' query body) ''mock-replay'' ''mock'') (\<lambda>_. Status 400)
       (\<lambda>_. retT (Status 204))"

section \<open>Routes\<close>

definition handle :: "server \<Rightarrow> request \<Rightarrow> (world, response) tx" where
  "handle s rq =
     (case rq of
        Health \<Rightarrow> retT (if hs_Healthy s then Body ''ok'' else Status 503)
      | Start token \<Rightarrow> start_handler s token
      | Portal token \<Rightarrow> portal_handler s token
      | PortalCSS \<Rightarrow> servePortalAsset s ''static/portal.css''
      | PortalJS \<Rightarrow> servePortalAsset s ''static/portal.js''
      | PortalCancel form \<Rightarrow> portal_cancel_handler s form
      | GetSnapshot ref authorization \<Rightarrow> snapshot_handler s ref authorization
      | Webhook family header body \<Rightarrow>
          if family = ProcessorStripe \<or> family = ProcessorAdyen then webhook_handler s family header body else retT (Status 404)
      | MockActivate query body \<Rightarrow> if hs_EnableMock s then mockActivate query body else retT (Status 404)
      | MockExpire query body \<Rightarrow> if hs_EnableMock s then mockExpire query body else retT (Status 404)
      | MockReplay query body \<Rightarrow> if hs_EnableMock s then mockReplay query body else retT (Status 404))"

section \<open>Cancelling through the portal\<close>

text \<open>Rendering the portal only takes random bytes.\<close>

lemma dropin_session_mem: "dropin_session s token row w = (r, w') \<Longrightarrow> mem w' = mem w \<and> clk w' = clk w"
  using NewOpaqueID_mem [of PaymentUpdatePrefix w "fst (NewOpaqueID PaymentUpdatePrefix w)" "snd (NewOpaqueID PaymentUpdatePrefix w)"]
  by (auto simp: dropin_session_def Let_def bindT_def NewPaymentUpdateReference_def
      split: option.splits sum.splits if_split_asm)

text \<open>A decision on one subscription leaves the other rows alone.\<close>

lemma commit_rows:
  assumes "commitChange c n ty w = (Inr u, w')"
  shows "k \<noteq> s_SubscriptionRef n \<Longrightarrow> map_of (subs w') k = map_of (subs w) k"
    and "map_of (subs w) (s_SubscriptionRef n) = Some s \<Longrightarrow> \<exists>t. map_of (subs w') (s_SubscriptionRef n) = Some (n\<lparr>s_UpdatedAt := t\<rparr>)"
proof -
  from assms obtain w1 w2 w3 where m: "mem w1 = mem w" "subs w3 = subs w2" "follow_up n ty w3 = (Inr u, w')"
    and wr: "(if s_SubscriptionRef c = [] then InsertSubscription n else UpdateSubscription n) w1 = (Inr (), w2)"
    by (rule commitChange_Inr) blast
  have "subs w' = subs w2"
    using keepsT_D [OF quiet_follow_up [unfolded quiet_def, rule_format, of "\<lambda>a b. a = subs w3"] _ m(3)] m(2) by simp
  with wr m(1) show "k \<noteq> s_SubscriptionRef n \<Longrightarrow> map_of (subs w') k = map_of (subs w) k"
    "map_of (subs w) (s_SubscriptionRef n) = Some s \<Longrightarrow> \<exists>t. map_of (subs w') (s_SubscriptionRef n) = Some (n\<lparr>s_UpdatedAt := t\<rparr>)"
    by (auto simp: InsertSubscription_def UpdateSubscription_def set_subs_def split: if_split_asm)
qed

text \<open>
  A decision on a stored row changes at most that row, to what was decided.
\<close>

lemma decide_commit_rows:
  assumes "decide_commit s obs now w = (Inr s', w')" and "map_of (subs w) (s_SubscriptionRef s) = Some s"
  obtains "subs w' = subs w"
    | dec t where "Decide s obs now = Inr dec" "\<not> d_Noop dec"
      "map_of (subs w') = (map_of (subs w))(s_SubscriptionRef s \<mapsto> (d_Next dec)\<lparr>s_UpdatedAt := t\<rparr>)"
proof -
  from assms(1) obtain dec where d: "Decide s obs now = Inr dec"
    "d_Noop dec \<and> w' = w \<or> \<not> d_Noop dec \<and> commitChange s (d_Next dec) (d_EventType dec) w = (Inr (), w')"
    by (auto simp: decide_commit_def bindT_eq_Inr thenT_eq_Inr split: if_split_asm)
  show ?thesis
  proof (cases "d_Noop dec")
    case True
    with d(2) show ?thesis by (intro that(1)) simp
  next
    case False
    with d have c: "commitChange s (d_Next dec) (d_EventType dec) w = (Inr (), w')" by simp
    have i: "s_SubscriptionRef (d_Next dec) = s_SubscriptionRef s"
      using Decide_identity [OF d(1) False] by (simp add: same_identity_def)
    from commit_rows(2) [OF c, unfolded i, OF assms(2)] obtain t
      where "map_of (subs w') (s_SubscriptionRef s) = Some ((d_Next dec)\<lparr>s_UpdatedAt := t\<rparr>)" by blast
    then show ?thesis using commit_rows(1) [OF c, unfolded i]
      by (intro that(2) [OF d(1) False, of t]) (auto simp: fun_eq_iff)
  qed
qed

lemma InTx_subs:
  assumes "InTx m w = (r, w')" and "r \<noteq> Inl ErrPanic"
  shows "subs w' = subs w \<or> (\<exists>x. m w = (Inr x, w'))"
  using assms by (cases rule: InTx_outcome) auto

lemma sub_key: "store_ok w \<Longrightarrow> map_of (subs w) i = Some s \<Longrightarrow> s_SubscriptionRef s = i"
  unfolding store_ok_def keyed_by_def by (blast dest: well_keyed_key)

text \<open>What the two ways to cancel make of a row.\<close>

definition ended :: "bool \<Rightarrow> subscription \<Rightarrow> subscription \<Rightarrow> bool" where
  "ended immediate s0 s1 \<longleftrightarrow> s_Status s0 \<noteq> StatusExpired
     \<and> s_Status s1 = (if immediate then StatusExpired else StatusCanceled) \<and> s_CancelAtPeriodEnd s1 = (\<not> immediate)
     \<and> s_StateVersion s1 = wrap64 (s_StateVersion s0 + 1) \<and> s_PlanID s1 = s_PlanID s0
     \<and> s_CurrentPeriodStart s1 = s_CurrentPeriodStart s0 \<and> s_CurrentPeriodEnd s1 = s_CurrentPeriodEnd s0"

lemma Decide_ended:
  assumes "Decide s (zero_observation\<lparr>ob_Status := StatusCanceled, ob_CancelAtPeriodEnd := True\<rparr>) now = Inr d \<and> \<not> im
      \<or> Decide s (zero_observation\<lparr>ob_Status := StatusExpired, ob_ImmediateExpire := True\<rparr>) now = Inr d \<and> im" and "\<not> d_Noop d"
  shows "ended im s ((d_Next d)\<lparr>s_UpdatedAt := t\<rparr>)"
proof -
  have live: "s_Status s \<noteq> StatusExpired" using assms Decide_expired by fastforce
  show ?thesis
    using assms live
    by (elim disjE conjE; elim Decide_branches)
      (auto simp: zero_observation_def ended_def moved_def candidate_period IsZero_def dest!: cancel_Inr expire_Inr split: if_splits)
qed

lemma cancel_rows:
  assumes "store_ok w" and "r \<noteq> Inl ErrPanic"
    and "(if im then ExpireNow ref else CancelAtPeriodEnd ref) w = (r, w')" and "map_of (subs w') k \<noteq> map_of (subs w) k"
  shows "r = Inr () \<and> k = ref \<and> (\<exists>s0 s1. map_of (subs w) k = Some s0 \<and> map_of (subs w') k = Some s1 \<and> ended im s0 s1)"
proof -
  let ?obs = "if im then zero_observation\<lparr>ob_Status := StatusExpired, ob_ImmediateExpire := True\<rparr>
    else zero_observation\<lparr>ob_Status := StatusCanceled, ob_CancelAtPeriodEnd := True\<rparr>"
  have tx: "InTx (bindT (GetSubscriptionForUpdate ref) (\<lambda>s. bindT (decide_commit s ?obs (Now w)) (\<lambda>_. retT ()))) w = (r, w')"
    using assms(3) by (simp add: CancelAtPeriodEnd_def ExpireNow_def nowT_def split: if_split_asm)
  with InTx_subs [OF this assms(2)] assms(4) obtain x
    where m: "bindT (GetSubscriptionForUpdate ref) (\<lambda>s. bindT (decide_commit s ?obs (Now w)) (\<lambda>_. retT ())) w = (Inr x, w')" by auto
  with tx have finished: "r = Inr ()" by (simp add: InTx_def)
  from m obtain s s' where s: "map_of (subs w) ref = Some s" and c: "decide_commit s ?obs (Now w) w = (Inr s', w')"
    by (auto simp: GetSubscriptionForUpdate_def GetSubscription_def lookup_row_def bindT_eq_Inr simp del: if_split split: option.splits)
  note key = sub_key [OF assms(1) s]
  from c show ?thesis
  proof (rule decide_commit_rows)
    show "map_of (subs w) (s_SubscriptionRef s) = Some s" using s key by simp
  next
    assume "subs w' = subs w"
    with assms(4) show ?thesis by simp
  next
    fix dec t assume d: "Decide s ?obs (Now w) = Inr dec" "\<not> d_Noop dec"
      and m: "map_of (subs w') = (map_of (subs w))(s_SubscriptionRef s \<mapsto> (d_Next dec)\<lparr>s_UpdatedAt := t\<rparr>)"
    have "ended im s ((d_Next dec)\<lparr>s_UpdatedAt := t\<rparr>)"
      by (rule Decide_ended [of s "Now w" dec]) (use d in \<open>auto split: if_split_asm\<close>)
    with m s key assms(4) finished show ?thesis by (auto split: if_split_asm)
  qed
qed

section \<open>Properties\<close>

lemma ParsePortalToken_Inr:
  "ParsePortalToken ul key token now = Inr (c, payload) \<longleftrightarrow>
     EncodeToken key payload = Inr token \<and> ParsePortalClaims ul payload = Inr c
     \<and> ValidateTokenLifetime (pc_Iat c) (pc_Exp c) now = Inr ()"
  by (auto simp: ParsePortalToken_def bindR_eq_Inr DecodeAndVerify_iff)

lemma respond_Inr:
  assumes "respond m f h w = (Inr x, w')"
  obtains e where "m w = (Inl e, w')" "e \<noteq> ErrPanic" "x = f e"
    | y w1 where "m w = (Inr y, w1)" "h y w1 = (Inr x, w')"
proof (cases "m w")
  case (Pair r w1)
  with assms that show ?thesis by (cases r) (auto simp: respond_def bindT_def split: if_split_asm)
qed

text \<open>A portal token for the row of \<open>sample_sub\<close>.\<close>

definition sample_portal :: portal_claims where
  "sample_portal = \<lparr>pc_SubscriptionRef = s_SubscriptionRef sample_sub, pc_ReturnURL = ''https://shop/'',
     pc_Iat = 1767225600, pc_Exp = 1767226200\<rparr>"

lemma sample_portal_token:
  "\<exists>token payload. ParsePortalToken sample_urllib [] token (1767225600 * second) = Inr (sample_portal, payload)"
proof -
  let ?vs = "[JStr ''sub_a8f3c1d2'', JStr ''https://shop'', JNum (format_int 1767225600), JNum (format_int 1767226200)]"
  let ?p = "json_object (zip portalFields [json_string False ''sub_a8f3c1d2'',
    json_string False ''https://shop'', format_int 1767225600, format_int 1767226200])"
  have utf: "utf8_valid ''sub_a8f3c1d2''" "utf8_valid ''https://shop''"
    by (rule utf8_valid_ascii; simp add: ord_def)+
  have ms: "UnmarshalStrict ?p portalFields = Inr (zip portalFields ?vs)"
    unfolding portalFields_def
    by (subst UnmarshalStrict_object [of _ ?vs])
      (auto simp: reads_string reads_int utf plain_name_def ord_def RejectIdentityFields_def)
  have ids: "ValidateSubscriptionRef ''sub_a8f3c1d2'' = Inr ()" by code_simp
  have url: "NormalizeReturnURL sample_urllib ''https://shop'' = Inr ''https://shop/''" by code_simp
  have claims: "ParsePortalClaims sample_urllib ?p = Inr sample_portal"
    by (simp add: ParsePortalClaims_def ms ids url)
      (simp add: portalFields_def to_str_ptr_def to_num_ptr_def require_def parseRequiredUnix_def ParseUnixSeconds_format ids url
        sample_portal_def sample_sub_def)
  have "unix_of (1767225600 * second) = 1767225600" by code_simp
  then have life: "ValidateTokenLifetime 1767225600 1767226200 (1767225600 * second) = Inr ()"
    by (subst ValidateTokenLifetime_iff) simp_all
  have plain: "plain_name ''sub_a8f3c1d2''" "plain_name ''https://shop''" by (simp_all add: plain_name_def ord_def)
  have "?p \<noteq> []" "length ?p \<le> 3000"
    by (simp_all add: json_object_def json_member_def portalFields_def json_string_plain [OF plain(1)]
      json_string_plain [OF plain(2)] length_format)
  then obtain token where "EncodeToken [] ?p = Inr token" using small_token by blast
  then have "ParsePortalToken sample_urllib [] token (1767225600 * second) = Inr (sample_portal, ?p)"
    by (simp add: ParsePortalToken_Inr claims life) (simp add: sample_portal_def life)
  then show ?thesis by blast
qed

text \<open>A store with that row and the event that reports it.\<close>

definition sample_report :: callback where
  "sample_report = \<lparr>cb_Protocol = ProtocolName, cb_Version = ProtocolVersion, cb_EventID = ''evt_1'', cb_EventType = EventActivated,
     cb_CheckoutID = s_CheckoutID sample_sub, cb_SubscriptionRef = s_SubscriptionRef sample_sub, cb_PlanID = s_PlanID sample_sub,
     cb_StateVersion = 1, cb_Status = StatusActive, cb_CurrentPeriodStart = FormatUTC 0, cb_CurrentPeriodEnd = FormatUTC (30 * second),
     cb_CancelAtPeriodEnd = False, cb_StateChangedAt = FormatUTC zero_time\<rparr>"

definition portal_world :: world where
  "portal_world = sample_world\<lparr>mem := NewMemory\<lparr>m_subs := [(s_SubscriptionRef sample_sub, sample_sub)],
     m_outbound := [(''evt_1'', zero_outbound_event\<lparr>o_EventID := ''evt_1'', o_EventType := EventActivated,
       o_SubscriptionRef := s_SubscriptionRef sample_sub, o_CheckoutID := s_CheckoutID sample_sub, o_StateVersion := 1,
       o_PayloadBody := marshal_callback sample_report\<rparr>)]\<rparr>\<rparr>"

lemma portal_world_now: "Now portal_world = 1767225600 * second"
  by (simp add: sample_now portal_world_def)

lemma portal_world_row: "map_of (subs portal_world) (s_SubscriptionRef sample_sub) = Some sample_sub"
  by (simp add: portal_world_def)

lemma sample_report_valid: "ValidateCallback sample_report = Inr ()" "SnapshotFromCallback sample_report = snapshotFrom sample_sub"
proof -
  have "wire_year 0" "wire_year (30 * second)" "wire_year zero_time" by code_simp+
  then have "ValidatePeriod (FormatUTC 0) (FormatUTC (30 * second)) (FormatUTC zero_time) = Inr ()"
    by (subst ValidatePeriod_FormatUTC) (simp_all add: TruncateUTC_def second_def)
  moreover have "ValidateEventID ''evt_1'' = Inr ()" "ValidateCheckoutID ''subchk_7f3a9c2e'' = Inr ()"
    "ValidateSubscriptionRef ''sub_a8f3c1d2'' = Inr ()" by code_simp+
  ultimately show "ValidateCallback sample_report = Inr ()"
    by (simp add: ValidateCallback_iff sample_report_def sample_sub_def allowed_pairs_def)
  show "SnapshotFromCallback sample_report = snapshotFrom sample_sub"
    by (simp add: SnapshotFromCallback_def snapshotFrom_def sample_report_def sample_sub_def zero_subscription_def)
qed

lemma portal_world_ok: "oinv {} {} portal_world"
proof -
  have o: "event_of portal_world k = (if k = ''evt_1'' then Some (EventActivated, s_SubscriptionRef sample_sub, s_CheckoutID sample_sub, 1,
      marshal_callback sample_report, o_CreatedAt zero_outbound_event) else None)" for k
    by (simp add: event_of_def portal_world_def bind_outbound_def)
  have v: "s_StateVersion sample_sub = 1" by (simp add: sample_sub_def)
  have "reports portal_world sample_sub ''evt_1''"
    using sample_report_valid by (simp add: reports_def o v) (auto simp: sample_report_def)
  then have "reported portal_world sample_sub" by (auto simp: reported_def v o)
  then have "outbox portal_world" using v by (auto simp: outbox_def o) (simp_all add: portal_world_def split: if_split_asm)
  moreover have "store_ok portal_world"
    by (simp add: portal_world_def store_ok_def keyed_by_def well_keyed_def vals_def NewMemory_def)
  ultimately show ?thesis by (simp add: oinv_def winv_def)
qed

lemma portal_world_event:
  "\<exists>k w1. NewEventID portal_world = (Inr k, w1) \<and> map_of (outbound portal_world) k = None"
proof -
  let ?b = "set_version_bits (word_bytes (1::128 word))"
  have "length ?b = 16" by simp
  then have "length (formatUUID ?b) = 36" by (rule length_formatUUID)
  then have "EventPrefix @ formatUUID ?b \<noteq> ''evt_1''" by auto
  then show ?thesis by (simp add: NewEventID_def NewOpaqueID_run portal_world_def sample_world_def ord_def)
qed

text \<open>
  An immediate cancellation of a live row that the outbox reports goes through: the row's identifiers
  are valid because an event reports them, and the version it moves to is free.
\<close>

lemma expiry_decided:
  assumes "s_Status s \<noteq> StatusExpired" and "s_CurrentPeriodStart s < s_CurrentPeriodEnd s"
  obtains d where "Decide s (zero_observation\<lparr>ob_Status := StatusExpired, ob_ImmediateExpire := True\<rparr>) now = Inr d"
    "\<not> d_Noop d" "d_EventType d = EventExpired" "snapshotFrom (d_Next d) = (snapshotFrom s)\<lparr>sn_StateVersion := wrap64 (s_StateVersion s + 1),
       sn_Status := StatusExpired, sn_CancelAtPeriodEnd := False, sn_StateChangedAt := FormatUTC (TruncateUTC now)\<rparr>"
  using assms
  by (cases "s_Status s \<noteq> StatusCanceled \<and> s_CanceledAt s = None")
    (auto simp: Decide_def Let_def candidate_def expire_def zero_observation_def IsZero_def zero_decision_def snapshotFrom_def)

lemma expiry_callback:
  assumes "reported w s" and "s_StateVersion s < 2 ^ 63 - 1" and "wire_year now" and "ValidateEventID k = Inr ()"
    and n: "snapshotFrom n = (snapshotFrom s)\<lparr>sn_StateVersion := wrap64 (s_StateVersion s + 1),
       sn_Status := StatusExpired, sn_CancelAtPeriodEnd := False, sn_StateChangedAt := FormatUTC (TruncateUTC now)\<rparr>"
  shows "\<exists>cb. NewCallback k EventExpired (s_CheckoutID n) (s_SubscriptionRef n) (s_PlanID n) (s_StateVersion n) (s_Status n)
        (s_CurrentPeriodStart n) (s_CurrentPeriodEnd n) (s_StateChangedAt n) (s_CancelAtPeriodEnd n) = Inr cb"
proof -
  from assms(1) obtain cb where cb: "ValidateCallback cb = Inr ()" "SnapshotFromCallback cb = snapshotFrom s" "1 \<le> s_StateVersion s"
    by (auto simp: reported_def reports_def)
  have "wrap64 (s_StateVersion s + 1) = s_StateVersion s + 1" using cb(3) assms(2) by (simp add: wrap64_id)
  moreover have "FormatUTC (TruncateUTC now) = FormatUTC now" by (simp add: FormatUTC_def)
  moreover have "(EventExpired, StatusExpired, False) \<in> set allowed_pairs" by (simp add: allowed_pairs_def)
  ultimately show ?thesis using cb n ParseUTC_FormatUTC [OF assms(3)] assms(4)
    by (auto simp: NewCallback_def Let_def ValidateCallback_iff SnapshotFromCallback_def snapshotFrom_def ValidatePeriod_def
        bindR_eq_Inr)
qed

lemma expiry_commits:
  assumes "oinv {} {} w" and "map_of (subs w) ref = Some s" and "s_StateVersion s < 2 ^ 63 - 1" and "wire_year now"
    and n: "snapshotFrom n = (snapshotFrom s)\<lparr>sn_StateVersion := wrap64 (s_StateVersion s + 1),
       sn_Status := StatusExpired, sn_CancelAtPeriodEnd := False, sn_StateChangedAt := FormatUTC (TruncateUTC now)\<rparr>"
    and "NewEventID w = (Inr k, w1)" and "map_of (outbound w) k = None"
  shows "\<exists>w'. commitChange s n EventExpired w = (Inr (), w') \<and> map_of (subs w') ref = Some (n\<lparr>s_UpdatedAt := Now w\<rparr>)"
proof -
  have ok: "store_ok w" and ob: "outbox w" using assms(1) by (auto simp: oinv_def winv_def)
  have key: "s_SubscriptionRef s = ref" using sub_key ok assms(2) .
  with n have nk: "s_SubscriptionRef n = ref" by (simp add: snapshotFrom_def)
  have rep: "reported w s" using ob assms(2) by (auto simp: outbox_def)
  from expiry_callback [OF rep assms(3,4) _ n, of k] NewEventID_valid [OF assms(6)] obtain cb
    where cb: "NewCallback k EventExpired (s_CheckoutID n) (s_SubscriptionRef n) (s_PlanID n) (s_StateVersion n) (s_Status n)
        (s_CurrentPeriodStart n) (s_CurrentPeriodEnd n) (s_StateChangedAt n) (s_CancelAtPeriodEnd n) = Inr cb" by blast
  have v: "s_StateVersion n = s_StateVersion s + 1" using n rep assms(3) by (simp add: snapshotFrom_def reported_def wrap64_id)
  have m: "mem w1 = mem w \<and> clk w1 = clk w" using NewOpaqueID_mem assms(6) by (simp add: NewEventID_def)
  have free: "\<not> (o_SubscriptionRef x = ref \<and> o_StateVersion x = s_StateVersion n)" if "x \<in> set (vals (outbound w))" for x
  proof
    assume x: "o_SubscriptionRef x = ref \<and> o_StateVersion x = s_StateVersion n"
    from that ok have "map_of (outbound w) (o_EventID x) = Some x"
      unfolding store_ok_def keyed_by_def by (blast dest: well_keyed_values)
    then have "event_of w (o_EventID x) = Some (o_EventType x, ref, o_CheckoutID x, s_StateVersion n, o_PayloadBody x, o_CreatedAt x)"
      using x by (simp add: event_of_def bind_outbound_def)
    with ob have "\<exists>s. map_of (subs w) ref = Some s \<and> s_StateVersion n \<le> s_StateVersion s" unfolding outbox_def by blast
    with assms(2) v show False by simp
  qed
  have nz: "ref \<noteq> []" using NewCallback_valid [OF cb] nk
    by (auto simp: ValidateCallback_iff ValidateSubscriptionRef_def ValidateOpaqueID_def)
  have "marshalCallback n EventExpired w = (Inr (marshal_callback cb, k), w1)"
    using assms(6) cb by (simp add: marshalCallback_def bindT_def)
  moreover have "list_ex (\<lambda>x. o_SubscriptionRef x = ref \<and> o_StateVersion x = s_StateVersion n) (vals (outbound w)) = False"
    using free by (auto simp: list_ex_iff)
  moreover have "Now w1 = Now w" using m by (simp add: Now_def)
  ultimately show ?thesis using m assms(2,7) key nk nz
    by (simp add: commitChange_def bindT_def thenT_def UpdateSubscription_def InsertOutbound_def nowT_def whenT_def
        CancelActionsForSubscription_def set_table_defs)
qed

lemma ExpireNow_runs:
  assumes "oinv {} {} w" and "map_of (subs w) ref = Some s" and "s_Status s \<noteq> StatusExpired"
    and "s_CurrentPeriodStart s < s_CurrentPeriodEnd s" and "s_StateVersion s < 2 ^ 63 - 1" and "wire_year (Now w)"
    and "NewEventID w = (Inr k, w1)" and "map_of (outbound w) k = None"
  shows "\<exists>w' s1. ExpireNow ref w = (Inr (), w') \<and> map_of (subs w') ref = Some s1 \<and> ended True s s1"
proof -
  let ?obs = "zero_observation\<lparr>ob_Status := StatusExpired, ob_ImmediateExpire := True\<rparr>"
  have key: "s_SubscriptionRef s = ref" using sub_key [OF oinv_ok [OF assms(1)] assms(2)] .
  from expiry_decided [OF assms(3,4), of "Now w"] obtain d where d: "Decide s ?obs (Now w) = Inr d" "\<not> d_Noop d"
    "d_EventType d = EventExpired" and n: "snapshotFrom (d_Next d) = (snapshotFrom s)\<lparr>sn_StateVersion := wrap64 (s_StateVersion s + 1),
       sn_Status := StatusExpired, sn_CancelAtPeriodEnd := False, sn_StateChangedAt := FormatUTC (TruncateUTC (Now w))\<rparr>"
    by blast
  from expiry_commits [OF assms(1,2,5,6) n assms(7,8)] obtain w'
    where c: "commitChange s (d_Next d) EventExpired w = (Inr (), w')" "map_of (subs w') ref = Some ((d_Next d)\<lparr>s_UpdatedAt := Now w\<rparr>)"
    by blast
  have "ExpireNow ref w = (Inr (), w')"
    using c d assms(2)
    by (simp add: ExpireNow_def nowT_def bindT_def thenT_def InTx_def GetSubscriptionForUpdate_def GetSubscription_def
        lookup_row_def decide_commit_def)
  moreover have "ended True s ((d_Next d)\<lparr>s_UpdatedAt := Now w\<rparr>)"
    using d by (intro Decide_ended [of s "Now w" d]) simp_all
  ultimately show ?thesis using c(2) by blast
qed

text \<open>
  C19. Expiring a subscription at once goes through: for a live row of a store whose outbox is in order,
  with a period that is ordered, a version below the largest \<open>int64\<close> and an event identifier that is
  new, \<open>ExpireNow\<close> returns without an error and leaves the row expired, its version advanced by one and
  its period as it was.
\<close>

theorem expire_now_succeeds:
  assumes "oinv {} {} w" and "map_of (subs w) ref = Some s" and "s_Status s \<noteq> StatusExpired"
    and "s_CurrentPeriodStart s < s_CurrentPeriodEnd s" and "s_StateVersion s < 2 ^ 63 - 1" and "wire_year (Now w)"
    and "NewEventID w = (Inr k, w1)" and "map_of (outbound w) k = None"
  shows "\<exists>w' s1. ExpireNow ref w = (Inr (), w') \<and> map_of (subs w') ref = Some s1 \<and> ended True s s1"
  by (rule ExpireNow_runs [OF assms])


theorem expire_now_succeeds_witness:
  "\<exists>w' s1. ExpireNow (s_SubscriptionRef sample_sub) portal_world = (Inr (), w')
     \<and> map_of (subs w') (s_SubscriptionRef sample_sub) = Some s1 \<and> ended True sample_sub s1"
proof -
  obtain k w1 where k: "NewEventID portal_world = (Inr k, w1)" "map_of (outbound portal_world) k = None"
    using portal_world_event by blast
  have "wire_year (1767225600 * second)" by code_simp
  then have "wire_year (Now portal_world)" by (simp only: portal_world_now)
  then show ?thesis
    by (intro expire_now_succeeds [OF portal_world_ok portal_world_row _ _ _ _ k])
      (simp_all add: sample_sub_def second_def)
qed


lemma sample_expiry:
  "\<exists>w' s1. ExpireNow (s_SubscriptionRef sample_sub) portal_world = (Inr (), w')
     \<and> map_of (subs w') (s_SubscriptionRef sample_sub) = Some s1 \<and> s_Status s1 = StatusExpired"
proof -
  obtain k w1 where k: "NewEventID portal_world = (Inr k, w1)" "map_of (outbound portal_world) k = None"
    using portal_world_event by blast
  have "wire_year (1767225600 * second)" by code_simp
  then have "wire_year (Now portal_world)" by (simp only: portal_world_now)
  then have "\<exists>w' s1. ExpireNow (s_SubscriptionRef sample_sub) portal_world = (Inr (), w')
     \<and> map_of (subs w') (s_SubscriptionRef sample_sub) = Some s1 \<and> ended True sample_sub s1"
    by (intro ExpireNow_runs [OF portal_world_ok portal_world_row _ _ _ _ k]) (simp_all add: sample_sub_def second_def)
  then show ?thesis by (auto simp: ended_def)
qed

text \<open>A server, and a cancellation that it accepts.\<close>

definition sample_server :: server where
  "sample_server = \<lparr>hs_URL = sample_urllib, hs_Keys = sample_keys, hs_Config = sample_config,
     hs_Engine = \<lparr>e_RenewalRetryDelays = [], e_DunningTermination = 0, e_StripePriceMap = [], e_Box = None\<rparr>,
     hs_Checkout = sample_adapters, hs_Webhook = (\<lambda>_ _ _. None), hs_State = (\<lambda>_ _. Inr None), hs_StripePortal = None,
     hs_AdyenSession = None, hs_Asset = (\<lambda>_. None), hs_Healthy = True, hs_EnableMock = False\<rparr>"

lemma sample_cancel_request:
  "\<exists>val w'. handle sample_server (PortalCancel (Some val)) portal_world = (Inr (Redirect ''https://shop/''), w')
     \<and> map_of (subs w') (s_SubscriptionRef sample_sub) \<noteq> map_of (subs portal_world) (s_SubscriptionRef sample_sub)
     \<and> val ''mode'' = ''immediate''"
proof -
  obtain token payload where t: "ParsePortalToken sample_urllib [] token (Now portal_world) = Inr (sample_portal, payload)"
    using sample_portal_token by (auto simp: portal_world_now)
  obtain w' s1 where e: "ExpireNow (s_SubscriptionRef sample_sub) portal_world = (Inr (), w')"
    and r: "map_of (subs w') (s_SubscriptionRef sample_sub) = Some s1" "s_Status s1 = StatusExpired"
    using sample_expiry by blast
  let ?val = "\<lambda>k. if k = ''token'' then token else if k = ''csrf'' then csrfFromToken token else ''immediate''"
  have "handle sample_server (PortalCancel (Some ?val)) portal_world = (Inr (Redirect ''https://shop/''), w')"
    using t e by (simp add: handle_def portal_cancel_handler_def Let_def nowT_def respond_def bindT_def sample_server_def
        sample_keys_def sample_portal_def)
  moreover have "s_Status sample_sub \<noteq> StatusExpired" by (simp add: sample_sub_def)
  then have "map_of (subs w') (s_SubscriptionRef sample_sub) \<noteq> map_of (subs portal_world) (s_SubscriptionRef sample_sub)"
    using r portal_world_row by auto
  ultimately show ?thesis by (intro exI [of _ ?val] exI [of _ w']) simp
qed

text \<open>
  C15. Who can cancel through the portal: when a cancellation request changes a subscription's row, the
  request carried the token's own check value, its token is the one the key's holder signed for exactly
  this subscription and is valid now, the row ended the way the chosen mode says, with its version
  advanced by one and its plan and period kept, and the answer sends the customer to the token's URL.
\<close>

theorem portal_cancel_authorized:
  assumes "store_ok w" and "handle s (PortalCancel form) w = (Inr r, w')" and "map_of (subs w') k \<noteq> map_of (subs w) k"
  shows "\<exists>val c payload s0 s1. form = Some val \<and> val ''csrf'' = csrfFromToken (val ''token'')
     \<and> ParsePortalToken (hs_URL s) (k_Token (hs_Keys s)) (val ''token'') (Now w) = Inr (c, payload)
     \<and> EncodeToken (k_Token (hs_Keys s)) payload = Inr (val ''token'') \<and> pc_SubscriptionRef c = k
     \<and> map_of (subs w) k = Some s0 \<and> map_of (subs w') k = Some s1 \<and> ended (val ''mode'' = ''immediate'') s0 s1
     \<and> r = Redirect (pc_ReturnURL c)"
proof -
  from assms(2,3) obtain val where f: "form = Some val" "val ''csrf'' = csrfFromToken (val ''token'')"
    and run: "respond (liftT (ParsePortalToken (hs_URL s) (k_Token (hs_Keys s)) (val ''token'') (Now w))) (\<lambda>_. Status 400) (\<lambda>(claims, _).
            respond (if val ''mode'' = ''immediate'' then ExpireNow (pc_SubscriptionRef claims)
                     else CancelAtPeriodEnd (pc_SubscriptionRef claims))
              (\<lambda>_. Status 400) (\<lambda>_. retT (Redirect (pc_ReturnURL claims)))) w = (Inr r, w')"
    by (auto simp: handle_def portal_cancel_handler_def Let_def nowT_def split: option.splits if_split_asm)
  from run obtain c payload where p: "ParsePortalToken (hs_URL s) (k_Token (hs_Keys s)) (val ''token'') (Now w) = Inr (c, payload)"
    and call: "respond (if val ''mode'' = ''immediate'' then ExpireNow (pc_SubscriptionRef c) else CancelAtPeriodEnd (pc_SubscriptionRef c))
              (\<lambda>_. Status 400) (\<lambda>_. retT (Redirect (pc_ReturnURL c))) w = (Inr r, w')"
    using assms(3) by (elim respond_Inr) auto
  from call obtain q where q: "(if val ''mode'' = ''immediate'' then ExpireNow (pc_SubscriptionRef c) else CancelAtPeriodEnd (pc_SubscriptionRef c)) w = (q, w')"
    "q \<noteq> Inl ErrPanic" "q = Inr () \<Longrightarrow> r = Redirect (pc_ReturnURL c)"
    by (elim respond_Inr) (auto split: if_split_asm)
  from cancel_rows [OF assms(1) q(2,1) assms(3)] q(3) p f show ?thesis
    unfolding ParsePortalToken_Inr by blast
qed


theorem portal_cancel_authorized_witness:
  "\<exists>val w' s1. handle sample_server (PortalCancel (Some val)) portal_world = (Inr (Redirect ''https://shop/''), w')
     \<and> map_of (subs w') (s_SubscriptionRef sample_sub) = Some s1 \<and> ended True sample_sub s1"
proof -
  obtain val w' where run: "handle sample_server (PortalCancel (Some val)) portal_world = (Inr (Redirect ''https://shop/''), w')"
    and ch: "map_of (subs w') (s_SubscriptionRef sample_sub) \<noteq> map_of (subs portal_world) (s_SubscriptionRef sample_sub)"
    and im: "val ''mode'' = ''immediate''"
    using sample_cancel_request by blast
  from portal_cancel_authorized [OF oinv_ok [OF portal_world_ok] run ch] run im portal_world_row
  show ?thesis by auto
qed

end
