(* ===== verification/Adyen.thy ===== *)
theory Adyen
  imports Processor
begin

text \<open>
  \<^verbatim>\<open>internal/adapters/adyen/adyen.go\<close>: the verification and normalisation of Adyen's notifications, the
  canonical body of a renewal charge and the classification of Adyen's answers.  The transport is a
  parameter; so are the two ways \<open>stringify\<close> renders values Adyen does not send as strings: \<open>num\<close> is a
  number read through \<open>float64\<close> and truncated, \<open>sprint\<close> is \<open>fmt.Sprint\<close> of an object or array.  The
  clock of the adapter is the argument \<open>now\<close>.
\<close>

section \<open>Endpoints\<close>

abbreviation APIVersion :: string where "APIVersion \<equiv> ''v71''"

record adyen =
  ad_APIKey :: string
  ad_HMACKey :: string
  ad_Environment :: string
  ad_LivePrefix :: string

definition CheckoutEndpoint :: "adyen \<Rightarrow> string" where
  "CheckoutEndpoint a =
     (if ad_Environment a = ''live''
      then ''https://'' @ ad_LivePrefix a @ ''-checkout-live.adyenpayments.com/checkout/'' @ APIVersion
      else ''https://checkout-test.adyen.com/checkout/'' @ APIVersion)"

definition PaymentsURL :: "adyen \<Rightarrow> string" where
  "PaymentsURL a = CheckoutEndpoint a @ ''/payments''"

section \<open>The canonical charge\<close>

text \<open>
  \<open>strings.ToUpper\<close> of the currency is its ASCII part: a currency is an ISO 4217 code.
\<close>

definition writeJSONString :: "string \<Rightarrow> bytes" where
  "writeJSONString s = json_string True s"

definition CanonicalPaymentBody :: "string \<Rightarrow> string \<Rightarrow> string \<Rightarrow> string \<Rightarrow> string \<Rightarrow> int \<Rightarrow> bytes" where
  "CanonicalPaymentBody merchant currency reference shopper token amount =
     json_object
       [(''merchantAccount'', writeJSONString merchant),
        (''amount'', json_object [(''value'', format_int amount), (''currency'', writeJSONString (to_upper currency))]),
        (''reference'', writeJSONString reference),
        (''shopperReference'', writeJSONString shopper),
        (''shopperInteraction'', writeJSONString ''ContAuth''),
        (''recurringProcessingModel'', writeJSONString ''Subscription''),
        (''storedPaymentMethodId'', writeJSONString token)]"

section \<open>Charging\<close>

text \<open>
  The transport is a function of endpoint, idempotency key and body: a request that cannot be built (the
  endpoint is no URL), one that gets no answer, or the answer's status and body.  The error beside an
  uncertain result is part of the result.
\<close>

datatype outcome = Unsent gerr | Unanswered gerr | Answered int bytes

type_synonym transport = "string \<Rightarrow> string \<Rightarrow> bytes \<Rightarrow> outcome"

definition sendExact :: "adyen \<Rightarrow> transport \<Rightarrow> string \<Rightarrow> string \<Rightarrow> bytes \<Rightarrow> renewal_result \<times> gerr option" where
  "sendExact a http endpoint0 idemp body =
     (let endpoint = (if endpoint0 = [] then PaymentsURL a else endpoint0);
          uncertain = zero_renewal_result\<lparr>rw_Uncertain := True\<rparr>
      in case http endpoint idemp body of
           Unsent e \<Rightarrow> (zero_renewal_result, Some e)
         | Unanswered e \<Rightarrow> (uncertain, Some e)
         | Answered code raw0 \<Rightarrow>
             let raw = take 1048576 raw0
             in if 500 \<le> code \<or> code = 0 then (uncertain, Some (ErrOther ''adyen http''))
                else let ms = (case json_document raw of Some (JObj ms) \<Rightarrow> ms | _ \<Rightarrow> []);
                         psp = field_str ms ''pspReference'';
                         result = field_str ms ''resultCode'';
                         refusal = field_str ms ''refusalReasonCode''
                     in if result = ''Authorised''
                        then (zero_renewal_result\<lparr>rw_Status := ''authorized'', rw_ProcessorPaymentID := psp\<rparr>, None)
                        else if result = ''Refused'' \<or> result = ''Cancelled'' \<or> result = ''Error''
                        then (zero_renewal_result\<lparr>rw_Status := ''refused'', rw_ProcessorPaymentID := psp,
                                rw_RefusalCode := refusal\<rparr>, None)
                        else if 400 \<le> code \<and> code < 500 \<and> code \<noteq> 409
                        then (zero_renewal_result\<lparr>rw_Status := ''refused'', rw_RefusalCode := format_int code\<rparr>, None)
                        else (uncertain, None))"

definition ChargeRenewal :: "adyen \<Rightarrow> transport \<Rightarrow> renewal_request \<Rightarrow> renewal_result \<times> gerr option" where
  "ChargeRenewal a http rq = sendExact a http (rr_Endpoint rq) (rr_IdempotencyKey rq) (rr_CanonicalBody rq)"

definition ResolveRenewalAttempt :: "adyen \<Rightarrow> transport \<Rightarrow> renewal_attempt \<Rightarrow> renewal_result \<times> gerr option" where
  "ResolveRenewalAttempt a http att = sendExact a http (ra_Endpoint att) (ra_IdempotencyKey att) (ra_CanonicalBody att)"

section \<open>Notifications\<close>

definition stringify :: "(string \<Rightarrow> int) \<Rightarrow> (json \<Rightarrow> string) \<Rightarrow> json option \<Rightarrow> string" where
  "stringify num sprint v =
     (case v of
        None \<Rightarrow> ''<nil>''
      | Some JNull \<Rightarrow> ''<nil>''
      | Some (JStr s) \<Rightarrow> s
      | Some (JBool b) \<Rightarrow> if b then ''true'' else ''false''
      | Some (JNum n) \<Rightarrow> format_int (num n)
      | Some v \<Rightarrow> sprint v)"

text \<open>\<open>base64.StdEncoding\<close>.\<close>

definition std_base64 :: "bytes \<Rightarrow> string" where
  "std_base64 s = map (\<lambda>c. if c = CHR ''-'' then CHR ''+'' else if c = CHR ''_'' then CHR ''/'' else c) (b64_encode s)
     @ replicate ((3 - length s mod 3) mod 3) (CHR ''='')"

definition adyen_payload :: "(string \<Rightarrow> int) \<Rightarrow> (json \<Rightarrow> string) \<Rightarrow> (string \<times> json) list \<Rightarrow> bytes" where
  "adyen_payload num sprint item =
     (let amount = (case jobj (jget item ''amount'') of None \<Rightarrow> [] | Some m \<Rightarrow> m);
          str = stringify num sprint
      in join_with '':''
           [str (jget item ''pspReference''), str (jget item ''originalReference''),
            str (jget item ''merchantAccountCode''), str (jget item ''merchantReference''),
            str (jget amount ''value''), str (jget amount ''currency''),
            str (jget item ''eventCode''), str (jget item ''success'')])"

definition verifyAdyenItem ::
  "(string \<Rightarrow> int) \<Rightarrow> (json \<Rightarrow> string) \<Rightarrow> (string \<times> json) list \<Rightarrow> string \<Rightarrow> gerr + unit" where
  "verifyAdyenItem num sprint item hmacKeyHex =
     (if TrimSpace hmacKeyHex = [] then Inl ErrInvalidSignature
      else case jobj (jget item ''additionalData'') of
             None \<Rightarrow> Inl ErrInvalidSignature
           | Some add \<Rightarrow>
               let got = stringify num sprint (jget add ''hmacSignature'')
               in if got = [] then Inl ErrInvalidSignature
                  else case hex_decode hmacKeyHex of
                         None \<Rightarrow> Inl ErrInvalidSignature
                       | Some key \<Rightarrow>
                           if got \<noteq> std_base64 (hmac_sha256 key (adyen_payload num sprint item))
                           then Inl ErrInvalidSignature else Inr ())"

text \<open>A nil map yields the empty string, before any lookup.\<close>

fun additionalString ::
  "(string \<Rightarrow> int) \<Rightarrow> (json \<Rightarrow> string) \<Rightarrow> (string \<times> json) list option \<Rightarrow> string list \<Rightarrow> string" where
  "additionalString num sprint None ks = []"
| "additionalString num sprint (Some add) [] = []"
| "additionalString num sprint (Some add) (k # ks) =
     (let s = stringify num sprint (jget add k) in if s \<noteq> [] then s else additionalString num sprint (Some add) ks)"

definition storedPaymentMethodID ::
  "(string \<Rightarrow> int) \<Rightarrow> (json \<Rightarrow> string) \<Rightarrow> (string \<times> json) list option \<Rightarrow> string" where
  "storedPaymentMethodID num sprint add =
     additionalString num sprint add [''recurring.recurringDetailReference'', ''tokenization.storedPaymentMethodId'']"

definition checkoutIDFromNotification ::
  "(string \<Rightarrow> int) \<Rightarrow> (json \<Rightarrow> string) \<Rightarrow> string \<Rightarrow> (string \<times> json) list option \<Rightarrow> string" where
  "checkoutIDFromNotification num sprint merchantRef add =
     (let id1 = additionalString num sprint add [''metadata.checkout_id''];
          md = (case add of None \<Rightarrow> None | Some a \<Rightarrow> jobj (jget a ''metadata''));
          id2 = (case md of None \<Rightarrow> [] | Some m \<Rightarrow> stringify num sprint (jget m ''checkout_id''))
      in if ValidateCheckoutID id1 = Inr () then id1
         else if md \<noteq> None \<and> ValidateCheckoutID id2 = Inr () then id2
         else if ValidateCheckoutID merchantRef = Inr () then merchantRef
         else [])"

definition set_field :: "string \<Rightarrow> anyval \<Rightarrow> (string \<times> anyval) list \<Rightarrow> (string \<times> anyval) list" where
  "set_field k v fs = AList.update k v fs"

definition normalize_item ::
  "(string \<Rightarrow> int) \<Rightarrow> (json \<Rightarrow> string) \<Rightarrow> gotime \<Rightarrow> bytes \<Rightarrow> (string \<times> json) list \<Rightarrow> normalized_event" where
  "normalize_item num sprint now body item =
     (let str = stringify num sprint;
          eventCode = jstr (jget item ''eventCode'');
          success = (str (jget item ''success'') = ''true'');
          psp = jstr (jget item ''pspReference'');
          orig = jstr (jget item ''originalReference'');
          merchantRef = jstr (jget item ''merchantReference'');
          add = jobj (jget item ''additionalData'');
          eventID = join_with '':'' [psp, eventCode, str (jget item ''success''), orig];
          fields = [(''processor_payment_id'', AStr psp), (''provider_status'', AStr eventCode),
                    (''provider_occurred_at'', AStr (FormatUTC now)), (''success'', ABool success)];
          (kind, fields) =
            (if eventCode = ''AUTHORISATION'' then
               (if has_prefix merchantRef AttemptPrefix then
                  (let fields = set_field ''attempt_reference'' (AStr merchantRef) fields;
                       rc = jstr (jget item ''reason'')
                   in (KindAdyenRenewalAuthorisation,
                       if \<not> success \<and> rc \<noteq> [] then set_field ''refusal_code'' (AStr rc) fields else fields))
                else
                  (let co = checkoutIDFromNotification num sprint merchantRef add
                   in (KindAdyenInitialAuthorisation,
                       if co \<noteq> [] then set_field ''checkout_id'' (AStr co) fields else fields)))
             else if eventCode = ''CANCELLATION'' \<or> eventCode = ''CANCEL_OR_REFUND'' then
               (KindAdyenContractChanged,
                if orig \<noteq> [] then set_field ''processor_payment_id'' (AStr orig) fields else fields)
             else (KindAdyenOperationalAdjustment, fields));
          tok = storedPaymentMethodID num sprint add
      in \<lparr>n_ProcessorFamily = ProcessorAdyen, n_ProcessorEventID = eventID, n_ProviderEventType = eventCode,
          n_NormalizedKind = kind, n_PayloadHash = sha256 body, n_OccurredAt = now, n_Fields = fields,
          n_SensitivePlain =
            (if success \<and> eventCode = ''AUTHORISATION'' \<and> kind = KindAdyenInitialAuthorisation then tok else [])\<rparr>)"

text \<open>
  Decoding the envelope, as \<^verbatim>\<open>json.Unmarshal\<close> does into a struct with a slice of structs with a map.  A repeated
  member is decoded onto what is there: members are put into the same map, elements onto the elements of the
  slice, and those beyond its end onto what its array still holds.  The elements of that array, of which the
  first are the slice, are threaded; \<open>None\<close> as an element is a nil map, \<open>None\<close> as a result an error.
\<close>

type_synonym request_item = "(string \<times> json) list option"

fun item_members :: "request_item \<Rightarrow> (string \<times> json) list \<Rightarrow> request_item option" where
  "item_members it [] = Some it"
| "item_members it ((k, v) # ms) =
     (if fold_name k \<noteq> fold_name ''NotificationRequestItem'' then item_members it ms
      else case v of
             JNull \<Rightarrow> item_members None ms
           | JObj new \<Rightarrow>
               if numbers_ok (JObj new)
               then item_members (Some (case it of None \<Rightarrow> new | Some old \<Rightarrow> old @ new)) ms else None
           | _ \<Rightarrow> None)"

definition item_request :: "request_item \<Rightarrow> json \<Rightarrow> request_item option" where
  "item_request it v = (case v of JNull \<Rightarrow> Some it | JObj ms \<Rightarrow> item_members it ms | _ \<Rightarrow> None)"

fun array_items :: "request_item list \<Rightarrow> json list \<Rightarrow> request_item list option" where
  "array_items held [] = Some held"
| "array_items held (v # vs) =
     (case item_request (case held of [] \<Rightarrow> None | it # _ \<Rightarrow> it) v of
        None \<Rightarrow> None
      | Some it \<Rightarrow> map_option ((#) it) (array_items (drop 1 held) vs))"

definition slice_items :: "request_item list \<times> nat \<Rightarrow> json \<Rightarrow> (request_item list \<times> nat) option" where
  "slice_items items v =
     (case v of
        JNull \<Rightarrow> Some ([], 0)
      | JArr vs \<Rightarrow> if vs = [] then Some ([], 0) else map_option (\<lambda>held. (held, length vs)) (array_items (fst items) vs)
      | _ \<Rightarrow> None)"

fun envelope_members :: "request_item list \<times> nat \<Rightarrow> (string \<times> json) list \<Rightarrow> (request_item list \<times> nat) option" where
  "envelope_members items [] = Some items"
| "envelope_members items ((k, v) # ms) =
     (if fold_name k \<noteq> fold_name ''notificationItems'' then envelope_members items ms
      else case slice_items items v of None \<Rightarrow> None | Some items \<Rightarrow> envelope_members items ms)"

definition notification_items :: "bytes \<Rightarrow> request_item list option" where
  "notification_items body =
     (case json_document body of
        Some JNull \<Rightarrow> Some []
      | Some (JObj ms) \<Rightarrow> map_option (\<lambda>(held, n). take n held) (envelope_members ([], 0) ms)
      | _ \<Rightarrow> None)"

text \<open>An item without a request is skipped.\<close>

fun normalize_items ::
  "(string \<Rightarrow> int) \<Rightarrow> (json \<Rightarrow> string) \<Rightarrow> adyen \<Rightarrow> gotime \<Rightarrow> bytes \<Rightarrow> request_item list
     \<Rightarrow> gerr + normalized_event list" where
  "normalize_items num sprint a now body [] = Inr []"
| "normalize_items num sprint a now body (None # is) = normalize_items num sprint a now body is"
| "normalize_items num sprint a now body (Some item # is) =
     bindR (verifyAdyenItem num sprint item (ad_HMACKey a)) (\<lambda>_.
     bindR (normalize_items num sprint a now body is) (\<lambda>evs.
     Inr (normalize_item num sprint now body item # evs)))"

definition ParseWebhook ::
  "(string \<Rightarrow> int) \<Rightarrow> (json \<Rightarrow> string) \<Rightarrow> adyen \<Rightarrow> gotime \<Rightarrow> bytes \<Rightarrow> gerr + normalized_event list" where
  "ParseWebhook num sprint a now body =
     (case notification_items body of
        None \<Rightarrow> Inl ErrInvalidJSON
      | Some is \<Rightarrow> normalize_items num sprint a now body is)"

section \<open>Sessions\<close>

text \<open>
  \<open>json.Decoder.Decode\<close> into a struct of strings reads the first value of the answer and leaves the rest.
  A member of another type is an error; a null leaves the field as it is.
\<close>

fun string_members :: "(string \<times> json) list \<Rightarrow> string \<Rightarrow> string \<Rightarrow> gerr + string" where
  "string_members [] name s = Inr s"
| "string_members ((k, v) # ms) name s =
     (if fold_name k \<noteq> fold_name name then string_members ms name s
      else case v of
             JNull \<Rightarrow> string_members ms name s
           | JStr t \<Rightarrow> string_members ms name t
           | _ \<Rightarrow> Inl ErrInvalidJSON)"

definition decode_pair :: "string \<Rightarrow> string \<Rightarrow> bytes \<Rightarrow> gerr + string \<times> string" where
  "decode_pair f g raw =
     (case json_value raw of
        Some (JNull, _) \<Rightarrow> Inr ([], [])
      | Some (JObj ms, _) \<Rightarrow>
          if json_depth (JObj ms) \<le> 10000
          then bindR (string_members ms f []) (\<lambda>x. bindR (string_members ms g []) (\<lambda>y. Inr (x, y)))
          else Inl ErrInvalidJSON
      | _ \<Rightarrow> Inl ErrInvalidJSON)"

definition postJSON :: "transport \<Rightarrow> string \<Rightarrow> string \<Rightarrow> bytes \<Rightarrow> string \<Rightarrow> string \<Rightarrow> gerr + string \<times> string" where
  "postJSON http url idemp payload f g =
     (case http url idemp payload of
        Unsent e \<Rightarrow> Inl e
      | Unanswered e \<Rightarrow> Inl e
      | Answered code raw \<Rightarrow> if 300 \<le> code then Inl (ErrOther ''adyen http'') else decode_pair f g raw)"

text \<open>The payload of both sessions, as \<open>json.Marshal\<close> writes a map: its keys in order.\<close>

definition session_payload ::
  "string \<Rightarrow> int \<Rightarrow> string \<Rightarrow> string \<Rightarrow> string \<Rightarrow> string \<Rightarrow> string \<Rightarrow> string \<Rightarrow> bytes" where
  "session_payload merchant amount currency reference returnURL country shopper checkoutID =
     json_object
       [(''amount'', json_object [(''currency'', json_string True currency), (''value'', format_int amount)]),
        (''countryCode'', json_string True country),
        (''merchantAccount'', json_string True merchant),
        (''metadata'', json_object [(''checkout_id'', json_string True checkoutID)]),
        (''recurringProcessingModel'', json_string True ''Subscription''),
        (''reference'', json_string True reference),
        (''returnUrl'', json_string True returnURL),
        (''shopperInteraction'', json_string True ''Ecommerce''),
        (''shopperReference'', json_string True shopper),
        (''storePaymentMethod'', ''true'')]"

text \<open>\<open>timeout\<close> is \<open>IsTimeout\<close>; a failed request returns its uncertainty beside the error.\<close>

definition zero_checkout_result :: checkout_result where
  "zero_checkout_result = \<lparr>rs_RedirectURL = [], rs_ProcessorCheckoutID = [], rs_ProcessorCustomerID = [],
     rs_ExpiresAt = zero_time, rs_Uncertain = False\<rparr>"

definition AdyenCreateCheckout ::
  "(gerr \<Rightarrow> bool) \<Rightarrow> adyen \<Rightarrow> transport \<Rightarrow> checkout_request \<Rightarrow> checkout_result \<times> gerr option" where
  "AdyenCreateCheckout timeout a http rq =
     (case postJSON http (CheckoutEndpoint a @ ''/sessions'') (rq_IdempotencyKey rq)
             (session_payload (rq_MerchantAccount rq) (rq_AmountMinor rq) (rq_Currency rq) (rq_CheckoutID rq)
                (rq_ReturnURL rq) (rq_CountryCode rq) (rq_ShopperRef rq) (rq_CheckoutID rq))
             ''id'' ''url'' of
        Inl e \<Rightarrow> (zero_checkout_result\<lparr>rs_Uncertain := timeout e\<rparr>, Some e)
      | Inr (i, url) \<Rightarrow>
          (zero_checkout_result\<lparr>rs_RedirectURL := (if url = [] then rq_ReturnURL rq else url),
             rs_ProcessorCheckoutID := i, rs_ExpiresAt := rq_ExpiresAt rq\<rparr>, None))"

definition CreatePaymentUpdateSession ::
  "adyen \<Rightarrow> transport \<Rightarrow> payment_update_request \<Rightarrow> gerr + payment_update_session" where
  "CreatePaymentUpdateSession a http rq =
     bindR (postJSON http (CheckoutEndpoint a @ ''/sessions'') (pu_IdempotencyKey rq)
        (session_payload (pu_MerchantAccount rq) (pu_AmountMinor rq) (pu_Currency rq) (pu_IdempotencyKey rq)
           (pu_ReturnURL rq) (pu_CountryCode rq) (pu_ShopperRef rq) (pu_CheckoutID rq))
        ''id'' ''sessionData'') (\<lambda>(i, d).
     bindR (guardR (i \<noteq> [] \<and> d \<noteq> []) (ErrOther ''adyen session incomplete'')) (\<lambda>_.
     Inr \<lparr>us_ID = i, us_SessionData = d\<rparr>))"

text \<open>Adyen has no portal and no subscription object: the bridge hosts the one and keeps the other.\<close>

definition AdyenCreatePortalSession :: "string \<Rightarrow> string \<Rightarrow> gerr + string" where
  "AdyenCreatePortalSession customer returnURL = Inr returnURL"

definition AdyenCancelSubscription :: "string \<Rightarrow> bool \<Rightarrow> gerr + unit" where
  "AdyenCancelSubscription subID atPeriodEnd = Inr ()"

definition AdyenGetSubscription :: "string \<Rightarrow> string \<Rightarrow> gerr + subscription_state option" where
  "AdyenGetSubscription family subID = Inr None"

section \<open>What a notification is trusted for\<close>

text \<open>
  An item signed with the configured key: its signature is the base64 of the HMAC of eight of its values, joined by
  colons.
\<close>

definition signed_item :: "(string \<Rightarrow> int) \<Rightarrow> (json \<Rightarrow> string) \<Rightarrow> string \<Rightarrow> (string \<times> json) list \<Rightarrow> bool" where
  "signed_item num sprint keyHex item \<longleftrightarrow>
     (let val = (\<lambda>k. stringify num sprint (jget item k));
          amount = (\<lambda>k. stringify num sprint (case jget item ''amount'' of Some (JObj m) \<Rightarrow> jget m k | _ \<Rightarrow> None))
      in TrimSpace keyHex \<noteq> []
        \<and> (\<exists>add key. jget item ''additionalData'' = Some (JObj add) \<and> hex_decode keyHex = Some key
            \<and> stringify num sprint (jget add ''hmacSignature'') = std_base64 (hmac_sha256 key
                (val ''pspReference'' @ '':'' @ val ''originalReference'' @ '':'' @ val ''merchantAccountCode'' @ '':''
                 @ val ''merchantReference'' @ '':'' @ amount ''value'' @ '':'' @ amount ''currency'' @ '':''
                 @ val ''eventCode'' @ '':'' @ val ''success''))))"

lemma adyen_payload_spelled:
  "adyen_payload num sprint item =
     (let val = (\<lambda>k. stringify num sprint (jget item k));
          amount = (\<lambda>k. stringify num sprint (case jget item ''amount'' of Some (JObj m) \<Rightarrow> jget m k | _ \<Rightarrow> None))
      in val ''pspReference'' @ '':'' @ val ''originalReference'' @ '':'' @ val ''merchantAccountCode'' @ '':''
         @ val ''merchantReference'' @ '':'' @ amount ''value'' @ '':'' @ amount ''currency'' @ '':''
         @ val ''eventCode'' @ '':'' @ val ''success'')"
  by (simp add: adyen_payload_def jobj_def jget_def Let_def split: option.split json.split)

lemma std_base64_nonempty: "std_base64 (hmac_sha256 k m) \<noteq> []"
  by (simp add: std_base64_def)

lemma jobj_Some: "jobj v = Some ms \<longleftrightarrow> v = Some (JObj ms)" and jobj_JObj [simp]: "jobj (Some (JObj ms)) = Some ms"
  by (auto simp: jobj_def split: option.splits json.splits)

lemma verifyAdyenItem_signed:
  "verifyAdyenItem num sprint item keyHex
     = (if signed_item num sprint keyHex item then Inr () else Inl ErrInvalidSignature)"
proof (cases "jobj (jget item ''additionalData'')")
  case None
  then have "jget item ''additionalData'' \<noteq> Some (JObj add)" for add by (auto simp: jobj_def)
  with None show ?thesis by (simp add: verifyAdyenItem_def signed_item_def Let_def)
next
  case (Some add)
  then have add: "jget item ''additionalData'' = Some (JObj add)" by (simp add: jobj_Some)
  have "signed_item num sprint keyHex item \<longleftrightarrow> TrimSpace keyHex \<noteq> [] \<and> (\<exists>key. hex_decode keyHex = Some key
      \<and> stringify num sprint (jget add ''hmacSignature'') = std_base64 (hmac_sha256 key (adyen_payload num sprint item)))"
    unfolding signed_item_def adyen_payload_spelled Let_def add by blast
  with Some std_base64_nonempty [symmetric] show ?thesis
    by (auto simp: verifyAdyenItem_def Let_def split: option.split)
qed

lemma normalize_items_signed:
  "normalize_items num sprint a now body is =
     (if list_all (signed_item num sprint (ad_HMACKey a)) (List.map_filter (\<lambda>i. i) is)
      then Inr (map (normalize_item num sprint now body) (List.map_filter (\<lambda>i. i) is))
      else Inl ErrInvalidSignature)"
  by (induction num sprint a now body "is" rule: normalize_items.induct)
    (simp_all add: verifyAdyenItem_signed map_filter_simps)

text \<open>A document of the usual shape: one list of items, each with its request.\<close>

definition plain_notification :: "(string \<times> json) list list \<Rightarrow> json" where
  "plain_notification items =
     JObj [(''notificationItems'', JArr (map (\<lambda>it. JObj [(''NotificationRequestItem'', JObj it)]) items))]"

lemma array_items_plain:
  "list_all (numbers_ok \<circ> JObj) items \<Longrightarrow>
   array_items [] (map (\<lambda>it. JObj [(''NotificationRequestItem'', JObj it)]) items) = Some (map Some items)"
  by (induction items) (simp_all add: item_request_def del: numbers_ok.simps)

lemma notification_items_plain:
  assumes "json_document body = Some (plain_notification items)" and "list_all (numbers_ok \<circ> JObj) items"
  shows "notification_items body = Some (map Some items)"
  using assms array_items_plain [OF assms(2)]
  by (simp add: notification_items_def plain_notification_def slice_items_def)

text \<open>
  C33. Adyen's notifications are authentic: a body is answered with events exactly when it decodes to items of which
  each carries the base64 of the HMAC, under the configured key, of its references, account, amount, event
  code and success, joined by colons; then there is one event per item, in order, and one bad item refuses them all.
  A document of the usual shape, whose numbers are 64-bit floats, decodes to the items it lists.
\<close>

theorem adyen_authentic:
  "ParseWebhook num sprint a now body =
     (case notification_items body of
        None \<Rightarrow> Inl ErrInvalidJSON
      | Some is \<Rightarrow>
          let present = List.map_filter (\<lambda>i. i) is
          in if list_all (signed_item num sprint (ad_HMACKey a)) present
             then Inr (map (normalize_item num sprint now body) present)
             else Inl ErrInvalidSignature)
   \<and> (\<forall>items. json_document body = Some (plain_notification items) \<and> list_all (numbers_ok \<circ> JObj) items \<longrightarrow>
       ParseWebhook num sprint a now body =
         (if list_all (signed_item num sprint (ad_HMACKey a)) items
          then Inr (map (normalize_item num sprint now body) items) else Inl ErrInvalidSignature))"
proof -
  have "List.map_filter (\<lambda>i. i) (map Some items) = items" for items :: "(string \<times> json) list list"
    by (induction items) (simp_all add: map_filter_simps)
  then show ?thesis
    using notification_items_plain [of body]
    by (auto simp: ParseWebhook_def normalize_items_signed Let_def split: option.splits)
qed

text \<open>A signed notification is accepted.\<close>

definition sample_notification :: bytes where
  "sample_notification = map (\<lambda>c. if c = CHR ''~'' then QUOTE else c)
     ''{~notificationItems~:[{~NotificationRequestItem~:{~success~:true}}]}''"

lemma sample_notification_plain: "json_document sample_notification = Some (plain_notification [[(''success'', JBool True)]])"
  by code_simp

theorem adyen_authentic_witness:
  "ParseWebhook (\<lambda>_. 0) (\<lambda>_. []) \<lparr>ad_APIKey = [], ad_HMACKey = ''0f'', ad_Environment = [], ad_LivePrefix = []\<rparr> 0
     sample_notification = Inl ErrInvalidSignature"
proof -
  have "\<not> signed_item (\<lambda>_. 0) (\<lambda>_. []) ''0f'' [(''success'', JBool True)]" by (simp add: signed_item_def Let_def jget_def)
  with adyen_authentic [of "\<lambda>_. 0" "\<lambda>_. []" "\<lparr>ad_APIKey = [], ad_HMACKey = ''0f'', ad_Environment = [], ad_LivePrefix = []\<rparr>" 0
      sample_notification] sample_notification_plain
  show ?thesis by auto
qed

text \<open>
  A stored payment method under the second of its two names is lost: when an initial authorisation names
  it only as \<open>tokenization.storedPaymentMethodId\<close>, the absent first name is rendered \<open><nil>\<close>, which is
  taken for the payment method; and an absent \<open>originalReference\<close> is signed as the same five characters.
\<close>

theorem adyen_token_lost:
  assumes "jobj (jget item ''additionalData'') = Some add"
    and "jget add ''recurring.recurringDetailReference'' = None"
    and "jstr (jget item ''eventCode'') = ''AUTHORISATION''"
    and "stringify num sprint (jget item ''success'') = ''true''"
    and "\<not> has_prefix (jstr (jget item ''merchantReference'')) AttemptPrefix"
    and "jget item ''originalReference'' = None"
  shows "n_SensitivePlain (normalize_item num sprint now body item) = ''<nil>''
    \<and> adyen_payload num sprint item = adyen_payload num sprint (item @ [(''originalReference'', JStr ''<nil>'')])"
proof
  have "storedPaymentMethodID num sprint (Some add) = ''<nil>''"
    using assms(2) by (simp add: storedPaymentMethodID_def stringify_def Let_def)
  then show "n_SensitivePlain (normalize_item num sprint now body item) = ''<nil>''"
    using assms by (simp add: normalize_item_def Let_def)
  have "jget (item @ [(''originalReference'', v)]) k = (if k = ''originalReference'' then Some v else jget item k)" for v k
    by (simp add: jget_def)
  with assms(6) show "adyen_payload num sprint item
      = adyen_payload num sprint (item @ [(''originalReference'', JStr ''<nil>'')])"
    by (simp add: adyen_payload_def stringify_def Let_def)
qed

definition sample_item :: "(string \<times> json) list" where
  "sample_item = [(''eventCode'', JStr ''AUTHORISATION''), (''success'', JStr ''true''),
     (''merchantReference'', JStr ''m''),
     (''additionalData'', JObj [(''tokenization.storedPaymentMethodId'', JStr ''TOKEN'')])]"

theorem adyen_token_lost_witness:
  "n_SensitivePlain (normalize_item (\<lambda>_. 0) (\<lambda>_. []) 0 [] sample_item) = ''<nil>''"
proof -
  have "jobj (jget sample_item ''additionalData'') = Some [(''tokenization.storedPaymentMethodId'', JStr ''TOKEN'')]"
    and "jstr (jget sample_item ''eventCode'') = ''AUTHORISATION''"
    and "stringify (\<lambda>_. 0) (\<lambda>_. []) (jget sample_item ''success'') = ''true''"
    and "\<not> has_prefix (jstr (jget sample_item ''merchantReference'')) AttemptPrefix"
    and "jget sample_item ''originalReference'' = None"
    by (simp_all add: sample_item_def jget_def jobj_def jstr_def stringify_def has_prefix_def)
  from adyen_token_lost [OF this(1) _ this(2-5)] show ?thesis by (simp add: jget_def)
qed

end
