(* ===== verification/Scheduler.thy ===== *)
theory Scheduler
  imports Outbox Adyen
begin

text \<open>
  \<^verbatim>\<open>internal/scheduler/scheduler.go\<close>: one round of the scheduler claims a due expiry, prepares and charges
  a due renewal, and resolves an uncertain charge.  The processor's answers to a charge and to the replay
  of one are parameters.  The scheduler's clock is the store's, as it is unless a test sets another.
\<close>

section \<open>The scheduler\<close>

record scheduler =
  sc_Engine :: engine
  sc_Adyen :: "adyen option"
  sc_Box :: "box option"
  sc_Config :: config
  sc_Lease :: duration

type_synonym charger = "renewal_request \<Rightarrow> renewal_result \<times> gerr option"
type_synonym resolver = "renewal_attempt \<Rightarrow> renewal_result \<times> gerr option"

definition claim_lease :: "scheduler \<Rightarrow> duration" where
  "claim_lease s = (if 0 < sc_Lease s then sc_Lease s else 2 * minute)"

text \<open>\<open>newID\<close> is the engine's \<open>newUUID\<close>.\<close>

section \<open>Expiry\<close>

definition expire_action :: "subscription \<Rightarrow> scheduled_action \<Rightarrow> gotime \<Rightarrow> (world, unit) tx" where
  "expire_action row action now =
     bindT (liftT (Decide row (zero_observation\<lparr>ob_Status := StatusExpired\<rparr>) now)) (\<lambda>dec.
     thenT (Commit row dec) (
     bindT (deref (a_ClaimToken action)) (\<lambda>tok.
     FinishAction (a_ActionID action) tok (a_FencingToken action) ''completed'' None None)))"

definition runExpire :: "scheduler \<Rightarrow> (world, unit) tx" where
  "runExpire s =
     bindT nowT (\<lambda>now.
     InTx (bindT (attemptT (ClaimDueAction now (claim_lease s) ''pending'' [ActionExpire])) (\<lambda>r. case r of
       Inl e \<Rightarrow> if e = ErrNotFound then retT () else errT e
     | Inr action \<Rightarrow>
         bindT (GetSubscriptionForUpdate (a_SubscriptionRef action)) (\<lambda>row. expire_action row action now))))"

section \<open>Preparing a charge\<close>

definition open_attempt :: "charge_attempt \<Rightarrow> bool" where
  "open_attempt a \<longleftrightarrow> t_Status a = ''prepared'' \<or> t_Status a = ''uncertain'' \<or> t_Status a = ''running''"

text \<open>The number after the greatest one used, from 1.\<close>

definition next_number :: "charge_attempt list \<Rightarrow> int" where
  "next_number as = fold (\<lambda>a n. if n \<le> t_AttemptNumber a then wrap64 (t_AttemptNumber a + 1) else n) as 1"

text \<open>The stored payment method, decrypted; empty when there is none or no box to open it with.\<close>

definition payment_token :: "box option \<Rightarrow> subscription \<Rightarrow> gerr + string" where
  "payment_token b row =
     (case (b, s_PaymentMethodKeyVersion row) of
        (Some box, Some ver) \<Rightarrow>
          if s_PaymentMethodCiphertext row = [] then Inr []
          else Open box (s_PaymentMethodCiphertext row) (s_PaymentMethodNonce row)
                 (AAD ''payment-method'' (s_SubscriptionRef row)) ver
      | _ \<Rightarrow> Inr [])"

definition seal_request :: "box option \<Rightarrow> string \<Rightarrow> bytes \<Rightarrow> (world, bytes \<times> bytes \<times> string) tx" where
  "seal_request b attemptID body =
     (case b of None \<Rightarrow> retT (body, [], VersionV1)
      | Some box \<Rightarrow> Seal box body (AAD ''charge-request'' attemptID))"

definition new_attempt ::
  "scheduler \<Rightarrow> plan \<Rightarrow> subscription \<Rightarrow> string \<Rightarrow> string \<Rightarrow> int \<Rightarrow> string \<Rightarrow> bytes \<Rightarrow> bytes \<times> bytes \<times> string
     \<Rightarrow> charge_attempt" where
  "new_attempt s p row attemptID actionID number ref body = (\<lambda>(ct, nonce, ver).
     zero_charge_attempt\<lparr>t_AttemptID := attemptID, t_ActionID := actionID,
       t_SubscriptionRef := s_SubscriptionRef row,
       t_PeriodStart := s_CurrentPeriodEnd row, t_PeriodEnd := AddCalendarMonths (s_CurrentPeriodEnd row) 1,
       t_AttemptNumber := number,
       t_ProviderEndpoint := (case sc_Adyen s of None \<Rightarrow> [] | Some a \<Rightarrow> PaymentsURL a),
       t_ProviderAPIVersion := APIVersion, t_MerchantAccount := ap_MerchantAccount (pl_Adyen p),
       t_AmountMinor := pl_AmountMinor p, t_Currency := pl_Currency p, t_AttemptReference := ref,
       t_ShopperReference := (case s_ProcessorShopperReference row of None \<Rightarrow> [] | Some r \<Rightarrow> r),
       t_ShopperInteraction := ''ContAuth'', t_RecurringProcessingModel := ''Subscription'',
       t_IdempotencyKey := ''sb_charge_'' @ ref, t_RequestFingerprint := sha256 body,
       t_RequestCiphertext := ct, t_RequestNonce := nonce, t_RequestKeyVersion := ver,
       t_Status := ''prepared''\<rparr>)"

definition charge_body :: "plan \<Rightarrow> subscription \<Rightarrow> string \<Rightarrow> string \<Rightarrow> bytes" where
  "charge_body p row ref token =
     CanonicalPaymentBody (ap_MerchantAccount (pl_Adyen p)) (pl_Currency p) ref
       (case s_ProcessorShopperReference row of None \<Rightarrow> [] | Some r \<Rightarrow> r) token (pl_AmountMinor p)"

text \<open>A conflict on insertion is looked into once more before it is returned.\<close>

definition insert_attempt :: "charge_attempt \<Rightarrow> (world, charge_attempt) tx" where
  "insert_attempt a =
     bindT (attemptT (InsertAttempt a)) (\<lambda>r. case r of
       Inr _ \<Rightarrow> retT a
     | Inl e \<Rightarrow>
         if e = ErrConflict
         then bindT (GetAttemptsForAction (t_ActionID a)) (\<lambda>as.
                case find open_attempt as of Some x \<Rightarrow> retT x | None \<Rightarrow> errT e)
         else errT e)"

definition prepare_attempt :: "scheduler \<Rightarrow> subscription \<Rightarrow> string \<Rightarrow> int \<Rightarrow> (world, charge_attempt) tx" where
  "prepare_attempt s row actionID number =
     bindT (liftT (ResolvePlan (sc_Config s) (s_PlanID row))) (\<lambda>(p, _).
     bindT (liftT (payment_token (sc_Box s) row)) (\<lambda>token.
     bindT NewAttemptReference (\<lambda>ref.
     let body = charge_body p row ref token
     in bindT newUUID (\<lambda>attemptID.
        bindT (seal_request (sc_Box s) attemptID body) (\<lambda>sealed.
        insert_attempt (new_attempt s p row attemptID actionID number ref body sealed))))))"

definition ensurePrepared :: "scheduler \<Rightarrow> scheduled_action \<Rightarrow> (world, charge_attempt) tx" where
  "ensurePrepared s action =
     bindT (GetSubscriptionForUpdate (a_SubscriptionRef action)) (\<lambda>row.
     thenT (guardT (\<not> s_AutomaticChargingBlocked row) ErrAutomaticChargeBlocked) (
     bindT (GetAttemptsForAction (a_ActionID action)) (\<lambda>as.
     case find open_attempt as of
       Some a \<Rightarrow> retT a
     | None \<Rightarrow> prepare_attempt s row (a_ActionID action) (next_number as))))"

section \<open>Charging\<close>

text \<open>The claim of an action and of its attempt, before the processor is called.\<close>

definition resolution_deadline :: "scheduler \<Rightarrow> gotime \<Rightarrow> gotime" where
  "resolution_deadline s now =
     (if g_AdyenResolutionDeadline (sc_Config s) \<le> 0 then now + 144 * hour else now + g_AdyenResolutionDeadline (sc_Config s))"

definition claim_attempt ::
  "scheduler \<Rightarrow> string \<Rightarrow> string \<Rightarrow> gotime \<Rightarrow> (world, scheduled_action \<times> charge_attempt) tx" where
  "claim_attempt s actionID attemptID now =
     bindT (ClaimAction actionID now (claim_lease s)) (\<lambda>claimed.
     case a_ClaimToken claimed of
       None \<Rightarrow> errT ErrNotOwned
     | Some tok \<Rightarrow> ClaimAttemptWithAction (a_ActionID claimed) attemptID tok (a_FencingToken claimed) now (claim_lease s) (resolution_deadline s now))"

definition request_body :: "box option \<Rightarrow> charge_attempt \<Rightarrow> gerr + bytes" where
  "request_body b att =
     (case b of None \<Rightarrow> Inr (t_RequestCiphertext att)
      | Some box \<Rightarrow>
          if t_RequestNonce att = [] then Inr (t_RequestCiphertext att)
          else Open box (t_RequestCiphertext att) (t_RequestNonce att) (AAD ''charge-request'' (t_AttemptID att))
                 (t_RequestKeyVersion att))"

definition call_processor ::
  "charger \<Rightarrow> resolver \<Rightarrow> bool \<Rightarrow> charge_attempt \<Rightarrow> bytes \<Rightarrow> renewal_result \<times> gerr option" where
  "call_processor charge resolve replay att body =
     (if replay
      then resolve \<lparr>ra_Endpoint = t_ProviderEndpoint att, ra_APIVersion = t_ProviderAPIVersion att,
             ra_IdempotencyKey = t_IdempotencyKey att, ra_CanonicalBody = body, ra_AttemptRef = t_AttemptReference att\<rparr>
      else charge (zero_renewal_request\<lparr>rr_Endpoint := t_ProviderEndpoint att, rr_APIVersion := t_ProviderAPIVersion att,
             rr_IdempotencyKey := t_IdempotencyKey att, rr_CanonicalBody := body,
             rr_AttemptReference := t_AttemptReference att, rr_MerchantAccount := t_MerchantAccount att,
             rr_AmountMinor := t_AmountMinor att, rr_Currency := t_Currency att\<rparr>))"

text \<open>
  What the processor answered, recorded under the claim.  An answer that comes after the claim was lost is
  dropped.  \<open>call_failed\<close> is \<open>callErr != nil\<close>.  Go indexes the delays with \<open>AttemptNumber-1\<close>.
\<close>

definition record_uncertain ::
  "scheduled_action \<Rightarrow> string \<Rightarrow> charge_attempt \<Rightarrow> gotime \<Rightarrow> (world, unit) tx" where
  "record_uncertain action claim cur now =
     (let cur = cur\<lparr>t_Status := ''uncertain'', t_ClaimToken := None, t_LeaseUntil := None\<rparr>;
          due = (case t_ResolutionDeadline cur of None \<Rightarrow> now + minute
                 | Some d \<Rightarrow> if d < now + minute then d else now + minute)
      in thenT (UpdateAttempt cur)
           (FinishAction (a_ActionID action) claim (a_FencingToken action) ''uncertain'' (Some due) (Some ''uncertain'')))"

definition record_authorized ::
  "scheduled_action \<Rightarrow> string \<Rightarrow> charge_attempt \<Rightarrow> renewal_result \<Rightarrow> gotime \<Rightarrow> (world, unit) tx" where
  "record_authorized action claim cur res now =
     (let cur = cur\<lparr>t_Status := ''authorized'', t_ProcessorPaymentID := Some (rw_ProcessorPaymentID res),
            t_CompletedAt := Some now, t_ClaimToken := None, t_LeaseUntil := None\<rparr>
      in thenT (UpdateAttempt cur) (
         bindT (GetSubscriptionForUpdate (a_SubscriptionRef action)) (\<lambda>row.
         bindT (liftT (Decide row (zero_observation\<lparr>ob_Status := StatusActive,
             ob_PeriodStart := t_PeriodStart cur, ob_PeriodEnd := t_PeriodEnd cur\<rparr>) now)) (\<lambda>dec.
         thenT (Commit row dec)
           (FinishAction (a_ActionID action) claim (a_FencingToken action) ''completed'' None None)))))"

definition refused_attempt :: "charge_attempt \<Rightarrow> renewal_result \<Rightarrow> gotime \<Rightarrow> charge_attempt" where
  "refused_attempt cur res now =
     (let cur = cur\<lparr>t_Status := ''refused''\<rparr>;
          cur = (if rw_ProcessorPaymentID res \<noteq> [] then cur\<lparr>t_ProcessorPaymentID := Some (rw_ProcessorPaymentID res)\<rparr> else cur);
          cur = (if rw_RefusalCode res \<noteq> [] then cur\<lparr>t_RefusalReasonCode := Some (rw_RefusalCode res)\<rparr> else cur)
      in cur\<lparr>t_CompletedAt := Some now, t_ClaimToken := None, t_LeaseUntil := None\<rparr>)"

definition dunning ::
  "scheduler \<Rightarrow> scheduled_action \<Rightarrow> string \<Rightarrow> subscription \<Rightarrow> charge_attempt \<Rightarrow> renewal_result \<Rightarrow> gotime \<Rightarrow> (world, unit) tx" where
  "dunning s action claim row cur res now =
     (if \<not> IsRetryableRefusal (rw_RefusalCode res)
         \<or> int (length (g_RenewalRetryDelays (sc_Config s))) \<le> t_AttemptNumber cur
      then thenT (FinishAction (a_ActionID action) claim (a_FencingToken action) ''completed'' None (Some ''refused'')) (
           let target = TruncateUTC (now + g_DunningTermination (sc_Config s));
               key = ActionKey (s_SubscriptionRef row) ActionExpire target
           in bindT newUUID (\<lambda>aid. insertActionOnce (new_action aid key (s_SubscriptionRef row) ActionExpire target)))
      else if t_AttemptNumber cur < 1 then errT ErrPanic
      else FinishAction (a_ActionID action) claim (a_FencingToken action) ''pending''
             (Some (now + g_RenewalRetryDelays (sc_Config s) ! nat (t_AttemptNumber cur - 1))) (Some ''refused''))"

definition record_refused ::
  "scheduler \<Rightarrow> scheduled_action \<Rightarrow> string \<Rightarrow> charge_attempt \<Rightarrow> renewal_result \<Rightarrow> gotime \<Rightarrow> (world, unit) tx" where
  "record_refused s action claim cur0 res now =
     (let cur = refused_attempt cur0 res now
      in thenT (UpdateAttempt cur) (
         bindT (GetSubscriptionForUpdate (a_SubscriptionRef action)) (\<lambda>row.
         bindT (liftT (Decide row (zero_observation\<lparr>ob_Status := StatusPastDue\<rparr>) now)) (\<lambda>dec.
         thenT (Commit row dec) (dunning s action claim row cur res now)))))"

definition record_outcome ::
  "scheduler \<Rightarrow> scheduled_action \<Rightarrow> charge_attempt \<Rightarrow> renewal_result \<Rightarrow> bool \<Rightarrow> gotime \<Rightarrow> (world, unit) tx" where
  "record_outcome s action att res call_failed now =
     (let claim = (case a_ClaimToken action of None \<Rightarrow> [] | Some c \<Rightarrow> c)
      in bindT (GetAttempt (t_AttemptID att)) (\<lambda>cur.
         if t_ClaimToken cur \<noteq> Some claim \<or> t_FencingToken cur \<noteq> a_FencingToken action then retT ()
         else if call_failed \<or> rw_Uncertain res then record_uncertain action claim cur now
         else if rw_Status res = ''authorized'' then record_authorized action claim cur res now
         else record_refused s action claim cur res now))"

definition submit ::
  "scheduler \<Rightarrow> charger \<Rightarrow> resolver \<Rightarrow> scheduled_action \<Rightarrow> charge_attempt \<Rightarrow> bool \<Rightarrow> (world, unit) tx" where
  "submit s charge resolve action0 att0 replay =
     bindT nowT (\<lambda>now.
     bindT (attemptT (InTx (claim_attempt s (a_ActionID action0) (t_AttemptID att0) now))) (\<lambda>r. case r of
       Inl e \<Rightarrow> if e = ErrNotOwned \<or> e = ErrNotFound \<or> e = ErrAutomaticChargeBlocked then retT () else errT e
     | Inr (action, att) \<Rightarrow>
         bindT (liftT (request_body (sc_Box s) att)) (\<lambda>body.
         case call_processor charge resolve replay att body of
           (res, callErr) \<Rightarrow> InTx (record_outcome s action att res (callErr \<noteq> None) now))))"

section \<open>A round\<close>

definition runRenew :: "scheduler \<Rightarrow> charger \<Rightarrow> resolver \<Rightarrow> (world, unit) tx" where
  "runRenew s charge resolve =
     bindT (attemptT (InTx (bindT nowT (\<lambda>now.
        bindT (LockDueAction now ''pending'' [ActionRenew]) (\<lambda>action.
        bindT (ensurePrepared s action) (\<lambda>att. retT (action, att))))))) (\<lambda>r. case r of
       Inl e \<Rightarrow> if e = ErrNotFound \<or> e = ErrAutomaticChargeBlocked then retT () else errT e
     | Inr (action, att) \<Rightarrow> submit s charge resolve action att False)"

text \<open>
  The transaction of \<open>runUncertain\<close>: the open attempt of the due action, or \<open>None\<close> when its resolution
  deadline has passed and it went to manual review.
\<close>

definition uncertain_tx :: "gotime \<Rightarrow> (world, (scheduled_action \<times> charge_attempt) option) tx" where
  "uncertain_tx now =
     bindT (LockDueAction now ''uncertain'' [ActionRenew]) (\<lambda>action.
     bindT (GetAttemptsForAction (a_ActionID action)) (\<lambda>as.
     case find (\<lambda>a. t_Status a = ''uncertain'' \<or> t_Status a = ''running'') as of
       None \<Rightarrow> errT ErrNotFound
     | Some att \<Rightarrow>
         if (case t_ResolutionDeadline att of None \<Rightarrow> False | Some d \<Rightarrow> \<not> now < d)
         then thenT (UpdateAttempt (att\<lparr>t_Status := ''manual_review'', t_ClaimToken := None, t_LeaseUntil := None\<rparr>)) (
              thenT (ForceFinishAction (a_ActionID action) ''manual_review'' None (Some ''resolution_deadline'')) (
              bindT (GetSubscriptionForUpdate (a_SubscriptionRef action)) (\<lambda>row.
              thenT (BlockAutomaticCharging row ''resolution_deadline'' now) (retT None))))
         else retT (Some (action, att))))"

definition runUncertain :: "scheduler \<Rightarrow> charger \<Rightarrow> resolver \<Rightarrow> (world, unit) tx" where
  "runUncertain s charge resolve =
     bindT nowT (\<lambda>now.
     bindT (attemptT (InTx (uncertain_tx now))) (\<lambda>r. case r of
       Inl e \<Rightarrow> if e = ErrNotFound then retT () else errT e
     | Inr None \<Rightarrow> retT ()
     | Inr (Some (action, att)) \<Rightarrow> submit s charge resolve action att True))"

definition RunOnce :: "scheduler \<Rightarrow> charger \<Rightarrow> resolver \<Rightarrow> (world, unit) tx" where
  "RunOnce s charge resolve =
     thenT (runExpire s) (thenT (runRenew s charge resolve) (runUncertain s charge resolve))"

section \<open>The outbox is kept\<close>

lemma trip_Commit:
  assumes "row \<in> c" and "Decide row obs now = Inr dec"
  shows "tripT (oinv P c) (Commit row dec) (\<lambda>_. oinv P {})"
  unfolding Commit_def
  by (intro tripT_if tripT_post [OF commit_decision [OF assms]] tripT_ret) (auto elim: oinv_mono)

lemma trip_action_ops [trip]:
  "tripT (oinv P c) (ClaimAction i now d) (\<lambda>_. oinv P c)"
  "tripT (oinv P c) (LockDueAction now st ks) (\<lambda>_. oinv P c)"
  "tripT (oinv P c) (GetAttemptsForAction i) (\<lambda>_. oinv P c)"
  "tripT (oinv P c) (ClaimAttemptWithAction i j t n now d dl) (\<lambda>_. oinv P c)"
  by (rule trip_quiet; intro quietI keeps quiet_I)+

lemma ClaimDueAction_error: "ClaimDueAction now d st ks w = (Inl e, w') \<Longrightarrow> mem w' = mem w"
  by (auto simp: ClaimDueAction_def ClaimAction_def LockDueAction_def lookup_row_def bindT_def thenT_def Let_def
      split: option.splits prod.splits sum.splits if_split_asm dest!: newToken_mem)

lemma trip_claim_due:
  "tripT (oinv P c) (attemptT (ClaimDueAction now d st ks)) (\<lambda>_. oinv P c)"
proof (rule tripT_post [OF trip_attempt])
  show "tripT (oinv P c) (ClaimDueAction now d st ks) (\<lambda>_. oinv P c)"
    by (rule trip_quiet; intro quietI keeps)
  show "oinv P c w'" if "oinv P c w" "ClaimDueAction now d st ks w = (Inl e, w')" for w e w'
    using mem_onlyD [OF mem_only_oinv ClaimDueAction_error [OF that(2)] that(1)] .
qed (auto split: sum.splits)

lemma safe_runExpire [safe]: "safeT (oinv P {}) (runExpire s)"
  unfolding runExpire_def expire_action_def
  by (intro safe tripT_bind [OF trip_claim_due] tripT_sum tripT_if trip_done pins tripT_err
      tripT_bind [OF read_subscription(2)] tripT_lift tripT_then [OF trip_Commit] tripT_bind [OF trip_deref]
      tripT_post [OF trip_quiet_ops(8)]) (auto intro: oinv_weak)

lemma find_attempts:
  assumes "\<And>x. tripT (oinv P c) (m x) B"
    and "\<And>a x. tripT (oinv (insert (PinAttempt (t_AttemptID a) (bind_attempt a)) P) c) (f a x) B"
  shows "tripT (oinv P c) (bindT (GetAttemptsForAction i) (\<lambda>as. case find p as of None \<Rightarrow> m as | Some a \<Rightarrow> f a as)) B"
proof (rule tripT_I)
  fix w y w' assume i: "oinv P c w"
    and r: "bindT (GetAttemptsForAction i) (\<lambda>as. case find p as of None \<Rightarrow> m as | Some a \<Rightarrow> f a as) w = (Inr y, w')"
  let ?as = "sort_key t_AttemptNumber (filter (\<lambda>a. t_ActionID a = i) (vals (attempts w)))"
  have r: "(case find p ?as of None \<Rightarrow> m ?as | Some a \<Rightarrow> f a ?as) w = (Inr y, w')"
    using r by (simp add: GetAttemptsForAction_def bindT_def)
  show "B y w'"
  proof (cases "find p ?as")
    case None
    then show ?thesis using r tripT_D [OF assms(1) i] by simp
  next
    case (Some a)
    then have "a \<in> set ?as" by (metis find_Some_iff nth_mem)
    then have "a \<in> set (vals (attempts w))" by simp
    then have "pinned w (PinAttempt (t_AttemptID a) (bind_attempt a))"
      using store_ok_members(2) [OF oinv_ok [OF i]] by (simp add: pinned_def)
    then show ?thesis using r Some tripT_D [OF assms(2) oinv_pinned [OF i]] by simp
  qed
qed

lemma InsertAttempt_error: "InsertAttempt a w = (Inl e, w') \<Longrightarrow> w' = w"
  by (auto simp: InsertAttempt_def split: if_split_asm)

lemma trip_insert_attempt: "tripT (oinv P c) (insert_attempt a) (\<lambda>_. oinv P c)"
proof -
  have A: "tripT (oinv P c) (attemptT (InsertAttempt a)) (\<lambda>_. oinv P c)"
  proof (rule tripT_post [OF trip_attempt])
    show "tripT (oinv P c) (InsertAttempt a) (\<lambda>_. oinv P c)" by (rule trip_quiet; intro quietI keeps)
  qed (auto split: sum.splits dest: InsertAttempt_error)
  show ?thesis
    unfolding insert_attempt_def
    by (intro tripT_bind [OF A] tripT_bind [OF trip_action_ops(3)] tripT_sum tripT_if tripT_err tripT_ret tripT_option)
qed

lemma trip_seal_request: "tripT (oinv P c) (seal_request b i body) (\<lambda>_. oinv P c)"
  unfolding seal_request_def by (intro tripT_option tripT_ret trip_Seal)

lemma trip_ensurePrepared: "tripT (oinv P c) (ensurePrepared s action) (\<lambda>_. oinv P {})"
  unfolding ensurePrepared_def prepare_attempt_def NewAttemptReference_def Let_def
  by (intro tripT_bind [OF read_subscription(2)] tripT_guard tripT_bind [OF trip_action_ops(3)] tripT_option trip_done pins
      tripT_lift tripT_prod tripT_bind [OF trip_quiet_ops(1)] tripT_bind [OF trip_quiet_ops(2)]
      tripT_bind [OF trip_seal_request] trip_weak [OF trip_insert_attempt] subset_refl)

lemma trip_claim_attempt: "tripT (oinv P c) (claim_attempt s i j now) (\<lambda>_. oinv P c)"
  unfolding claim_attempt_def by (intro tripT_bind [OF trip_action_ops(1)] tripT_option tripT_err trip_action_ops)

lemma trip_record_uncertain:
  assumes "PinAttempt (t_AttemptID a) (bind_attempt a) \<in> P"
  shows "tripT (oinv P c) (record_uncertain action claim a now) (\<lambda>_. oinv P c)"
  unfolding record_uncertain_def Let_def
  by (intro tripT_then [OF trip_update_attempt] trip_quiet_ops) (use assms in \<open>simp add: bind_attempt_def\<close>)

lemma trip_record_authorized:
  assumes "PinAttempt (t_AttemptID a) (bind_attempt a) \<in> P"
  shows "tripT (oinv P c) (record_authorized action claim a res now) (\<lambda>_. oinv P {})"
  unfolding record_authorized_def Let_def
  by (intro tripT_then [OF trip_update_attempt] tripT_bind [OF read_subscription(2)] tripT_lift
      tripT_then [OF trip_Commit] tripT_post [OF trip_quiet_ops(8)])
    (use assms in \<open>auto simp: bind_attempt_def intro: oinv_weak\<close>)

lemma trip_dunning: "tripT (oinv P c) (dunning s action claim row cur res now) (\<lambda>_. oinv P c)"
  unfolding dunning_def Let_def
  by (intro tripT_if tripT_then [OF trip_quiet_ops(8)] tripT_bind [OF trip_quiet_ops(1)] trip_quiet_ops tripT_err)

lemma trip_record_refused:
  assumes "PinAttempt (t_AttemptID a) (bind_attempt a) \<in> P"
  shows "tripT (oinv P c) (record_refused s action claim a res now) (\<lambda>_. oinv P {})"
  unfolding record_refused_def Let_def
  by (intro tripT_then [OF trip_update_attempt] tripT_bind [OF read_subscription(2)] tripT_lift
      tripT_then [OF trip_Commit] tripT_post [OF trip_dunning])
    (use assms in \<open>auto simp: bind_attempt_def refused_attempt_def Let_def intro: oinv_weak\<close>)

lemma trip_record_outcome: "tripT (oinv P c) (record_outcome s action att res b now) (\<lambda>_. oinv P {})"
  unfolding record_outcome_def Let_def
  by (intro tripT_bind [OF read_attempt] tripT_if trip_done pins trip_weak [OF trip_record_uncertain]
      trip_weak [OF trip_record_authorized] trip_weak [OF trip_record_refused]) auto

lemma trip_uncertain_tx: "tripT (oinv P c) (uncertain_tx now) (\<lambda>_. oinv P {})"
  unfolding uncertain_tx_def
  by (intro tripT_bind [OF trip_action_ops(2)] find_attempts tripT_err tripT_if trip_done pins
      tripT_then [OF trip_update_attempt] tripT_then [OF trip_quiet_ops(7)] tripT_bind [OF read_subscription(2)]
      tripT_then [OF trip_Block]) (auto simp: bind_attempt_def)

end
