(* ===== verification/Notify.thy ===== *)
theory Notify
  imports Outbox Hmac
begin

text \<open>
  \<^verbatim>\<open>internal/notify/notify.go\<close>: the delivery of outbound events.  The HTTP exchange is a parameter, from the
  signature header and the body to the status code or a failure; so is \<open>rand.Int\<close>, from an exclusive upper
  bound to a number or a failing source.  The notifier's clock is the store's.  \<open>http.NewRequest\<close> fails
  only on a URL that does not parse, which start-up rejects.
\<close>

section \<open>The notifier\<close>

record notifier =
  nt_Keys :: keys
  nt_Lease :: duration
  nt_RetryAt :: "(int \<Rightarrow> gotime \<Rightarrow> gotime) option"

type_synonym poster = "string \<Rightarrow> bytes \<Rightarrow> gerr + int"

definition NextAttempt :: "(int \<Rightarrow> int option) \<Rightarrow> int \<Rightarrow> gotime \<Rightarrow> gotime" where
  "NextAttempt rand_int attemptCount now =
     (let bases = [minute, 5 * minute, 15 * minute, hour]; capDelay = 6 * hour;
          d = (if 0 \<le> attemptCount \<and> attemptCount < int (length bases) then bases ! nat attemptCount else capDelay);
          d = (if capDelay < d then capDelay else d)
      in case rand_int (d + 1) of None \<Rightarrow> now + d | Some n \<Rightarrow> now + n)"

definition statusClass :: "int \<Rightarrow> string" where
  "statusClass code =
     (if 500 \<le> code then ''http_5xx'' else if code = 408 then ''http_408'' else if code = 425 then ''http_425''
      else if code = 429 then ''http_429'' else if 400 \<le> code then ''http_4xx'' else ''http_other'')"

definition retry :: "(int \<Rightarrow> int option) \<Rightarrow> notifier \<Rightarrow> outbound_event \<Rightarrow> string \<Rightarrow> (world, unit) tx" where
  "retry rand_int n ev class =
     bindT nowT (\<lambda>now.
     let nextFn = (case nt_RetryAt n of None \<Rightarrow> NextAttempt rand_int | Some f \<Rightarrow> f);
         nxt = nextFn (o_AttemptCount ev) now
     in InTx (bindT (deref (o_ClaimToken ev)) (\<lambda>tok.
        bindT (attemptT (RetryOutbound (o_EventID ev) tok (o_FencingToken ev) nxt class)) (\<lambda>r. case r of
          Inl e \<Rightarrow> if e = ErrNotOwned then retT () else errT e
        | Inr _ \<Rightarrow> retT ()))))"

text \<open>What becomes of a claimed event once the consumer has answered, or has not.\<close>

definition settle_delivery ::
  "(int \<Rightarrow> int option) \<Rightarrow> notifier \<Rightarrow> outbound_event \<Rightarrow> gerr + int \<Rightarrow> (world, unit) tx" where
  "settle_delivery rand_int n ev answer =
     (case answer of
        Inl _ \<Rightarrow> retry rand_int n ev ''network''
      | Inr code \<Rightarrow>
          if 200 \<le> code \<and> code \<le> 299
          then InTx (bindT (deref (o_ClaimToken ev)) (\<lambda>tok. bindT nowT (\<lambda>now.
                 CompleteOutbound (o_EventID ev) tok (o_FencingToken ev) now)))
          else if code = 408 \<or> code = 425 \<or> code = 429 \<or> 500 \<le> code then retry rand_int n ev (statusClass code)
          else if 400 \<le> code \<and> code \<le> 499
          then InTx (bindT (deref (o_ClaimToken ev)) (\<lambda>tok. bindT nowT (\<lambda>now.
                 DeadLetterOutbound (o_EventID ev) tok (o_FencingToken ev) now (statusClass code))))
          else retry rand_int n ev (statusClass code))"

definition NotifyOnce :: "(int \<Rightarrow> int option) \<Rightarrow> poster \<Rightarrow> notifier \<Rightarrow> (world, unit) tx" where
  "NotifyOnce rand_int post n =
     (let lease = (if nt_Lease n = 0 then 2 * minute else nt_Lease n)
      in bindT (attemptT (InTx (bindT nowT (\<lambda>now. ClaimDueOutbound now lease)))) (\<lambda>r. case r of
           Inl e \<Rightarrow> if e = ErrNotFound then retT () else errT e
         | Inr ev \<Rightarrow>
             bindT nowT (\<lambda>now.
             bindT (liftT (SignCallback (k_Callback (nt_Keys n)) now (o_PayloadBody ev))) (\<lambda>header.
             settle_delivery rand_int n ev (post header (o_PayloadBody ev))))))"

section \<open>The outbox is kept\<close>

lemma RetryOutbound_error: "RetryOutbound i t n nxt ec w = (Inl e, w') \<Longrightarrow> w' = w"
  by (auto simp: RetryOutbound_def ownedOutbound_def lookup_row_def put_outbound_def bindT_def thenT_def
      split: option.splits prod.splits sum.splits if_split_asm)

lemma trip_retry_attempt: "tripT (oinv P c) (attemptT (RetryOutbound i t n nxt ec)) (\<lambda>_. oinv P c)"
  by (rule tripT_post [OF trip_attempt [OF trip_outbound_ops(2)]]) (auto split: sum.splits dest: RetryOutbound_error)

lemma safe_retry [safe]: "safeT (oinv P {}) (retry rand_int n ev class)"
  unfolding retry_def Let_def
  by (intro safe tripT_bind [OF trip_deref] tripT_bind [OF trip_retry_attempt] tripT_sum tripT_if trip_done pins tripT_err)

lemma safe_settle [safe]: "safeT (oinv P {}) (settle_delivery rand_int n ev answer)"
  unfolding settle_delivery_def
  by (intro safe tripT_bind [OF trip_deref] tripT_bind [OF trip_quiet_ops(4)] trip_outbound_ops)

section \<open>Rounds\<close>

text \<open>The rounds of \<open>Loop\<close>, whose errors are only logged.\<close>

primrec NotifyRounds :: "(int \<Rightarrow> int option) \<Rightarrow> poster \<Rightarrow> notifier \<Rightarrow> nat \<Rightarrow> world \<Rightarrow> world" where
  "NotifyRounds rand_int post n 0 w = w"
| "NotifyRounds rand_int post n (Suc k) w = NotifyRounds rand_int post n k (snd (NotifyOnce rand_int post n w))"

text \<open>The events that are due, and what an accepted delivery makes of one.\<close>

definition due :: "world \<Rightarrow> string set" where
  "due w = {k. \<exists>e. map_of (outbound w) k = Some e \<and> outbound_due (Now w) e}"

definition delivered_from :: "gotime \<Rightarrow> outbound_event \<Rightarrow> outbound_event \<Rightarrow> bool" where
  "delivered_from now e e' \<longleftrightarrow> o_DeliveryState e' = DeliveryDelivered \<and> o_DeliveredAt e' = Some now \<and> bind_outbound e' = bind_outbound e"

lemma finite_due: "finite (due w)"
proof -
  have "due w \<subseteq> dom (map_of (outbound w))" by (auto simp: due_def)
  then show ?thesis by (rule finite_subset) (rule finite_dom_map_of)
qed

lemma claim_due:
  assumes "store_ok w" and "due w \<noteq> {}" and "ent w = x # xs"
  obtains e' w1 k e tok where "ClaimDueOutbound (Now w) lease w = (Inr e', w1)" "map_of (outbound w) k = Some e"
    "outbound_due (Now w) e" "e' = stamp_outbound tok (Now w + lease) e" "o_EventID e' = k"
    "outbound w1 = AList.update k e' (outbound w)" "clk w1 = clk w" "ent w1 = xs" "store_ok w1"
proof -
  from assms(2) obtain k0 e0 where e0: "map_of (outbound w) k0 = Some e0" "outbound_due (Now w) e0" by (auto simp: due_def)
  then have "e0 \<in> set (filter (outbound_due (Now w)) (vals (outbound w)))" by (force simp: vals_def dest: map_of_SomeD)
  moreover have some: "earliest t (Some b) es \<noteq> None" for t :: "outbound_event \<Rightarrow> int" and b es
    by (induction es arbitrary: b) simp_all
  moreover have "earliest t None es \<noteq> None" if "x \<in> set es" for t :: "outbound_event \<Rightarrow> int" and es x
    using that some by (cases es) simp_all
  ultimately obtain c where "earliest (\<lambda>e. the (o_NextAttemptAt e)) None (filter (outbound_due (Now w)) (vals (outbound w))) = Some c"
    by blast
  moreover obtain tok where "newToken w = (Inr tok, w\<lparr>ent := xs\<rparr>)" using newToken_Cons [OF assms(3)] by blast
  ultimately obtain e' w1 where cl: "ClaimDueOutbound (Now w) lease w = (Inr e', w1)" and w1: "clk w1 = clk w" "ent w1 = xs"
    by (auto simp: ClaimDueOutbound_def Let_def set_table_defs)
  have i: "winv {} w" using assms(1) by (simp add: winv_def)
  obtain e tok where "map_of (outbound w) (o_EventID e') = Some e" "outbound_due (Now w) e"
    "e' = stamp_outbound tok (Now w + lease) e" "outbound w1 = AList.update (o_EventID e') e' (outbound w)"
    by (rule ClaimDueOutbound_Inr [OF cl i])
  moreover have "store_ok w1" using keepsT_D [OF keepsT_ClaimDueOutbound i cl] by (simp add: winv_def)
  ultimately show ?thesis using cl w1 that by metis
qed

lemma notify_delivers:
  assumes "store_ok w" and "due w \<noteq> {}" and "ent w = x # xs" and "0 \<le> unix_of (Now w)"
    and "\<And>h b. \<exists>code. post h b = Inr code \<and> 200 \<le> code \<and> code \<le> 299"
  obtains w' k e e' where "NotifyOnce rand_int post n w = (Inr (), w')" "map_of (outbound w) k = Some e" "outbound_due (Now w) e"
    "map_of (outbound w') = (map_of (outbound w))(k \<mapsto> e')" "delivered_from (Now w) e e'" "store_ok w'" "clk w' = clk w" "ent w' = xs"
proof -
  let ?lease = "if nt_Lease n = 0 then 2 * minute else nt_Lease n"
  obtain c w1 k e tok where c: "ClaimDueOutbound (Now w) ?lease w = (Inr c, w1)" "map_of (outbound w) k = Some e"
    "outbound_due (Now w) e" "c = stamp_outbound tok (Now w + ?lease) e" "o_EventID c = k"
    "outbound w1 = AList.update k c (outbound w)" and w1: "clk w1 = clk w" "ent w1 = xs" "store_ok w1"
    by (rule claim_due [OF assms(1-3)])
  have own: "map_of (outbound w1) (o_EventID c) = Some c" "o_ClaimToken c = Some tok" "o_DeliveryState c = DeliveryPending"
    using c by (simp_all add: stamp_outbound_def outbound_due_def)
  let ?d = "c\<lparr>o_DeliveryState := DeliveryDelivered, o_DeliveredAt := Some (Now w), o_NextAttemptAt := None,
       o_ClaimToken := None, o_LeaseUntil := None, o_AttemptCount := wrap64 (o_AttemptCount c + 1)\<rparr>"
  let ?w' = "set_outbound (AList.update k ?d (outbound w1)) w1"
  have now: "Now w1 = Now w" using w1(1) by (simp add: Now_def)
  have fin: "CompleteOutbound (o_EventID c) tok (o_FencingToken c) (Now w) w1 = (Inr (), ?w')"
    using own c(5) by (simp add: CompleteOutbound_def ownedOutbound_def lookup_row_def owned_outbound_def put_outbound_def bindT_def thenT_def)
  obtain h where "SignCallback (k_Callback (nt_Keys n)) (Now w) (o_PayloadBody c) = Inr h"
    using assms(4) by (simp add: SignCallback_def CallbackHeader_Inr)
  moreover obtain code where "post h (o_PayloadBody c) = Inr code" "200 \<le> code" "code \<le> 299" using assms(5) by blast
  ultimately have "NotifyOnce rand_int post n w = (Inr (), ?w')"
    using c(1) own(2) fin now
    by (simp add: NotifyOnce_def Let_def InTx_def bindT_def nowT_def settle_delivery_def deref_def)
  moreover have "map_of (outbound ?w') = (map_of (outbound w))(k \<mapsto> ?d)" by (simp add: set_table_defs c(6) update_conv')
  moreover have "delivered_from (Now w) e ?d" by (simp add: delivered_from_def c(4) stamp_outbound_def bind_outbound_def)
  moreover have "keepsT (winv {}) (CompleteOutbound (o_EventID c) tok (o_FencingToken c) (Now w))" by (intro keeps)
  from keepsT_D [OF this _ fin] w1(3) have "store_ok ?w'" by (simp add: winv_def)
  moreover have "clk ?w' = clk w" "ent ?w' = xs" using w1 by (simp_all add: set_table_defs)
  ultimately show ?thesis using c(2,3) that by metis
qed

lemma notify_idle:
  assumes "due w = {}" and "store_ok w"
  shows "NotifyOnce rand_int post n w = (Inr (), w)"
proof -
  have "filter (outbound_due (Now w)) (vals (outbound w)) = []"
    using assms(1) store_ok_vals(1) [OF assms(2)] by (fastforce simp: due_def filter_empty_conv)
  then have "ClaimDueOutbound (Now w) lease w = (Inl ErrNotFound, w)" for lease by (simp add: ClaimDueOutbound_def)
  then show ?thesis by (simp add: NotifyOnce_def Let_def InTx_def bindT_def nowT_def)
qed

lemma delivered_not_due: "delivered_from now e e' \<Longrightarrow> \<not> outbound_due t e'"
  by (simp add: delivered_from_def outbound_due_def)

lemma due_after:
  assumes "map_of (outbound w') = (map_of (outbound w))(k \<mapsto> e')" and "delivered_from now e e'" and "clk w' = clk w"
    and "map_of (outbound w) k = Some e" and "outbound_due (Now w) e"
  shows "due w' = due w - {k}" and "card (due w) = Suc (card (due w'))"
proof -
  have now: "Now w' = Now w" using assms(3) by (simp add: Now_def)
  show d: "due w' = due w - {k}"
    using delivered_not_due [OF assms(2)] by (auto simp: due_def assms(1) now split: if_split_asm)
  have "k \<in> due w" using assms(4,5) by (auto simp: due_def)
  with finite_due [of w] show "card (due w) = Suc (card (due w'))" unfolding d by (metis card_Suc_Diff1)
qed

section \<open>Properties\<close>

text \<open>
  C18. The notifier drains its backlog: against a consumer that accepts, with the clock standing still and a
  random source that lasts, as many rounds as there are events due, or more, leave none due; each of them is
  delivered, once and as it was, and every other event is untouched.
\<close>

theorem notifier_drains:
  assumes "store_ok w" and "0 \<le> unix_of (Now w)" and "card (due w) \<le> k" and "card (due w) \<le> length (ent w)"
    and "\<And>h b. \<exists>code. post h b = Inr code \<and> 200 \<le> code \<and> code \<le> 299"
  shows "due (NotifyRounds rand_int post n k w) = {}
    \<and> (\<forall>i e. map_of (outbound w) i = Some e \<longrightarrow>
         (\<exists>e'. map_of (outbound (NotifyRounds rand_int post n k w)) i = Some e'
            \<and> (if outbound_due (Now w) e then delivered_from (Now w) e e' else e' = e)))
    \<and> dom (map_of (outbound (NotifyRounds rand_int post n k w))) = dom (map_of (outbound w))"
  using assms(1-4)
proof (induction k arbitrary: w)
  case 0
  with finite_due [of w] have "due w = {}" by simp
  then show ?case by (auto simp: due_def)
next
  case (Suc k)
  show ?case
  proof (cases "due w = {}")
    case True
    with Suc.IH [of w] Suc.prems show ?thesis by (simp add: notify_idle)
  next
    case False
    with finite_due [of w] Suc.prems(4) obtain x xs where e: "ent w = x # xs" by (cases "ent w") auto
    obtain w' i e e' where r: "NotifyOnce rand_int post n w = (Inr (), w')" and o: "map_of (outbound w) i = Some e"
      "outbound_due (Now w) e" "map_of (outbound w') = (map_of (outbound w))(i \<mapsto> e')" "delivered_from (Now w) e e'"
      and w': "store_ok w'" "clk w' = clk w" "ent w' = xs"
      by (rule notify_delivers [OF Suc.prems(1) False e Suc.prems(2) assms(5)])
    have now: "Now w' = Now w" using w'(2) by (simp add: Now_def)
    note d = due_after [OF o(3,4) w'(2) o(1,2)]
    have "card (due w') \<le> k" "card (due w') \<le> length (ent w')" using d(2) Suc.prems(3,4) e w'(3) by simp_all
    note IH = Suc.IH [OF w'(1) _ this, unfolded now, OF Suc.prems(2)]
    have "\<exists>a'. map_of (outbound (NotifyRounds rand_int post n k w')) j = Some a'
        \<and> (if outbound_due (Now w) a then delivered_from (Now w) a a' else a' = a)" if "map_of (outbound w) j = Some a" for j a
      using IH o that delivered_not_due [OF o(4)] by (cases "j = i") fastforce+
    moreover have "dom (map_of (outbound w')) = dom (map_of (outbound w))" using o(1) by (simp add: o(3) insert_absorb domI)
    ultimately show ?thesis using IH r by simp
  qed
qed

definition sample_notifier :: notifier where
  "sample_notifier = \<lparr>nt_Keys = \<lparr>k_Token = [], k_Callback = [], k_Reconcile = []\<rparr>, nt_Lease = 0, nt_RetryAt = None\<rparr>"

theorem notifier_drains_witness:
  "due sample_run = {''evt_1''} \<and> due (NotifyRounds (\<lambda>_. None) (\<lambda>_ _. Inr 200) sample_notifier 1 sample_run) = {}
     \<and> (\<exists>e'. map_of (outbound (NotifyRounds (\<lambda>_. None) (\<lambda>_ _. Inr 200) sample_notifier 1 sample_run)) ''evt_1'' = Some e'
          \<and> o_DeliveryState e' = DeliveryDelivered)"
proof -
  let ?e = "sample_event\<lparr>o_CreatedAt := Now sample_world\<rparr>"
  have o: "outbound sample_run = [(''evt_1'', ?e)]" "ent sample_run = [1, 2, 3, 4, 5, 6, 7, 8, 9]" "clk sample_run = 1767225600 * second"
    by (simp_all add: sample_run_def InTx_def InsertOutbound_def sample_world_def NewMemory_def vals_def set_table_defs sample_event_def)
  have now: "Now sample_run = 1767225600 * second" by (simp add: Now_def o(3) TruncateUTC_def second_def)
  have e: "outbound_due (Now sample_run) ?e"
    by (simp add: now second_def) (simp add: outbound_due_def sample_event_def zero_outbound_event_def)
  then have d: "due sample_run = {''evt_1''}" by (auto simp: due_def o(1))
  have "unix_of (Now sample_run) = 1767225600" unfolding now by code_simp
  moreover have "store_ok sample_run"
    using store_run_inv [OF sample_run_step] sample_world_ok by (simp add: store_ok_winv)
  ultimately have n: "due (NotifyRounds (\<lambda>_. None) (\<lambda>_ _. Inr 200) sample_notifier 1 sample_run) = {}"
    "\<forall>i e. map_of (outbound sample_run) i = Some e \<longrightarrow>
         (\<exists>e'. map_of (outbound (NotifyRounds (\<lambda>_. None) (\<lambda>_ _. Inr 200) sample_notifier 1 sample_run)) i = Some e'
            \<and> (if outbound_due (Now sample_run) e then delivered_from (Now sample_run) e e' else e' = e))"
    using notifier_drains [of sample_run 1 "\<lambda>_ _. Inr 200" "\<lambda>_. None" sample_notifier] by (simp_all only: d o(2)) auto
  have "map_of (outbound sample_run) ''evt_1'' = Some ?e" by (simp add: o(1))
  with n(2) e have "\<exists>e'. map_of (outbound (NotifyRounds (\<lambda>_. None) (\<lambda>_ _. Inr 200) sample_notifier 1 sample_run)) ''evt_1'' = Some e'
      \<and> delivered_from (Now sample_run) ?e e'" by metis
  with d n(1) show ?thesis unfolding delivered_from_def by blast
qed

end
