(* ===== verification/Service.thy ===== *)
theory Service
  imports Http Scheduler Notify
begin

text \<open>
  The running service: request handlers, the scheduler, the notifier and the operator's commands work on
  one store at the same time.  What they do to it are single transactions, which may come in any order and
  with arguments that were read long before; between them the clock and the supply of random bytes change as
  they like.  The operations made of several transactions are runs of these steps.
\<close>

section \<open>Atomic operations\<close>

text \<open>
  Every transaction of the service: the operations that are a single one, and the transactions of the
  others, for all values their arguments could have.  \<open>discard\<close> drops what a transaction returns.
\<close>

inductive service_op :: "(world, unit) tx \<Rightarrow> bool" where
  store_event: "service_op (InTx (discard (InsertProcessorEvent row)))"
| claim_event: "service_op (InTx (discard (ClaimProcessorEvent family evID key now lease)))"
| apply_event: "service_op (InTx (discard (apply_claimed eng ev state key held now)))"
| cancel: "service_op (CancelAtPeriodEnd ref)"
| expire_now: "service_op (ExpireNow ref)"
| resolve: "service_op (ResolveAttempt eng attemptID outcome reason actor payID)"
| replay: "service_op (ReplayLatest ref reason actor)"
| activate: "service_op (ActivateCheckout checkoutID)"
| sweep: "service_op SweepCheckouts"
| open_checkout: "service_op (InTx (discard (find_or_insert row)))"
| processor_answer: "service_op (InTx (discard (pending_tx checkoutID res)))"
| run_expire: "service_op (runExpire s)"
| prepare: "service_op (InTx (discard (bindT nowT (\<lambda>now. bindT (LockDueAction now ''pending'' [ActionRenew]) (\<lambda>action.
    bindT (ensurePrepared s action) (\<lambda>att. retT (action, att)))))))"
| claim_charge: "service_op (InTx (discard (claim_attempt s actionID attemptID now)))"
| charge_outcome: "service_op (InTx (discard (record_outcome s action att answer failed now)))"
| uncertain: "service_op (InTx (discard (uncertain_tx now)))"
| claim_delivery: "service_op (InTx (discard (bindT nowT (\<lambda>now. ClaimDueOutbound now lease))))"
| delivery: "service_op (settle_delivery rand_int n event answer)"
| abandon: "service_op (InTx (AbandonOutbound eventID reason actor now))"
| requeue: "service_op (InTx (RequeueOutbound eventID reason actor now))"

inductive service_step :: "world \<Rightarrow> world \<Rightarrow> bool" where
  work: "service_op m \<Longrightarrow> m w = (r, w') \<Longrightarrow> r \<noteq> Inl ErrPanic \<Longrightarrow> service_step w w'"
| wait: "mem w' = mem w \<Longrightarrow> service_step w w'"

definition service_run :: "world \<Rightarrow> world \<Rightarrow> bool" where
  "service_run = rtranclp service_step"

section \<open>What every atomic operation keeps, the service keeps\<close>

locale service_invariant =
  fixes I :: "world \<Rightarrow> bool"
  assumes mem: "mem_only I" and op: "service_op m \<Longrightarrow> safeT I m"
begin

lemma step: "service_step w w' \<Longrightarrow> I w \<Longrightarrow> I w'"
  by (erule service_step.cases) (blast dest: safeT_D [OF op] mem_onlyD [OF mem])+

lemma run: "service_run w w' \<Longrightarrow> I w \<Longrightarrow> I w'"
  unfolding service_run_def by (induction rule: rtranclp_induct) (auto dest: step)

lemma tx: "service_op (InTx (discard m)) \<Longrightarrow> safeT I (InTx m)"
  unfolding safeT_def
proof (intro allI impI)
  fix w r w' assume *: "service_op (InTx (discard m))" "I w" "InTx m w = (r, w')" "r \<noteq> Inl ErrPanic"
  have "InTx (discard m) w = (map_sum id (\<lambda>_. ()) r, w')"
    using *(3) by (cases "m w", cases "fst (m w)") (auto simp: InTx_def discard_def split: if_split_asm)
  moreover have "map_sum id (\<lambda>_. ()) r \<noteq> Inl ErrPanic" using *(4) by (cases r) auto
  ultimately show "I w'" using safeT_D [OF op [OF *(1)] *(2)] by blast
qed

lemma quiet_read: "pure_read m \<Longrightarrow> safeT I (InTx m)"
  by (rule safe_mem_only [OF mem]) (auto simp: InTx_def dest: pure_read_snd split: prod.splits sum.splits if_split_asm)

lemmas atoms = op [OF cancel] op [OF expire_now] op [OF resolve] op [OF replay] op [OF activate] op [OF sweep]
  op [OF run_expire] op [OF delivery] op [OF abandon] op [OF requeue]

text \<open>The operations made of several transactions.\<close>

lemma reads: "safeT I newUUID" "safeT I (Seal b pt aad)" "safeT I nowT"
  by (rule safe_mem_only [OF mem], erule newUUID_mem Seal_mem)+ (simp add: nowT_def safe_simple)

lemma processNormalized: "safeT I (processNormalized eng get_state ev)"
  unfolding processNormalized_def seal_sensitive_def Let_def
  by (intro safe_bind safe_if safe_option safe_simple safe_prod reads tx service_op.intros)

lemma process_all: "safeT I (process_all eng get_state evs)"
  by (induction evs) (simp_all only: process_all.simps, intro safe_simple, intro safe_then processNormalized)

lemma IngestAndProcess: "safeT I (IngestAndProcess eng parsed get_state)"
  unfolding IngestAndProcess_def by (intro safe_option safe_bind safe_simple process_all)

lemma open_at_processor: "safeT I (open_at_processor cfg ads p family c)"
  unfolding open_at_processor_def
  by (intro safe_bind safe_adapterT safe_prod safe_option safe_simple safe_if safe_then tx service_op.intros)

lemma continue_checkout: "safeT I (continue_checkout cfg ads claims payload p family c)"
  unfolding continue_checkout_def
  by (intro safe_then safe_bind safe_simple safe_option safe_resume open_at_processor)

lemma StartCheckout: "safeT I (StartCheckout ul ks cfg ads token)"
proof -
  have "safeT I (shopper_reference family)" for family
    by (rule safe_mem_only [OF mem]) (rule shopper_reference_mem)
  moreover have "safeT I (loadCheckout i)" for i
    unfolding loadCheckout_def by (rule quiet_read) (simp add: GetCheckout_def)
  ultimately show ?thesis
    unfolding StartCheckout_def
    by (intro safe_bind safe_prod safe_option safe_simple reads tx service_op.intros continue_checkout open_at_processor)
qed

lemma submit: "safeT I (submit s charge resolve action att again)"
  unfolding submit_def
  by (intro safe_bind reads safe_catch tx service_op.intros)
    (auto intro!: safe_simple safe_bind safe_prod tx service_op.intros split: prod.split)

lemma runRenew: "safeT I (runRenew s charge resolve)"
  unfolding runRenew_def
  by (intro safe_catch tx service_op.intros) (auto intro: safe_simple submit)

lemma runUncertain: "safeT I (runUncertain s charge resolve)"
  unfolding runUncertain_def
  by (intro safe_bind reads safe_catch tx service_op.intros) (auto intro: safe_simple submit split: option.split)

lemma RunOnce: "safeT I (RunOnce s charge resolve)"
  unfolding RunOnce_def by (intro safe_then runRenew runUncertain atoms)

lemma NotifyOnce: "safeT I (NotifyOnce rand_int post n)"
  unfolding NotifyOnce_def Let_def
  by (intro safe_catch tx service_op.intros) (auto intro!: safe_simple safe_bind reads atoms)

lemma Snapshot: "safeT I (Snapshot ref)"
  unfolding Snapshot_def
  by (intro safe_then safe_simple safe_catch quiet_read) (auto intro: safe_simple)

lemma respond: "safeT I m \<Longrightarrow> (\<And>x. safeT I (h x)) \<Longrightarrow> safeT I (respond m f h)"
  unfolding respond_def by (rule safe_catch) (auto intro: safe_simple)

lemma portal: "safeT I (portal_handler s token)"
proof -
  have "safeT I (dropin_session s token row)" for row
    by (rule safe_mem_only [OF mem]) (rule dropin_session_mem)
  then show ?thesis
    unfolding portal_handler_def renderAdyenPortal_def
    by (intro safe_bind reads respond safe_simple safe_prod safe_option quiet_read) simp_all
qed

lemma handle: "safeT I (handle s rq)"
proof (cases rq)
  case (Portal token)
  then show ?thesis using portal by (simp add: handle_def)
qed (unfold handle_def request.case portal_cancel_handler_def start_handler_def snapshot_handler_def webhook_handler_def
    mockActivate_def mockExpire_def mockReplay_def servePortalAsset_def Let_def,
  (simp only: request.case,
    intro safe_simple safe_option safe_if safe_bind reads respond safe_prod StartCheckout Snapshot IngestAndProcess atoms)+)

end

text \<open>
  Two instances: the store and outbox invariant with any set of pinned rows, and being reached by steps,
  which makes a run of every operation.
\<close>

lemma trip_discard: "tripT A m (\<lambda>_. B) \<Longrightarrow> tripT A (discard m) (\<lambda>_. B)"
  unfolding discard_def by (rule tripT_bind) (auto intro: tripT_ret)

lemma trip_prepare:
  "tripT (oinv P {}) (bindT nowT (\<lambda>now. bindT (LockDueAction now ''pending'' [ActionRenew]) (\<lambda>action.
     bindT (ensurePrepared s action) (\<lambda>att. retT (action, att))))) (\<lambda>_. oinv P {})"
  by (intro tripT_bind [OF trip_quiet_ops(4)] tripT_bind [OF trip_action_ops(2)]
      tripT_bind [OF trip_ensurePrepared] trip_done pins)

lemma service_op_outbox: "service_op m \<Longrightarrow> safeT (oinv P {}) m"
  by (erule service_op.cases)
    (simp_all only:, (intro safe | intro safe_InTx trip_discard trip_prepare trip_processor_events trip_apply_claimed
      trip_find_or_insert trip_pending_tx trip_claim_attempt trip_record_outcome trip_uncertain_tx trip_outbound_ops
      tripT_bind [OF trip_quiet_ops(4)])+)

interpretation kept: service_invariant "oinv P {}" for P
  by unfold_locales (rule mem_only_oinv, rule service_op_outbox)

lemma service_run_work: "service_op m \<Longrightarrow> safeT (service_run w0) m"
  unfolding safeT_def service_run_def by (blast intro: rtranclp.rtrancl_into_rtrancl work)

lemma service_run_mem: "mem_only (service_run w0)"
  unfolding mem_only_def service_run_def by (metis rtranclp.rtrancl_into_rtrancl wait)

interpretation reached: service_invariant "service_run w0" for w0
  by unfold_locales (rule service_run_mem, rule service_run_work)

section \<open>What every run keeps\<close>

lemma empty_outbox: "mem w = NewMemory \<Longrightarrow> oinv {} {} w"
proof -
  assume m: "mem w = NewMemory"
  then have "event_of w k = None" for k by (simp add: event_of_def NewMemory_def)
  with m have "outbox w" by (simp add: outbox_def NewMemory_def)
  moreover from m have "store_ok w" by (simp add: store_ok_def NewMemory_def)
  ultimately show "oinv {} {} w" by (simp add: oinv_def winv_def)
qed

lemma reached_outbox: "service_run w0 w \<Longrightarrow> mem w0 = NewMemory \<Longrightarrow> oinv {} {} w"
  by (blast intro: kept.run empty_outbox)

text \<open>The events of one version are one event.\<close>

lemma same_version:
  assumes "store_ok w" and "map_of (outbound w) k = Some e" and "map_of (outbound w) k' = Some e'"
    and "o_SubscriptionRef e = o_SubscriptionRef e'" and "o_StateVersion e = o_StateVersion e'"
  shows "k = k'"
proof -
  have wk: "well_keyed o_EventID (outbound w)" and inj: "inj_on (\<lambda>e. (o_SubscriptionRef e, o_StateVersion e)) (set (vals (outbound w)))"
    using assms(1) by (simp_all add: store_ok_def keyed_by_def)
  have "e \<in> set (vals (outbound w))" "e' \<in> set (vals (outbound w))"
    using assms(2,3) by (force simp: vals_def dest: map_of_SomeD)+
  with inj assms(4,5) have "e = e'" by (auto dest: inj_onD)
  with wk assms(2,3) show ?thesis by (auto dest: well_keyed_key)
qed

lemma outbox_row:
  assumes "oinv {} {} w" and "map_of (subs w) r = Some s"
  shows "\<exists>k e cb. map_of (outbound w) k = Some e \<and> o_SubscriptionRef e = r \<and> o_StateVersion e = s_StateVersion s
    \<and> ParseCallback (o_PayloadBody e) = Inr cb \<and> SnapshotFromCallback cb = snapshotFrom s"
    and "1 \<le> v \<Longrightarrow> v \<le> s_StateVersion s \<Longrightarrow> \<exists>k e. map_of (outbound w) k = Some e \<and> o_SubscriptionRef e = r \<and> o_StateVersion e = v"
    and "ParseSnapshot (marshal_snapshot (snapshotFrom s)) = Inr (snapshotFrom s)"
    and "ValidateSubscriptionRef r = Inr ()"
proof -
  have rep: "reported w s" using assms by (auto simp: oinv_def outbox_def)
  have key: "s_SubscriptionRef s = r" using sub_key [OF oinv_ok [OF assms(1)] assms(2)] .
  from rep obtain k cb t where cb: "ValidateCallback cb = Inr ()" "SnapshotFromCallback cb = snapshotFrom s"
    and ev: "event_of w k = Some (cb_EventType cb, r, s_CheckoutID s, s_StateVersion s, marshal_callback cb, t)"
    and v63: "s_StateVersion s < 2 ^ 63"
    by (auto simp: reported_def reports_def key)
  have "cb_StateVersion cb < 2 ^ 63" using cb(2) v63 by (simp add: SnapshotFromCallback_def snapshotFrom_def)
  with cb(1) have "ParseCallback (marshal_callback cb) = Inr cb" by (rule callback_read)
  moreover from ev obtain e where "map_of (outbound w) k = Some e" "o_SubscriptionRef e = r" "o_StateVersion e = s_StateVersion s"
    "o_PayloadBody e = marshal_callback cb" by (auto simp: event_of_def bind_outbound_def)
  ultimately show "\<exists>k e cb. map_of (outbound w) k = Some e \<and> o_SubscriptionRef e = r \<and> o_StateVersion e = s_StateVersion s
    \<and> ParseCallback (o_PayloadBody e) = Inr cb \<and> SnapshotFromCallback cb = snapshotFrom s"
    using cb(2) by force
  show "ValidateSubscriptionRef r = Inr ()" using valid_snapshot(2) [OF cb] by (simp add: key)
  have "ValidateSnapshot (snapshotFrom s) = Inr ()" using SnapshotFromCallback_valid [OF cb(1)] cb(2) by simp
  then show "ParseSnapshot (marshal_snapshot (snapshotFrom s)) = Inr (snapshotFrom s)"
    by (rule snapshot_read) (use v63 in \<open>simp add: snapshotFrom_def\<close>)
  show "\<exists>k e. map_of (outbound w) k = Some e \<and> o_SubscriptionRef e = r \<and> o_StateVersion e = v"
    if "1 \<le> v" "v \<le> s_StateVersion s"
    using rep that by (fastforce simp: reported_def event_of_def bind_outbound_def key)
qed

lemma event_row:
  assumes "oinv {} {} w" and "map_of (outbound w) k = Some e"
  shows "\<exists>s. map_of (subs w) (o_SubscriptionRef e) = Some s \<and> 1 \<le> o_StateVersion e \<and> o_StateVersion e \<le> s_StateVersion s"
proof -
  have "event_of w k = Some (o_EventType e, o_SubscriptionRef e, o_CheckoutID e, o_StateVersion e, o_PayloadBody e, o_CreatedAt e)"
    using assms(2) by (simp add: event_of_def bind_outbound_def)
  with assms(1) show ?thesis unfolding oinv_def outbox_def by blast
qed

lemma snapshot_answer:
  assumes "handle s (GetSnapshot ref authorization) w = (Inr (Body body), w')"
  shows "\<exists>row. VerifyReconcileHeader (k_Reconcile (hs_Keys s)) authorization (''/v1/subscriptions/'' @ ref) (Now w) = Inr ()
    \<and> map_of (subs w) ref = Some row \<and> body = marshal_snapshot (snapshotFrom row)"
proof -
  from assms have "respond (liftT (VerifyReconcileHeader (k_Reconcile (hs_Keys s)) authorization (''/v1/subscriptions/'' @ ref) (Now w)))
       (\<lambda>_. Status 401) (\<lambda>_. respond (Snapshot ref) (\<lambda>_. Status 404) (\<lambda>snap. retT (Body (marshal_snapshot snap)))) w = (Inr (Body body), w')"
    by (simp add: handle_def snapshot_handler_def nowT_def)
  then obtain snap where h: "VerifyReconcileHeader (k_Reconcile (hs_Keys s)) authorization (''/v1/subscriptions/'' @ ref) (Now w) = Inr ()"
    and "Snapshot ref w = (Inr snap, w')" "body = marshal_snapshot snap"
    by (auto elim!: respond_Inr)
  moreover from this(2) have "\<exists>row. map_of (subs w) ref = Some row \<and> snap = snapshotFrom row"
    by (auto simp: Snapshot_def bindT_def thenT_def InTx_def GetSubscription_def lookup_row_def
        split: sum.splits option.splits prod.splits if_split_asm)
  ultimately show ?thesis by blast
qed

text \<open>A run from an empty store that opens a checkout and activates its subscription.\<close>

definition sample_checkout :: checkout where
  "sample_checkout = zero_checkout\<lparr>c_CheckoutID := ''subchk_1'', c_PlanID := ''pro'', c_ProcessorFamily := ProcessorStripe\<rparr>"

definition opened :: world where
  "opened = set_checkouts [(''subchk_1'', sample_checkout\<lparr>c_CreatedAt := Now sample_world, c_UpdatedAt := Now sample_world\<rparr>)] sample_world"

lemma sample_opened: "service_step sample_world opened"
proof (rule work [OF open_checkout])
  show "InTx (discard (find_or_insert sample_checkout)) sample_world = (Inr (), opened)"
    by (simp add: find_or_insert_def discard_def InTx_def bindT_def GetCheckoutForUpdate_def GetCheckout_def lookup_row_def
        sample_tables NewMemory_def InsertCheckout_def vals_def opened_def sample_checkout_def)
qed simp

lemma activation_callback:
  assumes "ValidateSubscriptionRef ref = Inr ()" and "ValidateEventID k = Inr ()"
  defines "n \<equiv> FirstActivation sample_checkout ref StatusActive (1767225600 * second)
    (AddCalendarMonths (1767225600 * second) 1) (1767225600 * second) None None None None"
  shows "\<exists>cb. NewCallback k EventActivated (s_CheckoutID n) (s_SubscriptionRef n) (s_PlanID n) (s_StateVersion n) (s_Status n)
    (s_CurrentPeriodStart n) (s_CurrentPeriodEnd n) (s_StateChangedAt n) (s_CancelAtPeriodEnd n) = Inr cb"
proof -
  let ?now = "1767225600 * second" and ?fin = "AddCalendarMonths (1767225600 * second) 1"
  have y: "wire_year (TruncateUTC ?now)" "wire_year ?fin" "TruncateUTC ?now < ?fin" by code_simp+
  have "ValidateCheckoutID ''subchk_1'' = Inr ()" by code_simp
  with y(3) assms(1,2) show ?thesis
    unfolding n_def FirstActivation_def sample_checkout_def
    by (simp add: NewCallback_ok_iff [OF y(1,2,1)] allowed_pairs_def)
qed

lemma sample_activated:
  "\<exists>w r s. service_step opened w \<and> map_of (subs w) r = Some s \<and> attempts w = [] \<and> s_PlanID s = ''pro''
     \<and> \<not> s_AutomaticChargingBlocked s \<and> s_PaymentMethodKeyVersion s = None"
proof -
  have "\<exists>ref w1. NewSubscriptionRef opened = (Inr ref, w1) \<and> ent w1 \<noteq> []"
    by (simp add: NewSubscriptionRef_def NewOpaqueID_run opened_def sample_world_def set_table_defs ord_def)
  then obtain ref w1 where ref: "NewSubscriptionRef opened = (Inr ref, w1)" and e: "ent w1 \<noteq> []" by blast
  from e obtain k w2 where k: "NewEventID w1 = (Inr k, w2)"
    by (cases "ent w1") (auto simp: NewEventID_def NewOpaqueID_run ord_def)
  have m: "mem w1 = mem opened \<and> clk w1 = clk opened" "mem w2 = mem w1 \<and> clk w2 = clk w1"
    using ref k NewOpaqueID_mem by (auto simp: NewSubscriptionRef_def NewEventID_def)
  have now: "Now opened = 1767225600 * second" by (simp add: sample_now opened_def set_table_defs)
  let ?n = "FirstActivation sample_checkout ref StatusActive (1767225600 * second) (AddCalendarMonths (1767225600 * second) 1)
    (1767225600 * second) None None None None"
  from activation_callback [OF NewSubscriptionRef_valid [OF ref] NewEventID_valid [OF k]]
  obtain cb where "marshalCallback ?n EventActivated w1 = (Inr (marshal_callback cb, k), w2)"
    using k by (auto simp: marshalCallback_def bindT_def)
  moreover obtain c where c: "map_of (checkouts opened) ''subchk_1'' = Some c" "c_SubscriptionRef c = None" "c_CheckoutID c = ''subchk_1''"
    "FirstActivation c ref StatusActive (1767225600 * second) (AddCalendarMonths (1767225600 * second) 1) (1767225600 * second)
       None None None (c_ProcessorShopperReference c) = ?n"
    by (simp add: opened_def set_table_defs sample_checkout_def FirstActivation_def zero_checkout_def)
  moreover have "subs opened = []" "outbound opened = []" "attempts opened = []" by (simp_all add: opened_def set_table_defs sample_tables NewMemory_def)
  moreover have "s_SubscriptionRef ?n = ref" "s_ProcessorFamily ?n = ProcessorStripe"
    by (simp_all add: FirstActivation_def sample_checkout_def)
  ultimately have "\<exists>w. ActivateCheckout ''subchk_1'' opened = (Inr (), w) \<and> attempts w = []
      \<and> map_of (subs w) ref = Some (?n\<lparr>s_CreatedAt := Now w2, s_UpdatedAt := Now w2\<rparr>)"
    using ref m
    by (simp add: ActivateCheckout_def nowT_def now InTx_def GetCheckoutForUpdate_def GetCheckout_def lookup_row_def
        bindT_def thenT_def commitChange_def InsertSubscription_def InsertOutbound_def whenT_def complete_checkout_def
        UpdateCheckout_def set_table_defs vals_def zero_subscription_def Let_def)
  then obtain w t where w: "ActivateCheckout ''subchk_1'' opened = (Inr (), w)" "attempts w = []"
    "map_of (subs w) ref = Some (?n\<lparr>s_CreatedAt := t, s_UpdatedAt := t\<rparr>)" by blast
  show ?thesis
  proof (intro exI conjI)
    show "service_step opened w" using w(1) by (rule work [OF activate]) simp
    show "map_of (subs w) ref = Some (?n\<lparr>s_CreatedAt := t, s_UpdatedAt := t\<rparr>)" "attempts w = []" by (rule w)+
  qed (simp_all add: FirstActivation_def sample_checkout_def zero_subscription_def)
qed

lemma sample_service:
  "\<exists>w r s. service_run sample_world w \<and> clk w = clk sample_world \<and> ent w = [1, 2, 3] \<and> map_of (subs w) r = Some s
     \<and> attempts w = [] \<and> s_PlanID s = ''pro'' \<and> \<not> s_AutomaticChargingBlocked s \<and> s_PaymentMethodKeyVersion s = None"
proof -
  obtain w r s where w: "service_step opened w" "map_of (subs w) r = Some s" "attempts w = []" "s_PlanID s = ''pro''"
    "\<not> s_AutomaticChargingBlocked s" "s_PaymentMethodKeyVersion s = None" using sample_activated by blast
  let ?w = "w\<lparr>clk := clk sample_world, ent := [1, 2, 3]\<rparr>"
  have "service_step w ?w" by (rule wait) simp
  with sample_opened w(1) have "service_run sample_world ?w"
    unfolding service_run_def by (blast intro: converse_rtranclp_into_rtranclp)
  moreover have "map_of (subs ?w) r = Some s" "clk ?w = clk sample_world" "ent ?w = [1, 2, 3]" "attempts ?w = []"
    using w(2,3) by simp_all
  ultimately show ?thesis using w(4-6) by blast
qed

section \<open>Charges\<close>

text \<open>An attempt that preparing adds was sealed from the body that the row and its plan determine.\<close>

lemma GetSubscription_Inr: "GetSubscriptionForUpdate i w = (Inr x, w') \<longleftrightarrow> map_of (subs w) i = Some x \<and> w' = w"
  by (auto simp: GetSubscriptionForUpdate_def GetSubscription_def lookup_row_def split: option.splits)

lemma stored_attempt:
  assumes "store_ok w" and "mem w' = mem w" and "find p (sort_key f (filter q (vals (attempts w')))) = Some a"
  shows "map_of (attempts w) (t_AttemptID a) = Some a"
proof -
  have "a \<in> set (sort_key f (filter q (vals (attempts w'))))" using assms(3) by (metis find_Some_iff nth_mem)
  then have "a \<in> set (vals (attempts w))" using assms(2) by simp
  then show ?thesis using store_ok_members(2) [OF assms(1)] by simp
qed

lemma insert_attempt_new:
  assumes "insert_attempt n v = (Inr a, w')" and "map_of (attempts w) (t_AttemptID a) = None" and "store_ok w" and "mem v = mem w"
  shows "a = n \<and> map_of (attempts w') (t_AttemptID n) = Some n"
proof (cases "InsertAttempt n v")
  case (Pair r u)
  show ?thesis
  proof (cases r)
    case (Inl e)
    with Pair have "u = v" by (auto dest: InsertAttempt_error)
    with assms(1) Pair Inl have "find open_attempt (sort_key t_AttemptNumber (filter (\<lambda>x. t_ActionID x = t_ActionID n) (vals (attempts v)))) = Some a"
      by (auto simp: insert_attempt_def bindT_def GetAttemptsForAction_def split: if_split_asm option.splits)
    from stored_attempt [OF assms(3,4) this] assms(2) show ?thesis by simp
  next
    case (Inr x)
    with Pair assms(1) show ?thesis
      by (auto simp: insert_attempt_def bindT_def InsertAttempt_def set_table_defs split: if_split_asm)
  qed
qed

lemma ensurePrepared_new:
  assumes "ensurePrepared s action w = (Inr a, w1)" and "map_of (attempts w) (t_AttemptID a) = None" and "store_ok w"
  obtains row p family token i ref sealed v v' number
  where "map_of (subs w) (a_SubscriptionRef action) = Some row" "ResolvePlan (sc_Config s) (s_PlanID row) = Inr (p, family)"
    "payment_token (sc_Box s) row = Inr token"
    "seal_request (sc_Box s) i (charge_body p row ref token) v = (Inr sealed, v')"
    "a = new_attempt s p row i (a_ActionID action) number ref (charge_body p row ref token) sealed"
    "map_of (attempts w1) (t_AttemptID a) = Some a"
proof -
  let ?as = "sort_key t_AttemptNumber (filter (\<lambda>x. t_ActionID x = a_ActionID action) (vals (attempts w)))"
  from assms(1) obtain row where row: "map_of (subs w) (a_SubscriptionRef action) = Some row"
    and rest: "(case find open_attempt ?as of Some a \<Rightarrow> retT a
        | None \<Rightarrow> prepare_attempt s row (a_ActionID action) (next_number ?as)) w = (Inr a, w1)"
    by (auto simp: ensurePrepared_def GetSubscription_Inr bindT_eq_Inr thenT_eq_Inr GetAttemptsForAction_def
        simp del: if_split split: if_split_asm)
  have none: "find open_attempt ?as = None"
  proof (rule ccontr)
    assume "find open_attempt ?as \<noteq> None"
    then obtain x where "find open_attempt ?as = Some x" by blast
    with rest stored_attempt [OF assms(3) refl this] assms(2) show False by simp
  qed
  with rest obtain p family token ref v1 i v2 sealed v3 where
    f: "ResolvePlan (sc_Config s) (s_PlanID row) = Inr (p, family)" "payment_token (sc_Box s) row = Inr token"
    and m: "NewAttemptReference w = (Inr ref, v1)" "newUUID v1 = (Inr i, v2)"
    and sl: "seal_request (sc_Box s) i (charge_body p row ref token) v2 = (Inr sealed, v3)"
    and ins: "insert_attempt (new_attempt s p row i (a_ActionID action) (next_number ?as) ref (charge_body p row ref token) sealed) v3 = (Inr a, w1)"
    by (auto simp: prepare_attempt_def bindT_eq_Inr Let_def)
  have "mem v1 = mem w" using m(1) NewOpaqueID_mem by (simp add: NewAttemptReference_def)
  moreover have "mem v2 = mem v1" using newUUID_mem [OF m(2)] by simp
  moreover have "mem v3 = mem v2" using sl by (auto simp: seal_request_def split: option.splits dest: Seal_mem)
  ultimately have "mem v3 = mem w" by simp
  from insert_attempt_new [OF ins assms(2,3) this] show ?thesis
    by (intro that [OF row f sl]) simp_all
qed

text \<open>While an attempt of an action is open, preparing it again changes nothing.\<close>

lemma ensurePrepared_again:
  assumes "store_ok w" and "map_of (attempts w) (t_AttemptID a) = Some a"
    and "t_Status a \<in> {''prepared'', ''uncertain'', ''running''}" and "t_ActionID a = a_ActionID action"
    and "ensurePrepared s action w = (Inr x, w')"
  shows "w' = w \<and> map_of (attempts w) (t_AttemptID x) = Some x \<and> t_ActionID x = a_ActionID action"
proof -
  let ?as = "sort_key t_AttemptNumber (filter (\<lambda>x. t_ActionID x = a_ActionID action) (vals (attempts w)))"
  have "a \<in> set ?as" using assms(2,4) by (force simp: vals_def dest: map_of_SomeD)
  moreover have "open_attempt a" using assms(3) by (auto simp: open_attempt_def)
  ultimately obtain y where y: "find open_attempt ?as = Some y" by (metis find_None_iff option.exhaust)
  with assms(5) have "x = y \<and> w' = w"
    by (auto simp: ensurePrepared_def GetSubscription_Inr bindT_eq_Inr thenT_eq_Inr GetAttemptsForAction_def
        simp del: if_split split: if_split_asm)
  moreover have "y \<in> set ?as" using y by (metis find_Some_iff nth_mem)
  ultimately show ?thesis using stored_attempt [OF assms(1) refl y] by simp
qed

definition sample_scheduler :: "box \<Rightarrow> scheduler" where
  "sample_scheduler b = \<lparr>sc_Engine = \<lparr>e_RenewalRetryDelays = [], e_DunningTermination = 0, e_StripePriceMap = [], e_Box = Some b\<rparr>,
     sc_Adyen = None, sc_Box = Some b, sc_Config = sample_config, sc_Lease = 0\<rparr>"

lemma sample_prepared:
  assumes "length (b_key b) = KeySize"
  shows "\<exists>w action a w1. service_run sample_world w \<and> ensurePrepared (sample_scheduler b) action w = (Inr a, w1) \<and> attempts w = []"
proof -
  obtain w r row where w: "service_run sample_world w" "ent w = [1, 2, 3]" "map_of (subs w) r = Some row" "attempts w = []"
    and row: "s_PlanID row = ''pro''" "\<not> s_AutomaticChargingBlocked row" "s_PaymentMethodKeyVersion row = None"
    using sample_service by blast
  obtain ref v1 where ref: "NewAttemptReference w = (Inr ref, v1)" "ent v1 = [2, 3]" "mem v1 = mem w"
    using w(2) NewOpaqueID_mem by (auto simp: NewAttemptReference_def NewOpaqueID_run ord_def)
  obtain i v2 where i: "newUUID v1 = (Inr i, v2)" "ent v2 = [3]" "mem v2 = mem v1"
    using ref(2) by (auto simp: newUUID_def RandomClaimToken_def rand_read_def bindT_def)
  have sl: "Seal b pt aad v2 = (Inr (chars (gcm_seal (nums (b_key b)) (nums (take 12 (word_bytes 3))) (nums pt) (nums aad)),
        take 12 (word_bytes 3), b_version b), v2\<lparr>ent := []\<rparr>)" for pt aad
    using i(2) by (simp add: Seal_run [OF assms])
  have "ResolvePlan sample_config ''pro'' = Inr (sample_plan, ProcessorStripe)"
    using sample_plan_resolves by (simp add: sample_claims_def)
  moreover have at: "attempts v2 = []" using i(3) ref(3) w(4) by simp
  ultimately have "\<exists>a w1. ensurePrepared (sample_scheduler b) (zero_scheduled_action\<lparr>a_SubscriptionRef := r\<rparr>) w = (Inr a, w1)"
    using w(3,4) row ref(1) i(1)
    by (simp add: ensurePrepared_def prepare_attempt_def GetSubscriptionForUpdate_def GetSubscription_def lookup_row_def bindT_def
        thenT_def GetAttemptsForAction_def payment_token_def sample_scheduler_def Let_def seal_request_def sl insert_attempt_def
        InsertAttempt_def vals_def new_attempt_def)
  with w(1,4) show ?thesis by blast
qed

section \<open>Properties\<close>

text \<open>
  C1. The transactional outbox: however the transactions of the service interleave from an empty store,
  every event is for a version that its subscription has reached, every version of every subscription has
  exactly one event, and the event of the current version carries a callback that the receiver parses to
  exactly the snapshot of the row.
\<close>

theorem outbox_complete:
  assumes "service_run w0 w" and "mem w0 = NewMemory"
  shows "(\<forall>k e. map_of (outbound w) k = Some e \<longrightarrow>
       (\<exists>s. map_of (subs w) (o_SubscriptionRef e) = Some s \<and> 1 \<le> o_StateVersion e \<and> o_StateVersion e \<le> s_StateVersion s))
    \<and> (\<forall>r s. map_of (subs w) r = Some s \<longrightarrow>
       (\<forall>v. 1 \<le> v \<and> v \<le> s_StateVersion s \<longrightarrow>
          (\<exists>!k. \<exists>e. map_of (outbound w) k = Some e \<and> o_SubscriptionRef e = r \<and> o_StateVersion e = v))
       \<and> (\<exists>k e cb. map_of (outbound w) k = Some e \<and> o_SubscriptionRef e = r \<and> o_StateVersion e = s_StateVersion s
            \<and> ParseCallback (o_PayloadBody e) = Inr cb \<and> SnapshotFromCallback cb = snapshotFrom s))"
proof -
  have i: "oinv {} {} w" using assms by (rule reached_outbox)
  have "\<exists>!k. \<exists>e. map_of (outbound w) k = Some e \<and> o_SubscriptionRef e = r \<and> o_StateVersion e = v"
    if "map_of (subs w) r = Some s" "1 \<le> v \<and> v \<le> s_StateVersion s" for r s v
    using outbox_row(2) [OF i that(1)] that(2) same_version [OF oinv_ok [OF i]] by (metis (no_types, lifting))
  then show ?thesis using event_row [OF i] outbox_row(1) [OF i] by blast
qed

text \<open>
  C16. Push and pull agree: a snapshot that the service answers with was asked for with a header signed by
  the key's holder for this path within five minutes of the clock; its body parses to the snapshot of the
  stored row, and the newest event of the subscription, the one it will be notified with, carries a callback
  whose snapshot is the same.
\<close>

theorem reconcile_agrees:
  assumes "service_run w0 w" and "mem w0 = NewMemory" and "0 \<le> unix_of (Now w)" and "unix_of (Now w) < 2 ^ 63"
    and "handle s (GetSnapshot ref authorization) w = (Inr (Body body), w')"
  shows "\<exists>ts row k e cb. \<bar>unix_of (Now w) - ts\<bar> \<le> 300
    \<and> ReconcileHeader (k_Reconcile (hs_Keys s)) ts (''/v1/subscriptions/'' @ ref) = Inr authorization
    \<and> map_of (subs w) ref = Some row \<and> ParseSnapshot body = Inr (snapshotFrom row)
    \<and> map_of (outbound w) k = Some e \<and> o_SubscriptionRef e = ref
    \<and> (\<forall>k' e'. map_of (outbound w) k' = Some e' \<and> o_SubscriptionRef e' = ref \<longrightarrow> o_StateVersion e' \<le> o_StateVersion e)
    \<and> ParseCallback (o_PayloadBody e) = Inr cb \<and> SnapshotFromCallback cb = snapshotFrom row"
proof -
  have i: "oinv {} {} w" using assms(1,2) by (rule reached_outbox)
  from snapshot_answer [OF assms(5)] obtain row
    where h: "VerifyReconcileHeader (k_Reconcile (hs_Keys s)) authorization (''/v1/subscriptions/'' @ ref) (Now w) = Inr ()"
    and row: "map_of (subs w) ref = Some row" "body = marshal_snapshot (snapshotFrom row)" by blast
  from h VerifyReconcileHeader_iff obtain ts where "ts < 2 ^ 63"
    "ReconcileHeader (k_Reconcile (hs_Keys s)) ts (''/v1/subscriptions/'' @ ref) = Inr authorization"
    "ValidateReplayWindow ts (Now w) = Inr ()" by blast
  moreover from this have "\<bar>unix_of (Now w) - ts\<bar> \<le> 300"
    using ValidateReplayWindow_iff [OF assms(3,4)] by simp
  moreover from outbox_row(1) [OF i row(1)] obtain k e cb where "map_of (outbound w) k = Some e" "o_SubscriptionRef e = ref"
    "o_StateVersion e = s_StateVersion row" "ParseCallback (o_PayloadBody e) = Inr cb" "SnapshotFromCallback cb = snapshotFrom row"
    by blast
  moreover have "o_StateVersion e' \<le> s_StateVersion row" if "map_of (outbound w) k' = Some e'" "o_SubscriptionRef e' = ref" for k' e'
    using event_row [OF i that(1)] that(2) row(1) by auto
  ultimately show ?thesis using outbox_row(3) [OF i row(1)] row by metis
qed

theorem outbox_complete_witness:
  "\<exists>w r s k e cb. service_run sample_world w \<and> map_of (subs w) r = Some s \<and> map_of (outbound w) k = Some e
     \<and> o_SubscriptionRef e = r \<and> ParseCallback (o_PayloadBody e) = Inr cb \<and> SnapshotFromCallback cb = snapshotFrom s"
proof -
  obtain w r s where w: "service_run sample_world w" "map_of (subs w) r = Some s" using sample_service by blast
  with outbox_complete [OF w(1) sample_tables(1)] show ?thesis by blast
qed

theorem reconcile_agrees_witness:
  "\<exists>w ref authorization body w' row. service_run sample_world w
     \<and> handle sample_server (GetSnapshot ref authorization) w = (Inr (Body body), w')
     \<and> map_of (subs w) ref = Some row \<and> ParseSnapshot body = Inr (snapshotFrom row)"
proof -
  obtain w ref row where w: "service_run sample_world w" "clk w = clk sample_world" "map_of (subs w) ref = Some row"
    using sample_service by blast
  have "unix_of (1767225600 * second) = 1767225600" by code_simp
  then have u: "unix_of (Now w) = 1767225600" using sample_now [OF w(2)] by simp
  obtain h where h: "ReconcileHeader (k_Reconcile sample_keys) 1767225600 (''/v1/subscriptions/'' @ ref) = Inr h"
    by (simp add: ReconcileHeader_Inr)
  have "VerifyReconcileHeader (k_Reconcile sample_keys) h (''/v1/subscriptions/'' @ ref) (Now w) = Inr ()"
    using h u VerifyReconcileHeader_iff ValidateReplayWindow_iff [of "Now w" 1767225600] by fastforce
  moreover have "ValidateSubscriptionRef ref = Inr ()" by (rule outbox_row(4) [OF reached_outbox [OF w(1) sample_tables(1)] w(3)])
  ultimately have "handle sample_server (GetSnapshot ref h) w = (Inr (Body (marshal_snapshot (snapshotFrom row))), w)"
    using w(3) by (simp add: handle_def snapshot_handler_def nowT_def respond_def bindT_def thenT_def sample_server_def
        Snapshot_def InTx_def GetSubscription_def lookup_row_def)
  note ans = this
  from reconcile_agrees [OF w(1) sample_tables(1) _ _ ans] u w(3)
  have "ParseSnapshot (marshal_snapshot (snapshotFrom row)) = Inr (snapshotFrom row)" by auto
  with ans w(1,3) show ?thesis by blast
qed

text \<open>
  Composition: answering a request, a round of the scheduler and a round of the notifier are runs of
  atomic steps,
  so what every step keeps they keep.
\<close>

lemma operations_are_runs:
  assumes "handle s rq w = (r, w') \<and> r \<noteq> Inl ErrPanic
    \<or> RunOnce sc charge resolve w = (u, w') \<and> u \<noteq> Inl ErrPanic
    \<or> NotifyOnce rand_int post n w = (v, w') \<and> v \<noteq> Inl ErrPanic"
  shows "service_run w w'"
proof -
  have "service_run w w" by (simp add: service_run_def)
  then show ?thesis
    using assms safeT_D [OF reached.handle] safeT_D [OF reached.RunOnce] safeT_D [OF reached.NotifyOnce] by blast
qed

text \<open>
  C5. The store along every run of the service from an empty store: every table stays keyed by its identifier
  and no two rows ever share what must be unique; and from any point of the run on, whatever requests,
  scheduler rounds, deliveries and operator commands follow in any interleaving, no row disappears and none
  loses what it was inserted with: the plan, return URL, processor, request fingerprint and idempotency key of
  a checkout, the checkout and the processor's identifiers of a subscription, the whole content of an outbound
  event, the key of an action, and the amount, references, idempotency key, fingerprint and sealed body of a
  charge attempt.  The rewriting updates have no such check of their own; it is the code that calls them that
  keeps the fields.
\<close>

theorem bindings_fixed:
  assumes "service_run w0 w" and "mem w0 = NewMemory" and "service_run w w'"
  shows "store_ok w'
    \<and> (\<forall>k x. map_of (checkouts w) k = Some x \<longrightarrow>
         (\<exists>y. map_of (checkouts w') k = Some y \<and> bind_checkout y = bind_checkout x))
    \<and> (\<forall>k x. map_of (subs w) k = Some x \<longrightarrow> (\<exists>y. map_of (subs w') k = Some y \<and> bind_sub y = bind_sub x))
    \<and> (\<forall>k x. map_of (outbound w) k = Some x \<longrightarrow>
         (\<exists>y. map_of (outbound w') k = Some y \<and> bind_outbound y = bind_outbound x))
    \<and> (\<forall>k x. map_of (actions w) k = Some x \<longrightarrow>
         (\<exists>y. map_of (actions w') k = Some y \<and> bind_action y = bind_action x))
    \<and> (\<forall>k x. map_of (attempts w) k = Some x \<longrightarrow>
         (\<exists>y. map_of (attempts w') k = Some y \<and> bind_attempt y = bind_attempt x))"
proof -
  have "oinv {p. pinned w p} {} w" using reached_outbox [OF assms(1,2)] by (simp add: oinv_def winv_def)
  from kept.run [OF assms(3) this] have ok: "store_ok w'" and keep: "pinned w p \<Longrightarrow> pinned w' p" for p
    by (simp_all add: oinv_def winv_def)
  show ?thesis
    using ok keep [of "PinCheckout k b" for k b] keep [of "PinSub k b" for k b] keep [of "PinOutbound k b" for k b]
      keep [of "PinAction k b" for k b] keep [of "PinAttempt k b" for k b]
    by (simp add: pinned_def)
qed

theorem bindings_fixed_witness:
  "\<exists>w c. service_run opened w \<and> subs w \<noteq> [] \<and> map_of (checkouts w) ''subchk_1'' = Some c \<and> c_PlanID c = ''pro''"
proof -
  obtain w r s where w: "service_step opened w" "map_of (subs w) r = Some s" using sample_activated by blast
  have "service_run sample_world opened" "service_run opened w"
    using sample_opened w(1) by (simp_all add: service_run_def r_into_rtranclp)
  note r = this
  let ?c = "sample_checkout\<lparr>c_CreatedAt := Now sample_world, c_UpdatedAt := Now sample_world\<rparr>"
  have "map_of (checkouts opened) ''subchk_1'' = Some ?c" by (simp add: opened_def set_table_defs)
  then obtain c where c: "map_of (checkouts w) ''subchk_1'' = Some c" "bind_checkout c = bind_checkout ?c"
    using bindings_fixed [OF r(1) sample_tables(1) r(2)] by blast
  have "c_PlanID c = ''pro''" using c(2) by (simp add: bind_checkout_def sample_checkout_def)
  moreover have "subs w \<noteq> []" using w(2) by auto
  ultimately show ?thesis using r(2) c(1) by blast
qed

text \<open>
  C14. A charge is repeated exactly and not prepared twice: the request of an attempt that preparing a renewal
  adds is, at every later time and whatever the service does in between, the one its row and plan determined
  when it was prepared: what is stored opens to the same bytes, with the reference of the prepared attempt,
  under the same fingerprint, idempotency key, amount and currency.  As long as its outcome is open, preparing
  the same action again adds nothing: it answers with a stored attempt of the action.
\<close>

theorem charge_replay_exact:
  assumes "service_run w0 w" and "mem w0 = NewMemory" and "sc_Box s = Some b" and "NewBox h = Inr b"
    and "ensurePrepared s action w = (Inr a, w1)" and "map_of (attempts w) (t_AttemptID a) = None" and "service_run w1 w2"
  shows "\<exists>row p family token a2. map_of (subs w) (a_SubscriptionRef action) = Some row
    \<and> ResolvePlan (sc_Config s) (s_PlanID row) = Inr (p, family) \<and> payment_token (sc_Box s) row = Inr token
    \<and> map_of (attempts w2) (t_AttemptID a) = Some a2
    \<and> t_AttemptReference a2 = t_AttemptReference a
    \<and> t_IdempotencyKey a = ''sb_charge_'' @ t_AttemptReference a \<and> t_IdempotencyKey a2 = t_IdempotencyKey a
    \<and> request_body (sc_Box s) a2 = Inr (charge_body p row (t_AttemptReference a) token)
    \<and> t_RequestFingerprint a2 = sha256 (charge_body p row (t_AttemptReference a) token)
    \<and> t_AmountMinor a2 = pl_AmountMinor p \<and> t_Currency a2 = pl_Currency p
    \<and> (\<forall>s' action' a3 w3. t_Status a2 \<in> {''prepared'', ''uncertain'', ''running''}
         \<and> a_ActionID action' = a_ActionID action \<and> ensurePrepared s' action' w2 = (Inr a3, w3) \<longrightarrow>
         w3 = w2 \<and> map_of (attempts w2) (t_AttemptID a3) = Some a3 \<and> t_ActionID a3 = a_ActionID action)"
proof -
  have i: "oinv {} {} w" using assms(1,2) by (rule reached_outbox)
  obtain row p family token j ref sealed v v' number
    where r: "map_of (subs w) (a_SubscriptionRef action) = Some row" "ResolvePlan (sc_Config s) (s_PlanID row) = Inr (p, family)"
      "payment_token (sc_Box s) row = Inr token"
    and sl: "seal_request (sc_Box s) j (charge_body p row ref token) v = (Inr sealed, v')"
    and a: "a = new_attempt s p row j (a_ActionID action) number ref (charge_body p row ref token) sealed"
    and st: "map_of (attempts w1) (t_AttemptID a) = Some a" by (rule ensurePrepared_new [OF assms(5,6) oinv_ok [OF i]])
  let ?P = "{PinAttempt (t_AttemptID a) (bind_attempt a)}"
  have "oinv {} {} w1" using tripT_D [OF trip_ensurePrepared i assms(5)] .
  with st have "oinv ?P {} w1" by (intro oinv_pinned) (simp_all add: pinned_def)
  then have "oinv ?P {} w2" by (rule kept.run [OF assms(7)])
  then obtain a2 where a2: "map_of (attempts w2) (t_AttemptID a) = Some a2" "bind_attempt a2 = bind_attempt a" and ok: "store_ok w2"
    by (auto simp: oinv_def winv_def pinned_def)
  have key: "t_AttemptID a2 = t_AttemptID a"
    using ok a2(1) unfolding store_ok_def keyed_by_def by (blast dest: well_keyed_key)
  obtain ct nonce ver where sd: "sealed = (ct, nonce, ver)" by (cases sealed)
  with sl assms(3) have se: "Seal b (charge_body p row ref token) (AAD ''charge-request'' j) v = (Inr (ct, nonce, ver), v')"
    by (simp add: seal_request_def)
  have k: "length (b_key b) = KeySize" using NewBox_Inr [OF assms(4)] by simp
  have "length (word_bytes r) = 16" for r by simp
  then have "word_bytes r \<noteq> []" for r by (metis list.size(3) zero_neq_numeral)
  then have "nonce \<noteq> []" using se by (auto simp: Seal_run [OF k] split: list.splits)
  with Open_Seal [OF k se] a2(2) key a sd assms(3)
  have "request_body (sc_Box s) a2 = Inr (charge_body p row (t_AttemptReference a) token)"
    by (simp add: request_body_def bind_attempt_def new_attempt_def)
  moreover have kept: "t_RequestFingerprint a2 = sha256 (charge_body p row (t_AttemptReference a) token)"
    "t_AttemptReference a2 = t_AttemptReference a" "t_IdempotencyKey a = ''sb_charge_'' @ t_AttemptReference a"
    "t_IdempotencyKey a2 = t_IdempotencyKey a" "t_AmountMinor a2 = pl_AmountMinor p" "t_Currency a2 = pl_Currency p"
    "t_ActionID a2 = a_ActionID action"
    using a2(2) unfolding a sd by (simp_all add: bind_attempt_def new_attempt_def)
  moreover have st2: "map_of (attempts w2) (t_AttemptID a2) = Some a2" using a2(1) key by simp
  have "\<forall>s' action' a3 w3. t_Status a2 \<in> {''prepared'', ''uncertain'', ''running''}
         \<and> a_ActionID action' = a_ActionID action \<and> ensurePrepared s' action' w2 = (Inr a3, w3) \<longrightarrow>
         w3 = w2 \<and> map_of (attempts w2) (t_AttemptID a3) = Some a3 \<and> t_ActionID a3 = a_ActionID action"
  proof (intro allI impI, elim conjE)
    fix s' action' a3 w3 assume *: "t_Status a2 \<in> {''prepared'', ''uncertain'', ''running''}"
      "a_ActionID action' = a_ActionID action" "ensurePrepared s' action' w2 = (Inr a3, w3)"
    from *(2) kept(7) have "t_ActionID a2 = a_ActionID action'" by simp
    from ensurePrepared_again [OF ok st2 *(1) this *(3)] *(2)
    show "w3 = w2 \<and> map_of (attempts w2) (t_AttemptID a3) = Some a3 \<and> t_ActionID a3 = a_ActionID action" by simp
  qed
  ultimately show ?thesis using r a2(1) by (intro exI conjI) assumption+
qed

theorem charge_replay_exact_witness:
  "\<exists>b action w a w1 a2 p row token. NewBox sample_key = Inr b \<and> ensurePrepared (sample_scheduler b) action w = (Inr a, w1)
     \<and> map_of (attempts w1) (t_AttemptID a) = Some a2
     \<and> request_body (sc_Box (sample_scheduler b)) a2 = Inr (charge_body p row (t_AttemptReference a) token)"
proof -
  have "length sample_key = 64" "list_all is_lower_hex sample_key"
    by (simp_all add: sample_key_def eval_nat_numeral is_lower_hex_def ord_def)
  then obtain b where b: "NewBox sample_key = Inr b" using NewBox_accepts by blast
  obtain w action a w1 where w: "service_run sample_world w" "ensurePrepared (sample_scheduler b) action w = (Inr a, w1)" "attempts w = []"
    using sample_prepared NewBox_Inr [OF b] by blast
  have "sc_Box (sample_scheduler b) = Some b" "map_of (attempts w) (t_AttemptID a) = None" "service_run w1 w1"
    using w(3) by (simp_all add: service_run_def sample_scheduler_def)
  from charge_replay_exact [OF w(1) sample_tables(1) this(1) b w(2) this(2,3)] b w(2) show ?thesis
    by (elim exE conjE) (intro exI conjI)
qed

end
