(* ===== verification/Sql.thy ===== *)
theory Sql
  imports Transition
begin

text \<open>
  The statements \<^verbatim>\<open>internal/store/postgres.go\<close> sends, as functions on a database whose tables are those
  of \<^verbatim>\<open>migrations/001_init.sql\<close>: insertion, update and selection under the schema's constraints, and a
  transaction that no statement survives once one of them has failed.  Columns that no statement reads
  (\<^verbatim>\<open>payload_json\<close>, \<^verbatim>\<open>updated_at\<close> of actions and leases, \<^verbatim>\<open>created_at\<close> of actions and audits) are left out.

  The server and its driver are parameters, the record \<open>dbms\<close>: how a time is stored, which texts, UUIDs
  and JSON documents they take, what \<^verbatim>\<open>gen_random_uuid()\<close> yields in the \<open>n\<close>-th statement, and what keeps the
  query of the schema's version from being answered, a lost connection or a missing table.  A row
  that another transaction holds locked is a member of \<open>locked\<close>; transactions are serial otherwise.
\<close>

section \<open>Sessions\<close>

record attempt_row = charge_attempt +
  t_CreatedAt :: gotime

record database =
  sb_checkouts :: "checkout list"
  sb_subscriptions :: "subscription list"
  sb_outbound_events :: "outbound_event list"
  sb_processor_events :: "processor_event list"
  sb_processing_leases :: "processing_lease list"
  sb_scheduled_actions :: "scheduled_action list"
  sb_charge_attempts :: "attempt_row list"
  sb_operator_audit :: "audit list"
  sb_schema_migrations :: "int list"

record dbms =
  timestamptz :: "gotime \<Rightarrow> gotime"
  uuid_text :: "string \<Rightarrow> string option"
  text_ok :: "string \<Rightarrow> bool"
  jsonb_ok :: "bytes \<Rightarrow> bool"
  jsonb_fields :: "(string \<times> anyval) list \<Rightarrow> (string \<times> anyval) list option"
  gen_random_uuid :: "nat \<Rightarrow> string"
  version_error :: "gerr option"

text \<open>\<open>pg_clock\<close> is the clock of \<^verbatim>\<open>Postgres\<close>, \<open>tx_now\<close> the transaction's \<^verbatim>\<open>NOW()\<close>, \<open>rand\<close> what \<open>crypto/rand\<close> delivers.\<close>

record session =
  db :: database
  dbms_of :: dbms
  pg_clock :: gotime
  tx_now :: gotime
  rand :: "128 word list"
  failed :: bool
  busy :: bool
  statements :: nat
  locked :: "string list"

abbreviation stored_time :: "session \<Rightarrow> gotime \<Rightarrow> gotime" where
  "stored_time s t \<equiv> timestamptz (dbms_of s) t"

abbreviation stored_uuid :: "session \<Rightarrow> string \<Rightarrow> string" where
  "stored_uuid s i \<equiv> the (uuid_text (dbms_of s) i)"

abbreviation new_uuid :: "session \<Rightarrow> string" where
  "new_uuid s \<equiv> gen_random_uuid (dbms_of s) (statements s)"

section \<open>Errors\<close>

text \<open>The server's errors by their SQLSTATE; \<open>NoRows\<close> is \<open>pgx.ErrNoRows\<close>.\<close>

abbreviation CheckViolation :: gerr where "CheckViolation \<equiv> ErrOther ''23514''"
abbreviation UniqueViolation :: gerr where "UniqueViolation \<equiv> ErrOther ''23505''"
abbreviation ForeignKeyViolation :: gerr where "ForeignKeyViolation \<equiv> ErrOther ''23503''"
abbreviation AmbiguousFunction :: gerr where "AmbiguousFunction \<equiv> ErrOther ''42725''"
abbreviation AmbiguousColumn :: gerr where "AmbiguousColumn \<equiv> ErrOther ''42702''"
abbreviation InvalidParameter :: gerr where "InvalidParameter \<equiv> ErrOther ''22P02''"
abbreviation InvalidLimit :: gerr where "InvalidLimit \<equiv> ErrOther ''2201W''"
abbreviation InFailedTransaction :: gerr where "InFailedTransaction \<equiv> ErrOther ''25P02''"
abbreviation CommitRollback :: gerr where "CommitRollback \<equiv> ErrOther ''commit unexpectedly resulted in rollback''"
abbreviation ConnBusy :: gerr where "ConnBusy \<equiv> ErrOther ''conn busy''"
abbreviation NoRows :: gerr where "NoRows \<equiv> ErrOther ''no rows in result set''"

section \<open>Statements\<close>

text \<open>
  A parameter is checked before the statement runs.  A statement of a failed transaction is refused, and a
  statement that fails makes its transaction failed.  While the rows of a query are open the connection is
  busy and takes no other statement.
\<close>

datatype param = Text string | Uuid string | Json bytes | Fields "(string \<times> anyval) list"

definition nullable :: "(string \<Rightarrow> param) \<Rightarrow> string option \<Rightarrow> param list" where
  "nullable c v = (case v of None \<Rightarrow> [] | Some t \<Rightarrow> [c t])"

fun param_ok :: "dbms \<Rightarrow> param \<Rightarrow> bool" where
  "param_ok S (Text t) = text_ok S t"
| "param_ok S (Uuid i) = (uuid_text S i \<noteq> None)"
| "param_ok S (Json b) = jsonb_ok S b"
| "param_ok S (Fields f) = (jsonb_fields S f \<noteq> None)"

definition sqlT :: "param list \<Rightarrow> (session \<Rightarrow> gerr + 'a \<times> database) \<Rightarrow> (session, 'a) tx" where
  "sqlT ps f = (\<lambda>s.
     if busy s then (Inl ConnBusy, s)
     else if failed s then (Inl InFailedTransaction, s)
     else if \<not> list_all (param_ok (dbms_of s)) ps then (Inl InvalidParameter, s\<lparr>failed := True\<rparr>)
     else case f s of
            Inl e \<Rightarrow> (Inl e, s\<lparr>failed := True\<rparr>)
          | Inr (x, d) \<Rightarrow> (Inr x, s\<lparr>db := d, statements := Suc (statements s)\<rparr>))"

text \<open>
  A table with what the schema asks of a row by itself (\<open>accepts\<close>: types, domains, \<^verbatim>\<open>NOT NULL\<close>, \<^verbatim>\<open>CHECK\<close>),
  of two rows (\<open>clash\<close>: \<^verbatim>\<open>PRIMARY KEY\<close>, \<^verbatim>\<open>UNIQUE\<close>) and of other tables (\<open>refs\<close>: \<^verbatim>\<open>REFERENCES\<close>).
\<close>

record 'v table =
  rows_of :: "database \<Rightarrow> 'v list"
  put_rows :: "'v list \<Rightarrow> database \<Rightarrow> database"
  accepts :: "'v \<Rightarrow> bool"
  clash :: "'v \<Rightarrow> 'v \<Rightarrow> bool"
  refs :: "database \<Rightarrow> 'v \<Rightarrow> bool"

fun no_clash :: "('v \<Rightarrow> 'v \<Rightarrow> bool) \<Rightarrow> 'v list \<Rightarrow> bool" where
  "no_clash c [] = True"
| "no_clash c (v # vs) = ((\<forall>x\<in>set vs. \<not> c v x) \<and> no_clash c vs)"

definition insert_into :: "'v table \<Rightarrow> 'v \<Rightarrow> database \<Rightarrow> gerr + unit \<times> database" where
  "insert_into T v d =
     (if \<not> accepts T v then Inl CheckViolation
      else if list_ex (\<lambda>x. clash T x v) (rows_of T d) then Inl UniqueViolation
      else let d' = put_rows T (rows_of T d @ [v]) d
           in if refs T d' v then Inr ((), d') else Inl ForeignKeyViolation)"

text \<open>\<open>update_set p g\<close>: the rows where \<open>p\<close> holds become \<open>g\<close> of them; the result is the rows written.\<close>

definition update_set :: "'v table \<Rightarrow> ('v \<Rightarrow> bool) \<Rightarrow> ('v \<Rightarrow> 'v) \<Rightarrow> database \<Rightarrow> gerr + 'v list \<times> database" where
  "update_set T p g d =
     (let new = map (\<lambda>r. if p r then g r else r) (rows_of T d);
          written = map g (filter p (rows_of T d));
          d' = put_rows T new d
      in if \<not> list_all (accepts T) written then Inl CheckViolation
         else if written \<noteq> [] \<and> \<not> no_clash (clash T) new then Inl UniqueViolation
         else if \<not> list_all (refs T d') written then Inl ForeignKeyViolation
         else Inr (written, d'))"

definition insertT :: "param list \<Rightarrow> 'v table \<Rightarrow> (session \<Rightarrow> 'v) \<Rightarrow> (session, unit) tx" where
  "insertT ps T v = sqlT ps (\<lambda>s. insert_into T (v s) (db s))"

definition updateT ::
  "param list \<Rightarrow> 'v table \<Rightarrow> (session \<Rightarrow> 'v \<Rightarrow> bool) \<Rightarrow> (session \<Rightarrow> 'v \<Rightarrow> 'v) \<Rightarrow> (session, 'v list) tx" where
  "updateT ps T p g = sqlT ps (\<lambda>s. update_set T (p s) (g s) (db s))"

definition selectT :: "param list \<Rightarrow> 'v table \<Rightarrow> (session \<Rightarrow> 'v \<Rightarrow> bool) \<Rightarrow> (session, 'v list) tx" where
  "selectT ps T p = sqlT ps (\<lambda>s. Inr (filter (p s) (rows_of T (db s)), db s))"

text \<open>\<open>ORDER BY key LIMIT n\<close>.\<close>

definition order_limitT :: "('v \<Rightarrow> int) \<Rightarrow> int \<Rightarrow> (session, 'v list) tx \<Rightarrow> (session, 'v list) tx" where
  "order_limitT key n m = (\<lambda>s.
     if \<not> busy s \<and> \<not> failed s \<and> n < 0 then (Inl InvalidLimit, s\<lparr>failed := True\<rparr>)
     else bindT m (\<lambda>vs. retT (take (nat n) (sort_key key vs))) s)"

text \<open>\<open>QueryRow(...).Scan\<close>, the number of rows a statement wrote, and what the code makes of both.\<close>

definition queryRowT :: "(session, 'v list) tx \<Rightarrow> (session, 'v) tx" where
  "queryRowT m = bindT m (\<lambda>rs. case rs of [] \<Rightarrow> errT NoRows | r # _ \<Rightarrow> retT r)"

definition mapErr :: "gerr + 'a \<Rightarrow> gerr + 'a" where
  "mapErr r = (case r of Inl e \<Rightarrow> Inl (if e = NoRows then ErrNotFound else e) | Inr x \<Rightarrow> Inr x)"

definition mapErrT :: "(session, 'a) tx \<Rightarrow> (session, 'a) tx" where
  "mapErrT m = bindT (attemptT m) (\<lambda>r. liftT (mapErr r))"

definition scanT :: "(session, 'v list) tx \<Rightarrow> (session, 'v) tx" where
  "scanT m = mapErrT (queryRowT m)"

definition ownedT :: "(session, 'v list) tx \<Rightarrow> (session, unit) tx" where
  "ownedT m = bindT m (\<lambda>rs. if rs = [] then errT ErrNotOwned else retT ())"

definition execT :: "(session, 'v list) tx \<Rightarrow> (session, unit) tx" where
  "execT m = bindT m (\<lambda>_. retT ())"

text \<open>\<open>for rows.Next()\<close> with its body run between the rows; the rows are closed when the function returns.\<close>

fun foreachT :: "('v \<Rightarrow> ('s, 'a) tx) \<Rightarrow> 'v list \<Rightarrow> ('s, 'a list) tx" where
  "foreachT f [] = retT []"
| "foreachT f (v # vs) = bindT (f v) (\<lambda>x. bindT (foreachT f vs) (\<lambda>xs. retT (x # xs)))"

definition overRowsT :: "(session, 'v list) tx \<Rightarrow> ('v \<Rightarrow> (session, 'a) tx) \<Rightarrow> (session, 'a list) tx" where
  "overRowsT m f = bindT m (\<lambda>vs s. case foreachT f vs (s\<lparr>busy := True\<rparr>) of (r, s') \<Rightarrow> (r, s'\<lparr>busy := False\<rparr>))"

section \<open>Transactions\<close>

text \<open>The deferred rollback undoes a transaction that returns an error or panics; committing a failed one is an error.\<close>

definition PgInTx :: "(session, 'a) tx \<Rightarrow> (session, 'a) tx" where
  "PgInTx fn = (\<lambda>s.
     case fn (s\<lparr>failed := False\<rparr>) of
       (Inl e, s') \<Rightarrow> (Inl e, s'\<lparr>db := db s, failed := False\<rparr>)
     | (Inr x, s') \<Rightarrow>
         if failed s' then (Inl CommitRollback, s'\<lparr>db := db s, failed := False\<rparr>) else (Inr x, s'))"

definition PgNow :: "session \<Rightarrow> gotime" where
  "PgNow s = TruncateUTC (pg_clock s)"

text \<open>A token of the code's own random source.\<close>

definition mustPGToken :: "(session, string) tx" where
  "mustPGToken = (\<lambda>s.
     case newUUID \<lparr>mem = NewMemory, clk = pg_clock s, ent = rand s\<rparr> of
       (Inl _, w) \<Rightarrow> (Inl ErrPanic, s\<lparr>rand := ent w\<rparr>)
     | (Inr i, w) \<Rightarrow> (Inr i, s\<lparr>rand := ent w\<rparr>))"

end
