(* ===== verification/Postgres.thy ===== *)
theory Postgres
  imports Sql
begin

text \<open>
  \<^verbatim>\<open>internal/store/postgres.go\<close>: every operation of the store interface on PostgreSQL, statement by
  statement, over the schema of \<^verbatim>\<open>migrations/001_init.sql\<close>.  An absent byte string is \<^verbatim>\<open>NULL\<close>.  The order
  of rows with equal keys is the server's choice; the model keeps the order of the table.
\<close>

section \<open>The schema\<close>

abbreviation int8 :: "int \<Rightarrow> bool" where "int8 x \<equiv> - (2 ^ 63) \<le> x \<and> x < 2 ^ 63"
abbreviation int4 :: "int \<Rightarrow> bool" where "int4 x \<equiv> - (2 ^ 31) \<le> x \<and> x < 2 ^ 31"

text \<open>The domain \<^verbatim>\<open>sb_utc_second\<close>.\<close>

definition utc_second :: "gotime \<Rightarrow> bool" where
  "utc_second t \<longleftrightarrow> t = TruncateUTC t"

text \<open>
  \<^verbatim>\<open>sb_valid_id\<close>: in \<^verbatim>\<open>LIKE\<close> the underscore of a prefix stands for any character, and a length is counted in
  characters.
\<close>

definition sb_valid_id :: "string \<Rightarrow> string \<Rightarrow> bool" where
  "sb_valid_id val prefix \<longleftrightarrow>
     (case runes (map ord val) of
        None \<Rightarrow> False
      | Some rs \<Rightarrow>
          length prefix + 1 \<le> length rs \<and> length rs \<le> 160
          \<and> list_all2 (\<lambda>p r. p = CHR ''_'' \<or> ord p = r) prefix (take (length prefix) rs)
          \<and> list_all (\<lambda>r. r < 128 \<and> id_char (char_of r)) (drop (length prefix) rs))"

definition all_or_none :: "bytes \<Rightarrow> bytes \<Rightarrow> string option \<Rightarrow> bool" where
  "all_or_none ciphertext nonce version \<longleftrightarrow>
     ciphertext = [] \<and> nonce = [] \<and> version = None \<or> ciphertext \<noteq> [] \<and> nonce \<noteq> [] \<and> version \<noteq> None"

definition checkout_accepts :: "checkout \<Rightarrow> bool" where
  "checkout_accepts c \<longleftrightarrow>
     sb_valid_id (c_CheckoutID c) ''subchk_'' \<and> 1 \<le> length (c_PlanID c) \<and> length (c_PlanID c) \<le> 128
     \<and> c_ProcessorFamily c \<in> {ProcessorStripe, ProcessorAdyen} \<and> length (c_RequestFingerprint c) = 32
     \<and> c_Status c \<in> {''creating'', ''pending'', ''completed'', ''expired'', ''canceled''}
     \<and> (case c_SubscriptionRef c of None \<Rightarrow> True | Some r \<Rightarrow> sb_valid_id r ''sub_'')
     \<and> utc_second (c_ExpiresAt c)
     \<and> (c_ProcessorFamily c = ProcessorAdyen) = (c_ProcessorShopperReference c \<noteq> None)"

definition sub_accepts :: "subscription \<Rightarrow> bool" where
  "sub_accepts s \<longleftrightarrow>
     row_ok s \<and> sb_valid_id (s_SubscriptionRef s) ''sub_''
     \<and> 1 \<le> length (s_PlanID s) \<and> length (s_PlanID s) \<le> 128 \<and> int8 (s_StateVersion s)
     \<and> s_ProcessorFamily s \<in> {ProcessorStripe, ProcessorAdyen}
     \<and> utc_second (s_CurrentPeriodStart s) \<and> utc_second (s_CurrentPeriodEnd s) \<and> utc_second (s_StateChangedAt s)
     \<and> (case s_CanceledAt s of None \<Rightarrow> True | Some t \<Rightarrow> utc_second t)
     \<and> all_or_none (s_PaymentMethodCiphertext s) (s_PaymentMethodNonce s) (s_PaymentMethodKeyVersion s)"

definition outbound_accepts :: "outbound_event \<Rightarrow> bool" where
  "outbound_accepts e \<longleftrightarrow>
     sb_valid_id (o_EventID e) ''evt_'' \<and> o_PayloadBody e \<noteq> [] \<and> int8 (o_StateVersion e)
     \<and> int4 (o_AttemptCount e) \<and> int8 (o_FencingToken e)
     \<and> (o_DeliveryState e = ''pending'' \<and> o_NextAttemptAt e \<noteq> None \<and> o_DeliveredAt e = None
          \<and> o_DeadLetteredAt e = None \<and> o_AbandonedAt e = None
        \<or> o_DeliveryState e = ''delivered'' \<and> o_NextAttemptAt e = None \<and> o_DeliveredAt e \<noteq> None
          \<and> o_DeadLetteredAt e = None \<and> o_AbandonedAt e = None
        \<or> o_DeliveryState e = ''dead_lettered'' \<and> o_NextAttemptAt e = None \<and> o_DeliveredAt e = None
          \<and> o_DeadLetteredAt e \<noteq> None \<and> o_AbandonedAt e = None
        \<or> o_DeliveryState e = ''abandoned'' \<and> o_NextAttemptAt e = None \<and> o_DeliveredAt e = None
          \<and> o_DeadLetteredAt e = None \<and> o_AbandonedAt e \<noteq> None)
     \<and> (o_ClaimToken e = None) = (o_LeaseUntil e = None)
     \<and> (o_DeliveryState e = ''pending'' \<or> o_ClaimToken e = None \<and> o_LeaseUntil e = None)"

definition event_accepts :: "processor_event \<Rightarrow> bool" where
  "event_accepts e \<longleftrightarrow>
     length (p_PayloadHash e) = 32 \<and> int8 (p_FencingToken e)
     \<and> p_ProcessingState e \<in> {''pending'', ''running'', ''processed'', ''quarantined'', ''manual_review''}
     \<and> all_or_none (p_SensitiveCiphertext e) (p_SensitiveNonce e) (p_SensitiveKeyVersion e)
     \<and> (if p_ProcessingState e = ''running'' then p_ClaimToken e \<noteq> None \<and> p_LeaseUntil e \<noteq> None
        else p_ClaimToken e = None \<and> p_LeaseUntil e = None)"

definition lease_accepts :: "processing_lease \<Rightarrow> bool" where
  "lease_accepts l \<longleftrightarrow>
     int8 (l_FencingToken l)
     \<and> (l_Status l = ''running'' \<and> l_ActiveActionID l \<noteq> None \<and> l_ClaimToken l \<noteq> None \<and> l_LeaseUntil l \<noteq> None
        \<or> l_Status l = ''idle'' \<and> l_ActiveActionID l = None \<and> l_ClaimToken l = None \<and> l_LeaseUntil l = None)"

definition action_accepts :: "scheduled_action \<Rightarrow> bool" where
  "action_accepts a \<longleftrightarrow>
     a_ActionType a \<in> {''renew'', ''expire''} \<and> utc_second (a_TargetAt a) \<and> utc_second (a_DueAt a)
     \<and> a_Status a \<in> {''pending'', ''running'', ''uncertain'', ''completed'', ''canceled'', ''manual_review''}
     \<and> int8 (a_FencingToken a)
     \<and> (if a_Status a = ''running'' then a_ClaimToken a \<noteq> None \<and> a_LeaseUntil a \<noteq> None
        else a_ClaimToken a = None \<and> a_LeaseUntil a = None)"

definition attempt_accepts :: "attempt_row \<Rightarrow> bool" where
  "attempt_accepts t \<longleftrightarrow>
     utc_second (t_PeriodStart t) \<and> utc_second (t_PeriodEnd t) \<and> int4 (t_AttemptNumber t)
     \<and> 0 < t_AmountMinor t \<and> int8 (t_AmountMinor t)
     \<and> t_ShopperInteraction t = ''ContAuth'' \<and> t_RecurringProcessingModel t = ''Subscription''
     \<and> length (t_RequestFingerprint t) = 32 \<and> t_RequestCiphertext t \<noteq> [] \<and> t_RequestNonce t \<noteq> []
     \<and> t_Status t \<in> {''prepared'', ''running'', ''uncertain'', ''authorized'', ''refused'', ''manual_review'', ''canceled''}
     \<and> int8 (t_FencingToken t)
     \<and> (case t_FirstSubmittedAt t of None \<Rightarrow> True | Some u \<Rightarrow> utc_second u)
     \<and> (case t_ResolutionDeadline t of None \<Rightarrow> True | Some u \<Rightarrow> utc_second u)
     \<and> (case t_CompletedAt t of None \<Rightarrow> True | Some u \<Rightarrow> utc_second u)
     \<and> t_PeriodStart t < t_PeriodEnd t
     \<and> (case (t_ResolutionDeadline t, t_FirstSubmittedAt t) of
          (Some r, Some f) \<Rightarrow> r \<le> f + 6 * 24 * hour | _ \<Rightarrow> True)
     \<and> (if t_Status t \<in> {''prepared'', ''canceled''} then t_FirstSubmittedAt t = None \<and> t_ResolutionDeadline t = None
        else t_FirstSubmittedAt t \<noteq> None \<and> t_ResolutionDeadline t \<noteq> None)
     \<and> (if t_Status t = ''running'' then t_ClaimToken t \<noteq> None \<and> t_LeaseUntil t \<noteq> None
        else t_ClaimToken t = None \<and> t_LeaseUntil t = None)"

text \<open>\<^verbatim>\<open>NULL\<close>s are never equal.\<close>

definition same :: "'a option \<Rightarrow> 'a option \<Rightarrow> bool" where
  "same x y \<longleftrightarrow> x \<noteq> None \<and> x = y"

definition checkout_clash :: "checkout \<Rightarrow> checkout \<Rightarrow> bool" where
  "checkout_clash x y \<longleftrightarrow>
     c_CheckoutID x = c_CheckoutID y \<or> c_ProviderIdempotencyKey x = c_ProviderIdempotencyKey y
     \<or> same (c_SubscriptionRef x) (c_SubscriptionRef y)"

definition sub_clash :: "subscription \<Rightarrow> subscription \<Rightarrow> bool" where
  "sub_clash x y \<longleftrightarrow>
     s_SubscriptionRef x = s_SubscriptionRef y \<or> s_CheckoutID x = s_CheckoutID y
     \<or> s_ProcessorFamily x = s_ProcessorFamily y \<and> same (s_ProcessorSubscriptionID x) (s_ProcessorSubscriptionID y)
     \<or> same (s_ProcessorShopperReference x) (s_ProcessorShopperReference y)
     \<or> s_ProcessorFamily x = s_ProcessorFamily y \<and> same (s_ProcessorInitialPaymentID x) (s_ProcessorInitialPaymentID y)"

definition outbound_clash :: "outbound_event \<Rightarrow> outbound_event \<Rightarrow> bool" where
  "outbound_clash x y \<longleftrightarrow>
     o_EventID x = o_EventID y \<or> o_SubscriptionRef x = o_SubscriptionRef y \<and> o_StateVersion x = o_StateVersion y"

definition event_clash :: "processor_event \<Rightarrow> processor_event \<Rightarrow> bool" where
  "event_clash x y \<longleftrightarrow>
     p_ProcessingActionID x = p_ProcessingActionID y
     \<or> p_ProcessorFamily x = p_ProcessorFamily y \<and> p_ProcessorEventID x = p_ProcessorEventID y"

definition lease_clash :: "processing_lease \<Rightarrow> processing_lease \<Rightarrow> bool" where
  "lease_clash x y \<longleftrightarrow> l_ProcessingKey x = l_ProcessingKey y \<or> same (l_ActiveActionID x) (l_ActiveActionID y)"

definition action_clash :: "scheduled_action \<Rightarrow> scheduled_action \<Rightarrow> bool" where
  "action_clash x y \<longleftrightarrow> a_ActionID x = a_ActionID y \<or> a_ActionKey x = a_ActionKey y"

definition charge_clash :: "attempt_row \<Rightarrow> attempt_row \<Rightarrow> bool" where
  "charge_clash x y \<longleftrightarrow>
     t_AttemptID x = t_AttemptID y \<or> t_AttemptReference x = t_AttemptReference y
     \<or> t_IdempotencyKey x = t_IdempotencyKey y
     \<or> t_SubscriptionRef x = t_SubscriptionRef y \<and> t_PeriodStart x = t_PeriodStart y
       \<and> t_AttemptNumber x = t_AttemptNumber y
     \<or> same (t_ProcessorPaymentID x) (t_ProcessorPaymentID y)"

definition has_sub :: "database \<Rightarrow> string \<Rightarrow> bool" where
  "has_sub d r \<longleftrightarrow> list_ex (\<lambda>x. s_SubscriptionRef x = r) (sb_subscriptions d)"

definition has_checkout :: "database \<Rightarrow> string \<Rightarrow> bool" where
  "has_checkout d i \<longleftrightarrow> list_ex (\<lambda>x. c_CheckoutID x = i) (sb_checkouts d)"

definition checkouts_table :: "checkout table" where
  "checkouts_table = \<lparr>rows_of = sb_checkouts, put_rows = (\<lambda>t d. d\<lparr>sb_checkouts := t\<rparr>),
     accepts = checkout_accepts, clash = checkout_clash, refs = (\<lambda>_ _. True)\<rparr>"

definition subscriptions_table :: "subscription table" where
  "subscriptions_table = \<lparr>rows_of = sb_subscriptions, put_rows = (\<lambda>t d. d\<lparr>sb_subscriptions := t\<rparr>),
     accepts = sub_accepts, clash = sub_clash, refs = (\<lambda>d s. has_checkout d (s_CheckoutID s))\<rparr>"

definition outbound_events_table :: "outbound_event table" where
  "outbound_events_table = \<lparr>rows_of = sb_outbound_events, put_rows = (\<lambda>t d. d\<lparr>sb_outbound_events := t\<rparr>),
     accepts = outbound_accepts, clash = outbound_clash,
     refs = (\<lambda>d e. has_sub d (o_SubscriptionRef e) \<and> has_checkout d (o_CheckoutID e))\<rparr>"

definition processor_events_table :: "processor_event table" where
  "processor_events_table = \<lparr>rows_of = sb_processor_events, put_rows = (\<lambda>t d. d\<lparr>sb_processor_events := t\<rparr>),
     accepts = event_accepts, clash = event_clash,
     refs = (\<lambda>d e. case p_SubscriptionRef e of None \<Rightarrow> True | Some r \<Rightarrow> has_sub d r)\<rparr>"

definition leases_table :: "processing_lease table" where
  "leases_table = \<lparr>rows_of = sb_processing_leases, put_rows = (\<lambda>t d. d\<lparr>sb_processing_leases := t\<rparr>),
     accepts = lease_accepts, clash = lease_clash,
     refs = (\<lambda>d l. case l_ActiveActionID l of None \<Rightarrow> True
        | Some i \<Rightarrow> list_ex (\<lambda>x. p_ProcessingActionID x = i) (sb_processor_events d))\<rparr>"

definition scheduled_actions_table :: "scheduled_action table" where
  "scheduled_actions_table = \<lparr>rows_of = sb_scheduled_actions, put_rows = (\<lambda>t d. d\<lparr>sb_scheduled_actions := t\<rparr>),
     accepts = action_accepts, clash = action_clash, refs = (\<lambda>d a. has_sub d (a_SubscriptionRef a))\<rparr>"

definition charge_attempts_table :: "attempt_row table" where
  "charge_attempts_table = \<lparr>rows_of = sb_charge_attempts, put_rows = (\<lambda>t d. d\<lparr>sb_charge_attempts := t\<rparr>),
     accepts = attempt_accepts, clash = charge_clash,
     refs = (\<lambda>d t. has_sub d (t_SubscriptionRef t)
        \<and> list_ex (\<lambda>x. a_ActionID x = t_ActionID t) (sb_scheduled_actions d))\<rparr>"

definition audit_table :: "audit table" where
  "audit_table = \<lparr>rows_of = sb_operator_audit, put_rows = (\<lambda>t d. d\<lparr>sb_operator_audit := t\<rparr>),
     accepts = (\<lambda>_. True), clash = (\<lambda>x y. u_AuditID x = u_AuditID y), refs = (\<lambda>_ _. True)\<rparr>"

lemmas table_defs = checkouts_table_def subscriptions_table_def outbound_events_table_def
  processor_events_table_def leases_table_def scheduled_actions_table_def charge_attempts_table_def audit_table_def

section \<open>Checkouts\<close>

definition pgInsertCheckout :: "checkout \<Rightarrow> (session, unit) tx" where
  "pgInsertCheckout c = mapErrT (insertT
     ([Text (c_CheckoutID c), Text (c_PlanID c), Text (c_NormalizedReturnURL c), Text (c_ProcessorFamily c),
       Text (c_ProviderIdempotencyKey c), Text (c_Status c)] @ nullable Text (c_ProcessorShopperReference c))
     checkouts_table
     (\<lambda>s. c\<lparr>c_SubscriptionRef := None, c_ProcessorCheckoutID := None, c_ExpiresAt := stored_time s (c_ExpiresAt c),
        c_CreatedAt := tx_now s, c_UpdatedAt := tx_now s\<rparr>))"

definition pgGetCheckout :: "string \<Rightarrow> (session, checkout) tx" where
  "pgGetCheckout i = scanT (selectT [Text i] checkouts_table (\<lambda>_ c. c_CheckoutID c = i))"

definition pgGetCheckoutForUpdate :: "string \<Rightarrow> (session, checkout) tx" where
  "pgGetCheckoutForUpdate i = scanT (selectT [Text i] checkouts_table (\<lambda>_ c. c_CheckoutID c = i))"

definition pgUpdateCheckout :: "checkout \<Rightarrow> (session, unit) tx" where
  "pgUpdateCheckout c = execT (updateT
     ([Text (c_CheckoutID c), Text (c_Status c)] @ nullable Text (c_SubscriptionRef c) @ nullable Text (c_ProcessorCheckoutID c))
     checkouts_table (\<lambda>_ r. c_CheckoutID r = c_CheckoutID c)
     (\<lambda>s r. r\<lparr>c_Status := c_Status c, c_SubscriptionRef := c_SubscriptionRef c,
        c_ProcessorCheckoutID := c_ProcessorCheckoutID c, c_ExpiresAt := stored_time s (c_ExpiresAt c),
        c_UpdatedAt := tx_now s\<rparr>))"

definition pgExpireDueCheckouts :: "gotime \<Rightarrow> (session, int) tx" where
  "pgExpireDueCheckouts now = bindT (updateT [] checkouts_table
     (\<lambda>s r. (c_Status r = ''creating'' \<or> c_Status r = ''pending'') \<and> c_ExpiresAt r \<le> stored_time s now)
     (\<lambda>s r. r\<lparr>c_Status := ''expired'', c_UpdatedAt := tx_now s\<rparr>)) (\<lambda>rs. retT (int (length rs)))"

section \<open>Subscriptions\<close>

definition pgInsertSubscription :: "subscription \<Rightarrow> (session, unit) tx" where
  "pgInsertSubscription row = mapErrT (insertT
     ([Text (s_SubscriptionRef row), Text (s_CheckoutID row), Text (s_PlanID row), Text (s_Status row),
       Text (s_ProcessorFamily row)] @ nullable Text (s_ProcessorCustomerID row)
      @ nullable Text (s_ProcessorSubscriptionID row) @ nullable Text (s_ProcessorInitialPaymentID row)
      @ nullable Text (s_ProcessorShopperReference row) @ nullable Text (s_PaymentMethodKeyVersion row)
      @ nullable Text (s_ChargingBlockReason row))
     subscriptions_table
     (\<lambda>s. row\<lparr>s_CurrentPeriodStart := stored_time s (s_CurrentPeriodStart row),
        s_CurrentPeriodEnd := stored_time s (s_CurrentPeriodEnd row),
        s_StateChangedAt := stored_time s (s_StateChangedAt row),
        s_PastDueSince := map_option (stored_time s) (s_PastDueSince row),
        s_CanceledAt := map_option (stored_time s) (s_CanceledAt row),
        s_CreatedAt := tx_now s, s_UpdatedAt := tx_now s\<rparr>))"

definition scanSub :: "param list \<Rightarrow> (subscription \<Rightarrow> bool) \<Rightarrow> (session, subscription) tx" where
  "scanSub ps p = scanT (selectT ps subscriptions_table (\<lambda>_. p))"

definition pgGetSubscription :: "string \<Rightarrow> (session, subscription) tx" where
  "pgGetSubscription ref = scanSub [Text ref] (\<lambda>r. s_SubscriptionRef r = ref)"

definition pgGetSubscriptionForUpdate :: "string \<Rightarrow> (session, subscription) tx" where
  "pgGetSubscriptionForUpdate ref = scanSub [Text ref] (\<lambda>r. s_SubscriptionRef r = ref)"

definition pgGetSubscriptionByCheckout :: "string \<Rightarrow> (session, subscription) tx" where
  "pgGetSubscriptionByCheckout i = scanSub [Text i] (\<lambda>r. s_CheckoutID r = i)"

definition pgGetSubscriptionByProcessor :: "string \<Rightarrow> string \<Rightarrow> (session, subscription) tx" where
  "pgGetSubscriptionByProcessor family i =
     scanSub [Text family, Text i] (\<lambda>r. s_ProcessorFamily r = family \<and> s_ProcessorSubscriptionID r = Some i)"

definition pgGetSubscriptionByInitialPayment :: "string \<Rightarrow> string \<Rightarrow> (session, subscription) tx" where
  "pgGetSubscriptionByInitialPayment family i =
     scanSub [Text family, Text i] (\<lambda>r. s_ProcessorFamily r = family \<and> s_ProcessorInitialPaymentID r = Some i)"

text \<open>
  An unqualified column name that more than one table of the \<^verbatim>\<open>FROM\<close> clause has is ambiguous, which is an
  error whatever the rows are.
\<close>

definition subCols :: "string list" where
  "subCols = [''subscription_ref'', ''checkout_id'', ''plan_id'', ''status'', ''state_version'', ''processor_family'',
     ''processor_customer_id'', ''processor_subscription_id'', ''processor_initial_payment_id'',
     ''processor_shopper_reference'', ''payment_method_ciphertext'', ''payment_method_nonce'',
     ''payment_method_key_version'', ''current_period_start'', ''current_period_end'', ''cancel_at_period_end'',
     ''state_changed_at'', ''past_due_since'', ''canceled_at'', ''automatic_charging_blocked'',
     ''charging_block_reason'', ''created_at'', ''updated_at'']"

definition attemptCols :: "string list" where
  "attemptCols = [''attempt_id'', ''action_id'', ''subscription_ref'', ''period_start'', ''period_end'',
     ''attempt_number'', ''provider_endpoint'', ''provider_api_version'', ''merchant_account'', ''amount_minor'',
     ''currency'', ''attempt_reference'', ''shopper_reference'', ''shopper_interaction'',
     ''recurring_processing_model'', ''idempotency_key'', ''request_fingerprint'', ''request_ciphertext'',
     ''request_nonce'', ''request_key_version'', ''processor_payment_id'', ''status'', ''claim_token'',
     ''fencing_token'', ''lease_until'', ''first_submitted_at'', ''resolution_deadline'', ''refusal_reason_code'',
     ''created_at'', ''completed_at'']"

definition unambiguous :: "string list list \<Rightarrow> string \<Rightarrow> bool" where
  "unambiguous tables c \<longleftrightarrow> length (filter (\<lambda>cols. c \<in> set cols) tables) = 1"

definition pgGetSubscriptionByChargePayment :: "string \<Rightarrow> (session, subscription) tx" where
  "pgGetSubscriptionByChargePayment i = scanT (sqlT [Text i] (\<lambda>s.
     if list_all (unambiguous [subCols, attemptCols]) subCols
     then Inr ([r. r \<leftarrow> sb_subscriptions (db s), t \<leftarrow> sb_charge_attempts (db s),
                  t_SubscriptionRef t = s_SubscriptionRef r \<and> t_ProcessorPaymentID t = Some i], db s)
     else Inl AmbiguousColumn))"

definition pgUpdateSubscription :: "subscription \<Rightarrow> (session, unit) tx" where
  "pgUpdateSubscription row = execT (updateT
     ([Text (s_SubscriptionRef row), Text (s_PlanID row), Text (s_Status row)]
      @ nullable Text (s_ProcessorCustomerID row) @ nullable Text (s_ProcessorSubscriptionID row)
      @ nullable Text (s_ProcessorInitialPaymentID row) @ nullable Text (s_PaymentMethodKeyVersion row)
      @ nullable Text (s_ChargingBlockReason row))
     subscriptions_table (\<lambda>_ r. s_SubscriptionRef r = s_SubscriptionRef row)
     (\<lambda>s r. r\<lparr>s_PlanID := s_PlanID row, s_Status := s_Status row, s_StateVersion := s_StateVersion row,
        s_ProcessorCustomerID := s_ProcessorCustomerID row, s_ProcessorSubscriptionID := s_ProcessorSubscriptionID row,
        s_ProcessorInitialPaymentID := s_ProcessorInitialPaymentID row,
        s_PaymentMethodCiphertext := s_PaymentMethodCiphertext row, s_PaymentMethodNonce := s_PaymentMethodNonce row,
        s_PaymentMethodKeyVersion := s_PaymentMethodKeyVersion row,
        s_CurrentPeriodStart := stored_time s (s_CurrentPeriodStart row),
        s_CurrentPeriodEnd := stored_time s (s_CurrentPeriodEnd row), s_CancelAtPeriodEnd := s_CancelAtPeriodEnd row,
        s_StateChangedAt := stored_time s (s_StateChangedAt row),
        s_PastDueSince := map_option (stored_time s) (s_PastDueSince row),
        s_CanceledAt := map_option (stored_time s) (s_CanceledAt row),
        s_AutomaticChargingBlocked := s_AutomaticChargingBlocked row,
        s_ChargingBlockReason := s_ChargingBlockReason row, s_UpdatedAt := tx_now s\<rparr>))"

text \<open>The list of identifiers is read to its end before the rows are loaded.\<close>

definition pgListSubscriptions :: "int \<Rightarrow> (session, subscription list) tx" where
  "pgListSubscriptions limit =
     bindT (order_limitT (\<lambda>r. - s_UpdatedAt r) limit (selectT [] subscriptions_table (\<lambda>_ _. True))) (\<lambda>rs.
     foreachT (\<lambda>r. pgGetSubscription (s_SubscriptionRef r)) rs)"

section \<open>Audit\<close>

definition pgInsertAudit :: "audit \<Rightarrow> (session, unit) tx" where
  "pgInsertAudit a = insertT
     [Uuid (u_AuditID a), Text (u_Action a), Text (u_TargetType a), Text (u_TargetID a), Text (u_Actor a),
      Text (u_Reason a), Fields (u_Metadata a)]
     audit_table
     (\<lambda>s. a\<lparr>u_AuditID := stored_uuid s (u_AuditID a), u_Metadata := the (jsonb_fields (dbms_of s) (u_Metadata a))\<rparr>)"

section \<open>Outbound events\<close>

definition pgInsertOutbound :: "outbound_event \<Rightarrow> (session, unit) tx" where
  "pgInsertOutbound e = mapErrT (insertT
     [Text (o_EventID e), Text (o_EventType e), Text (o_SubscriptionRef e), Text (o_CheckoutID e), Json (o_PayloadBody e)]
     outbound_events_table
     (\<lambda>s. zero_outbound_event\<lparr>o_EventID := o_EventID e, o_EventType := o_EventType e,
        o_SubscriptionRef := o_SubscriptionRef e, o_CheckoutID := o_CheckoutID e, o_StateVersion := o_StateVersion e,
        o_PayloadBody := o_PayloadBody e, o_DeliveryState := ''pending'',
        o_NextAttemptAt := map_option (stored_time s) (o_NextAttemptAt e), o_CreatedAt := tx_now s\<rparr>))"

definition pgGetOutbound :: "string \<Rightarrow> (session, outbound_event) tx" where
  "pgGetOutbound i = scanT (selectT [Text i] outbound_events_table (\<lambda>_ e. o_EventID e = i))"

definition pgListOutbound :: "string \<Rightarrow> int \<Rightarrow> (session, outbound_event list) tx" where
  "pgListOutbound state limit =
     order_limitT o_CreatedAt limit
       (selectT [Text state] outbound_events_table (\<lambda>_ e. state = [] \<or> o_DeliveryState e = state))"

text \<open>\<^verbatim>\<open>lease_until IS NULL OR lease_until < now\<close>, and the comparison alone.\<close>

definition lapsed :: "gotime option \<Rightarrow> gotime \<Rightarrow> bool" where
  "lapsed u now \<longleftrightarrow> (case u of None \<Rightarrow> False | Some t \<Rightarrow> t < now)"

definition lease_free_at :: "gotime option \<Rightarrow> gotime \<Rightarrow> bool" where
  "lease_free_at u now \<longleftrightarrow> u = None \<or> lapsed u now"

text \<open>The subquery \<^verbatim>\<open>ORDER BY key FOR UPDATE SKIP LOCKED LIMIT 1\<close>, over the rows no other transaction holds.\<close>

definition first_unlocked :: "session \<Rightarrow> ('v \<Rightarrow> int) \<Rightarrow> ('v \<Rightarrow> string) \<Rightarrow> ('v \<Rightarrow> bool) \<Rightarrow> 'v list \<Rightarrow> 'v list" where
  "first_unlocked s key i p rs = take 1 (sort_key key (filter (\<lambda>r. p r \<and> i r \<notin> set (locked s)) rs))"

definition outbound_eligible :: "gotime \<Rightarrow> outbound_event \<Rightarrow> bool" where
  "outbound_eligible now e \<longleftrightarrow>
     o_DeliveryState e = ''pending'' \<and> (case o_NextAttemptAt e of None \<Rightarrow> False | Some t \<Rightarrow> t \<le> now)
     \<and> lease_free_at (o_LeaseUntil e) now"

definition pgClaimDueOutbound :: "gotime \<Rightarrow> duration \<Rightarrow> (session, outbound_event) tx" where
  "pgClaimDueOutbound now lease = scanT (updateT [] outbound_events_table
     (\<lambda>s e. o_EventID e \<in> o_EventID ` set (first_unlocked s (\<lambda>x. the (o_NextAttemptAt x)) o_EventID
              (outbound_eligible (stored_time s now)) (sb_outbound_events (db s))))
     (\<lambda>s e. e\<lparr>o_ClaimToken := Some (new_uuid s), o_FencingToken := o_FencingToken e + 1,
        o_LeaseUntil := Some (stored_time s (now + lease))\<rparr>))"

definition outbound_owner :: "string \<Rightarrow> string \<Rightarrow> int \<Rightarrow> session \<Rightarrow> outbound_event \<Rightarrow> bool" where
  "outbound_owner eventID claimToken fence s e \<longleftrightarrow>
     o_EventID e = eventID \<and> o_DeliveryState e = ''pending''
     \<and> o_ClaimToken e = Some (stored_uuid s claimToken) \<and> o_FencingToken e = fence"

definition pgCompleteOutbound :: "string \<Rightarrow> string \<Rightarrow> int \<Rightarrow> gotime \<Rightarrow> (session, unit) tx" where
  "pgCompleteOutbound eventID claimToken fence now = ownedT (updateT [Text eventID, Uuid claimToken]
     outbound_events_table (outbound_owner eventID claimToken fence)
     (\<lambda>s e. e\<lparr>o_DeliveryState := ''delivered'', o_DeliveredAt := Some (stored_time s now), o_NextAttemptAt := None,
        o_ClaimToken := None, o_LeaseUntil := None, o_AttemptCount := o_AttemptCount e + 1\<rparr>))"

definition pgRetryOutbound :: "string \<Rightarrow> string \<Rightarrow> int \<Rightarrow> gotime \<Rightarrow> string \<Rightarrow> (session, unit) tx" where
  "pgRetryOutbound eventID claimToken fence nxt errClass = ownedT (updateT [Text eventID, Uuid claimToken, Text errClass]
     outbound_events_table (outbound_owner eventID claimToken fence)
     (\<lambda>s e. e\<lparr>o_NextAttemptAt := Some (stored_time s nxt), o_LastErrorClass := Some errClass,
        o_ClaimToken := None, o_LeaseUntil := None, o_AttemptCount := o_AttemptCount e + 1\<rparr>))"

definition pgDeadLetterOutbound :: "string \<Rightarrow> string \<Rightarrow> int \<Rightarrow> gotime \<Rightarrow> string \<Rightarrow> (session, unit) tx" where
  "pgDeadLetterOutbound eventID claimToken fence now errClass = ownedT (updateT [Text eventID, Uuid claimToken, Text errClass]
     outbound_events_table (outbound_owner eventID claimToken fence)
     (\<lambda>s e. e\<lparr>o_DeliveryState := ''dead_lettered'', o_DeadLetteredAt := Some (stored_time s now),
        o_NextAttemptAt := None, o_ClaimToken := None, o_LeaseUntil := None, o_LastErrorClass := Some errClass,
        o_AttemptCount := o_AttemptCount e + 1\<rparr>))"

text \<open>An operator's change of an event: a conflict when no row is written, an audit row otherwise.\<close>

definition auditedT :: "string \<Rightarrow> string \<Rightarrow> string \<Rightarrow> string \<Rightarrow> (session, 'v list) tx \<Rightarrow> (session, unit) tx" where
  "auditedT what eventID reason actor m =
     bindT m (\<lambda>rs. if rs = [] then errT ErrConflict else
     bindT mustPGToken (\<lambda>i.
     pgInsertAudit \<lparr>u_AuditID = i, u_Action = what, u_TargetType = ''event'', u_TargetID = eventID,
       u_Actor = actor, u_Reason = reason, u_Metadata = []\<rparr>))"

definition pgAbandonOutbound :: "string \<Rightarrow> string \<Rightarrow> string \<Rightarrow> gotime \<Rightarrow> (session, unit) tx" where
  "pgAbandonOutbound eventID reason actor now =
     auditedT ''abandon-event'' eventID reason actor (updateT [Text eventID] outbound_events_table
       (\<lambda>_ e. o_EventID e = eventID \<and> o_DeliveryState e = ''pending'')
       (\<lambda>s e. e\<lparr>o_DeliveryState := ''abandoned'', o_AbandonedAt := Some (stored_time s now), o_NextAttemptAt := None,
          o_ClaimToken := None, o_LeaseUntil := None\<rparr>))"

definition pgRequeueOutbound :: "string \<Rightarrow> string \<Rightarrow> string \<Rightarrow> gotime \<Rightarrow> (session, unit) tx" where
  "pgRequeueOutbound eventID reason actor now =
     auditedT ''requeue-event'' eventID reason actor (updateT [Text eventID] outbound_events_table
       (\<lambda>_ e. o_EventID e = eventID \<and> (o_DeliveryState e = ''dead_lettered'' \<or> o_DeliveryState e = ''abandoned''))
       (\<lambda>s e. e\<lparr>o_DeliveryState := ''pending'', o_NextAttemptAt := Some (stored_time s now), o_DeadLetteredAt := None,
          o_AbandonedAt := None, o_DeliveredAt := None, o_ClaimToken := None, o_LeaseUntil := None\<rparr>))"

definition pgLatestOutbound :: "string \<Rightarrow> (session, outbound_event) tx" where
  "pgLatestOutbound ref = scanT (order_limitT (\<lambda>e. - o_StateVersion e) 1
     (selectT [Text ref] outbound_events_table (\<lambda>_ e. o_SubscriptionRef e = ref)))"

end
