(* ===== verification/PgWork.thy ===== *)
theory PgWork
  imports Postgres
begin

text \<open>
  The second half of \<^verbatim>\<open>internal/store/postgres.go\<close>: provider events and their processing leases, scheduled
  actions and charge attempts; and \<^verbatim>\<open>internal/store/migrate.go\<close>, which applies the schema.
\<close>

section \<open>Provider events\<close>

text \<open>\<^verbatim>\<open>ON CONFLICT DO NOTHING\<close>: a row that clashes with another is not inserted, and that is no error.\<close>

definition insert_unless_conflict :: "'v table \<Rightarrow> 'v \<Rightarrow> database \<Rightarrow> gerr + bool \<times> database" where
  "insert_unless_conflict T v d =
     (case insert_into T v d of
        Inl e \<Rightarrow> if e = UniqueViolation then Inr (False, d) else Inl e
      | Inr (_, d') \<Rightarrow> Inr (True, d'))"

definition pgInsertProcessorEvent :: "processor_event \<Rightarrow> (session, bool) tx" where
  "pgInsertProcessorEvent e = sqlT
     ([Text (p_ProcessorFamily e), Text (p_ProcessorEventID e), Uuid (p_ProcessingActionID e),
       Text (p_ProviderEventType e), Fields (p_NormalizedFields e)] @ nullable Text (p_SensitiveKeyVersion e))
     (\<lambda>s. insert_unless_conflict processor_events_table
        (zero_processor_event\<lparr>p_ProcessorFamily := p_ProcessorFamily e, p_ProcessorEventID := p_ProcessorEventID e,
           p_ProcessingActionID := stored_uuid s (p_ProcessingActionID e),
           p_ProviderEventType := p_ProviderEventType e, p_PayloadHash := p_PayloadHash e,
           p_NormalizedFields := the (jsonb_fields (dbms_of s) (p_NormalizedFields e)),
           p_SensitiveCiphertext := p_SensitiveCiphertext e, p_SensitiveNonce := p_SensitiveNonce e,
           p_SensitiveKeyVersion := p_SensitiveKeyVersion e, p_ProcessingState := ''pending'',
           p_ReceivedAt := tx_now s\<rparr>) (db s))"

definition pgGetProcessorEvent :: "string \<Rightarrow> string \<Rightarrow> (session, processor_event) tx" where
  "pgGetProcessorEvent family i = scanT (selectT [Text family, Text i] processor_events_table
     (\<lambda>_ e. p_ProcessorFamily e = family \<and> p_ProcessorEventID e = i))"

text \<open>
  The claim of a processing lease: inserted, or taken over when it is idle or its time is over; a lease that
  is held is left as it is, without an error.
\<close>

definition upsert_lease :: "string \<Rightarrow> string \<Rightarrow> gotime \<Rightarrow> gotime \<Rightarrow> session \<Rightarrow> gerr + unit \<times> database" where
  "upsert_lease key actionID until now s =
     (let u = stored_time s until; i = stored_uuid s actionID
      in if \<not> list_ex (\<lambda>l. l_ProcessingKey l = key) (sb_processing_leases (db s))
         then insert_into leases_table \<lparr>l_ProcessingKey = key, l_Status = ''running'', l_ActiveActionID = Some i,
                l_ClaimToken = Some (new_uuid s), l_FencingToken = 1, l_LeaseUntil = Some u\<rparr> (db s)
         else bindR (update_set leases_table
                (\<lambda>l. l_ProcessingKey l = key \<and> (l_Status l = ''idle'' \<or> lapsed (l_LeaseUntil l) (stored_time s now)))
                (\<lambda>l. l\<lparr>l_Status := ''running'', l_ActiveActionID := Some i, l_ClaimToken := Some (new_uuid s),
                   l_FencingToken := l_FencingToken l + 1, l_LeaseUntil := Some u\<rparr>) (db s)) (\<lambda>(_, d). Inr ((), d)))"

definition pgClaimProcessorEvent ::
  "string \<Rightarrow> string \<Rightarrow> string \<Rightarrow> gotime \<Rightarrow> duration \<Rightarrow> (session, processor_event \<times> processing_lease) tx" where
  "pgClaimProcessorEvent family i processingKey now lease =
     bindT (pgGetProcessorEvent family i) (\<lambda>e.
     thenT (sqlT [Text processingKey, Uuid (p_ProcessingActionID e)]
              (upsert_lease processingKey (p_ProcessingActionID e) (now + lease) now)) (
     bindT (queryRowT (selectT [Text processingKey] leases_table (\<lambda>_ l. l_ProcessingKey l = processingKey))) (\<lambda>l.
     case l_ClaimToken l of
       None \<Rightarrow> errT ErrPanic
     | Some token \<Rightarrow>
         thenT (execT (updateT [Text family, Text i, Uuid token] processor_events_table
           (\<lambda>_ e. p_ProcessorFamily e = family \<and> p_ProcessorEventID e = i)
           (\<lambda>s e. e\<lparr>p_ProcessingState := ''running'', p_ClaimToken := Some (stored_uuid s token),
              p_FencingToken := l_FencingToken l, p_LeaseUntil := Some (stored_time s (now + lease))\<rparr>))) (
         bindT (pgGetProcessorEvent family i) (\<lambda>e. retT (e, l))))))"

definition pgFinishProcessorEvent ::
  "string \<Rightarrow> string \<Rightarrow> string \<Rightarrow> int \<Rightarrow> string \<Rightarrow> string option \<Rightarrow> gotime \<Rightarrow> (session, unit) tx" where
  "pgFinishProcessorEvent family i claimToken fence state subRef now = ownedT (updateT
     ([Text family, Text i, Uuid claimToken, Text state] @ nullable Text subRef) processor_events_table
     (\<lambda>s e. p_ProcessorFamily e = family \<and> p_ProcessorEventID e = i \<and> p_ProcessingState e = ''running''
        \<and> p_ClaimToken e = Some (stored_uuid s claimToken) \<and> p_FencingToken e = fence)
     (\<lambda>s e. e\<lparr>p_ProcessingState := state, p_ClaimToken := None, p_LeaseUntil := None, p_SubscriptionRef := subRef,
        p_ProcessedAt := (if state = ''processed'' then Some (stored_time s now) else p_ProcessedAt e)\<rparr>))"

definition pgReleaseProcessorLease :: "string \<Rightarrow> string \<Rightarrow> int \<Rightarrow> (session, unit) tx" where
  "pgReleaseProcessorLease key claimToken fence = ownedT (updateT [Text key, Uuid claimToken] leases_table
     (\<lambda>s l. l_ProcessingKey l = key \<and> l_ClaimToken l = Some (stored_uuid s claimToken) \<and> l_FencingToken l = fence)
     (\<lambda>_ l. l\<lparr>l_Status := ''idle'', l_ActiveActionID := None, l_ClaimToken := None, l_LeaseUntil := None\<rparr>))"

section \<open>Scheduled actions\<close>

definition pgInsertAction :: "scheduled_action \<Rightarrow> (session, unit) tx" where
  "pgInsertAction a = mapErrT (insertT
     [Uuid (a_ActionID a), Text (a_ActionKey a), Text (a_SubscriptionRef a), Text (a_ActionType a), Text (a_Status a)]
     scheduled_actions_table
     (\<lambda>s. \<lparr>a_ActionID = stored_uuid s (a_ActionID a), a_ActionKey = a_ActionKey a,
        a_SubscriptionRef = a_SubscriptionRef a, a_ActionType = a_ActionType a,
        a_TargetAt = stored_time s (a_TargetAt a), a_DueAt = stored_time s (a_DueAt a), a_Status = a_Status a,
        a_ClaimToken = None, a_FencingToken = 0, a_LeaseUntil = None, a_LastErrorClass = None\<rparr>))"

definition pgGetAction :: "string \<Rightarrow> (session, scheduled_action) tx" where
  "pgGetAction i = scanT (selectT [Uuid i] scheduled_actions_table (\<lambda>s a. a_ActionID a = stored_uuid s i))"

definition pgGetActionByKey :: "string \<Rightarrow> (session, scheduled_action) tx" where
  "pgGetActionByKey key = scanT (selectT [Text key] scheduled_actions_table (\<lambda>_ a. a_ActionKey a = key))"

text \<open>\<^verbatim>\<open>action_type <> 'renew' OR EXISTS (...)\<close>.\<close>

definition renewable :: "database \<Rightarrow> scheduled_action \<Rightarrow> bool" where
  "renewable d a \<longleftrightarrow>
     a_ActionType a \<noteq> ''renew''
     \<or> list_ex (\<lambda>x. s_SubscriptionRef x = a_SubscriptionRef a \<and> \<not> s_AutomaticChargingBlocked x) (sb_subscriptions d)"

text \<open>Only the first of the kinds is looked at.\<close>

definition action_eligible :: "session \<Rightarrow> gotime \<Rightarrow> string \<Rightarrow> string \<Rightarrow> scheduled_action \<Rightarrow> bool" where
  "action_eligible s now status kind a \<longleftrightarrow>
     a_DueAt a \<le> now \<and> (kind = [] \<or> a_ActionType a = kind)
     \<and> (a_Status a = status
        \<or> a_Status a = ''running'' \<and> (status = ''pending'' \<or> status = ''uncertain'') \<and> lease_free_at (a_LeaseUntil a) now)
     \<and> (lease_free_at (a_LeaseUntil a) now \<or> a_Status a = ''running'')
     \<and> renewable (db s) a"

definition pgLockDueAction :: "gotime \<Rightarrow> string \<Rightarrow> string list \<Rightarrow> (session, scheduled_action) tx" where
  "pgLockDueAction now status kinds =
     (let kind = (case kinds of [] \<Rightarrow> [] | k # _ \<Rightarrow> k)
      in scanT (sqlT [Text status, Text kind] (\<lambda>s.
           Inr (first_unlocked s a_DueAt a_ActionID (action_eligible s (stored_time s now) status kind)
                  (sb_scheduled_actions (db s)), db s))))"

definition pgClaimAction :: "string \<Rightarrow> gotime \<Rightarrow> duration \<Rightarrow> (session, scheduled_action) tx" where
  "pgClaimAction actionID now lease = scanT (updateT [Uuid actionID] scheduled_actions_table
     (\<lambda>s a. a_ActionID a = stored_uuid s actionID
        \<and> (a_Status a = ''pending'' \<or> a_Status a = ''uncertain''
           \<or> a_Status a = ''running'' \<and> lease_free_at (a_LeaseUntil a) (stored_time s now))
        \<and> renewable (db s) a)
     (\<lambda>s a. a\<lparr>a_Status := ''running'', a_ClaimToken := Some (new_uuid s), a_FencingToken := a_FencingToken a + 1,
        a_LeaseUntil := Some (stored_time s (now + lease))\<rparr>))"

definition pgClaimDueAction :: "gotime \<Rightarrow> duration \<Rightarrow> string \<Rightarrow> string list \<Rightarrow> (session, scheduled_action) tx" where
  "pgClaimDueAction now lease status kinds =
     bindT (pgLockDueAction now status kinds) (\<lambda>a. pgClaimAction (a_ActionID a) now lease)"

definition action_owner :: "string \<Rightarrow> string \<Rightarrow> int \<Rightarrow> session \<Rightarrow> scheduled_action \<Rightarrow> bool" where
  "action_owner actionID claimToken fence s a \<longleftrightarrow>
     a_ActionID a = stored_uuid s actionID \<and> a_Status a = ''running''
     \<and> a_ClaimToken a = Some (stored_uuid s claimToken) \<and> a_FencingToken a = fence"

text \<open>The columns an end of an action writes.\<close>

definition ended_action :: "string \<Rightarrow> gotime option \<Rightarrow> string option \<Rightarrow> session \<Rightarrow> scheduled_action \<Rightarrow> scheduled_action" where
  "ended_action status dueAt errClass s a =
     a\<lparr>a_Status := status, a_DueAt := (case dueAt of None \<Rightarrow> a_DueAt a | Some t \<Rightarrow> stored_time s t),
       a_LastErrorClass := errClass, a_ClaimToken := None, a_LeaseUntil := None\<rparr>"

definition pgFinishAction ::
  "string \<Rightarrow> string \<Rightarrow> int \<Rightarrow> string \<Rightarrow> gotime option \<Rightarrow> string option \<Rightarrow> (session, unit) tx" where
  "pgFinishAction actionID claimToken fence status dueAt errClass = ownedT (updateT
     ([Uuid actionID, Uuid claimToken, Text status] @ nullable Text errClass) scheduled_actions_table
     (action_owner actionID claimToken fence) (ended_action status dueAt errClass))"

definition pgForceFinishAction :: "string \<Rightarrow> string \<Rightarrow> gotime option \<Rightarrow> string option \<Rightarrow> (session, unit) tx" where
  "pgForceFinishAction actionID status dueAt errClass = execT (updateT
     ([Uuid actionID, Text status] @ nullable Text errClass) scheduled_actions_table
     (\<lambda>s a. a_ActionID a = stored_uuid s actionID \<and> a_Status a \<in> {''pending'', ''running'', ''uncertain''})
     (ended_action status dueAt errClass))"

definition pgCancelActionsForSubscription :: "string \<Rightarrow> string \<Rightarrow> (session, unit) tx" where
  "pgCancelActionsForSubscription ref exceptKey = execT (updateT [Text ref, Text exceptKey] scheduled_actions_table
     (\<lambda>_ a. a_SubscriptionRef a = ref \<and> a_ActionKey a \<noteq> exceptKey \<and> (a_Status a = ''pending'' \<or> a_Status a = ''uncertain''))
     (\<lambda>_ a. a\<lparr>a_Status := ''canceled'', a_ClaimToken := None, a_LeaseUntil := None\<rparr>))"

definition pgListActions :: "int \<Rightarrow> (session, scheduled_action list) tx" where
  "pgListActions limit = order_limitT a_DueAt limit (selectT [] scheduled_actions_table (\<lambda>_ _. True))"

section \<open>Charge attempts\<close>

definition pgInsertAttempt :: "charge_attempt \<Rightarrow> (session, unit) tx" where
  "pgInsertAttempt a = mapErrT (insertT
     [Uuid (t_AttemptID a), Uuid (t_ActionID a), Text (t_SubscriptionRef a), Text (t_ProviderEndpoint a),
      Text (t_ProviderAPIVersion a), Text (t_MerchantAccount a), Text (t_Currency a), Text (t_AttemptReference a),
      Text (t_ShopperReference a), Text (t_IdempotencyKey a), Text (t_RequestKeyVersion a), Text (t_Status a)]
     charge_attempts_table
     (\<lambda>s. charge_attempt.extend
        (a\<lparr>t_AttemptID := stored_uuid s (t_AttemptID a), t_ActionID := stored_uuid s (t_ActionID a),
           t_PeriodStart := stored_time s (t_PeriodStart a), t_PeriodEnd := stored_time s (t_PeriodEnd a),
           t_ShopperInteraction := ''ContAuth'', t_RecurringProcessingModel := ''Subscription'',
           t_ProcessorPaymentID := None, t_ClaimToken := None, t_FencingToken := 0, t_LeaseUntil := None,
           t_FirstSubmittedAt := None, t_ResolutionDeadline := None, t_RefusalReasonCode := None,
           t_CompletedAt := None\<rparr>)
        \<lparr>t_CreatedAt = tx_now s\<rparr>))"

definition attempt_ofT :: "(session, attempt_row) tx \<Rightarrow> (session, charge_attempt) tx" where
  "attempt_ofT m = bindT m (\<lambda>t. retT (charge_attempt.truncate t))"

definition pgGetAttempt :: "string \<Rightarrow> (session, charge_attempt) tx" where
  "pgGetAttempt i = attempt_ofT (scanT (selectT [Uuid i] charge_attempts_table (\<lambda>s t. t_AttemptID t = stored_uuid s i)))"

definition pgGetAttemptByReference :: "string \<Rightarrow> (session, charge_attempt) tx" where
  "pgGetAttemptByReference ref = attempt_ofT (scanT (selectT [Text ref] charge_attempts_table (\<lambda>_ t. t_AttemptReference t = ref)))"

text \<open>Both listings load each attempt while the rows with the identifiers are open.\<close>

definition in_order :: "('v \<Rightarrow> int) \<Rightarrow> (session, 'v list) tx \<Rightarrow> (session, 'v list) tx" where
  "in_order key m = bindT m (\<lambda>vs. retT (sort_key key vs))"

definition pgGetAttemptsForAction :: "string \<Rightarrow> (session, charge_attempt list) tx" where
  "pgGetAttemptsForAction actionID = overRowsT
     (in_order t_AttemptNumber (selectT [Uuid actionID] charge_attempts_table (\<lambda>s t. t_ActionID t = stored_uuid s actionID)))
     (\<lambda>t. pgGetAttempt (t_AttemptID t))"

definition pgListAttempts :: "string list \<Rightarrow> int \<Rightarrow> (session, charge_attempt list) tx" where
  "pgListAttempts statuses limit =
     (let sts = (if statuses = [] then [''uncertain'', ''manual_review'', ''running'', ''prepared''] else statuses)
      in overRowsT (order_limitT (\<lambda>t. - t_CreatedAt t) limit
           (selectT (map Text sts) charge_attempts_table (\<lambda>_ t. t_Status t \<in> set sts)))
           (\<lambda>t. pgGetAttempt (t_AttemptID t)))"

definition pgUpdateAttempt :: "charge_attempt \<Rightarrow> (session, unit) tx" where
  "pgUpdateAttempt a = execT (updateT
     ([Uuid (t_AttemptID a), Text (t_Status a)] @ nullable Text (t_ProcessorPaymentID a)
      @ nullable Uuid (t_ClaimToken a) @ nullable Text (t_RefusalReasonCode a))
     charge_attempts_table (\<lambda>s t. t_AttemptID t = stored_uuid s (t_AttemptID a))
     (\<lambda>s t. t\<lparr>t_Status := t_Status a, t_ProcessorPaymentID := t_ProcessorPaymentID a,
        t_ClaimToken := map_option (stored_uuid s) (t_ClaimToken a), t_FencingToken := t_FencingToken a,
        t_LeaseUntil := map_option (stored_time s) (t_LeaseUntil a),
        t_FirstSubmittedAt := map_option (stored_time s) (t_FirstSubmittedAt a),
        t_ResolutionDeadline := map_option (stored_time s) (t_ResolutionDeadline a),
        t_RefusalReasonCode := t_RefusalReasonCode a,
        t_CompletedAt := map_option (stored_time s) (t_CompletedAt a)\<rparr>))"

text \<open>
  The server's \<^verbatim>\<open>date_trunc(text, ...)\<close> by the type of its argument, with the category of the type.  A parameter that
  has no type yet does not decide between functions whose arguments are of different categories, unless one
  takes a string: the statement is then refused when it is prepared.
\<close>

definition date_trunc_functions :: "(string \<times> string) list" where
  "date_trunc_functions =
     [(''timestamp'', ''datetime''), (''timestamptz'', ''datetime''), (''interval'', ''timespan'')]"

definition takes_untyped :: "(string \<times> string) list \<Rightarrow> bool" where
  "takes_untyped fs \<longleftrightarrow> ''string'' \<in> snd ` set fs \<or> (\<forall>c\<in>snd ` set fs. \<forall>c'\<in>snd ` set fs. c = c')"

definition calledT :: "(string \<times> string) list \<Rightarrow> (session, 'v list) tx \<Rightarrow> (session, 'v list) tx" where
  "calledT fs m = (if takes_untyped fs then m else sqlT [] (\<lambda>_. Inl AmbiguousFunction))"

definition pgClaimAttemptWithAction ::
  "string \<Rightarrow> string \<Rightarrow> string \<Rightarrow> int \<Rightarrow> gotime \<Rightarrow> duration \<Rightarrow> gotime
     \<Rightarrow> (session, scheduled_action \<times> charge_attempt) tx" where
  "pgClaimAttemptWithAction actionID attemptID claimToken fence now lease resolutionDeadline0 =
     (let until = now + lease;
          resolutionDeadline = (if IsZero resolutionDeadline0 then now + 6 * 24 * hour else resolutionDeadline0)
      in thenT (ownedT (updateT [Uuid actionID, Uuid claimToken] scheduled_actions_table
           (action_owner actionID claimToken fence) (\<lambda>s a. a\<lparr>a_LeaseUntil := Some (stored_time s until)\<rparr>))) (
         thenT (execT (calledT date_trunc_functions (updateT [Uuid attemptID, Uuid claimToken] charge_attempts_table
           (\<lambda>s t. t_AttemptID t = stored_uuid s attemptID)
           (\<lambda>s t. t\<lparr>t_Status := ''running'', t_ClaimToken := Some (stored_uuid s claimToken), t_FencingToken := fence,
              t_LeaseUntil := Some (stored_time s until),
              t_FirstSubmittedAt := (case t_FirstSubmittedAt t of
                 Some u \<Rightarrow> Some u | None \<Rightarrow> Some (TruncateUTC (stored_time s now))),
              t_ResolutionDeadline := (case t_ResolutionDeadline t of
                 Some u \<Rightarrow> Some u | None \<Rightarrow> Some (TruncateUTC (stored_time s resolutionDeadline)))\<rparr>)))) (
         bindT (pgGetAction actionID) (\<lambda>act.
         bindT (pgGetAttempt attemptID) (\<lambda>att. retT (act, att))))))"

section \<open>Migrations\<close>

text \<open>
  \<^verbatim>\<open>migrate.go\<close>: the embedded files by version, a name without a number counting as version 1.  What a
  file's statements do to the database is the parameter \<open>run\<close>.
\<close>

definition file_version :: "string \<Rightarrow> int" where
  "file_version name =
     (case parse_int64 (takeWhile (\<lambda>c. c \<noteq> CHR ''_'') name) of None \<Rightarrow> 1 | Some v \<Rightarrow> v)"

definition listMigrations :: "(string \<times> bytes) list \<Rightarrow> (int \<times> bytes) list" where
  "listMigrations files =
     sort_key fst (map (\<lambda>(name, raw). (file_version name, raw)) (filter (\<lambda>(name, _). has_suffix name ''.sql'') files))"

fun apply_files :: "(bytes \<Rightarrow> database \<Rightarrow> gerr + database) \<Rightarrow> (int \<times> bytes) list \<Rightarrow> (session, unit) tx" where
  "apply_files run [] = retT ()"
| "apply_files run ((v, sql) # fs) =
     bindT (sqlT [] (\<lambda>s. Inr (v \<in> set (sb_schema_migrations (db s)), db s))) (\<lambda>known.
     if known then apply_files run fs
     else thenT (sqlT [] (\<lambda>s. bindR (run sql (db s)) (\<lambda>d. Inr ((), d)))) (
          thenT (sqlT [] (\<lambda>s. if v \<in> set (sb_schema_migrations (db s)) then Inl UniqueViolation
            else Inr ((), (db s)\<lparr>sb_schema_migrations := sb_schema_migrations (db s) @ [v]\<rparr>)))
          (apply_files run fs)))"

definition ApplyMigrations :: "(bytes \<Rightarrow> database \<Rightarrow> gerr + database) \<Rightarrow> (string \<times> bytes) list \<Rightarrow> (session, unit) tx" where
  "ApplyMigrations run files = PgInTx (apply_files run (listMigrations files))"

definition pgSchemaVersion :: "session \<Rightarrow> gerr + int" where
  "pgSchemaVersion s = (case version_error (dbms_of s) of
     Some e \<Rightarrow> Inl e
   | None \<Rightarrow> Inr (case sb_schema_migrations (db s) of [] \<Rightarrow> 0 | v # vs \<Rightarrow> foldr max vs v))"

definition CheckSchema :: "session \<Rightarrow> gerr + unit" where
  "CheckSchema s = (case pgSchemaVersion s of
     Inl _ \<Rightarrow> Inl ErrSchemaMismatch
   | Inr v \<Rightarrow> guardR (v = CurrentSchemaVersion) ErrSchemaMismatch)"

end
