(* ===== verification/PgStore.thy ===== *)
theory PgStore
  imports PgWork StoreRuns
begin

text \<open>
  The PostgreSQL store as a whole: its operations by the vocabulary of \<open>StoreRuns\<close>, the invariant that the
  schema guards, and what becomes of the operations whose failures differ from those of the in-memory
  store.
\<close>

section \<open>Running statements\<close>

lemma sqlT_eq_Inr:
  "sqlT ps f s = (Inr x, s') \<longleftrightarrow>
     \<not> busy s \<and> \<not> failed s \<and> list_all (param_ok (dbms_of s)) ps
     \<and> (\<exists>d. f s = Inr (x, d) \<and> s' = s\<lparr>db := d, statements := Suc (statements s)\<rparr>)"
  by (auto simp: sqlT_def split: sum.splits)

text \<open>A statement that returns a result left the transaction as it may be continued.\<close>

lemma sqlT_Inl: "sqlT ps f s = (Inl e, s') \<Longrightarrow> db s' = db s"
  by (auto simp: sqlT_def split: sum.splits if_split_asm)

lemma insert_into_Inr:
  "insert_into T v d = Inr (u, d') \<longleftrightarrow>
     accepts T v \<and> (\<forall>x\<in>set (rows_of T d). \<not> clash T x v) \<and> d' = put_rows T (rows_of T d @ [v]) d \<and> refs T d' v"
  by (auto simp: insert_into_def Let_def list_ex_iff)

lemma update_set_Inr:
  "update_set T p g d = Inr (rs, d') \<longleftrightarrow>
     rs = map g (filter p (rows_of T d)) \<and> d' = put_rows T (map (\<lambda>r. if p r then g r else r) (rows_of T d)) d
     \<and> (\<forall>r\<in>set rs. accepts T r \<and> refs T d' r)
     \<and> (rs \<noteq> [] \<longrightarrow> no_clash (clash T) (map (\<lambda>r. if p r then g r else r) (rows_of T d)))"
  by (auto simp: update_set_def Let_def list_all_iff filter_empty_conv)

lemma insert_unless_conflict_Inr:
  "insert_unless_conflict T v d = Inr (b, d') \<Longrightarrow> (\<not> b \<and> d' = d) \<or> (b \<and> insert_into T v d = Inr ((), d'))"
  by (auto simp: insert_unless_conflict_def split: sum.splits if_split_asm)

lemma queryRowT_eq_Inr: "queryRowT m s = (Inr r, s') \<longleftrightarrow> (\<exists>rs. m s = (Inr (r # rs), s'))"
  by (cases "m s"; cases "fst (m s)") (auto simp: queryRowT_def bindT_def split: list.splits)

lemma mapErrT_eq_Inr: "mapErrT m s = (Inr x, s') \<longleftrightarrow> m s = (Inr x, s')"
  by (cases "m s"; cases "fst (m s)") (auto simp: mapErrT_def bindT_def mapErr_def)

lemma scanT_eq_Inr: "scanT m s = (Inr r, s') \<longleftrightarrow> (\<exists>rs. m s = (Inr (r # rs), s'))"
  by (simp add: scanT_def mapErrT_eq_Inr queryRowT_eq_Inr)

lemma ownedT_eq_Inr: "ownedT m s = (Inr u, s') \<longleftrightarrow> (\<exists>rs. rs \<noteq> [] \<and> m s = (Inr rs, s'))"
  by (auto simp: ownedT_def bindT_eq_Inr split: if_split_asm)

lemma execT_eq_Inr: "execT m s = (Inr u, s') \<longleftrightarrow> (\<exists>rs. m s = (Inr rs, s'))"
  by (auto simp: execT_def bindT_eq_Inr)

lemma mustPGToken_eq_Inr: "mustPGToken s = (Inr i, s') \<Longrightarrow> \<exists>r. s' = s\<lparr>rand := r\<rparr>"
  by (auto simp: mustPGToken_def split: prod.splits sum.splits)

lemmas statement_Inr = insertT_def updateT_def selectT_def sqlT_eq_Inr insert_into_Inr update_set_Inr
  queryRowT_eq_Inr mapErrT_eq_Inr scanT_eq_Inr ownedT_eq_Inr execT_eq_Inr bindT_eq_Inr thenT_eq_Inr

section \<open>The operations\<close>

definition discardS :: "(session, 'a) tx \<Rightarrow> (session, unit) tx" where
  "discardS m = bindT m (\<lambda>_. retT ())"

fun pg_exec :: "store_op \<Rightarrow> (session, unit) tx" where
  "pg_exec (InsertCheckoutOp c) = pgInsertCheckout c"
| "pg_exec (UpdateCheckoutOp c) = pgUpdateCheckout c"
| "pg_exec (ExpireCheckoutsOp now) = discardS (pgExpireDueCheckouts now)"
| "pg_exec (InsertSubscriptionOp s) = pgInsertSubscription s"
| "pg_exec (UpdateSubscriptionOp s) = pgUpdateSubscription s"
| "pg_exec (InsertOutboundOp e) = pgInsertOutbound e"
| "pg_exec (ClaimOutboundOp now lease) = discardS (pgClaimDueOutbound now lease)"
| "pg_exec (CompleteOutboundOp i t n now) = pgCompleteOutbound i t n now"
| "pg_exec (RetryOutboundOp i t n nxt ec) = pgRetryOutbound i t n nxt ec"
| "pg_exec (DeadLetterOutboundOp i t n now ec) = pgDeadLetterOutbound i t n now ec"
| "pg_exec (AbandonOutboundOp i r a now) = pgAbandonOutbound i r a now"
| "pg_exec (RequeueOutboundOp i r a now) = pgRequeueOutbound i r a now"
| "pg_exec (InsertEventOp e) = discardS (pgInsertProcessorEvent e)"
| "pg_exec (ClaimEventOp f i k now lease) = discardS (pgClaimProcessorEvent f i k now lease)"
| "pg_exec (FinishEventOp f i t n st r now) = pgFinishProcessorEvent f i t n st r now"
| "pg_exec (ReleaseLeaseOp k t n) = pgReleaseProcessorLease k t n"
| "pg_exec (InsertActionOp a) = pgInsertAction a"
| "pg_exec (ClaimActionOp i now lease) = discardS (pgClaimAction i now lease)"
| "pg_exec (ClaimDueActionOp now lease st ks) = discardS (pgClaimDueAction now lease st ks)"
| "pg_exec (FinishActionOp i t n st due ec) = pgFinishAction i t n st due ec"
| "pg_exec (ForceFinishActionOp i st due ec) = pgForceFinishAction i st due ec"
| "pg_exec (CancelActionsOp ref k) = pgCancelActionsForSubscription ref k"
| "pg_exec (InsertAttemptOp a) = pgInsertAttempt a"
| "pg_exec (UpdateAttemptOp a) = pgUpdateAttempt a"
| "pg_exec (ClaimAttemptOp i j t n now lease dl) = discardS (pgClaimAttemptWithAction i j t n now lease dl)"
| "pg_exec (InsertAuditOp u) = pgInsertAudit u"

text \<open>A transaction of several operations, and a history of transactions, failed ones included.\<close>

fun pg_transaction :: "store_op list \<Rightarrow> (session, unit) tx" where
  "pg_transaction [] = retT ()"
| "pg_transaction (op # ops) = thenT (pg_exec op) (pg_transaction ops)"

definition pg_history :: "store_op list list \<Rightarrow> session \<Rightarrow> session" where
  "pg_history txs s = foldl (\<lambda>s ops. snd (PgInTx (pg_transaction ops) s)) s txs"

section \<open>The invariant of the schema\<close>

definition table_ok :: "'v table \<Rightarrow> database \<Rightarrow> bool" where
  "table_ok T d \<longleftrightarrow> list_all (accepts T) (rows_of T d) \<and> no_clash (clash T) (rows_of T d) \<and> list_all (refs T d) (rows_of T d)"

definition schema_ok :: "database \<Rightarrow> bool" where
  "schema_ok d \<longleftrightarrow>
     table_ok checkouts_table d \<and> table_ok subscriptions_table d \<and> table_ok outbound_events_table d
     \<and> table_ok processor_events_table d \<and> table_ok leases_table d \<and> table_ok scheduled_actions_table d
     \<and> table_ok charge_attempts_table d \<and> table_ok audit_table d"

lemma has_sub_iff: "has_sub d r \<longleftrightarrow> r \<in> s_SubscriptionRef ` set (sb_subscriptions d)"
  by (auto simp: has_sub_def list_ex_iff)

lemma has_checkout_iff: "has_checkout d i \<longleftrightarrow> i \<in> c_CheckoutID ` set (sb_checkouts d)"
  by (auto simp: has_checkout_def list_ex_iff)

lemma has_key_iff: "list_ex (\<lambda>x. f x = i) xs \<longleftrightarrow> i \<in> f ` set xs"
  by (auto simp: list_ex_iff)

lemma no_clash_append: "no_clash c (xs @ [v]) \<longleftrightarrow> no_clash c xs \<and> (\<forall>x\<in>set xs. \<not> c x v)"
  by (induction xs) auto

text \<open>
  What the statements rely on: a table is read as it was written, refers to other tables only, and may be
  replaced by a table in order that has every key the others refer to.
\<close>

locale schema_table =
  fixes T :: "'v table" and key :: "'v \<Rightarrow> string"
  assumes rows_put: "rows_of T (put_rows T t d) = t"
    and refs_put: "refs T (put_rows T t d) = refs T d"
    and table: "schema_ok d \<Longrightarrow> table_ok T d"
    and schema_put: "schema_ok d \<Longrightarrow> table_ok T (put_rows T t d) \<Longrightarrow> key ` set (rows_of T d) \<subseteq> key ` set t
      \<Longrightarrow> schema_ok (put_rows T t d)"
begin

lemma insert_keeps:
  assumes "schema_ok d" and "insert_into T v d = Inr (u, d')"
  shows "schema_ok d'"
proof -
  have d': "d' = put_rows T (rows_of T d @ [v]) d" and v: "accepts T v" "\<forall>x\<in>set (rows_of T d). \<not> clash T x v" "refs T d' v"
    using assms(2) by (auto simp: insert_into_Inr)
  have "table_ok T (put_rows T (rows_of T d @ [v]) d)"
    using table [OF assms(1)] v unfolding d' by (simp add: table_ok_def rows_put refs_put no_clash_append)
  then show ?thesis unfolding d' by (rule schema_put [OF assms(1)]) auto
qed

lemma update_keeps:
  assumes "schema_ok d" and "update_set T p g d = Inr (rs, d')" and "\<And>r. key (g r) = key r"
  shows "schema_ok d'"
proof -
  let ?new = "map (\<lambda>r. if p r then g r else r) (rows_of T d)"
  have d': "d' = put_rows T ?new d" and rs: "rs = map g (filter p (rows_of T d))"
    and ok: "\<forall>r\<in>set rs. accepts T r \<and> refs T d' r" "rs \<noteq> [] \<longrightarrow> no_clash (clash T) ?new"
    using assms(2) unfolding update_set_Inr by blast+
  have same: "?new = rows_of T d" if "rs = []"
    using that by (auto simp: rs filter_empty_conv intro: map_idI)
  have "no_clash (clash T) ?new" using ok(2) same table [OF assms(1)] by (cases "rs = []") (auto simp: table_ok_def)
  then have "table_ok T (put_rows T ?new d)"
    using table [OF assms(1)] ok(1) unfolding d' rs by (auto simp: table_ok_def rows_put refs_put list_all_iff)
  moreover have "map key ?new = map key (rows_of T d)" using assms(3) by simp
  then have "key ` set (rows_of T d) \<subseteq> key ` set ?new" by (metis list.set_map order_refl)
  ultimately show ?thesis unfolding d' by (rule schema_put [OF assms(1)])
qed

lemma insertT_keeps: "keepsT (\<lambda>s. schema_ok (db s)) (insertT ps T v)"
  by (rule keepsT_I) (auto simp: insertT_def sqlT_eq_Inr intro: insert_keeps)

lemma updateT_keeps: "(\<And>s r. key (g s r) = key r) \<Longrightarrow> keepsT (\<lambda>s. schema_ok (db s)) (updateT ps T p g)"
  by (rule keepsT_I) (auto simp: updateT_def sqlT_eq_Inr intro: update_keeps)

end

lemmas schema_defs = schema_ok_def table_ok_def table_defs

lemma option_all: "(case v of None \<Rightarrow> True | Some x \<Rightarrow> P x) \<longleftrightarrow> (\<forall>x. v = Some x \<longrightarrow> P x)"
  by (cases v) simp_all

lemmas schema_simps = schema_defs has_sub_def has_checkout_def has_key_iff option_all

interpretation checkouts_t: schema_table checkouts_table c_CheckoutID
  by unfold_locales (auto simp: schema_simps list_all_iff)

interpretation subs_t: schema_table subscriptions_table s_SubscriptionRef
  by unfold_locales (auto simp: schema_simps list_all_iff)

interpretation outbound_t: schema_table outbound_events_table "\<lambda>_. []"
  by unfold_locales (simp_all add: schema_simps)

interpretation events_t: schema_table processor_events_table p_ProcessingActionID
  by unfold_locales (auto simp: schema_simps list_all_iff)

interpretation leases_t: schema_table leases_table "\<lambda>_. []"
  by unfold_locales (simp_all add: schema_simps)

interpretation actions_t: schema_table scheduled_actions_table a_ActionID
  by unfold_locales (auto simp: schema_simps list_all_iff)

interpretation attempts_t: schema_table charge_attempts_table "\<lambda>_. []"
  by unfold_locales (simp_all add: schema_simps)

interpretation audit_t: schema_table audit_table "\<lambda>_. []"
  by unfold_locales (simp_all add: schema_simps)

subsection \<open>Every operation keeps it\<close>

abbreviation sinv :: "session \<Rightarrow> bool" where "sinv s \<equiv> schema_ok (db s)"

lemma keepsT_mapErrT [keeps]: "keepsT I m \<Longrightarrow> keepsT I (mapErrT m)"
  by (rule keepsT_I) (auto simp: mapErrT_eq_Inr dest: keepsT_D)

lemma keepsT_queryRowT [keeps]: "keepsT I m \<Longrightarrow> keepsT I (queryRowT m)"
  by (rule keepsT_I) (auto simp: queryRowT_eq_Inr dest: keepsT_D)

lemma keepsT_scanT [keeps]: "keepsT I m \<Longrightarrow> keepsT I (scanT m)"
  by (rule keepsT_I) (auto simp: scanT_eq_Inr dest: keepsT_D)

lemma keepsT_ownedT [keeps]: "keepsT I m \<Longrightarrow> keepsT I (ownedT m)"
  by (rule keepsT_I) (auto simp: ownedT_eq_Inr dest: keepsT_D)

lemma keepsT_execT [keeps]: "keepsT I m \<Longrightarrow> keepsT I (execT m)"
  by (rule keepsT_I) (auto simp: execT_eq_Inr dest: keepsT_D)

lemma keepsT_discardS [keeps]: "keepsT I m \<Longrightarrow> keepsT I (discardS m)"
  unfolding discardS_def by (intro keeps)

lemma keepsT_mustPGToken [keeps]: "keepsT sinv mustPGToken"
  by (rule keepsT_I) (auto dest: mustPGToken_eq_Inr)

lemma keepsT_sqlT: "(\<And>s x d. sinv s \<Longrightarrow> f s = Inr (x, d) \<Longrightarrow> schema_ok d) \<Longrightarrow> keepsT sinv (sqlT ps f)"
  by (rule keepsT_I) (auto simp: sqlT_eq_Inr)

lemma keepsT_selectT [keeps]: "keepsT sinv (selectT ps T p)"
  unfolding selectT_def by (rule keepsT_sqlT) simp

lemmas [keeps] = checkouts_t.insertT_keeps subs_t.insertT_keeps outbound_t.insertT_keeps actions_t.insertT_keeps
  attempts_t.insertT_keeps audit_t.insertT_keeps

lemmas update_rules = checkouts_t.updateT_keeps subs_t.updateT_keeps outbound_t.updateT_keeps
  events_t.updateT_keeps leases_t.updateT_keeps actions_t.updateT_keeps attempts_t.updateT_keeps

lemma keepsT_auditedT [keeps]: "keepsT sinv m \<Longrightarrow> keepsT sinv (auditedT what i reason actor m)"
  unfolding auditedT_def pgInsertAudit_def by (intro keeps)

lemma keepsT_pgInsertProcessorEvent [keeps]: "keepsT sinv (pgInsertProcessorEvent e)"
  unfolding pgInsertProcessorEvent_def
  by (rule keepsT_sqlT) (auto dest!: insert_unless_conflict_Inr intro: events_t.insert_keeps)

lemma keepsT_upsert_lease [keeps]: "keepsT sinv (sqlT ps (upsert_lease key i until now))"
  by (rule keepsT_sqlT)
    (auto simp: upsert_lease_def Let_def bindR_eq_Inr split: if_split_asm
      intro: leases_t.insert_keeps leases_t.update_keeps)

lemma keepsT_pgClaimProcessorEvent [keeps]: "keepsT sinv (pgClaimProcessorEvent f i k now lease)"
  unfolding pgClaimProcessorEvent_def pgGetProcessorEvent_def
  by (intro keeps update_rules) simp

lemma keepsT_pgClaimDueAction [keeps]: "keepsT sinv (pgClaimDueAction now lease st ks)"
  unfolding pgClaimDueAction_def pgLockDueAction_def pgClaimAction_def Let_def
  by (intro keeps keepsT_sqlT update_rules) simp_all

text \<open>Claiming an attempt never returns a result: its second statement is refused.\<close>

lemma no_date_trunc: "calledT date_trunc_functions m = sqlT [] (\<lambda>_. Inl AmbiguousFunction)"
  by (simp add: calledT_def takes_untyped_def date_trunc_functions_def)

lemma claim_attempt_Inr: "pgClaimAttemptWithAction i j t n now lease dl s \<noteq> (Inr x, s')"
  by (auto simp: pgClaimAttemptWithAction_def no_date_trunc Let_def bindT_eq_Inr thenT_eq_Inr execT_eq_Inr sqlT_eq_Inr)

lemma keepsT_pgClaimAttemptWithAction [keeps]: "keepsT I (pgClaimAttemptWithAction i j t n now lease dl)"
  by (rule keepsT_I) (simp add: claim_attempt_Inr)

lemmas pg_op_defs = pgInsertCheckout_def pgUpdateCheckout_def pgExpireDueCheckouts_def pgInsertSubscription_def
  pgUpdateSubscription_def pgInsertOutbound_def pgClaimDueOutbound_def pgCompleteOutbound_def pgRetryOutbound_def
  pgDeadLetterOutbound_def pgAbandonOutbound_def pgRequeueOutbound_def pgFinishProcessorEvent_def
  pgReleaseProcessorLease_def pgInsertAction_def pgClaimAction_def pgFinishAction_def pgForceFinishAction_def
  pgCancelActionsForSubscription_def pgInsertAttempt_def pgUpdateAttempt_def pgInsertAudit_def

lemma keepsT_pg_exec [keeps]: "keepsT sinv (pg_exec op)"
  by (cases op; simp only: pg_exec.simps pg_op_defs; intro keeps update_rules; simp add: ended_action_def)

lemma keepsT_pg_transaction: "keepsT sinv (pg_transaction ops)"
  by (induction ops; simp only: pg_transaction.simps; intro keeps)

lemma PgInTx_keeps: "keepsT sinv fn \<Longrightarrow> sinv s \<Longrightarrow> sinv (snd (PgInTx fn s))"
  by (auto simp: PgInTx_def split: prod.splits sum.splits dest: keepsT_D [of sinv fn "s\<lparr>failed := False\<rparr>"])

text \<open>
  The schema holds in production: whatever transactions run, in any order, failing ones included, every
  row of the database satisfies its table's constraints, no two rows share what must be unique, and every
  reference has its row.
\<close>

lemma schema_kept:
  assumes "schema_ok (db s)"
  shows "schema_ok (db (pg_history txs s))"
  using assms
proof (induction txs arbitrary: s)
  case Nil
  then show ?case by (simp add: pg_history_def)
next
  case (Cons ops txs)
  then show ?case using PgInTx_keeps [OF keepsT_pg_transaction, of s ops] by (simp add: pg_history_def)
qed

definition empty_database :: database where
  "empty_database = \<lparr>sb_checkouts = [], sb_subscriptions = [], sb_outbound_events = [], sb_processor_events = [],
     sb_processing_leases = [], sb_scheduled_actions = [], sb_charge_attempts = [], sb_operator_audit = [],
     sb_schema_migrations = [1]\<rparr>"

text \<open>A server that stores whole microseconds and takes any text, and a fresh session with it.\<close>

definition sample_dbms :: dbms where
  "sample_dbms = \<lparr>timestamptz = (\<lambda>t. t - t mod 1000), uuid_text = Some, text_ok = (\<lambda>_. True), jsonb_ok = (\<lambda>_. True),
     jsonb_fields = Some, gen_random_uuid = (\<lambda>n. UUIDString (set_version_bits (word_bytes (of_nat n)))),
     version_error = None\<rparr>"

definition fresh_session :: "database \<Rightarrow> session" where
  "fresh_session d = \<lparr>db = d, dbms_of = sample_dbms, pg_clock = 0, tx_now = 0, rand = [], failed = False, busy = False,
     statements = 0, locked = []\<rparr>"

section \<open>Where the two stores part\<close>

subsection \<open>Errors inside a transaction\<close>

text \<open>A failed transaction stays failed, whatever is run in it.\<close>

named_theorems stays \<open>computations that leave a failed transaction failed\<close>

definition stays_failed :: "(session, 'a) tx \<Rightarrow> bool" where
  "stays_failed m \<longleftrightarrow> (\<forall>s. failed s \<longrightarrow> failed (snd (m s)))"

lemma stays_sqlT [stays]: "stays_failed (sqlT ps f)"
  by (auto simp: stays_failed_def sqlT_def split: sum.splits)

lemma stays_bind [stays]: "stays_failed m \<Longrightarrow> (\<And>x. stays_failed (f x)) \<Longrightarrow> stays_failed (bindT m f)"
  unfolding stays_failed_def bindT_def by (auto split: prod.splits sum.splits)

lemma stays_then [stays]: "stays_failed m \<Longrightarrow> stays_failed n \<Longrightarrow> stays_failed (thenT m n)"
  by (simp add: thenT_def stays_bind)

lemma stays_pure [stays]: "stays_failed (retT x)" "stays_failed (errT e)" "stays_failed (liftT r)"
  by (simp_all add: stays_failed_def)

lemma stays_attempt [stays]: "stays_failed m \<Longrightarrow> stays_failed (attemptT m)"
  by (simp add: stays_failed_def)

lemma stays_if [stays]: "stays_failed m \<Longrightarrow> stays_failed n \<Longrightarrow> stays_failed (if b then m else n)"
  by simp

lemma stays_option [stays]:
  "stays_failed m \<Longrightarrow> (\<And>x. stays_failed (f x)) \<Longrightarrow> stays_failed (case r of None \<Rightarrow> m | Some x \<Rightarrow> f x)"
  by (cases r) simp_all

lemma stays_list [stays]:
  "stays_failed m \<Longrightarrow> (\<And>x xs. stays_failed (f x xs)) \<Longrightarrow> stays_failed (case r of [] \<Rightarrow> m | x # xs \<Rightarrow> f x xs)"
  by (cases r) simp_all

lemma stays_mustPGToken [stays]: "stays_failed mustPGToken"
  by (auto simp: stays_failed_def mustPGToken_def split: prod.splits sum.splits)

lemma stays_wrappers [stays]:
  "stays_failed m \<Longrightarrow> stays_failed (queryRowT m)" "stays_failed n \<Longrightarrow> stays_failed (mapErrT n)"
  "stays_failed m \<Longrightarrow> stays_failed (scanT m)" "stays_failed m \<Longrightarrow> stays_failed (ownedT m)"
  "stays_failed m \<Longrightarrow> stays_failed (execT m)" "stays_failed n \<Longrightarrow> stays_failed (discardS n)"
  unfolding queryRowT_def mapErrT_def scanT_def ownedT_def execT_def discardS_def by (intro stays | assumption)+

lemma stays_pgClaimAttempt [stays]: "stays_failed (pgClaimAttemptWithAction i j t n now lease dl)"
  unfolding pgClaimAttemptWithAction_def updateT_def calledT_def pgGetAction_def pgGetAttempt_def attempt_ofT_def selectT_def Let_def
  by (intro stays)

lemma stays_pg_exec [stays]: "stays_failed (pg_exec op)"
  by (cases op; simp only: pg_exec.simps pg_op_defs insertT_def updateT_def selectT_def auditedT_def
      pgInsertProcessorEvent_def pgClaimProcessorEvent_def pgGetProcessorEvent_def pgClaimDueAction_def
      pgLockDueAction_def Let_def;
      intro stays)

lemma stays_pg_transaction [stays]: "stays_failed (pg_transaction ops)"
  by (induction ops; simp only: pg_transaction.simps; intro stays)

lemma failed_not_committed:
  assumes "failed (snd (m (s\<lparr>failed := False\<rparr>)))" and "\<And>r. stays_failed (f r)"
  shows "(\<forall>x. fst (PgInTx (bindT (attemptT m) f) s) \<noteq> Inr x) \<and> db (snd (PgInTx (bindT (attemptT m) f) s)) = db s"
proof -
  let ?t = "s\<lparr>failed := False\<rparr>"
  have run: "bindT (attemptT m) f ?t = f (fst (m ?t)) (snd (m ?t))" by (simp add: bindT_def)
  have "failed (snd (f (fst (m ?t)) (snd (m ?t))))" using assms by (simp add: stays_failed_def)
  then show ?thesis by (auto simp: PgInTx_def run split: prod.splits sum.splits)
qed

lemma mapErrT_Inl: "m s = (Inl e, s') \<Longrightarrow> mapErrT m s = (Inl (if e = NoRows then ErrNotFound else e), s')"
  by (simp add: mapErrT_def bindT_def mapErr_def)

text \<open>
  C13. In production a conflict cannot be ignored: inserting an action whose key is taken is not answered with
  \<open>ErrConflict\<close>, for which its callers test, and the transaction that goes on all the same is rolled back,
  whatever it does.
\<close>

theorem conflict_ends_transaction:
  assumes "\<not> busy s" and "x \<in> set (sb_scheduled_actions (db s))" and "a_ActionKey x = a_ActionKey a"
  shows "fst (pgInsertAction a s) \<noteq> Inl ErrConflict
    \<and> (\<forall>u. fst (PgInTx (bindT (attemptT (pgInsertAction a)) (\<lambda>_. pg_transaction ops)) s) \<noteq> Inr u)
    \<and> db (snd (PgInTx (bindT (attemptT (pgInsertAction a)) (\<lambda>_. pg_transaction ops)) s)) = db s"
proof -
  have clash: "insert_into scheduled_actions_table v (db s) = Inl (if action_accepts v then UniqueViolation else CheckViolation)"
    if "a_ActionKey v = a_ActionKey a" for v
    using assms(2,3) that
    by (auto simp: insert_into_def scheduled_actions_table_def action_clash_def list_ex_iff)
  have "failed (snd (pgInsertAction a (s\<lparr>failed := False\<rparr>))) \<and> fst (pgInsertAction a s) \<noteq> Inl ErrConflict"
    using assms(1)
    by (auto simp: clash pgInsertAction_def insertT_def sqlT_def mapErrT_def bindT_def mapErr_def split: sum.splits)
  then show ?thesis using failed_not_committed [of "pgInsertAction a" s "\<lambda>_. pg_transaction ops"] by (auto intro: stays)
qed

definition sample_action :: scheduled_action where
  "sample_action = \<lparr>a_ActionID = ''a'', a_ActionKey = ''k'', a_SubscriptionRef = ''sub_1'', a_ActionType = ''renew'',
     a_TargetAt = 0, a_DueAt = 0, a_Status = ''canceled'', a_ClaimToken = None, a_FencingToken = 0,
     a_LeaseUntil = None, a_LastErrorClass = None\<rparr>"

theorem conflict_ends_transaction_witness:
  "db (snd (PgInTx (bindT (attemptT (pgInsertAction sample_action)) (\<lambda>_. pg_transaction [ExpireCheckoutsOp 0]))
     (fresh_session (empty_database\<lparr>sb_scheduled_actions := [sample_action]\<rparr>))))
   = empty_database\<lparr>sb_scheduled_actions := [sample_action]\<rparr>"
  using conflict_ends_transaction
    [of "fresh_session (empty_database\<lparr>sb_scheduled_actions := [sample_action]\<rparr>)" sample_action sample_action "[ExpireCheckoutsOp 0]"]
  by (simp add: fresh_session_def)

subsection \<open>Queries that cannot succeed\<close>

text \<open>
  Listing the attempts of an action fails in production as soon as there is one: each is loaded while the
  rows of their identifiers are still open on the transaction's connection.
\<close>

theorem attempts_listing_fails:
  assumes "\<not> busy s" and "\<not> failed s" and "uuid_text (dbms_of s) actionID = Some i"
    and "t \<in> set (sb_charge_attempts (db s))" and "t_ActionID t = i"
  shows "fst (pgGetAttemptsForAction actionID s) = Inl ConnBusy"
proof -
  let ?q = "in_order t_AttemptNumber
     (selectT [Uuid actionID] charge_attempts_table (\<lambda>s t. t_ActionID t = stored_uuid s actionID))"
  let ?s = "s\<lparr>statements := Suc (statements s)\<rparr>"
  define rs where "rs = sort_key t_AttemptNumber (filter (\<lambda>t. t_ActionID t = i) (sb_charge_attempts (db s)))"
  have q: "?q s = (Inr rs, ?s)"
    using assms(1-3) by (simp add: in_order_def selectT_def sqlT_def bindT_def rs_def charge_attempts_table_def)
  have "set rs \<noteq> {}" using assms(4,5) by (auto simp: rs_def)
  then obtain r rest where rs: "rs = r # rest" by (cases rs) auto
  have "pgGetAttempt (t_AttemptID r) (?s\<lparr>busy := True\<rparr>) = (Inl ConnBusy, ?s\<lparr>busy := True\<rparr>)"
    by (simp add: pgGetAttempt_def attempt_ofT_def scanT_def queryRowT_def selectT_def sqlT_def bindT_def
        mapErrT_def mapErr_def)
  then have "foreachT (\<lambda>t. pgGetAttempt (t_AttemptID t)) rs (?s\<lparr>busy := True\<rparr>) = (Inl ConnBusy, ?s\<lparr>busy := True\<rparr>)"
    by (simp add: rs bindT_def)
  then show ?thesis by (simp add: pgGetAttemptsForAction_def overRowsT_def bindT_def q)
qed

definition sample_attempt :: attempt_row where
  "sample_attempt = charge_attempt.extend (zero_charge_attempt\<lparr>t_AttemptID := ''t'', t_ActionID := ''a''\<rparr>) \<lparr>t_CreatedAt = 0\<rparr>"

theorem attempts_listing_fails_witness:
  "fst (pgGetAttemptsForAction ''a'' (fresh_session (empty_database\<lparr>sb_charge_attempts := [sample_attempt]\<rparr>))) = Inl ConnBusy"
  by (rule attempts_listing_fails [where i = "''a''" and t = sample_attempt])
    (simp_all add: fresh_session_def sample_dbms_def sample_attempt_def charge_attempt.defs zero_charge_attempt_def)

text \<open>
  Looking a subscription up by a later charge fails in production whatever the database holds: the query
  names columns that both of its tables have, which the server refuses; and the refusal also ends the
  transaction.
\<close>

theorem charge_lookup_fails:
  "\<exists>e. fst (pgGetSubscriptionByChargePayment i s) = Inl e \<and> e \<noteq> ErrNotFound
     \<and> (busy s \<or> failed (snd (pgGetSubscriptionByChargePayment i s)))"
proof -
  have in1: "''subscription_ref'' \<in> set subCols" and in2: "''subscription_ref'' \<in> set attemptCols"
    by (simp_all add: subCols_def attemptCols_def)
  then have "\<not> unambiguous [subCols, attemptCols] ''subscription_ref''" by (simp add: unambiguous_def)
  with in1 have "\<not> list_all (unambiguous [subCols, attemptCols]) subCols" by (auto simp: list_all_iff)
  then show ?thesis
    by (auto simp: pgGetSubscriptionByChargePayment_def scanT_def queryRowT_def sqlT_def bindT_def mapErrT_def mapErr_def)
qed

subsection \<open>A processing lease that is held\<close>

lemma no_clash_filter:
  "no_clash c xs \<Longrightarrow> (\<And>y z. p y \<Longrightarrow> p z \<Longrightarrow> c y z) \<Longrightarrow> x \<in> set xs \<Longrightarrow> p x \<Longrightarrow> filter p xs = [x]"
proof (induction xs)
  case (Cons a xs)
  show ?case
  proof (cases "p a")
    case True
    then have "\<forall>z\<in>set xs. \<not> p z" using Cons.prems(1,2) by auto
    with True Cons.prems(3,4) show ?thesis by (auto simp: filter_empty_conv)
  next
    case False
    with Cons.prems(4) have "x \<noteq> a" by auto
    with Cons False show ?thesis by auto
  qed
qed simp

lemma no_clash_map: "(\<And>x y. c (f x) (f y) = c x y) \<Longrightarrow> no_clash c (map f xs) = no_clash c xs"
  by (induction xs) auto

lemma pgGetProcessorEvent_run:
  assumes "schema_ok (db s)" "\<not> busy s" "\<not> failed s" "text_ok (dbms_of s) family" "text_ok (dbms_of s) i"
    and "e \<in> set (sb_processor_events (db s))" "p_ProcessorFamily e = family" "p_ProcessorEventID e = i"
  shows "pgGetProcessorEvent family i s = (Inr e, s\<lparr>statements := Suc (statements s)\<rparr>)"
proof -
  have "filter (\<lambda>e. p_ProcessorFamily e = family \<and> p_ProcessorEventID e = i) (sb_processor_events (db s)) = [e]"
    using assms(1,6-8) by (intro no_clash_filter [of event_clash]) (auto simp: schema_defs event_clash_def)
  then show ?thesis using assms(2-5)
    by (simp add: pgGetProcessorEvent_def scanT_def queryRowT_def selectT_def sqlT_def bindT_def mapErrT_def mapErr_def
        processor_events_table_def)
qed

lemma update_set_none: "\<forall>x\<in>set (rows_of T d). \<not> p x \<Longrightarrow> update_set T p g d = Inr ([], put_rows T (rows_of T d) d)"
proof -
  assume none: "\<forall>x\<in>set (rows_of T d). \<not> p x"
  then have "map (\<lambda>r. if p r then g r else r) (rows_of T d) = rows_of T d" by (intro map_idI) auto
  moreover have "filter p (rows_of T d) = []" using none by (simp add: filter_empty_conv)
  ultimately show ?thesis by (simp add: update_set_def)
qed

lemma held_lease_kept:
  assumes "schema_ok (db s)" and "l \<in> set (sb_processing_leases (db s))" "l_ProcessingKey l = key"
    and "l_Status l = ''running''" "\<not> lapsed (l_LeaseUntil l) (stored_time s now)"
  shows "upsert_lease key actionID until now s = Inr ((), db s)"
proof -
  have only: "x = l" if "x \<in> set (sb_processing_leases (db s))" "l_ProcessingKey x = key" for x
    using no_clash_filter [of lease_clash "sb_processing_leases (db s)" "\<lambda>x. l_ProcessingKey x = key" x]
      no_clash_filter [of lease_clash "sb_processing_leases (db s)" "\<lambda>x. l_ProcessingKey x = key" l] that assms(1-3)
    by (auto simp: schema_defs lease_clash_def)
  let ?p = "\<lambda>x. l_ProcessingKey x = key \<and> (l_Status x = ''idle'' \<or> lapsed (l_LeaseUntil x) (stored_time s now))"
  have none: "\<forall>x\<in>set (sb_processing_leases (db s)). \<not> ?p x" using only assms(4,5) by auto
  have "update_set leases_table ?p g (db s) = Inr ([], db s)" for g
    using update_set_none [of leases_table "db s" ?p g] none by (simp add: leases_table_def)
  then show ?thesis using assms(2,3) by (auto simp: upsert_lease_def Let_def list_ex_iff)
qed

text \<open>
  C12. Processing is not exclusive in production: while a worker holds the lease of a processing key, a
  second one that claims another event, or an event already processed, under the same key is not refused as
  the in-memory store refuses it, but handed the first one's token and fence, with the event set running
  under them.
\<close>

theorem held_lease_is_shared:
  assumes ok: "schema_ok (db s)" "\<not> busy s" "\<not> failed s"
    and ev: "e \<in> set (sb_processor_events (db s))" "p_ProcessorFamily e = family" "p_ProcessorEventID e = i"
    and held: "l \<in> set (sb_processing_leases (db s))" "l_ProcessingKey l = key" "l_Status l = ''running''"
      "l_ClaimToken l = Some token" "\<not> lapsed (l_LeaseUntil l) (stored_time s now)"
    and params: "text_ok (dbms_of s) family" "text_ok (dbms_of s) i" "text_ok (dbms_of s) key"
      "uuid_text (dbms_of s) (p_ProcessingActionID e) \<noteq> None" "uuid_text (dbms_of s) token = Some token"
  shows "\<exists>e' s'. pgClaimProcessorEvent family i key now lease s = (Inr (e', l), s')
    \<and> sb_processing_leases (db s') = sb_processing_leases (db s)
    \<and> p_ProcessingState e' = ''running'' \<and> p_ClaimToken e' = Some token \<and> p_FencingToken e' = l_FencingToken l
    \<and> p_ProcessingActionID e' = p_ProcessingActionID e"
proof -
  let ?S = "\<lambda>n. s\<lparr>statements := n\<rparr>" and ?n = "statements s"
  let ?e = "e\<lparr>p_ProcessingState := ''running'', p_ClaimToken := Some token, p_FencingToken := l_FencingToken l,
    p_LeaseUntil := Some (stored_time s (now + lease))\<rparr>"
  let ?p = "\<lambda>e. p_ProcessorFamily e = family \<and> p_ProcessorEventID e = i"
  let ?g = "\<lambda>e. e\<lparr>p_ProcessingState := ''running'', p_ClaimToken := Some token, p_FencingToken := l_FencingToken l,
    p_LeaseUntil := Some (stored_time s (now + lease))\<rparr>"
  let ?new = "map (\<lambda>e. if ?p e then ?g e else e) (sb_processor_events (db s))"
  let ?d = "(db s)\<lparr>sb_processor_events := ?new\<rparr>"
  have one: "filter ?p (sb_processor_events (db s)) = [e]"
    using ok(1) ev by (intro no_clash_filter [of event_clash]) (auto simp: schema_defs event_clash_def)
  have lone: "filter (\<lambda>l. l_ProcessingKey l = key) (sb_processing_leases (db s)) = [l]"
    using ok(1) held by (intro no_clash_filter [of lease_clash]) (auto simp: schema_defs lease_clash_def)
  have acc: "event_accepts e" "lease_accepts l" using ok(1) ev(1) held(1) by (auto simp: schema_defs list_all_iff)
  have written: "update_set processor_events_table ?p ?g (db s) = Inr ([?e], ?d)"
  proof -
    have "no_clash event_clash ?new = no_clash event_clash (sb_processor_events (db s))"
      by (rule no_clash_map) (auto simp: event_clash_def)
    moreover have "event_accepts ?e" using acc by (auto simp: event_accepts_def lease_accepts_def)
    ultimately show ?thesis using one ok(1) ev(1)
      by (auto simp: update_set_def processor_events_table_def schema_defs list_all_iff has_sub_def option_all)
  qed
  have "?e \<in> set (sb_processor_events ?d)" using ev by force
  moreover have "schema_ok ?d" using events_t.update_keeps [OF ok(1) written] by simp
  ultimately have fin: "pgGetProcessorEvent family i (s\<lparr>db := ?d, statements := Suc (Suc (Suc (Suc ?n)))\<rparr>)
      = (Inr ?e, s\<lparr>db := ?d, statements := Suc (Suc (Suc (Suc (Suc ?n))))\<rparr>)"
    using pgGetProcessorEvent_run [of "s\<lparr>db := ?d, statements := Suc (Suc (Suc (Suc ?n)))\<rparr>" family i ?e] ok params ev by simp
  have "pgGetProcessorEvent family i s = (Inr e, ?S (Suc ?n))"
    using pgGetProcessorEvent_run ok params ev by simp
  moreover have "sqlT [Text key, Uuid (p_ProcessingActionID e)]
      (upsert_lease key (p_ProcessingActionID e) (now + lease) now) (?S (Suc ?n)) = (Inr (), ?S (Suc (Suc ?n)))"
    using held_lease_kept [of "?S (Suc ?n)" l key now "p_ProcessingActionID e" "now + lease"] ok held params
    by (simp add: sqlT_def)
  moreover have "queryRowT (selectT [Text key] leases_table (\<lambda>_ l. l_ProcessingKey l = key)) (?S (Suc (Suc ?n)))
      = (Inr l, ?S (Suc (Suc (Suc ?n))))"
    using lone ok params by (simp add: queryRowT_def selectT_def sqlT_def bindT_def leases_table_def)
  moreover have "execT (updateT [Text family, Text i, Uuid token] processor_events_table (\<lambda>_. ?p)
      (\<lambda>s e. e\<lparr>p_ProcessingState := ''running'', p_ClaimToken := Some (stored_uuid s token),
         p_FencingToken := l_FencingToken l, p_LeaseUntil := Some (stored_time s (now + lease))\<rparr>)) (?S (Suc (Suc (Suc ?n))))
      = (Inr (), s\<lparr>db := ?d, statements := Suc (Suc (Suc (Suc ?n)))\<rparr>)"
    using written ok params by (simp add: execT_def updateT_def sqlT_def bindT_def)
  ultimately have "pgClaimProcessorEvent family i key now lease s
      = (Inr (?e, l), s\<lparr>db := ?d, statements := Suc (Suc (Suc (Suc (Suc ?n))))\<rparr>)"
    using fin held(4) by (simp add: pgClaimProcessorEvent_def)
  then show ?thesis by auto
qed

definition pending_event :: "string \<Rightarrow> processor_event" where
  "pending_event i = zero_processor_event\<lparr>p_ProcessorFamily := ProcessorStripe, p_ProcessorEventID := i,
     p_ProcessingActionID := i, p_PayloadHash := replicate 32 (CHR ''x''), p_ProcessingState := ''pending''\<rparr>"

definition running_event :: processor_event where
  "running_event = (pending_event ''a'')\<lparr>p_ProcessingState := ''running'', p_ClaimToken := Some ''t'',
     p_FencingToken := 1, p_LeaseUntil := Some 60\<rparr>"

definition held_lease :: processing_lease where
  "held_lease = \<lparr>l_ProcessingKey = ''k'', l_Status = ''running'', l_ActiveActionID = Some ''a'',
     l_ClaimToken = Some ''t'', l_FencingToken = 1, l_LeaseUntil = Some 60\<rparr>"

definition held_database :: database where
  "held_database = empty_database\<lparr>sb_processor_events := [running_event, pending_event ''b''],
     sb_processing_leases := [held_lease]\<rparr>"

lemma held_database_ok: "schema_ok held_database"
  by (simp add: schema_simps held_database_def empty_database_def running_event_def pending_event_def
      zero_processor_event_def held_lease_def event_accepts_def lease_accepts_def all_or_none_def event_clash_def)

theorem held_lease_is_shared_witness:
  "\<exists>e' s'. pgClaimProcessorEvent ProcessorStripe ''b'' ''k'' 0 60 (fresh_session held_database) = (Inr (e', held_lease), s')
     \<and> p_ClaimToken e' = l_ClaimToken held_lease"
  using held_lease_is_shared [of "fresh_session held_database" "pending_event ''b''" ProcessorStripe "''b''" held_lease
      "''k''" "''t''" 0 60] held_database_ok
  by (auto simp: fresh_session_def held_database_def pending_event_def held_lease_def lapsed_def sample_dbms_def
      zero_processor_event_def)

end
