(* ===== verification/PgRefines.thy ===== *)
theory PgRefines
  imports PgStore
begin

text \<open>
  The PostgreSQL store against the in-memory store that the repository's tests and the rest of this
  development run on: where the two agree, an operation that succeeds in production does what the
  in-memory store does.  The bookkeeping times \<^verbatim>\<open>created_at\<close>, \<^verbatim>\<open>updated_at\<close> and \<^verbatim>\<open>received_at\<close>, which the
  server stamps by its own clock, are left out of the comparison.
\<close>

section \<open>The same contents\<close>

definition same_checkout :: "checkout \<Rightarrow> checkout \<Rightarrow> bool" where
  "same_checkout x y \<longleftrightarrow> x\<lparr>c_CreatedAt := 0, c_UpdatedAt := 0\<rparr> = y\<lparr>c_CreatedAt := 0, c_UpdatedAt := 0\<rparr>"

definition same_sub :: "subscription \<Rightarrow> subscription \<Rightarrow> bool" where
  "same_sub x y \<longleftrightarrow> x\<lparr>s_CreatedAt := 0, s_UpdatedAt := 0\<rparr> = y\<lparr>s_CreatedAt := 0, s_UpdatedAt := 0\<rparr>"

definition same_outbound :: "outbound_event \<Rightarrow> outbound_event \<Rightarrow> bool" where
  "same_outbound x y \<longleftrightarrow> x\<lparr>o_CreatedAt := 0\<rparr> = y\<lparr>o_CreatedAt := 0\<rparr>"

definition same_event :: "processor_event \<Rightarrow> processor_event \<Rightarrow> bool" where
  "same_event x y \<longleftrightarrow> x\<lparr>p_ReceivedAt := 0\<rparr> = y\<lparr>p_ReceivedAt := 0\<rparr>"

definition same_attempt :: "attempt_row \<Rightarrow> charge_attempt \<Rightarrow> bool" where
  "same_attempt x y \<longleftrightarrow> charge_attempt.truncate x = y"

definition sim :: "session \<Rightarrow> world \<Rightarrow> bool" where
  "sim s w \<longleftrightarrow>
     list_all2 same_checkout (sb_checkouts (db s)) (vals (checkouts w))
     \<and> list_all2 same_sub (sb_subscriptions (db s)) (vals (subs w))
     \<and> list_all2 same_outbound (sb_outbound_events (db s)) (vals (outbound w))
     \<and> list_all2 same_event (sb_processor_events (db s)) (vals (procEvents w))
     \<and> sb_processing_leases (db s) = vals (leases w)
     \<and> sb_scheduled_actions (db s) = vals (actions w)
     \<and> list_all2 same_attempt (sb_charge_attempts (db s)) (vals (attempts w))
     \<and> sb_operator_audit (db s) = audits w"

lemma sim_ent [simp]: "sim s (w\<lparr>ent := es\<rparr>) = sim s w"
  by (simp add: sim_def)

text \<open>What equal rows agree on.\<close>

lemma same_checkoutD:
  "same_checkout x y \<Longrightarrow> c_CheckoutID x = c_CheckoutID y \<and> c_PlanID x = c_PlanID y
     \<and> c_NormalizedReturnURL x = c_NormalizedReturnURL y \<and> c_ProcessorFamily x = c_ProcessorFamily y
     \<and> c_RequestFingerprint x = c_RequestFingerprint y \<and> c_ProviderIdempotencyKey x = c_ProviderIdempotencyKey y
     \<and> c_ProcessorShopperReference x = c_ProcessorShopperReference y \<and> c_Status x = c_Status y
     \<and> c_SubscriptionRef x = c_SubscriptionRef y \<and> c_ProcessorCheckoutID x = c_ProcessorCheckoutID y
     \<and> c_ExpiresAt x = c_ExpiresAt y"
  by (cases x; cases y; simp add: same_checkout_def)

lemma same_subD:
  "same_sub x y \<Longrightarrow> s_SubscriptionRef x = s_SubscriptionRef y \<and> s_CheckoutID x = s_CheckoutID y
     \<and> s_ProcessorFamily x = s_ProcessorFamily y \<and> s_ProcessorShopperReference x = s_ProcessorShopperReference y
     \<and> s_AutomaticChargingBlocked x = s_AutomaticChargingBlocked y"
  by (cases x; cases y; simp add: same_sub_def)

lemma same_outboundD:
  "same_outbound x y \<Longrightarrow> o_EventID x = o_EventID y \<and> o_DeliveryState x = o_DeliveryState y
     \<and> o_ClaimToken x = o_ClaimToken y \<and> o_FencingToken x = o_FencingToken y \<and> o_LeaseUntil x = o_LeaseUntil y
     \<and> o_NextAttemptAt x = o_NextAttemptAt y \<and> o_AttemptCount x = o_AttemptCount y
     \<and> o_SubscriptionRef x = o_SubscriptionRef y \<and> o_StateVersion x = o_StateVersion y"
  by (cases x; cases y; simp add: same_outbound_def)

lemma same_eventD:
  "same_event x y \<Longrightarrow> p_ProcessorFamily x = p_ProcessorFamily y \<and> p_ProcessorEventID x = p_ProcessorEventID y
     \<and> p_ProcessingActionID x = p_ProcessingActionID y \<and> p_ProcessingState x = p_ProcessingState y
     \<and> p_ClaimToken x = p_ClaimToken y \<and> p_FencingToken x = p_FencingToken y \<and> p_ProcessedAt x = p_ProcessedAt y
     \<and> event_key x = event_key y"
  by (cases x; cases y; simp add: same_event_def event_key_def)

section \<open>Tables and association lists\<close>

text \<open>
  A table whose rows are related, in order, to the values of an association list: finding, inserting,
  updating one row and rewriting rows on both sides keeps them related.
\<close>

locale mirrored =
  fixes R :: "'v \<Rightarrow> 'm \<Rightarrow> bool" and kp :: "'v \<Rightarrow> string" and km :: "'m \<Rightarrow> string"
  assumes keys: "R x y \<Longrightarrow> kp x = km y"
begin

lemma found:
  assumes "list_all2 R xs (vals m)" and "well_keyed km m" and "x \<in> set xs"
  shows "\<exists>y. map_of m (kp x) = Some y \<and> R x y"
proof -
  from assms(1,3) obtain y where y: "y \<in> set (vals m)" "R x y" by (metis in_set_conv_nth list_all2_conv_all_nth)
  with keys [OF y(2)] assms(2) show ?thesis by (auto simp: well_keyed_values)
qed

lemma present:
  assumes "list_all2 R xs (vals m)" and "map_of m k = Some y"
  shows "\<exists>x\<in>set xs. R x y"
proof -
  have "y \<in> set (vals m)" using map_of_SomeD [OF assms(2)] by (force simp: vals_def)
  with assms(1) show ?thesis by (metis in_set_conv_nth list_all2_conv_all_nth)
qed

lemma missing:
  assumes "list_all2 R xs (vals m)" and "well_keyed km m" and "\<forall>x\<in>set xs. kp x \<noteq> k"
  shows "map_of m k = None"
proof (rule ccontr)
  assume "map_of m k \<noteq> None"
  then obtain y where y: "map_of m k = Some y" by auto
  then obtain x where "x \<in> set xs" "R x y" using present [OF assms(1)] by auto
  with keys assms(3) well_keyed_key [OF assms(2) y] show False by auto
qed

lemma inserted:
  assumes "list_all2 R xs (vals m)" and "map_of m k = None" and "R x y"
  shows "list_all2 R (xs @ [x]) (vals (AList.update k y m))"
proof -
  have "vals (AList.update k y m) = vals m @ [y]"
    using assms(2) by (induction m) (auto simp: vals_def split: if_split_asm)
  with assms(1,3) show ?thesis by (simp add: list_all2_appendI)
qed

lemma updated:
  assumes "list_all2 R xs (vals m)" and "well_keyed km m" and "map_of m k = Some y"
    and "\<And>x. x \<in> set xs \<Longrightarrow> p x \<Longrightarrow> kp x = k"
    and "\<And>x. x \<in> set xs \<Longrightarrow> R x y \<Longrightarrow> p x \<and> R (g x) y'"
  shows "list_all2 R (map (\<lambda>x. if p x then g x else x) xs) (vals (AList.update k y' m))"
  using assms
proof (induction m arbitrary: xs)
  case (Cons kv m)
  obtain j z where kv: "kv = (j, z)" by (cases kv)
  with Cons.prems(1) obtain x xs' where xs: "xs = x # xs'" "R x z" "list_all2 R xs' (vals m)"
    by (auto simp: vals_def list_all2_Cons2)
  have z: "km z = j" and wk: "well_keyed km m" "j \<notin> fst ` set m" using Cons.prems(2) kv by (auto simp: well_keyed_def)
  show ?case
  proof (cases "j = k")
    case True
    have other: "\<not> p x'" if x': "x' \<in> set xs'" for x'
    proof
      assume "p x'"
      then have "kp x' = k" using Cons.prems(4) x' xs(1) by auto
      moreover obtain z' where "map_of m (kp x') = Some z'" using found [OF xs(3) wk(1) x'] by auto
      ultimately show False using wk(2) True by (auto dest!: map_of_SomeD simp: image_iff)
    qed
    then have "map (\<lambda>x. if p x then g x else x) xs' = xs'" by (intro map_idI) auto
    then show ?thesis using Cons.prems(3,5) True kv xs by (auto simp: vals_def)
  next
    case False
    then have "\<not> p x" using Cons.prems(4) xs(1) keys [OF xs(2)] z by auto
    moreover have "list_all2 R (map (\<lambda>x. if p x then g x else x) xs') (vals (AList.update k y' m))"
      using Cons.IH [OF xs(3) wk(1)] Cons.prems(3-5) kv False xs(1) by auto
    ultimately show ?thesis using False kv xs by (simp add: vals_def)
  qed
qed simp

lemma rewritten:
  assumes "list_all2 R xs (vals m)" and "\<And>x y. R x y \<Longrightarrow> p x = q y" and "\<And>x y. R x y \<Longrightarrow> q y \<Longrightarrow> R (g x) (h y)"
  shows "list_all2 R (map (\<lambda>x. if p x then g x else x) xs) (vals (map (\<lambda>(k, y). (k, if q y then h y else y)) m))"
  using assms(1)
proof (induction m arbitrary: xs)
  case (Cons kv m)
  then obtain x xs' where "xs = x # xs'" "R x (snd kv)" "list_all2 R xs' (vals m)" by (auto simp: vals_def list_all2_Cons2)
  then show ?case using Cons.IH [of xs'] assms(2,3) by (cases kv) (auto simp: vals_def)
qed (simp add: vals_def)

end

interpretation checkout_m: mirrored same_checkout c_CheckoutID c_CheckoutID
  by unfold_locales (simp add: same_checkoutD)

interpretation sub_m: mirrored same_sub s_SubscriptionRef s_SubscriptionRef
  by unfold_locales (simp add: same_subD)

interpretation outbound_m: mirrored same_outbound o_EventID o_EventID
  by unfold_locales (simp add: same_outboundD)

interpretation event_m: mirrored same_event event_key event_key
  by unfold_locales (simp add: same_eventD)

interpretation lease_m: mirrored "(=)" l_ProcessingKey l_ProcessingKey
  by unfold_locales simp

interpretation action_m: mirrored "(=)" a_ActionID a_ActionID
  by unfold_locales simp

interpretation attempt_m: mirrored same_attempt t_AttemptID t_AttemptID
  by unfold_locales (auto simp: same_attempt_def charge_attempt.defs)

section \<open>One operation on both stores\<close>

text \<open>The in-memory operation succeeds, whatever randomness it is given, and the contents stay the same.\<close>

definition follows :: "session \<Rightarrow> (world, unit) tx \<Rightarrow> world \<Rightarrow> bool" where
  "follows s' m w \<longleftrightarrow> (\<exists>es w'. m (w\<lparr>ent := es\<rparr>) = (Inr (), w') \<and> sim s' w')"

lemma followsI: "m w = (Inr (), w') \<Longrightarrow> sim s' w' \<Longrightarrow> follows s' m w"
  unfolding follows_def by (intro exI [of _ "ent w"] exI [of _ w']) simp

lemma sim_put:
  "sim s w \<Longrightarrow> list_all2 same_checkout t1 (vals m1) \<Longrightarrow>
     sim (s\<lparr>db := (db s)\<lparr>sb_checkouts := t1\<rparr>, statements := n\<rparr>) (set_checkouts m1 w)"
  "sim s w \<Longrightarrow> list_all2 same_sub t2 (vals m2) \<Longrightarrow>
     sim (s\<lparr>db := (db s)\<lparr>sb_subscriptions := t2\<rparr>, statements := n\<rparr>) (set_subs m2 w)"
  "sim s w \<Longrightarrow> list_all2 same_outbound t3 (vals m3) \<Longrightarrow>
     sim (s\<lparr>db := (db s)\<lparr>sb_outbound_events := t3\<rparr>, statements := n\<rparr>) (set_outbound m3 w)"
  "sim s w \<Longrightarrow> list_all2 same_event t4 (vals m4) \<Longrightarrow>
     sim (s\<lparr>db := (db s)\<lparr>sb_processor_events := t4\<rparr>, statements := n\<rparr>) (set_procEvents m4 w)"
  "sim s w \<Longrightarrow> t5 = vals m5 \<Longrightarrow>
     sim (s\<lparr>db := (db s)\<lparr>sb_processing_leases := t5\<rparr>, statements := n\<rparr>) (set_leases m5 w)"
  "sim s w \<Longrightarrow> t6 = vals m6 \<Longrightarrow>
     sim (s\<lparr>db := (db s)\<lparr>sb_scheduled_actions := t6\<rparr>, statements := n\<rparr>) (set_actions m6 w)"
  "sim s w \<Longrightarrow> list_all2 same_attempt t7 (vals m7) \<Longrightarrow>
     sim (s\<lparr>db := (db s)\<lparr>sb_charge_attempts := t7\<rparr>, statements := n\<rparr>) (set_attempts m7 w)"
  "sim s w \<Longrightarrow> sim (s\<lparr>db := (db s)\<lparr>sb_operator_audit := sb_operator_audit (db s) @ [u]\<rparr>, statements := n\<rparr>)
     (set_audits (audits w @ [u]) w)"
  by (simp_all add: sim_def set_table_defs)

lemma simD:
  assumes "sim s w"
  shows "list_all2 same_checkout (sb_checkouts (db s)) (vals (checkouts w))"
    "list_all2 same_sub (sb_subscriptions (db s)) (vals (subs w))"
    "list_all2 same_outbound (sb_outbound_events (db s)) (vals (outbound w))"
    "list_all2 same_event (sb_processor_events (db s)) (vals (procEvents w))"
    "list_all2 (=) (sb_processing_leases (db s)) (vals (leases w))"
    "list_all2 (=) (sb_scheduled_actions (db s)) (vals (actions w))"
    "list_all2 same_attempt (sb_charge_attempts (db s)) (vals (attempts w))"
  using assms by (simp_all add: sim_def list_all2_eq)

lemma store_okD:
  assumes "store_ok w"
  shows "well_keyed c_CheckoutID (checkouts w)" "well_keyed s_SubscriptionRef (subs w)"
    "well_keyed o_EventID (outbound w)" "well_keyed event_key (procEvents w)" "well_keyed l_ProcessingKey (leases w)"
    "well_keyed a_ActionID (actions w)" "well_keyed t_AttemptID (attempts w)"
  using assms by (simp_all add: store_ok_def keyed_by_def)

lemma related_right: "list_all2 R xs ys \<Longrightarrow> y \<in> set ys \<Longrightarrow> \<exists>x\<in>set xs. R x y"
  by (metis in_set_conv_nth list_all2_conv_all_nth)

lemma related_left: "list_all2 R xs ys \<Longrightarrow> x \<in> set xs \<Longrightarrow> \<exists>y\<in>set ys. R x y"
  by (metis in_set_conv_nth list_all2_conv_all_nth)

subsection \<open>Checkouts\<close>

lemma follows_InsertCheckout:
  assumes "pgInsertCheckout c s = (Inr u, s')" and "sim s w" and "store_ok w"
    and "c_SubscriptionRef c = None" "c_ProcessorCheckoutID c = None" "stored_time s (c_ExpiresAt c) = c_ExpiresAt c"
  shows "follows s' (InsertCheckout c) w"
proof -
  let ?r = "c\<lparr>c_CreatedAt := tx_now s, c_UpdatedAt := tx_now s\<rparr>"
  have r: "c\<lparr>c_SubscriptionRef := None, c_ProcessorCheckoutID := None, c_ExpiresAt := stored_time s (c_ExpiresAt c),
      c_CreatedAt := tx_now s, c_UpdatedAt := tx_now s\<rparr> = ?r"
    using assms(4-6) by (cases c) simp
  have free: "\<forall>x\<in>set (sb_checkouts (db s)). \<not> checkout_clash x ?r"
    and s': "s' = s\<lparr>db := (db s)\<lparr>sb_checkouts := sb_checkouts (db s) @ [?r]\<rparr>, statements := Suc (statements s)\<rparr>"
    using assms(1) by (auto simp: pgInsertCheckout_def statement_Inr checkouts_table_def r)
  note rel = simD(1) [OF assms(2)] and wk = store_okD(1) [OF assms(3)]
  have new: "map_of (checkouts w) (c_CheckoutID c) = None"
    by (rule checkout_m.missing [OF rel wk]) (use free in \<open>auto simp: checkout_clash_def\<close>)
  have "\<not> list_ex (\<lambda>x. c_ProviderIdempotencyKey x = c_ProviderIdempotencyKey c) (vals (checkouts w))"
    using free related_right [OF rel] by (fastforce simp: list_ex_iff checkout_clash_def dest: same_checkoutD)
  with new have "InsertCheckout c w = (Inr (), set_checkouts (AList.update (c_CheckoutID c)
      (c\<lparr>c_CreatedAt := Now w, c_UpdatedAt := Now w\<rparr>) (checkouts w)) w)"
    by (simp add: InsertCheckout_def)
  then show ?thesis unfolding s'
    by (rule followsI) (intro sim_put(1) assms(2) checkout_m.inserted rel new, simp add: same_checkout_def)
qed

lemma follows_UpdateCheckout:
  assumes "pgUpdateCheckout c s = (Inr u, s')" and "sim s w" and "store_ok w"
    and "pinned w (PinCheckout (c_CheckoutID c) (bind_checkout c))" "stored_time s (c_ExpiresAt c) = c_ExpiresAt c"
  shows "follows s' (UpdateCheckout c) w"
proof -
  obtain y where y: "map_of (checkouts w) (c_CheckoutID c) = Some y" "bind_checkout y = bind_checkout c"
    using assms(4) by (auto simp: pinned_def)
  note rel = simD(1) [OF assms(2)] and wk = store_okD(1) [OF assms(3)]
  have key: "c_CheckoutID y = c_CheckoutID c" using well_keyed_key [OF wk y(1)] .
  have run: "UpdateCheckout c w = (Inr (), set_checkouts (AList.update (c_CheckoutID c) (c\<lparr>c_UpdatedAt := Now w\<rparr>) (checkouts w)) w)"
    using y by (simp add: UpdateCheckout_def)
  have row: "same_checkout (x\<lparr>c_Status := c_Status c, c_SubscriptionRef := c_SubscriptionRef c,
      c_ProcessorCheckoutID := c_ProcessorCheckoutID c, c_ExpiresAt := stored_time s (c_ExpiresAt c),
      c_UpdatedAt := tx_now s\<rparr>) (c\<lparr>c_UpdatedAt := Now w\<rparr>)" if "same_checkout x y" for x
    using that y(2) key assms(5) by (cases x; cases y; cases c) (simp add: same_checkout_def bind_checkout_def)
  have s': "s' = s\<lparr>db := (db s)\<lparr>sb_checkouts := map (\<lambda>x. if c_CheckoutID x = c_CheckoutID c
      then x\<lparr>c_Status := c_Status c, c_SubscriptionRef := c_SubscriptionRef c,
        c_ProcessorCheckoutID := c_ProcessorCheckoutID c, c_ExpiresAt := stored_time s (c_ExpiresAt c),
        c_UpdatedAt := tx_now s\<rparr> else x) (sb_checkouts (db s))\<rparr>, statements := Suc (statements s)\<rparr>"
    using assms(1) by (auto simp: pgUpdateCheckout_def statement_Inr checkouts_table_def)
  show ?thesis unfolding s'
    by (rule followsI, rule run, rule sim_put(1) [OF assms(2)], rule checkout_m.updated [OF rel wk y(1)])
      (auto simp: key intro: row dest: same_checkoutD)
qed

lemma same_checkout_expired:
  "same_checkout x y \<Longrightarrow> same_checkout (x\<lparr>c_Status := st, c_UpdatedAt := t\<rparr>) (y\<lparr>c_Status := st, c_UpdatedAt := u\<rparr>)"
  by (cases x; cases y; simp add: same_checkout_def)

lemma follows_ExpireDueCheckouts:
  assumes "discardS (pgExpireDueCheckouts now) s = (Inr u, s')" and "sim s w" and "stored_time s now = now"
  shows "follows s' (discard (ExpireDueCheckouts now)) w"
proof -
  let ?q = "\<lambda>c. (c_Status c = ''creating'' \<or> c_Status c = ''pending'') \<and> c_ExpiresAt c \<le> now"
  have q: "?q = checkout_due now" by (auto simp: checkout_due_def)
  have s': "s' = s\<lparr>db := (db s)\<lparr>sb_checkouts := map (\<lambda>c. if ?q c then c\<lparr>c_Status := ''expired'', c_UpdatedAt := tx_now s\<rparr>
      else c) (sb_checkouts (db s))\<rparr>, statements := Suc (statements s)\<rparr>"
    using assms(1,3) by (auto simp: discardS_def pgExpireDueCheckouts_def statement_Inr checkouts_table_def)
  have run: "discard (ExpireDueCheckouts now) w = (Inr (), set_checkouts (map (\<lambda>(k, c). (k, if checkout_due now c
        then c\<lparr>c_Status := ''expired'', c_UpdatedAt := now\<rparr> else c)) (checkouts w)) w)"
    by (simp add: discard_def bindT_def ExpireDueCheckouts_def)
  show ?thesis unfolding s' q
    by (rule followsI, rule run, rule sim_put(1) [OF assms(2)], rule checkout_m.rewritten [OF simD(1) [OF assms(2)]])
      (auto simp: checkout_due_def same_checkout_expired dest: same_checkoutD)
qed

subsection \<open>Subscriptions\<close>

definition sub_times :: "subscription \<Rightarrow> gotime list" where
  "sub_times r = [s_CurrentPeriodStart r, s_CurrentPeriodEnd r, s_StateChangedAt r]
     @ (case s_PastDueSince r of None \<Rightarrow> [] | Some t \<Rightarrow> [t]) @ (case s_CanceledAt r of None \<Rightarrow> [] | Some t \<Rightarrow> [t])"

lemma sub_times_exact:
  "list_all (\<lambda>t. f t = t) (sub_times r) \<Longrightarrow>
     f (s_CurrentPeriodStart r) = s_CurrentPeriodStart r \<and> f (s_CurrentPeriodEnd r) = s_CurrentPeriodEnd r
     \<and> f (s_StateChangedAt r) = s_StateChangedAt r \<and> map_option f (s_PastDueSince r) = s_PastDueSince r
     \<and> map_option f (s_CanceledAt r) = s_CanceledAt r"
  by (auto simp: sub_times_def split: option.splits)

lemma follows_InsertSubscription:
  assumes "pgInsertSubscription r s = (Inr u, s')" and "sim s w" and "store_ok w"
    and "list_all (\<lambda>t. stored_time s t = t) (sub_times r)"
  shows "follows s' (InsertSubscription r) w"
proof -
  let ?r = "r\<lparr>s_CreatedAt := tx_now s, s_UpdatedAt := tx_now s\<rparr>"
  note ex = sub_times_exact [OF assms(4)]
  have r: "r\<lparr>s_CurrentPeriodStart := stored_time s (s_CurrentPeriodStart r),
        s_CurrentPeriodEnd := stored_time s (s_CurrentPeriodEnd r),
        s_StateChangedAt := stored_time s (s_StateChangedAt r),
        s_PastDueSince := map_option (stored_time s) (s_PastDueSince r),
        s_CanceledAt := map_option (stored_time s) (s_CanceledAt r),
        s_CreatedAt := tx_now s, s_UpdatedAt := tx_now s\<rparr> = ?r"
    using ex by simp
  have free: "\<forall>x\<in>set (sb_subscriptions (db s)). \<not> sub_clash x ?r"
    and s': "s' = s\<lparr>db := (db s)\<lparr>sb_subscriptions := sb_subscriptions (db s) @ [?r]\<rparr>, statements := Suc (statements s)\<rparr>"
    using assms(1) by (auto simp: pgInsertSubscription_def statement_Inr subscriptions_table_def r)
  note rel = simD(2) [OF assms(2)] and wk = store_okD(2) [OF assms(3)]
  have new: "map_of (subs w) (s_SubscriptionRef r) = None"
    by (rule sub_m.missing [OF rel wk]) (use free in \<open>auto simp: sub_clash_def\<close>)
  have "\<not> list_ex (\<lambda>x. s_CheckoutID x = s_CheckoutID r) (vals (subs w))"
    using free related_right [OF rel] by (fastforce simp: list_ex_iff sub_clash_def dest: same_subD)
  with new have "InsertSubscription r w = (Inr (), set_subs (AList.update (s_SubscriptionRef r)
      (r\<lparr>s_CreatedAt := Now w, s_UpdatedAt := Now w\<rparr>) (subs w)) w)"
    by (simp add: InsertSubscription_def)
  then show ?thesis unfolding s'
    by (rule followsI) (intro sim_put(2) assms(2) sub_m.inserted rel new, simp add: same_sub_def)
qed

lemma follows_UpdateSubscription:
  assumes "pgUpdateSubscription r s = (Inr u, s')" and "sim s w" and "store_ok w"
    and "pinned w (PinSub (s_SubscriptionRef r) (bind_sub r))" and "list_all (\<lambda>t. stored_time s t = t) (sub_times r)"
  shows "follows s' (UpdateSubscription r) w"
proof -
  obtain y where y: "map_of (subs w) (s_SubscriptionRef r) = Some y" "bind_sub y = bind_sub r"
    using assms(4) by (auto simp: pinned_def)
  note rel = simD(2) [OF assms(2)] and wk = store_okD(2) [OF assms(3)] and ex = sub_times_exact [OF assms(5)]
  have key: "s_SubscriptionRef y = s_SubscriptionRef r" using well_keyed_key [OF wk y(1)] .
  let ?g = "\<lambda>x. x\<lparr>s_PlanID := s_PlanID r, s_Status := s_Status r, s_StateVersion := s_StateVersion r,
        s_ProcessorCustomerID := s_ProcessorCustomerID r, s_ProcessorSubscriptionID := s_ProcessorSubscriptionID r,
        s_ProcessorInitialPaymentID := s_ProcessorInitialPaymentID r,
        s_PaymentMethodCiphertext := s_PaymentMethodCiphertext r, s_PaymentMethodNonce := s_PaymentMethodNonce r,
        s_PaymentMethodKeyVersion := s_PaymentMethodKeyVersion r,
        s_CurrentPeriodStart := s_CurrentPeriodStart r,
        s_CurrentPeriodEnd := s_CurrentPeriodEnd r, s_CancelAtPeriodEnd := s_CancelAtPeriodEnd r,
        s_StateChangedAt := s_StateChangedAt r,
        s_PastDueSince := s_PastDueSince r,
        s_CanceledAt := s_CanceledAt r,
        s_AutomaticChargingBlocked := s_AutomaticChargingBlocked r,
        s_ChargingBlockReason := s_ChargingBlockReason r, s_UpdatedAt := tx_now s\<rparr>"
  have run: "UpdateSubscription r w = (Inr (), set_subs (AList.update (s_SubscriptionRef r) (r\<lparr>s_UpdatedAt := Now w\<rparr>) (subs w)) w)"
    using y by (simp add: UpdateSubscription_def)
  have row: "same_sub (?g x) (r\<lparr>s_UpdatedAt := Now w\<rparr>)" if "same_sub x y" for x
    using that y(2) key by (cases x; cases y; cases r) (simp add: same_sub_def bind_sub_def)
  have s': "s' = s\<lparr>db := (db s)\<lparr>sb_subscriptions := map (\<lambda>x. if s_SubscriptionRef x = s_SubscriptionRef r then ?g x else x)
      (sb_subscriptions (db s))\<rparr>, statements := Suc (statements s)\<rparr>"
    using assms(1) by (auto simp: pgUpdateSubscription_def statement_Inr subscriptions_table_def ex)
  show ?thesis unfolding s'
    by (rule followsI, rule run, rule sim_put(2) [OF assms(2)], rule sub_m.updated [OF rel wk y(1)])
      (auto simp: key intro: row dest: same_subD)
qed

subsection \<open>Outbound events\<close>

definition fresh_outbound :: "outbound_event \<Rightarrow> bool" where
  "fresh_outbound e \<longleftrightarrow>
     o_DeliveryState e = ''pending'' \<and> o_AttemptCount e = 0 \<and> o_DeliveredAt e = None \<and> o_DeadLetteredAt e = None
     \<and> o_AbandonedAt e = None \<and> o_LastErrorClass e = None \<and> o_ClaimToken e = None \<and> o_FencingToken e = 0
     \<and> o_LeaseUntil e = None"

lemma follows_InsertOutbound:
  assumes "pgInsertOutbound e s = (Inr u, s')" and "sim s w" and "store_ok w"
    and "fresh_outbound e"
    and "map_option (stored_time s) (o_NextAttemptAt e) = o_NextAttemptAt e"
  shows "follows s' (InsertOutbound e) w"
proof -
  let ?r = "zero_outbound_event\<lparr>o_EventID := o_EventID e, o_EventType := o_EventType e,
        o_SubscriptionRef := o_SubscriptionRef e, o_CheckoutID := o_CheckoutID e, o_StateVersion := o_StateVersion e,
        o_PayloadBody := o_PayloadBody e, o_DeliveryState := ''pending'',
        o_NextAttemptAt := o_NextAttemptAt e, o_CreatedAt := tx_now s\<rparr>"
  have free: "\<forall>x\<in>set (sb_outbound_events (db s)). \<not> outbound_clash x ?r"
    and s': "s' = s\<lparr>db := (db s)\<lparr>sb_outbound_events := sb_outbound_events (db s) @ [?r]\<rparr>, statements := Suc (statements s)\<rparr>"
    using assms(1,5) by (auto simp: pgInsertOutbound_def statement_Inr outbound_events_table_def)
  note rel = simD(3) [OF assms(2)] and wk = store_okD(3) [OF assms(3)]
  have none: "map_of (outbound w) (o_EventID e) = None"
    by (rule outbound_m.missing [OF rel wk]) (use free in \<open>auto simp: outbound_clash_def\<close>)
  have "\<not> list_ex (\<lambda>x. o_SubscriptionRef x = o_SubscriptionRef e \<and> o_StateVersion x = o_StateVersion e) (vals (outbound w))"
    using free related_right [OF rel] by (fastforce simp: list_ex_iff outbound_clash_def dest: same_outboundD)
  with none have run: "InsertOutbound e w = (Inr (), set_outbound (AList.update (o_EventID e) (e\<lparr>o_CreatedAt := Now w\<rparr>)
      (outbound w)) w)"
    by (simp add: InsertOutbound_def)
  have "same_outbound ?r (e\<lparr>o_CreatedAt := Now w\<rparr>)"
    using assms(4) by (cases e) (simp add: same_outbound_def fresh_outbound_def zero_outbound_event_def)
  then show ?thesis unfolding s'
    by - (rule followsI, rule run, intro sim_put(3) assms(2) outbound_m.inserted rel none)
qed

text \<open>Finishing an event: whoever owns the row in the database owns it in memory.\<close>

lemma follows_outbound_owned:
  assumes pg: "ownedT (updateT ps outbound_events_table (outbound_owner i tok fence) g) s = (Inr u, s')"
    and "sim s w" and "store_ok w" and "uuid_text (dbms_of s) tok = Some tok"
    and mem: "\<And>y. map_of (outbound w) i = Some y \<Longrightarrow> owned_outbound tok fence y \<Longrightarrow>
      m w = (Inr (), set_outbound (AList.update i (h y) (outbound w)) w)"
    and row: "\<And>x y. same_outbound x y \<Longrightarrow> outbound_accepts (g s x) \<Longrightarrow> same_outbound (g s x) (h y)"
  shows "follows s' m w"
proof -
  let ?p = "outbound_owner i tok fence s" and ?rows = "sb_outbound_events (db s)"
  have s': "s' = s\<lparr>db := (db s)\<lparr>sb_outbound_events := map (\<lambda>r. if ?p r then g s r else r) ?rows\<rparr>,
      statements := Suc (statements s)\<rparr>"
    and some: "filter ?p ?rows \<noteq> []" and acc: "\<forall>x\<in>set ?rows. ?p x \<longrightarrow> outbound_accepts (g s x)"
    using pg by (auto simp: statement_Inr outbound_events_table_def)
  note rel = simD(3) [OF assms(2)] and wk = store_okD(3) [OF assms(3)]
  obtain x where x: "x \<in> set ?rows" "?p x" using some by (auto simp: filter_empty_conv)
  obtain y where y: "map_of (outbound w) i = Some y" "same_outbound x y"
    using outbound_m.found [OF rel wk x(1)] x(2) by (auto simp: outbound_owner_def)
  have own: "owned_outbound tok fence y"
    using x(2) same_outboundD [OF y(2)] assms(4) by (auto simp: outbound_owner_def owned_outbound_def)
  have p: "?p z" if "same_outbound z y" for z
    using x(2) same_outboundD [OF y(2)] same_outboundD [OF that] by (auto simp: outbound_owner_def)
  show ?thesis unfolding s'
    by (rule followsI, rule mem [OF y(1) own], rule sim_put(3) [OF assms(2)], rule outbound_m.updated [OF rel wk y(1)])
      (auto simp: p acc intro: row, simp add: outbound_owner_def)
qed

lemma outbound_count:
  "same_outbound x y \<Longrightarrow> outbound_accepts e \<Longrightarrow> o_AttemptCount e = o_AttemptCount x + 1 \<Longrightarrow>
     wrap64 (o_AttemptCount y + 1) = o_AttemptCount y + 1"
  by (auto simp: outbound_accepts_def dest!: same_outboundD intro!: wrap64_id)

lemmas owned_run = ownedOutbound_def lookup_row_def bindT_def thenT_def put_outbound_def

text \<open>The three ends of a delivery attempt count it; \<open>f\<close> is what each writes besides.\<close>

lemma follows_settled:
  assumes pg: "ownedT (updateT ps outbound_events_table (outbound_owner i tok fence)
      (\<lambda>s e. (f s e)\<lparr>o_AttemptCount := o_AttemptCount e + 1\<rparr>)) s = (Inr u, s')"
    and "sim s w" and "store_ok w" and "uuid_text (dbms_of s) tok = Some tok"
    and mem: "\<And>y. map_of (outbound w) i = Some y \<Longrightarrow> owned_outbound tok fence y \<Longrightarrow>
      m w = (Inr (), set_outbound (AList.update i ((h y)\<lparr>o_AttemptCount := wrap64 (o_AttemptCount y + 1)\<rparr>) (outbound w)) w)"
    and row: "\<And>x y. same_outbound x y \<Longrightarrow> same_outbound (f s x) (h y)"
  shows "follows s' m w"
proof (rule follows_outbound_owned [where h = "\<lambda>y. (h y)\<lparr>o_AttemptCount := wrap64 (o_AttemptCount y + 1)\<rparr>",
      OF pg assms(2-4)])
  show "m w = (Inr (), set_outbound (AList.update i ((h y)\<lparr>o_AttemptCount := wrap64 (o_AttemptCount y + 1)\<rparr>) (outbound w)) w)"
    if "map_of (outbound w) i = Some y" "owned_outbound tok fence y" for y
    using mem that .
  fix x y assume xy: "same_outbound x y" and "outbound_accepts ((f s x)\<lparr>o_AttemptCount := o_AttemptCount x + 1\<rparr>)"
  from outbound_count [OF this] have "wrap64 (o_AttemptCount y + 1) = o_AttemptCount y + 1" by simp
  with row [OF xy] same_outboundD [OF xy]
  show "same_outbound ((f s x)\<lparr>o_AttemptCount := o_AttemptCount x + 1\<rparr>) ((h y)\<lparr>o_AttemptCount := wrap64 (o_AttemptCount y + 1)\<rparr>)"
    by (cases "f s x"; cases "h y") (simp add: same_outbound_def)
qed

lemma follows_CompleteOutbound:
  assumes "pgCompleteOutbound i tok fence now s = (Inr u, s')" and "sim s w" and "store_ok w"
    and "uuid_text (dbms_of s) tok = Some tok" and "stored_time s now = now"
  shows "follows s' (CompleteOutbound i tok fence now) w"
  by (rule follows_settled [OF assms(1) [unfolded pgCompleteOutbound_def] assms(2-4),
      where h = "\<lambda>e. e\<lparr>o_DeliveryState := DeliveryDelivered, o_DeliveredAt := Some now, o_NextAttemptAt := None,
         o_ClaimToken := None, o_LeaseUntil := None\<rparr>"])
    (simp add: CompleteOutbound_def owned_run, rename_tac x y, case_tac x, case_tac y, simp add: same_outbound_def assms(5))

lemma follows_RetryOutbound:
  assumes "pgRetryOutbound i tok fence nxt ec s = (Inr u, s')" and "sim s w" and "store_ok w"
    and "uuid_text (dbms_of s) tok = Some tok" and "stored_time s nxt = nxt"
  shows "follows s' (RetryOutbound i tok fence nxt ec) w"
  by (rule follows_settled [OF assms(1) [unfolded pgRetryOutbound_def] assms(2-4),
      where h = "\<lambda>e. e\<lparr>o_NextAttemptAt := Some nxt, o_LastErrorClass := Some ec, o_ClaimToken := None, o_LeaseUntil := None\<rparr>"])
    (simp add: RetryOutbound_def owned_run, rename_tac x y, case_tac x, case_tac y, simp add: same_outbound_def assms(5))

lemma follows_DeadLetterOutbound:
  assumes "pgDeadLetterOutbound i tok fence now ec s = (Inr u, s')" and "sim s w" and "store_ok w"
    and "uuid_text (dbms_of s) tok = Some tok" and "stored_time s now = now"
  shows "follows s' (DeadLetterOutbound i tok fence now ec) w"
  by (rule follows_settled [OF assms(1) [unfolded pgDeadLetterOutbound_def] assms(2-4),
      where h = "\<lambda>e. e\<lparr>o_DeliveryState := DeliveryDeadLettered, o_DeadLetteredAt := Some now, o_NextAttemptAt := None,
         o_ClaimToken := None, o_LeaseUntil := None, o_LastErrorClass := Some ec\<rparr>"])
    (simp add: DeadLetterOutbound_def owned_run, rename_tac x y, case_tac x, case_tac y, simp add: same_outbound_def assms(5))

text \<open>What the documentation of the server and the driver says of UUIDs and of an empty document.\<close>

abbreviation uuid_of :: "128 word \<Rightarrow> string" where
  "uuid_of x \<equiv> UUIDString (set_version_bits (word_bytes x))"

definition documented :: "dbms \<Rightarrow> bool" where
  "documented S \<longleftrightarrow>
     (\<forall>x. uuid_text S (uuid_of x) = Some (uuid_of x)) \<and> (\<forall>n. \<exists>x. gen_random_uuid S n = uuid_of x)
     \<and> jsonb_fields S [] = Some []"

lemma newUUID_run:
  "newUUID w = (case ent w of [] \<Rightarrow> (Inl ErrRand, w) | x # xs \<Rightarrow> (Inr (uuid_of x), w\<lparr>ent := xs\<rparr>))"
  by (simp add: newUUID_def RandomClaimToken_def rand_read_def bindT_def split: list.splits)

lemma mustToken_run:
  "mustToken w = (case ent w of [] \<Rightarrow> (Inl ErrPanic, w) | x # xs \<Rightarrow> (Inr (uuid_of x), w\<lparr>ent := xs\<rparr>))"
  by (simp add: mustToken_def newToken_def newUUID_run split: list.splits)

lemma mustPGToken_run:
  "mustPGToken s = (case rand s of [] \<Rightarrow> (Inl ErrPanic, s\<lparr>rand := []\<rparr>) | x # xs \<Rightarrow> (Inr (uuid_of x), s\<lparr>rand := xs\<rparr>))"
  by (simp add: mustPGToken_def newUUID_run split: list.splits)

lemma pgInsertAudit_run:
  "pgInsertAudit a s = (Inr u, s') \<Longrightarrow> uuid_text (dbms_of s) (u_AuditID a) = Some (u_AuditID a) \<Longrightarrow>
     jsonb_fields (dbms_of s) (u_Metadata a) = Some (u_Metadata a) \<Longrightarrow>
     s' = s\<lparr>db := (db s)\<lparr>sb_operator_audit := sb_operator_audit (db s) @ [a]\<rparr>, statements := Suc (statements s)\<rparr>"
  by (auto simp: pgInsertAudit_def statement_Inr audit_table_def)

lemma sim_rand [simp]: "sim (s\<lparr>rand := r\<rparr>) w = sim s w"
  by (simp add: sim_def)

lemma follows_audited:
  assumes pg: "auditedT what i reason actor (updateT ps outbound_events_table (\<lambda>_ e. o_EventID e = i \<and> P e) g) s = (Inr u, s')"
    and "sim s w" and "store_ok w" and "documented (dbms_of s)"
    and state: "\<And>x y. same_outbound x y \<Longrightarrow> P x = P y"
    and mem: "\<And>y w. map_of (outbound w) i = Some y \<Longrightarrow> P y \<Longrightarrow> m w = thenT (put_outbound i (h y)) (bindT mustToken (\<lambda>t.
      InsertAudit \<lparr>u_AuditID = t, u_Action = what, u_TargetType = ''event'', u_TargetID = i,
        u_Actor = actor, u_Reason = reason, u_Metadata = []\<rparr>)) w"
    and row: "\<And>x y. same_outbound x y \<Longrightarrow> same_outbound (g s x) (h y)"
  shows "follows s' m w"
proof -
  let ?p = "\<lambda>e. o_EventID e = i \<and> P e" and ?rows = "sb_outbound_events (db s)"
  let ?s = "s\<lparr>db := (db s)\<lparr>sb_outbound_events := map (\<lambda>r. if ?p r then g s r else r) ?rows\<rparr>, statements := Suc (statements s)\<rparr>"
  let ?a = "\<lambda>t. \<lparr>u_AuditID = t, u_Action = what, u_TargetType = ''event'', u_TargetID = i,
        u_Actor = actor, u_Reason = reason, u_Metadata = []\<rparr>"
  obtain x xs where some: "filter ?p ?rows \<noteq> []" and ent: "rand s = x # xs"
    and audit: "pgInsertAudit (?a (uuid_of x)) (?s\<lparr>rand := xs\<rparr>) = (Inr u, s')"
    using pg by (auto simp: auditedT_def statement_Inr outbound_events_table_def mustPGToken_run split: if_split_asm list.splits)
  have s': "s' = ?s\<lparr>rand := xs, db := (db ?s)\<lparr>sb_operator_audit := sb_operator_audit (db ?s) @ [?a (uuid_of x)]\<rparr>,
      statements := Suc (statements ?s)\<rparr>"
    using pgInsertAudit_run [OF audit] assms(4) by (simp add: documented_def)
  note rel = simD(3) [OF assms(2)] and wk = store_okD(3) [OF assms(3)]
  obtain z where z: "z \<in> set ?rows" "?p z" using some by (auto simp: filter_empty_conv)
  obtain y where y: "map_of (outbound w) i = Some y" "same_outbound z y"
    using outbound_m.found [OF rel wk z(1)] z(2) by auto
  let ?w = "set_outbound (AList.update i (h y) (outbound w)) w"
  have run: "m (w\<lparr>ent := x # xs\<rparr>) = (Inr (), set_audits (audits ?w @ [?a (uuid_of x)]) (?w\<lparr>ent := xs\<rparr>))"
    using mem [of "w\<lparr>ent := x # xs\<rparr>" y] y z state [OF y(2)]
    by (simp add: thenT_def bindT_def put_outbound_def mustToken_run InsertAudit_def set_table_defs)
  have "sim ?s ?w"
    by (rule sim_put(3) [OF assms(2)], rule outbound_m.updated [OF rel wk y(1)])
      (use y z state row well_keyed_key [OF wk y(1)] in \<open>auto dest: same_outboundD [THEN conjunct1]\<close>)
  then have "sim (?s\<lparr>rand := xs\<rparr>) (?w\<lparr>ent := xs\<rparr>)" by simp
  note both = sim_put(8) [OF this, where u = "?a (uuid_of x)" and n = "Suc (statements ?s)"]
  show ?thesis unfolding follows_def s'
    by (intro exI conjI, rule run) (use both in simp)
qed

lemma follows_AbandonOutbound:
  assumes "pgAbandonOutbound i reason actor now s = (Inr u, s')" and "sim s w" and "store_ok w"
    and "documented (dbms_of s)" and "stored_time s now = now"
  shows "follows s' (AbandonOutbound i reason actor now) w"
  by (rule follows_audited [OF assms(1) [unfolded pgAbandonOutbound_def] assms(2-4),
      where h = "\<lambda>e. e\<lparr>o_DeliveryState := DeliveryAbandoned, o_AbandonedAt := Some now, o_NextAttemptAt := None,
         o_ClaimToken := None, o_LeaseUntil := None\<rparr>"])
    (simp add: same_outboundD, simp add: AbandonOutbound_def lookup_row_def bindT_def thenT_def,
     rename_tac x y, case_tac x, case_tac y, simp add: same_outbound_def assms(5))

lemma follows_RequeueOutbound:
  assumes "pgRequeueOutbound i reason actor now s = (Inr u, s')" and "sim s w" and "store_ok w"
    and "documented (dbms_of s)" and "stored_time s now = now"
  shows "follows s' (RequeueOutbound i reason actor now) w"
  by (rule follows_audited [OF assms(1) [unfolded pgRequeueOutbound_def] assms(2-4),
      where h = "\<lambda>e. e\<lparr>o_DeliveryState := DeliveryPending, o_NextAttemptAt := Some now, o_DeadLetteredAt := None,
         o_AbandonedAt := None, o_DeliveredAt := None, o_ClaimToken := None, o_LeaseUntil := None\<rparr>"])
    (simp add: same_outboundD, simp add: RequeueOutbound_def lookup_row_def bindT_def thenT_def disj_commute,
     rename_tac x y, case_tac x, case_tac y, simp add: same_outbound_def assms(5))

lemma updateT_written:
  "updateT ps T p g s = (Inr rs, s') \<Longrightarrow>
     s' = s\<lparr>db := put_rows T (map (\<lambda>r. if p s r then g s r else r) (rows_of T (db s))) (db s), statements := Suc (statements s)\<rparr>
     \<and> rs = map (g s) (filter (p s) (rows_of T (db s))) \<and> (\<forall>x\<in>set (rows_of T (db s)). p s x \<longrightarrow> accepts T (g s x))"
  by (auto simp: updateT_def sqlT_eq_Inr update_set_Inr)

text \<open>The first of a sorted list is what the scan of the in-memory store finds.\<close>

lemma earliest_sorted: "earliest t None vs = (case sort_key t vs of [] \<Rightarrow> None | v # _ \<Rightarrow> Some v)"
proof -
  have step: "hd (sort_key t (b # v # vs)) = hd (sort_key t ((if t v < t b then v else b) # vs))" for b v vs
    by (cases "sort_key t vs") auto
  have "earliest t (Some b) vs = Some (hd (sort_key t (b # vs)))" for b vs
  proof (induction vs arbitrary: b)
    case (Cons v vs)
    then show ?case using step [of b v vs] by (simp del: sort_key_simps)
  qed simp
  then have "earliest t None (v # rest) = Some (hd (sort_key t (v # rest)))" for v rest by simp
  moreover have "sort_key t (v # rest) \<noteq> []" for v rest by (metis length_0_conv length_sort list.distinct(1))
  ultimately show ?thesis by (cases vs) (simp, metis hd_Cons_tl list.simps(5))
qed

lemma earliest_related:
  assumes "list_all2 R xs ys" and "\<And>x y. R x y \<Longrightarrow> t x = u y" and "rel_option R b c"
  shows "rel_option R (earliest t b xs) (earliest u c ys)"
  using assms(1,3)
proof (induction xs ys arbitrary: b c rule: list_all2_induct)
  case (Cons x xs y ys)
  have "rel_option R (case b of None \<Rightarrow> Some x | Some b' \<Rightarrow> if t x < t b' then Some x else b)
      (case c of None \<Rightarrow> Some y | Some c' \<Rightarrow> if u y < u c' then Some y else c)"
    using Cons.hyps(1) Cons.prems assms(2) by (cases b; cases c) auto
  from Cons.IH [OF this] show ?case by (simp only: earliest.simps)
qed simp

lemma filter_related:
  "list_all2 R xs ys \<Longrightarrow> (\<And>x y. y \<in> set ys \<Longrightarrow> R x y \<Longrightarrow> p x = q y) \<Longrightarrow> list_all2 R (filter p xs) (filter q ys)"
  by (induction xs ys rule: list_all2_induct) auto

lemma claim_runs:
  "ent w = x # es \<Longrightarrow> earliest (\<lambda>e. the (o_NextAttemptAt e)) None (filter (outbound_due now) (vals (outbound w))) = Some y \<Longrightarrow>
     map_of (outbound w) (o_EventID y) = Some y \<Longrightarrow>
     ClaimDueOutbound now lease w = (Inr (stamp_outbound (uuid_of x) (now + lease) y),
       set_outbound (AList.update (o_EventID y) (stamp_outbound (uuid_of x) (now + lease) y) (outbound w)) (w\<lparr>ent := es\<rparr>))"
  by (simp add: ClaimDueOutbound_def newToken_def newUUID_run Let_def stamp_outbound_def)

lemma follows_ClaimDueOutbound:
  assumes pg: "discardS (pgClaimDueOutbound now lease) s = (Inr u, s')" and "sim s w" and "store_ok w"
    and "documented (dbms_of s)" "stored_time s now = now" "stored_time s (now + lease) = now + lease" "locked s = []"
    and edge: "\<forall>e\<in>set (vals (outbound w)). o_LeaseUntil e \<noteq> Some now"
  shows "follows s' (discard (ClaimDueOutbound now lease)) w"
proof -
  let ?rows = "sb_outbound_events (db s)" and ?t = "\<lambda>e. the (o_NextAttemptAt e)"
  let ?due = "first_unlocked s ?t o_EventID (outbound_eligible now) ?rows"
  let ?p = "\<lambda>e. o_EventID e \<in> o_EventID ` set ?due"
  let ?g = "\<lambda>e. e\<lparr>o_ClaimToken := Some (new_uuid s), o_FencingToken := o_FencingToken e + 1, o_LeaseUntil := Some (now + lease)\<rparr>"
  obtain r rest where "updateT [] outbound_events_table (\<lambda>s e. o_EventID e \<in> o_EventID ` set (first_unlocked s ?t o_EventID
          (outbound_eligible (stored_time s now)) (sb_outbound_events (db s))))
      (\<lambda>s e. e\<lparr>o_ClaimToken := Some (new_uuid s), o_FencingToken := o_FencingToken e + 1,
        o_LeaseUntil := Some (stored_time s (now + lease))\<rparr>) s = (Inr (r # rest), s')"
    using pg by (auto simp: discardS_def pgClaimDueOutbound_def bindT_eq_Inr scanT_eq_Inr)
  from updateT_written [OF this] have
    s': "s' = s\<lparr>db := (db s)\<lparr>sb_outbound_events := map (\<lambda>r. if ?p r then ?g r else r) ?rows\<rparr>,
      statements := Suc (statements s)\<rparr>"
    and some: "filter ?p ?rows \<noteq> []" and acc: "\<forall>x\<in>set ?rows. ?p x \<longrightarrow> outbound_accepts (?g x)"
    by (auto simp: outbound_events_table_def assms(5,6) simp del: filter_False)
  note rel = simD(3) [OF assms(2)] and wk = store_okD(3) [OF assms(3)]
  let ?rs = "filter (outbound_eligible now) ?rows" and ?ms = "filter (outbound_due now) (vals (outbound w))"
  have due: "?due = take 1 (sort_key ?t ?rs)" by (simp add: first_unlocked_def assms(7))
  have rs: "list_all2 same_outbound ?rs ?ms"
    by (rule filter_related [OF rel])
      (use edge in \<open>auto simp: outbound_eligible_def outbound_due_def lease_free_at_def lapsed_def not_less order.order_iff_strict
         dest!: same_outboundD split: option.splits\<close>)
  have "?due \<noteq> []" using some by (auto simp: filter_empty_conv)
  then obtain x where x: "earliest ?t None ?rs = Some x" "?due = [x]"
    unfolding due by (cases "sort_key ?t ?rs") (auto simp: earliest_sorted)
  obtain y where y: "earliest ?t None ?ms = Some y" "same_outbound x y"
    using earliest_related [OF rs, of ?t ?t None None] x(1) by (auto simp: same_outboundD option_rel_Some1)
  have y_due: "y \<in> set (vals (outbound w))"
    using y(1) by (auto simp: earliest_sorted split: list.splits) (metis filter_is_subset in_mono list.set_intros(1) set_sort)
  then have my: "map_of (outbound w) (o_EventID y) = Some y" using well_keyed_values [OF wk] by simp
  obtain z where z: "new_uuid s = uuid_of z" using assms(4) by (auto simp: documented_def)
  have p: "?p v \<longleftrightarrow> o_EventID v = o_EventID y" for v using same_outboundD [OF y(2)] by (simp add: x(2))
  have row: "same_outbound (?g v) (stamp_outbound (uuid_of z) (now + lease) y)"
    if v: "v \<in> set ?rows" "same_outbound v y" for v
  proof -
    have "?p v" unfolding p using same_outboundD [OF v(2)] by blast
    then have "int8 (o_FencingToken v + 1)" using acc v(1) by (auto simp: outbound_accepts_def)
    then have "wrap64 (o_FencingToken y + 1) = o_FencingToken y + 1"
      using same_outboundD [OF v(2)] by (simp add: wrap64_id)
    with v(2) z show ?thesis by (cases v; cases y) (simp add: same_outbound_def stamp_outbound_def)
  qed
  have run: "discard (ClaimDueOutbound now lease) (w\<lparr>ent := [z]\<rparr>) = (Inr (),
      set_outbound (AList.update (o_EventID y) (stamp_outbound (uuid_of z) (now + lease) y) (outbound w)) (w\<lparr>ent := []\<rparr>))"
    using claim_runs [of "w\<lparr>ent := [z]\<rparr>" z "[]" now y lease] y(1) my by (simp add: discard_def bindT_def)
  have "sim s' (set_outbound (AList.update (o_EventID y) (stamp_outbound (uuid_of z) (now + lease) y) (outbound w)) (w\<lparr>ent := []\<rparr>))"
    unfolding s' by (rule sim_put(3)) (use assms(2) in simp, rule outbound_m.updated [OF rel wk my],
      simp only: p, use p row same_outboundD in blast)
  with run show ?thesis unfolding follows_def by blast
qed

end
