(* ===== verification/PgAgrees.thy ===== *)
theory PgAgrees
  imports PgRefines
begin

text \<open>
  The comparison of the two stores continued: provider events and leases, actions and charge attempts; and
  the theorem that collects it, with the conditions under which the two agree.
\<close>

section \<open>Provider events and leases\<close>

text \<open>The key of the in-memory table tells two events apart (it joins family and identifier by a NUL).\<close>

definition separate :: "world \<Rightarrow> string \<Rightarrow> string \<Rightarrow> bool" where
  "separate w f i \<longleftrightarrow>
     (\<forall>x\<in>set (vals (procEvents w)). event_key x = procKey f i \<longrightarrow> p_ProcessorFamily x = f \<and> p_ProcessorEventID x = i)"

definition fresh_event :: "processor_event \<Rightarrow> bool" where
  "fresh_event e \<longleftrightarrow>
     p_ProcessingState e = ''pending'' \<and> p_SubscriptionRef e = None \<and> p_ProcessedAt e = None \<and> p_ClaimToken e = None
     \<and> p_FencingToken e = 0 \<and> p_LeaseUntil e = None \<and> p_LastErrorClass e = None"

lemma event_found:
  assumes "sim s w" and "store_ok w" and "x \<in> set (sb_processor_events (db s))"
    and "p_ProcessorFamily x = f" "p_ProcessorEventID x = i"
  shows "\<exists>y. map_of (procEvents w) (procKey f i) = Some y \<and> same_event x y"
  using event_m.found [OF simD(4) [OF assms(1)] store_okD(4) [OF assms(2)] assms(3)] assms(4,5)
  by (simp add: event_key_def)

lemma follows_InsertProcessorEvent:
  assumes pg: "discardS (pgInsertProcessorEvent e) s = (Inr u, s')" and "sim s w" and "store_ok w"
    and "fresh_event e" "uuid_text (dbms_of s) (p_ProcessingActionID e) = Some (p_ProcessingActionID e)"
    and "jsonb_fields (dbms_of s) (p_NormalizedFields e) = Some (p_NormalizedFields e)"
    and own: "\<forall>x\<in>set (vals (procEvents w)). p_ProcessingActionID x = p_ProcessingActionID e \<longrightarrow> event_key x = event_key e"
    and sep: "separate w (p_ProcessorFamily e) (p_ProcessorEventID e)"
  shows "follows s' (discard (InsertProcessorEvent e)) w"
proof -
  let ?r = "zero_processor_event\<lparr>p_ProcessorFamily := p_ProcessorFamily e, p_ProcessorEventID := p_ProcessorEventID e,
           p_ProcessingActionID := p_ProcessingActionID e,
           p_ProviderEventType := p_ProviderEventType e, p_PayloadHash := p_PayloadHash e,
           p_NormalizedFields := p_NormalizedFields e,
           p_SensitiveCiphertext := p_SensitiveCiphertext e, p_SensitiveNonce := p_SensitiveNonce e,
           p_SensitiveKeyVersion := p_SensitiveKeyVersion e, p_ProcessingState := ''pending'',
           p_ReceivedAt := tx_now s\<rparr>"
  note rel = simD(4) [OF assms(2)] and wk = store_okD(4) [OF assms(3)]
  obtain b d where ins: "insert_unless_conflict processor_events_table ?r (db s) = Inr (b, d)"
    and s': "s' = s\<lparr>db := d, statements := Suc (statements s)\<rparr>"
    using pg assms(5,6) by (auto simp: discardS_def pgInsertProcessorEvent_def bindT_eq_Inr sqlT_eq_Inr)
  show ?thesis
  proof (cases "\<exists>x\<in>set (sb_processor_events (db s)). event_clash x ?r")
    case True
    then obtain x where x: "x \<in> set (sb_processor_events (db s))" "event_clash x ?r" by auto
    obtain y where y: "y \<in> set (vals (procEvents w))" "same_event x y" using related_left [OF rel x(1)] by auto
    have "event_key y = event_key e"
      using x(2) own y same_eventD [OF y(2)] by (auto simp: event_clash_def event_key_def)
    then have "map_of (procEvents w) (procKey (p_ProcessorFamily e) (p_ProcessorEventID e)) \<noteq> None"
      using well_keyed_values [OF wk, of y] y(1) by (simp add: event_key_def)
    then have run: "discard (InsertProcessorEvent e) w = (Inr (), w)"
      by (auto simp: discard_def bindT_def InsertProcessorEvent_def)
    have "d = db s" using ins x
      by (auto simp: insert_unless_conflict_def insert_into_def Let_def list_ex_iff processor_events_table_def
          split: if_split_asm)
    then show ?thesis unfolding s' by (intro followsI [of _ w w] run) (use assms(2) in \<open>simp add: sim_def\<close>)
  next
    case False
    then have d: "d = (db s)\<lparr>sb_processor_events := sb_processor_events (db s) @ [?r]\<rparr>"
      using ins by (auto simp: insert_unless_conflict_def insert_into_def Let_def list_ex_iff processor_events_table_def
          split: if_split_asm)
    have none: "map_of (procEvents w) (event_key e) = None"
    proof (rule event_m.missing [OF rel wk], intro ballI notI)
      fix x assume x: "x \<in> set (sb_processor_events (db s))" "event_key x = event_key e"
      obtain y where "y \<in> set (vals (procEvents w))" "same_event x y" using related_left [OF rel x(1)] by auto
      with sep x(2) have "event_clash x ?r"
        by (auto simp: separate_def event_clash_def event_key_def dest!: same_eventD)
      with False x(1) show False by blast
    qed
    let ?e = "if IsZero (p_ReceivedAt e) then e\<lparr>p_ReceivedAt := Now w\<rparr> else e"
    have run: "discard (InsertProcessorEvent e) w = (Inr (), set_procEvents (AList.update (event_key e) ?e (procEvents w)) w)"
      using none by (simp add: discard_def bindT_def InsertProcessorEvent_def event_key_def Let_def)
    have "same_event ?r ?e"
      using assms(4) by (cases e) (simp add: same_event_def fresh_event_def zero_processor_event_def)
    then show ?thesis unfolding s' d
      by - (rule followsI, rule run, intro sim_put(4) assms(2) event_m.inserted rel none)
  qed
qed

lemma follows_FinishProcessorEvent:
  assumes pg: "pgFinishProcessorEvent f i tok fence st ref now s = (Inr u, s')" and "sim s w" and "store_ok w"
    and "uuid_text (dbms_of s) tok = Some tok" and "stored_time s now = now" and sep: "separate w f i"
  shows "follows s' (FinishProcessorEvent f i tok fence st ref now) w"
proof -
  let ?p = "\<lambda>e. p_ProcessorFamily e = f \<and> p_ProcessorEventID e = i \<and> p_ProcessingState e = ''running''
    \<and> p_ClaimToken e = Some tok \<and> p_FencingToken e = fence"
  let ?g = "\<lambda>e. e\<lparr>p_ProcessingState := st, p_ClaimToken := None, p_LeaseUntil := None, p_SubscriptionRef := ref,
    p_ProcessedAt := (if st = ''processed'' then Some now else p_ProcessedAt e)\<rparr>"
  let ?rows = "sb_processor_events (db s)"
  obtain rs where "rs \<noteq> []" "updateT ([Text f, Text i, Uuid tok, Text st] @ nullable Text ref) processor_events_table
      (\<lambda>s e. p_ProcessorFamily e = f \<and> p_ProcessorEventID e = i \<and> p_ProcessingState e = ''running''
        \<and> p_ClaimToken e = Some (stored_uuid s tok) \<and> p_FencingToken e = fence)
      (\<lambda>s e. e\<lparr>p_ProcessingState := st, p_ClaimToken := None, p_LeaseUntil := None, p_SubscriptionRef := ref,
        p_ProcessedAt := (if st = ''processed'' then Some (stored_time s now) else p_ProcessedAt e)\<rparr>) s = (Inr rs, s')"
    using pg by (auto simp: pgFinishProcessorEvent_def ownedT_eq_Inr)
  with updateT_written [OF this(2)] have s': "s' = s\<lparr>db := (db s)\<lparr>sb_processor_events := map (\<lambda>r. if ?p r then ?g r else r) ?rows\<rparr>,
      statements := Suc (statements s)\<rparr>" and some: "filter ?p ?rows \<noteq> []"
    by (auto simp: processor_events_table_def assms(4,5) simp del: filter_False)
  note rel = simD(4) [OF assms(2)] and wk = store_okD(4) [OF assms(3)]
  obtain x where x: "x \<in> set ?rows" "?p x" using some by (auto simp: filter_empty_conv)
  obtain y where y: "map_of (procEvents w) (procKey f i) = Some y" "same_event x y"
    using event_found [OF assms(2,3) x(1)] x(2) by auto
  let ?y = "let e = y\<lparr>p_ProcessingState := st, p_ClaimToken := None, p_LeaseUntil := None, p_SubscriptionRef := ref\<rparr>
    in (if st = ''processed'' then e\<lparr>p_ProcessedAt := Some now\<rparr> else e)"
  have own: "owned_processor_event tok fence y"
    using x(2) same_eventD [OF y(2)] by (simp add: owned_processor_event_def)
  have run: "FinishProcessorEvent f i tok fence st ref now w
      = (Inr (), set_procEvents (AList.update (procKey f i) ?y (procEvents w)) w)"
    using y(1) own by (simp add: FinishProcessorEvent_def GetProcessorEvent_def lookup_row_def bindT_def thenT_def Let_def)
  have p: "?p v" if "same_event v y" for v using x(2) same_eventD [OF y(2)] same_eventD [OF that] by simp
  have row: "same_event (?g v) ?y" if "same_event v y" for v
    using that by (cases v; cases y) (simp add: same_event_def Let_def)
  show ?thesis unfolding s'
    by (rule followsI, rule run, rule sim_put(4) [OF assms(2)], rule event_m.updated [OF rel wk y(1)])
      (simp add: event_key_def, use p row in blast)
qed

lemma follows_ReleaseProcessorLease:
  assumes pg: "pgReleaseProcessorLease k tok fence s = (Inr u, s')" and "sim s w" and "store_ok w"
    and "uuid_text (dbms_of s) tok = Some tok"
  shows "follows s' (ReleaseProcessorLease k tok fence) w"
proof -
  let ?p = "\<lambda>l. l_ProcessingKey l = k \<and> l_ClaimToken l = Some tok \<and> l_FencingToken l = fence"
  let ?g = "\<lambda>l. l\<lparr>l_Status := ''idle'', l_ActiveActionID := None, l_ClaimToken := None, l_LeaseUntil := None\<rparr>"
  let ?rows = "sb_processing_leases (db s)"
  obtain rs where "rs \<noteq> []" "updateT [Text k, Uuid tok] leases_table
     (\<lambda>s l. l_ProcessingKey l = k \<and> l_ClaimToken l = Some (stored_uuid s tok) \<and> l_FencingToken l = fence) (\<lambda>_. ?g) s = (Inr rs, s')"
    using pg by (auto simp: pgReleaseProcessorLease_def ownedT_eq_Inr)
  with updateT_written [OF this(2)] have s': "s' = s\<lparr>db := (db s)\<lparr>sb_processing_leases := map (\<lambda>r. if ?p r then ?g r else r) ?rows\<rparr>,
      statements := Suc (statements s)\<rparr>" and some: "filter ?p ?rows \<noteq> []"
    by (auto simp: leases_table_def assms(4) simp del: filter_False)
  note rel = simD(5) [OF assms(2)] and wk = store_okD(5) [OF assms(3)]
  obtain x where x: "x \<in> set ?rows" "?p x" using some by (auto simp: filter_empty_conv)
  have y: "map_of (leases w) k = Some x" using lease_m.found [OF rel wk x(1)] x(2) by auto
  have run: "ReleaseProcessorLease k tok fence w = (Inr (), set_leases (AList.update k (?g x) (leases w)) w)"
    using y x(2) by (simp add: ReleaseProcessorLease_def lookup_row_def bindT_def thenT_def owned_lease_def)
  have "list_all2 (=) (map (\<lambda>r. if ?p r then ?g r else r) ?rows) (vals (AList.update k (?g x) (leases w)))"
    by (rule lease_m.updated [OF rel wk y]) (use x(2) in auto)
  then show ?thesis unfolding s' by - (rule followsI, rule run, rule sim_put(5) [OF assms(2)], simp add: list_all2_eq)
qed

text \<open>A lease that may be claimed: none, an idle one, or one whose time is over.\<close>

definition claimable_lease :: "processing_lease option \<Rightarrow> gotime \<Rightarrow> bool" where
  "claimable_lease r now \<longleftrightarrow> (case r of None \<Rightarrow> True | Some l \<Rightarrow> l_Status l = ''idle'' \<or> lapsed (l_LeaseUntil l) now)"

lemma claimable_not_held: "claimable_lease r now \<Longrightarrow> \<not> lease_held r i now"
  by (auto simp: claimable_lease_def lease_held_def lapsed_def split: option.splits)

lemma sim_statements [simp]: "sim (s\<lparr>statements := n\<rparr>) w = sim s w"
  by (simp add: sim_def)

lemma upsert_claims:
  assumes up: "upsert_lease k aid until now s = Inr (u, d)" and "sim s w" and "store_ok w"
    and "stored_time s until = until" "stored_time s now = now" "stored_uuid s aid = aid"
    and "claimable_lease (map_of (leases w) k) now"
  shows "d = (db s)\<lparr>sb_processing_leases := vals (AList.update k (stamp_lease k aid (new_uuid s) until
    (case map_of (leases w) k of None \<Rightarrow> zero_processing_lease | Some r \<Rightarrow> r)) (leases w))\<rparr>"
proof -
  note rel = simD(5) [OF assms(2)] and wk = store_okD(5) [OF assms(3)]
  let ?rows = "sb_processing_leases (db s)"
  show ?thesis
  proof (cases "map_of (leases w) k")
    case None
    have "\<forall>l\<in>set ?rows. l_ProcessingKey l \<noteq> k" using lease_m.found [OF rel wk] None by fastforce
    then have "d = (db s)\<lparr>sb_processing_leases := ?rows @ [\<lparr>l_ProcessingKey = k, l_Status = ''running'',
        l_ActiveActionID = Some aid, l_ClaimToken = Some (new_uuid s), l_FencingToken = 1, l_LeaseUntil = Some until\<rparr>]\<rparr>"
      using up assms(4-6)
      by (auto simp: upsert_lease_def Let_def list_ex_iff insert_into_Inr leases_table_def split: if_split_asm)
    moreover have "\<lparr>l_ProcessingKey = k, l_Status = ''running'', l_ActiveActionID = Some aid,
        l_ClaimToken = Some (new_uuid s), l_FencingToken = 1, l_LeaseUntil = Some until\<rparr>
        = stamp_lease k aid (new_uuid s) until zero_processing_lease"
      by (simp add: stamp_lease_def zero_processing_lease_def wrap64_def)
    ultimately show ?thesis using lease_m.inserted [OF rel None refl] None by (simp add: list_all2_eq)
  next
    case (Some l)
    let ?p = "\<lambda>x. l_ProcessingKey x = k \<and> (l_Status x = ''idle'' \<or> lapsed (l_LeaseUntil x) now)"
    let ?g = "\<lambda>x. x\<lparr>l_Status := ''running'', l_ActiveActionID := Some aid, l_ClaimToken := Some (new_uuid s),
      l_FencingToken := l_FencingToken x + 1, l_LeaseUntil := Some until\<rparr>"
    have l: "l \<in> set ?rows" "l_ProcessingKey l = k" "?p l"
      using lease_m.present [OF rel Some] well_keyed_key [OF wk Some] assms(7) Some by (auto simp: claimable_lease_def)
    then have "\<exists>rs. update_set leases_table ?p ?g (db s) = Inr (rs, d)"
      using up assms(4-6) by (auto simp: upsert_lease_def Let_def list_ex_iff bindR_eq_Inr split: if_split_asm)
    then have d: "d = (db s)\<lparr>sb_processing_leases := map (\<lambda>r. if ?p r then ?g r else r) ?rows\<rparr>" and "lease_accepts (?g l)"
      using l by (auto simp: update_set_Inr leases_table_def)
    then have "wrap64 (l_FencingToken l + 1) = l_FencingToken l + 1" by (auto simp: lease_accepts_def wrap64_id)
    then have row: "?g l = stamp_lease k aid (new_uuid s) until l"
      using l(2) by (cases l) (simp add: stamp_lease_def)
    have "list_all2 (=) (map (\<lambda>r. if ?p r then ?g r else r) ?rows) (vals (AList.update k (?g l) (leases w)))"
      by (rule lease_m.updated [OF rel wk Some]) (use l in auto)
    then show ?thesis using Some by (simp add: d row list_all2_eq)
  qed
qed

lemma claim_event_runs:
  fixes lease :: duration
  assumes "map_of (procEvents w) (procKey f i) = Some y" and "ent w = z # es"
    and "p_ProcessingState y \<notin> {''processed'', ''quarantined'', ''manual_review''}"
    and "\<not> lease_held (map_of (leases w) k) (p_ProcessingActionID y) now"
  defines "r \<equiv> stamp_lease k (p_ProcessingActionID y) (uuid_of z) (now + lease)
    (case map_of (leases w) k of None \<Rightarrow> zero_processing_lease | Some r \<Rightarrow> r)"
  shows "discard (ClaimProcessorEvent f i k now lease) w = (Inr (),
    set_procEvents (AList.update (procKey f i) (y\<lparr>p_ProcessingState := ''running'', p_ClaimToken := Some (uuid_of z),
        p_FencingToken := l_FencingToken r, p_LeaseUntil := Some (now + lease)\<rparr>) (procEvents w))
      (set_leases (AList.update k r (leases w)) (w\<lparr>ent := es\<rparr>)))"
  using assms(1-4)
  by (simp add: discard_def bindT_def thenT_def ClaimProcessorEvent_def GetProcessorEvent_def lookup_row_def
      newToken_def newUUID_run Let_def r_def set_table_defs)

lemma same_event_put:
  "same_event x y \<Longrightarrow> same_event (x\<lparr>p_ProcessingState := a, p_ClaimToken := b, p_FencingToken := c, p_LeaseUntil := d\<rparr>)
     (y\<lparr>p_ProcessingState := a, p_ClaimToken := b, p_FencingToken := c, p_LeaseUntil := d\<rparr>)"
  by (cases x; cases y; simp add: same_event_def)

text \<open>The five statements of a claim, with the state after each.\<close>

lemma pgClaimProcessorEvent_steps:
  assumes "discardS (pgClaimProcessorEvent f i k now lease) s = (Inr u, s')"
  obtains e s2 l token rs s4 where
    "e \<in> set (sb_processor_events (db s))" "p_ProcessorFamily e = f" "p_ProcessorEventID e = i"
    "sqlT [Text k, Uuid (p_ProcessingActionID e)] (upsert_lease k (p_ProcessingActionID e) (now + lease) now)
       (s\<lparr>statements := Suc (statements s)\<rparr>) = (Inr (), s2)"
    "l \<in> set (sb_processing_leases (db s2))" "l_ProcessingKey l = k" "l_ClaimToken l = Some token"
    "updateT [Text f, Text i, Uuid token] processor_events_table (\<lambda>_ e. p_ProcessorFamily e = f \<and> p_ProcessorEventID e = i)
       (\<lambda>s e. e\<lparr>p_ProcessingState := ''running'', p_ClaimToken := Some (stored_uuid s token),
          p_FencingToken := l_FencingToken l, p_LeaseUntil := Some (stored_time s (now + lease))\<rparr>)
       (s2\<lparr>statements := Suc (statements s2)\<rparr>) = (Inr rs, s4)"
    "s' = s4\<lparr>statements := Suc (statements s4)\<rparr>"
proof -
  obtain e s1 s2 l ls rs s3 s4 e' token where
    get: "pgGetProcessorEvent f i s = (Inr e, s1)" and
    up: "sqlT [Text k, Uuid (p_ProcessingActionID e)] (upsert_lease k (p_ProcessingActionID e) (now + lease) now) s1 = (Inr (), s2)" and
    sel: "selectT [Text k] leases_table (\<lambda>_ l. l_ProcessingKey l = k) s2 = (Inr (l # ls), s3)" and tok: "l_ClaimToken l = Some token" and
    put: "updateT [Text f, Text i, Uuid token] processor_events_table (\<lambda>_ e. p_ProcessorFamily e = f \<and> p_ProcessorEventID e = i)
       (\<lambda>s e. e\<lparr>p_ProcessingState := ''running'', p_ClaimToken := Some (stored_uuid s token),
          p_FencingToken := l_FencingToken l, p_LeaseUntil := Some (stored_time s (now + lease))\<rparr>) s3 = (Inr rs, s4)" and
    again: "pgGetProcessorEvent f i s4 = (Inr e', s')"
    using assms by (auto simp: discardS_def pgClaimProcessorEvent_def bindT_eq_Inr thenT_eq_Inr queryRowT_eq_Inr execT_eq_Inr
        split: option.splits)
  have e: "s1 = s\<lparr>statements := Suc (statements s)\<rparr>" "e \<in> set (sb_processor_events (db s))"
      "p_ProcessorFamily e = f" "p_ProcessorEventID e = i"
    using get by (auto simp: pgGetProcessorEvent_def scanT_eq_Inr selectT_def sqlT_eq_Inr processor_events_table_def
        dest!: filter_eq_ConsD)
  have l: "s3 = s2\<lparr>statements := Suc (statements s2)\<rparr>" "l \<in> set (sb_processing_leases (db s2))" "l_ProcessingKey l = k"
    using sel by (auto simp: selectT_def sqlT_eq_Inr leases_table_def dest!: filter_eq_ConsD)
  have s': "s' = s4\<lparr>statements := Suc (statements s4)\<rparr>"
    using again by (auto simp: pgGetProcessorEvent_def scanT_eq_Inr selectT_def sqlT_eq_Inr)
  show thesis using that [OF e(2-4) up [unfolded e(1)] l(2,3) tok put [unfolded l(1)] s'] .
qed

lemma follows_ClaimProcessorEvent:
  assumes pg: "discardS (pgClaimProcessorEvent f i k now lease) s = (Inr u, s')" and "sim s w" and "store_ok w"
    and doc: "documented (dbms_of s)" and times: "stored_time s now = now" "stored_time s (now + lease) = now + lease"
    and aid: "\<forall>x\<in>set (vals (procEvents w)). uuid_text (dbms_of s) (p_ProcessingActionID x) = Some (p_ProcessingActionID x)"
    and open_event: "\<forall>y. map_of (procEvents w) (procKey f i) = Some y \<longrightarrow>
      p_ProcessingState y \<notin> {''processed'', ''quarantined'', ''manual_review''}"
    and free: "claimable_lease (map_of (leases w) k) now" and sep: "separate w f i"
  shows "follows s' (discard (ClaimProcessorEvent f i k now lease)) w"
proof (rule pgClaimProcessorEvent_steps [OF pg], goal_cases)
  case (1 e s2 l token rs s4)
  let ?s1 = "s\<lparr>statements := Suc (statements s)\<rparr>" and ?s3 = "s2\<lparr>statements := Suc (statements s2)\<rparr>"
  obtain y where y: "map_of (procEvents w) (procKey f i) = Some y" "same_event e y"
    using event_found [OF assms(2,3) 1(1-3)] by auto
  have "y \<in> set (vals (procEvents w))" using map_of_SomeD [OF y(1)] by (force simp: vals_def)
  then have a: "stored_uuid s (p_ProcessingActionID y) = p_ProcessingActionID y" and ay: "p_ProcessingActionID e = p_ProcessingActionID y"
    using aid same_eventD [OF y(2)] by auto
  obtain z where z: "new_uuid ?s1 = uuid_of z" using doc by (auto simp: documented_def)
  define r where "r = stamp_lease k (p_ProcessingActionID y) (uuid_of z) (now + lease)
    (case map_of (leases w) k of None \<Rightarrow> zero_processing_lease | Some r \<Rightarrow> r)"
  let ?w = "set_leases (AList.update k r (leases w)) (w\<lparr>ent := []\<rparr>)"
  obtain d where d: "upsert_lease k (p_ProcessingActionID y) (now + lease) now ?s1 = Inr ((), d)"
    and s2: "s2 = ?s1\<lparr>db := d, statements := Suc (Suc (statements s))\<rparr>"
    using 1(4) by (auto simp: sqlT_eq_Inr ay)
  have "d = (db ?s1)\<lparr>sb_processing_leases := vals (AList.update k r (leases w))\<rparr>"
    unfolding r_def z [symmetric] by (rule upsert_claims [OF d _ assms(3)]) (use assms(2) times a free in simp_all)
  then have sim2: "sim s2 ?w" unfolding s2 using sim_put(5) [of ?s1 "w\<lparr>ent := []\<rparr>"] assms(2) by simp
  have wkl: "well_keyed l_ProcessingKey (leases ?w)"
    using well_keyed_update [OF store_okD(5) [OF assms(3)], of r k] by (simp add: set_table_defs r_def stamp_lease_def)
  have l: "l = r" using lease_m.found [OF simD(5) [OF sim2] wkl 1(5)] 1(6) by (simp add: set_table_defs)
  then have t: "token = uuid_of z" using 1(7) by (simp add: r_def stamp_lease_def)
  let ?p = "\<lambda>e. p_ProcessorFamily e = f \<and> p_ProcessorEventID e = i"
  let ?g = "\<lambda>e. e\<lparr>p_ProcessingState := ''running'', p_ClaimToken := Some (uuid_of z), p_FencingToken := l_FencingToken r,
      p_LeaseUntil := Some (now + lease)\<rparr>"
  have s4: "s4 = ?s3\<lparr>db := (db ?s3)\<lparr>sb_processor_events := map (\<lambda>v. if ?p v then ?g v else v) (sb_processor_events (db ?s3))\<rparr>,
      statements := Suc (statements ?s3)\<rparr>"
    using updateT_written [OF 1(8)] doc times by (simp add: processor_events_table_def l t s2 documented_def)
  have sim4: "sim s4 (set_procEvents (AList.update (procKey f i) (?g y) (procEvents w)) ?w)"
    unfolding s4
  proof (rule sim_put(4))
    show "sim ?s3 ?w" using sim2 by simp
    have rel: "list_all2 same_event (sb_processor_events (db ?s3)) (vals (procEvents w))"
      using simD(4) [OF sim2] by (simp add: set_table_defs)
    show "list_all2 same_event (map (\<lambda>v. if ?p v then ?g v else v) (sb_processor_events (db ?s3)))
        (vals (AList.update (procKey f i) (?g y) (procEvents w)))"
      by (rule event_m.updated [OF rel store_okD(4) [OF assms(3)] y(1)])
        (simp add: event_key_def, use 1(2,3) same_eventD [OF y(2)] in \<open>auto simp: same_event_put dest!: same_eventD\<close>)
  qed
  show ?thesis unfolding follows_def 1(9)
    by (intro exI conjI, rule claim_event_runs [where w = "w\<lparr>ent := [z]\<rparr>" and es = "[]"])
      (use y(1) open_event claimable_not_held [OF free] sim4 in \<open>simp_all add: r_def\<close>)
qed

section \<open>Scheduled actions\<close>

definition fresh_action :: "scheduled_action \<Rightarrow> bool" where
  "fresh_action a \<longleftrightarrow> a_ClaimToken a = None \<and> a_FencingToken a = 0 \<and> a_LeaseUntil a = None \<and> a_LastErrorClass a = None"

lemma sim_actions: "sim s w \<Longrightarrow> sb_scheduled_actions (db s) = vals (actions w)"
  by (simp add: sim_def)

lemma action_row: "store_ok w \<Longrightarrow> a \<in> set (vals (actions w)) \<longleftrightarrow> map_of (actions w) (a_ActionID a) = Some a"
  using well_keyed_values [OF store_okD(6)] by blast

lemma renewable_open:
  assumes "sim s w" and "store_ok w"
  shows "renewable (db s) a = charging_open w a"
proof -
  note rel = simD(2) [OF assms(1)] and wk = store_okD(2) [OF assms(2)]
  have "(\<exists>x\<in>set (sb_subscriptions (db s)). s_SubscriptionRef x = a_SubscriptionRef a \<and> \<not> s_AutomaticChargingBlocked x)
    \<longleftrightarrow> (\<exists>y. map_of (subs w) (a_SubscriptionRef a) = Some y \<and> \<not> s_AutomaticChargingBlocked y)" (is "?l \<longleftrightarrow> ?r")
  proof
    show ?r if ?l using that sub_m.found [OF rel wk] by (metis same_subD)
  next
    assume ?r
    then obtain y where y: "map_of (subs w) (a_SubscriptionRef a) = Some y" "\<not> s_AutomaticChargingBlocked y" by auto
    obtain x where "x \<in> set (sb_subscriptions (db s))" "same_sub x y" using sub_m.present [OF rel y(1)] by auto
    then show ?l using y(2) well_keyed_key [OF wk y(1)] by (auto dest!: same_subD)
  qed
  then show ?thesis by (auto simp: renewable_def charging_open_def list_ex_iff split: option.splits)
qed

lemma follows_InsertAction:
  assumes "pgInsertAction a s = (Inr u, s')" and "sim s w" and "store_ok w" and "fresh_action a"
    and "uuid_text (dbms_of s) (a_ActionID a) = Some (a_ActionID a)"
    and "stored_time s (a_TargetAt a) = a_TargetAt a" "stored_time s (a_DueAt a) = a_DueAt a"
  shows "follows s' (InsertAction a) w"
proof -
  have a: "\<lparr>a_ActionID = a_ActionID a, a_ActionKey = a_ActionKey a,
        a_SubscriptionRef = a_SubscriptionRef a, a_ActionType = a_ActionType a,
        a_TargetAt = a_TargetAt a, a_DueAt = a_DueAt a, a_Status = a_Status a,
        a_ClaimToken = None, a_FencingToken = 0, a_LeaseUntil = None, a_LastErrorClass = None\<rparr> = a"
    using assms(4) by (cases a) (simp add: fresh_action_def)
  have free: "\<forall>x\<in>set (vals (actions w)). \<not> action_clash x a"
    and s': "s' = s\<lparr>db := (db s)\<lparr>sb_scheduled_actions := sb_scheduled_actions (db s) @ [a]\<rparr>, statements := Suc (statements s)\<rparr>"
    using assms(1,5-7) by (auto simp: pgInsertAction_def statement_Inr scheduled_actions_table_def a sim_actions [OF assms(2)])
  have none: "map_of (actions w) (a_ActionID a) = None"
    by (rule action_m.missing [OF simD(6) [OF assms(2)] store_okD(6) [OF assms(3)]])
      (use free in \<open>auto simp: action_clash_def sim_actions [OF assms(2)]\<close>)
  have run: "InsertAction a w = (Inr (), set_actions (AList.update (a_ActionID a) a (actions w)) w)"
    using none free by (auto simp: InsertAction_def list_ex_iff action_clash_def)
  have "list_all2 (=) (sb_scheduled_actions (db s) @ [a]) (vals (AList.update (a_ActionID a) a (actions w)))"
    by (rule action_m.inserted [OF simD(6) [OF assms(2)] none refl])
  then show ?thesis unfolding s' by - (rule followsI, rule run, rule sim_put(6) [OF assms(2)], simp add: list_all2_eq)
qed

text \<open>An update of the one action with an identifier.\<close>

lemma sim_update_action:
  assumes "sim s w" and "store_ok w" and "map_of (actions w) i = Some a"
    and "\<And>x. p x \<Longrightarrow> a_ActionID x = i" and "p a"
  shows "sim (s\<lparr>db := (db s)\<lparr>sb_scheduled_actions := map (\<lambda>r. if p r then g r else r) (sb_scheduled_actions (db s))\<rparr>,
    statements := n\<rparr>) (set_actions (AList.update i (g a) (actions w)) w)"
proof -
  have "list_all2 (=) (map (\<lambda>r. if p r then g r else r) (sb_scheduled_actions (db s))) (vals (AList.update i (g a) (actions w)))"
    by (rule action_m.updated [OF simD(6) [OF assms(1)] store_okD(6) [OF assms(2)] assms(3)]) (use assms(4,5) in auto)
  then show ?thesis by (intro sim_put(6) assms(1)) (simp add: list_all2_eq)
qed

text \<open>An update of actions that wrote a row.\<close>

lemma action_written:
  assumes "updateT ps scheduled_actions_table p g s = (Inr rs, s')" and "rs \<noteq> []" and "sim s w" and "store_ok w"
  obtains a where "map_of (actions w) (a_ActionID a) = Some a" "p s a" "action_accepts (g s a)"
    "s' = s\<lparr>db := (db s)\<lparr>sb_scheduled_actions := map (\<lambda>r. if p s r then g s r else r) (sb_scheduled_actions (db s))\<rparr>,
       statements := Suc (statements s)\<rparr>"
proof -
  have w: "s' = s\<lparr>db := (db s)\<lparr>sb_scheduled_actions := map (\<lambda>r. if p s r then g s r else r) (sb_scheduled_actions (db s))\<rparr>,
       statements := Suc (statements s)\<rparr>" "rs = map (g s) (filter (p s) (vals (actions w)))"
    "\<forall>x\<in>set (vals (actions w)). p s x \<longrightarrow> action_accepts (g s x)"
    using updateT_written [OF assms(1)] by (auto simp: scheduled_actions_table_def sim_actions [OF assms(3)])
  then obtain a where "a \<in> set (vals (actions w))" "p s a" using assms(2) by (auto simp: filter_empty_conv)
  then show thesis using that [of a] w action_row [OF assms(4)] by blast
qed

lemma follows_ClaimAction:
  assumes pg: "discardS (pgClaimAction i now lease) s = (Inr u, s')" and "sim s w" and "store_ok w"
    and "documented (dbms_of s)" "uuid_text (dbms_of s) i = Some i"
    and "stored_time s now = now" "stored_time s (now + lease) = now + lease"
    and edge: "\<forall>a\<in>set (vals (actions w)). a_LeaseUntil a \<noteq> Some now"
  shows "follows s' (discard (ClaimAction i now lease)) w"
proof -
  obtain r rs where up: "updateT [Uuid i] scheduled_actions_table
     (\<lambda>s a. a_ActionID a = stored_uuid s i
        \<and> (a_Status a = ''pending'' \<or> a_Status a = ''uncertain''
           \<or> a_Status a = ''running'' \<and> lease_free_at (a_LeaseUntil a) (stored_time s now))
        \<and> renewable (db s) a)
     (\<lambda>s a. a\<lparr>a_Status := ''running'', a_ClaimToken := Some (new_uuid s), a_FencingToken := a_FencingToken a + 1,
        a_LeaseUntil := Some (stored_time s (now + lease))\<rparr>) s = (Inr (r # rs), s')"
    using pg by (auto simp: discardS_def pgClaimAction_def bindT_eq_Inr scanT_eq_Inr)
  obtain z where z: "new_uuid s = uuid_of z" using assms(4) by (auto simp: documented_def)
  show ?thesis using up list.distinct(1) [symmetric] assms(2,3)
  proof (rule action_written, goal_cases)
    case (1 a)
    have i: "a_ActionID a = i" and open_: "charging_open w a" and st: "a_Status a = ''pending'' \<or> a_Status a = ''uncertain''
         \<or> a_Status a = ''running'' \<and> lease_free_at (a_LeaseUntil a) now"
      using 1(2) assms(5,6) renewable_open [OF assms(2,3)] by auto
    have m: "map_of (actions w) i = Some a" using 1(1) i by simp
    then have "a \<in> set (vals (actions w))" using action_row [OF assms(3)] i by simp
    then have claim: "action_claimable a now"
      using st edge by (auto simp: action_claimable_def lease_live_def lease_free_at_def lapsed_def split: option.splits)
    have "wrap64 (a_FencingToken a + 1) = a_FencingToken a + 1" using 1(3) by (auto simp: action_accepts_def wrap64_id)
    then have stamp: "a\<lparr>a_Status := ''running'', a_ClaimToken := Some (new_uuid s), a_FencingToken := a_FencingToken a + 1,
        a_LeaseUntil := Some (stored_time s (now + lease))\<rparr> = stamp_action (uuid_of z) (now + lease) a"
      using z assms(7) by (simp add: stamp_action_def)
    have run: "discard (ClaimAction i now lease) (w\<lparr>ent := [z]\<rparr>) = (Inr (), set_actions (AList.update i
        (stamp_action (uuid_of z) (now + lease) a) (actions w)) (w\<lparr>ent := []\<rparr>))"
      using m claim open_ i by (simp add: discard_def bindT_def thenT_def ClaimAction_def lookup_row_def newToken_def
          newUUID_run Let_def charging_open_def stamp_action_def set_table_defs split: option.splits)
    have "sim s' (set_actions (AList.update i (stamp_action (uuid_of z) (now + lease) a) (actions (w\<lparr>ent := []\<rparr>))) (w\<lparr>ent := []\<rparr>))"
      unfolding 1(4) stamp [symmetric]
      by (rule sim_update_action) (use assms(2,3) 1(2) m assms(5) in \<open>simp_all add: store_ok_def\<close>)
    with run show ?case unfolding follows_def by auto
  qed
qed

lemma follows_ClaimDueAction:
  assumes pg: "discardS (pgClaimDueAction now lease st ks) s = (Inr u, s')" and "sim s w" and "store_ok w"
    and "documented (dbms_of s)" and ids: "\<forall>a\<in>set (vals (actions w)). uuid_text (dbms_of s) (a_ActionID a) = Some (a_ActionID a)"
    and times: "stored_time s now = now" "stored_time s (now + lease) = now + lease" and "locked s = []"
    and edge: "\<forall>a\<in>set (vals (actions w)). a_LeaseUntil a \<noteq> Some now"
    and due: "\<forall>a\<in>set (vals (actions w)). a_Status a = ''running'' \<longrightarrow> a_DueAt a \<le> now"
    and kinds: "ks = [] \<or> (\<exists>k. ks = [k] \<and> k \<noteq> [])"
  shows "follows s' (discard (ClaimDueAction now lease st ks)) w"
proof -
  let ?k = "case ks of [] \<Rightarrow> [] | k # _ \<Rightarrow> k"
  obtain a s1 where lock: "pgLockDueAction now st ks s = (Inr a, s1)" and claim: "discardS (pgClaimAction (a_ActionID a) now lease) s1 = (Inr u, s')"
    using pg by (auto simp: discardS_def pgClaimDueAction_def bindT_eq_Inr)
  have s1: "s1 = s\<lparr>statements := Suc (statements s)\<rparr>"
    and a: "\<exists>rest. take 1 (sort_key a_DueAt (filter (action_eligible s now st ?k) (vals (actions w)))) = a # rest"
    using lock times(1) by (auto simp: pgLockDueAction_def Let_def scanT_eq_Inr sqlT_eq_Inr first_unlocked_def assms(8)
        sim_actions [OF assms(2)])
  have "action_eligible s now st ?k x = (actionDue w x now st \<and> kindAllowed ks (a_ActionType x))" if "x \<in> set (vals (actions w))" for x
    using that edge due kinds renewable_open [OF assms(2,3), of x]
    by (auto simp: action_eligible_def actionDue_def kindAllowed_def lease_free_at_def lapsed_def lease_live_def not_less
        order.order_iff_strict split: option.splits)
  then have "filter (action_eligible s now st ?k) (vals (actions w))
      = filter (\<lambda>x. actionDue w x now st \<and> kindAllowed ks (a_ActionType x)) (vals (actions w))"
    by (rule filter_cong [OF refl])
  then have first: "earliest a_DueAt None (filter (\<lambda>x. actionDue w x now st \<and> kindAllowed ks (a_ActionType x)) (vals (actions w))) = Some a"
    using a by (auto simp: earliest_sorted split: list.splits)
  then have mem: "a \<in> set (vals (actions w))"
    by (auto simp: earliest_sorted split: list.splits) (metis filter_is_subset in_mono list.set_intros(1) set_sort)
  have "follows s' (discard (ClaimAction (a_ActionID a) now lease)) w"
    by (rule follows_ClaimAction [OF claim]) (use assms(2-4) ids mem times edge in \<open>simp_all add: s1\<close>)
  moreover have "actionDue (w\<lparr>ent := es\<rparr>) x now st = actionDue w x now st" for es x
    by (simp add: actionDue_def charging_open_def cong: option.case_cong)
  then have "discard (ClaimDueAction now lease st ks) (w\<lparr>ent := es\<rparr>) = discard (ClaimAction (a_ActionID a) now lease) (w\<lparr>ent := es\<rparr>)" for es
    using first by (simp add: discard_def bindT_def ClaimDueAction_def LockDueAction_def)
  ultimately show ?thesis by (simp add: follows_def)
qed

text \<open>The columns an action's end writes, in memory.\<close>

lemma ended_in_memory:
  "map_option (stored_time s) due = due \<Longrightarrow>
     ended_action st due ec s a = (case due of None \<Rightarrow> a\<lparr>a_Status := st, a_LastErrorClass := ec\<rparr>
       | Some d \<Rightarrow> a\<lparr>a_Status := st, a_LastErrorClass := ec, a_DueAt := d\<rparr>)\<lparr>a_ClaimToken := None, a_LeaseUntil := None\<rparr>"
  by (cases due; cases a) (simp_all add: ended_action_def)

lemma follows_FinishAction:
  assumes pg: "pgFinishAction i tok fence st due ec s = (Inr u, s')" and "sim s w" and "store_ok w"
    and ids: "uuid_text (dbms_of s) i = Some i" "uuid_text (dbms_of s) tok = Some tok"
    and due: "map_option (stored_time s) due = due"
  shows "follows s' (FinishAction i tok fence st due ec) w"
proof -
  obtain rs where rs: "rs \<noteq> []" and up: "updateT ([Uuid i, Uuid tok, Text st] @ nullable Text ec) scheduled_actions_table
      (action_owner i tok fence) (ended_action st due ec) s = (Inr rs, s')"
    using pg by (auto simp: pgFinishAction_def ownedT_eq_Inr)
  show ?thesis using up rs assms(2,3)
  proof (rule action_written, goal_cases)
    case (1 a)
    have i: "a_ActionID a = i" and own: "owned_action tok fence a"
      using 1(2) ids by (auto simp: action_owner_def owned_action_def)
    have m: "map_of (actions w) i = Some a" using 1(1) i by simp
    have "st \<noteq> ''running''" using 1(3) by (auto simp: action_accepts_def ended_action_def)
    then have run: "FinishAction i tok fence st due ec w = (Inr (), set_actions (AList.update i (ended_action st due ec s a) (actions w)) w)"
      using m own by (simp add: FinishAction_def lookup_row_def bindT_def thenT_def Let_def ended_in_memory [OF due] split: option.splits)
    have "sim s' (set_actions (AList.update i (ended_action st due ec s a) (actions w)) w)"
      unfolding 1(4) by (rule sim_update_action [OF assms(2,3) m]) (use 1(2) ids in \<open>auto simp: action_owner_def\<close>)
    with run show ?case by (rule followsI)
  qed
qed

lemma follows_ForceFinishAction:
  assumes pg: "pgForceFinishAction i st due ec s = (Inr u, s')" and "sim s w" and "store_ok w"
    and ids: "uuid_text (dbms_of s) i = Some i" and due: "map_option (stored_time s) due = due"
    and known: "map_of (actions w) i = Some a"
  shows "follows s' (ForceFinishAction i st due ec) w"
proof -
  let ?p = "\<lambda>a. a_ActionID a = i \<and> a_Status a \<in> {''pending'', ''running'', ''uncertain''}"
  obtain rs where up: "updateT ([Uuid i, Text st] @ nullable Text ec) scheduled_actions_table
     (\<lambda>s a. a_ActionID a = stored_uuid s i \<and> a_Status a \<in> {''pending'', ''running'', ''uncertain''})
     (ended_action st due ec) s = (Inr rs, s')"
    using pg by (auto simp: pgForceFinishAction_def execT_eq_Inr)
  have s': "s' = s\<lparr>db := (db s)\<lparr>sb_scheduled_actions := map (\<lambda>r. if ?p r then ended_action st due ec s r else r)
      (sb_scheduled_actions (db s))\<rparr>, statements := Suc (statements s)\<rparr>"
    using updateT_written [OF up] ids by (simp add: scheduled_actions_table_def)
  have i: "a_ActionID a = i" using well_keyed_key [OF store_okD(6) [OF assms(3)] known] .
  show ?thesis
  proof (cases "?p a")
    case True
    have run: "ForceFinishAction i st due ec w = (Inr (), set_actions (AList.update i (ended_action st due ec s a) (actions w)) w)"
      using known True by (auto simp: ForceFinishAction_def lookup_row_def bindT_def Let_def ended_in_memory [OF due] split: option.splits)
    have "sim s' (set_actions (AList.update i (ended_action st due ec s a) (actions w)) w)"
      unfolding s' by (rule sim_update_action [OF assms(2,3) known]) (use True in auto)
    with run show ?thesis by (rule followsI)
  next
    case False
    have run: "ForceFinishAction i st due ec w = (Inr (), w)"
      using known False i by (simp add: ForceFinishAction_def lookup_row_def bindT_def)
    have "\<forall>r\<in>set (vals (actions w)). \<not> ?p r"
      using False known action_row [OF assms(3)] by auto
    then have "map (\<lambda>r. if ?p r then ended_action st due ec s r else r) (sb_scheduled_actions (db s)) = sb_scheduled_actions (db s)"
      by (intro map_idI) (auto simp: sim_actions [OF assms(2)])
    with run show ?thesis unfolding s' by (intro followsI [of _ w w]) (use assms(2) in \<open>simp_all add: sim_def\<close>)
  qed
qed

lemma follows_CancelActions:
  assumes "pgCancelActionsForSubscription ref k s = (Inr u, s')" and "sim s w"
  shows "follows s' (CancelActionsForSubscription ref k) w"
proof -
  let ?g = "\<lambda>a. a\<lparr>a_Status := ''canceled'', a_ClaimToken := None, a_LeaseUntil := None\<rparr>"
  obtain rs where up: "updateT [Text ref, Text k] scheduled_actions_table
     (\<lambda>_ a. a_SubscriptionRef a = ref \<and> a_ActionKey a \<noteq> k \<and> (a_Status a = ''pending'' \<or> a_Status a = ''uncertain''))
     (\<lambda>_. ?g) s = (Inr rs, s')"
    using assms(1) by (auto simp: pgCancelActionsForSubscription_def execT_eq_Inr)
  have s': "s' = s\<lparr>db := (db s)\<lparr>sb_scheduled_actions := map (\<lambda>a. if cancelable ref k a then ?g a else a)
      (sb_scheduled_actions (db s))\<rparr>, statements := Suc (statements s)\<rparr>"
    using updateT_written [OF up] by (simp add: scheduled_actions_table_def cancelable_def)
  have "list_all2 (=) (map (\<lambda>a. if cancelable ref k a then ?g a else a) (sb_scheduled_actions (db s)))
      (vals (map (\<lambda>(i, a). (i, if cancelable ref k a then ?g a else a)) (actions w)))"
    by (rule action_m.rewritten [OF simD(6) [OF assms(2)]]) auto
  then have "sim s' (set_actions (map (\<lambda>(i, a). (i, if cancelable ref k a then ?g a else a)) (actions w)) w)"
    unfolding s' by (intro sim_put(6) assms(2)) (simp add: list_all2_eq)
  then show ?thesis by (rule followsI [rotated]) (simp add: CancelActionsForSubscription_def)
qed

section \<open>Charge attempts\<close>

definition fresh_attempt :: "charge_attempt \<Rightarrow> bool" where
  "fresh_attempt a \<longleftrightarrow>
     t_ShopperInteraction a = ''ContAuth'' \<and> t_RecurringProcessingModel a = ''Subscription''
     \<and> t_ProcessorPaymentID a = None \<and> t_ClaimToken a = None \<and> t_FencingToken a = 0 \<and> t_LeaseUntil a = None
     \<and> t_FirstSubmittedAt a = None \<and> t_ResolutionDeadline a = None \<and> t_RefusalReasonCode a = None \<and> t_CompletedAt a = None"

lemma truncate_extend: "charge_attempt.truncate (charge_attempt.extend a m) = a"
  by (cases a) (simp add: charge_attempt.defs)

lemma same_attemptD:
  "same_attempt x y \<Longrightarrow> t_AttemptID x = t_AttemptID y \<and> t_AttemptReference x = t_AttemptReference y
     \<and> t_IdempotencyKey x = t_IdempotencyKey y \<and> t_SubscriptionRef x = t_SubscriptionRef y
     \<and> t_PeriodStart x = t_PeriodStart y \<and> t_AttemptNumber x = t_AttemptNumber y"
  by (auto simp: same_attempt_def charge_attempt.defs)

lemma follows_InsertAttempt:
  assumes "pgInsertAttempt a s = (Inr u, s')" and "sim s w" and "store_ok w" and "fresh_attempt a"
    and "uuid_text (dbms_of s) (t_AttemptID a) = Some (t_AttemptID a)" "uuid_text (dbms_of s) (t_ActionID a) = Some (t_ActionID a)"
    and "stored_time s (t_PeriodStart a) = t_PeriodStart a" "stored_time s (t_PeriodEnd a) = t_PeriodEnd a"
  shows "follows s' (InsertAttempt a) w"
proof -
  let ?r = "charge_attempt.extend a \<lparr>t_CreatedAt = tx_now s\<rparr>"
  have a: "a\<lparr>t_ShopperInteraction := ''ContAuth'', t_RecurringProcessingModel := ''Subscription'',
      t_ProcessorPaymentID := None, t_ClaimToken := None, t_FencingToken := 0, t_LeaseUntil := None,
      t_FirstSubmittedAt := None, t_ResolutionDeadline := None, t_RefusalReasonCode := None, t_CompletedAt := None\<rparr> = a"
    using assms(4) by (cases a) (simp add: fresh_attempt_def)
  have free: "\<forall>x\<in>set (sb_charge_attempts (db s)). \<not> charge_clash x ?r"
    and s': "s' = s\<lparr>db := (db s)\<lparr>sb_charge_attempts := sb_charge_attempts (db s) @ [?r]\<rparr>, statements := Suc (statements s)\<rparr>"
    using assms(1,5-8) by (auto simp: pgInsertAttempt_def statement_Inr charge_attempts_table_def a)
  note rel = simD(7) [OF assms(2)] and wk = store_okD(7) [OF assms(3)]
  have same: "same_attempt ?r a" by (simp add: same_attempt_def truncate_extend)
  have none: "map_of (attempts w) (t_AttemptID a) = None"
    by (rule attempt_m.missing [OF rel wk]) (use free same_attemptD [OF same] in \<open>auto simp: charge_clash_def\<close>)
  have "\<not> attempt_clash a y" if y: "y \<in> set (vals (attempts w))" for y
  proof -
    obtain x where x: "x \<in> set (sb_charge_attempts (db s))" "same_attempt x y" using related_right [OF rel y] by auto
    with free have "\<not> charge_clash x ?r" by blast
    then show ?thesis using same_attemptD [OF x(2)] same_attemptD [OF same] by (auto simp: charge_clash_def attempt_clash_def)
  qed
  then have run: "InsertAttempt a w = (Inr (), set_attempts (AList.update (t_AttemptID a) a (attempts w)) w)"
    using none by (auto simp: InsertAttempt_def list_ex_iff)
  show ?thesis unfolding s' by (rule followsI, rule run) (intro sim_put(7) assms(2) attempt_m.inserted rel none same)
qed

text \<open>The columns of an attempt that an update leaves alone, beside those it is bound to.\<close>

definition unwritten :: "charge_attempt \<Rightarrow> string \<times> string \<times> string \<times> string \<times> string" where
  "unwritten a = (t_ProviderEndpoint a, t_ProviderAPIVersion a, t_MerchantAccount a, t_ShopperInteraction a,
     t_RecurringProcessingModel a)"

definition attempt_times :: "charge_attempt \<Rightarrow> gotime list" where
  "attempt_times a = concat (map (\<lambda>t. case t of None \<Rightarrow> [] | Some t \<Rightarrow> [t])
     [t_LeaseUntil a, t_FirstSubmittedAt a, t_ResolutionDeadline a, t_CompletedAt a])"

lemma follows_UpdateAttempt:
  assumes "pgUpdateAttempt a s = (Inr u, s')" and "sim s w" and "store_ok w"
    and "pinned w (PinAttempt (t_AttemptID a) (bind_attempt a))"
    and "map_option unwritten (map_of (attempts w) (t_AttemptID a)) = Some (unwritten a)"
    and "uuid_text (dbms_of s) (t_AttemptID a) = Some (t_AttemptID a)"
    and "\<forall>t. t_ClaimToken a = Some t \<longrightarrow> uuid_text (dbms_of s) t = Some t"
    and "list_all (\<lambda>t. stored_time s t = t) (attempt_times a)"
  shows "follows s' (UpdateAttempt a) w"
proof -
  obtain y where y: "map_of (attempts w) (t_AttemptID a) = Some y" "bind_attempt y = bind_attempt a" "unwritten y = unwritten a"
    using assms(4,5) by (auto simp: pinned_def)
  note rel = simD(7) [OF assms(2)] and wk = store_okD(7) [OF assms(3)]
  have key: "t_AttemptID y = t_AttemptID a" using well_keyed_key [OF wk y(1)] .
  let ?g = "\<lambda>t. t\<lparr>t_Status := t_Status a, t_ProcessorPaymentID := t_ProcessorPaymentID a,
        t_ClaimToken := t_ClaimToken a, t_FencingToken := t_FencingToken a, t_LeaseUntil := t_LeaseUntil a,
        t_FirstSubmittedAt := t_FirstSubmittedAt a, t_ResolutionDeadline := t_ResolutionDeadline a,
        t_RefusalReasonCode := t_RefusalReasonCode a, t_CompletedAt := t_CompletedAt a\<rparr>"
  obtain rs where up: "updateT ([Uuid (t_AttemptID a), Text (t_Status a)] @ nullable Text (t_ProcessorPaymentID a)
      @ nullable Uuid (t_ClaimToken a) @ nullable Text (t_RefusalReasonCode a))
     charge_attempts_table (\<lambda>s t. t_AttemptID t = stored_uuid s (t_AttemptID a))
     (\<lambda>s t. t\<lparr>t_Status := t_Status a, t_ProcessorPaymentID := t_ProcessorPaymentID a,
        t_ClaimToken := map_option (stored_uuid s) (t_ClaimToken a), t_FencingToken := t_FencingToken a,
        t_LeaseUntil := map_option (stored_time s) (t_LeaseUntil a),
        t_FirstSubmittedAt := map_option (stored_time s) (t_FirstSubmittedAt a),
        t_ResolutionDeadline := map_option (stored_time s) (t_ResolutionDeadline a),
        t_RefusalReasonCode := t_RefusalReasonCode a,
        t_CompletedAt := map_option (stored_time s) (t_CompletedAt a)\<rparr>) s = (Inr rs, s')"
    using assms(1) by (auto simp: pgUpdateAttempt_def execT_eq_Inr)
  have exact: "map_option (stored_uuid s) (t_ClaimToken a) = t_ClaimToken a" "map_option (stored_time s) (t_LeaseUntil a) = t_LeaseUntil a"
    "map_option (stored_time s) (t_FirstSubmittedAt a) = t_FirstSubmittedAt a"
    "map_option (stored_time s) (t_ResolutionDeadline a) = t_ResolutionDeadline a"
    "map_option (stored_time s) (t_CompletedAt a) = t_CompletedAt a"
    using assms(7,8) by (auto simp: attempt_times_def split: option.splits; cases "t_ClaimToken a"; simp)+
  have s': "s' = s\<lparr>db := (db s)\<lparr>sb_charge_attempts := map (\<lambda>t. if t_AttemptID t = t_AttemptID a then ?g t else t)
      (sb_charge_attempts (db s))\<rparr>, statements := Suc (statements s)\<rparr>"
    using updateT_written [OF up] assms(6) by (simp add: charge_attempts_table_def exact)
  have run: "UpdateAttempt a w = (Inr (), set_attempts (AList.update (t_AttemptID a) a (attempts w)) w)"
    using y by (simp add: UpdateAttempt_def)
  have row: "same_attempt (?g x) a" if "same_attempt x y" for x
    using that y(2,3) key by (cases a; cases y) (auto simp: same_attempt_def charge_attempt.defs bind_attempt_def unwritten_def)
  show ?thesis unfolding s'
    by (rule followsI, rule run, rule sim_put(7) [OF assms(2)], rule attempt_m.updated [OF rel wk y(1)])
      (auto simp: key intro: row dest: same_attemptD)
qed

end
