(* ===== verification/Stores.thy ===== *)
theory Stores
  imports PgAgrees
begin

text \<open>
  The two stores compared as a whole: the conditions under which an operation means the same on both, and
  the refinement theorem over every operation that writes.
\<close>

section \<open>When an operation means the same on both stores\<close>

definition exact_times :: "session \<Rightarrow> gotime list \<Rightarrow> bool" where
  "exact_times s ts \<longleftrightarrow> list_all (\<lambda>t. stored_time s t = t) ts"

definition exact_uuids :: "session \<Rightarrow> string list \<Rightarrow> bool" where
  "exact_uuids s is \<longleftrightarrow> list_all (\<lambda>i. uuid_text (dbms_of s) i = Some i) is"

text \<open>
  The operation's times, UUIDs and documents are ones the server stores as they are, a row is inserted as
  new, an update writes back a row that was loaded, with what identifies it unchanged, and the cases in which
  the two stores decide differently are excluded: a lease that ends at this very instant, a live lease of
  another owner or a settled event (\<^verbatim>\<open>ClaimProcessorEvent\<close>), an action missing or due only later
  (\<^verbatim>\<open>ForceFinishAction\<close>, \<^verbatim>\<open>ClaimDueAction\<close>), a locked row.  Claiming an attempt with its action needs no
  condition, because it never succeeds on PostgreSQL.
\<close>

fun agrees :: "store_op \<Rightarrow> session \<Rightarrow> world \<Rightarrow> bool" where
  "agrees (InsertCheckoutOp c) s w =
     (c_SubscriptionRef c = None \<and> c_ProcessorCheckoutID c = None \<and> exact_times s [c_ExpiresAt c])"
| "agrees (UpdateCheckoutOp c) s w =
     (map_option bind_checkout (map_of (checkouts w) (c_CheckoutID c)) = Some (bind_checkout c)
      \<and> exact_times s [c_ExpiresAt c])"
| "agrees (ExpireCheckoutsOp now) s w = exact_times s [now]"
| "agrees (InsertSubscriptionOp r) s w = exact_times s (sub_times r)"
| "agrees (UpdateSubscriptionOp r) s w =
     (map_option bind_sub (map_of (subs w) (s_SubscriptionRef r)) = Some (bind_sub r) \<and> exact_times s (sub_times r))"
| "agrees (InsertOutboundOp e) s w = (fresh_outbound e \<and> exact_times s (case o_NextAttemptAt e of None \<Rightarrow> [] | Some t \<Rightarrow> [t]))"
| "agrees (ClaimOutboundOp now lease) s w =
     (exact_times s [now, now + lease] \<and> locked s = [] \<and> (\<forall>e\<in>set (vals (outbound w)). o_LeaseUntil e \<noteq> Some now))"
| "agrees (CompleteOutboundOp i t n now) s w = (exact_uuids s [t] \<and> exact_times s [now])"
| "agrees (RetryOutboundOp i t n nxt ec) s w = (exact_uuids s [t] \<and> exact_times s [nxt])"
| "agrees (DeadLetterOutboundOp i t n now ec) s w = (exact_uuids s [t] \<and> exact_times s [now])"
| "agrees (AbandonOutboundOp i r a now) s w = exact_times s [now]"
| "agrees (RequeueOutboundOp i r a now) s w = exact_times s [now]"
| "agrees (InsertEventOp e) s w =
     (fresh_event e \<and> exact_uuids s [p_ProcessingActionID e]
      \<and> jsonb_fields (dbms_of s) (p_NormalizedFields e) = Some (p_NormalizedFields e)
      \<and> (\<forall>x\<in>set (vals (procEvents w)). p_ProcessingActionID x = p_ProcessingActionID e \<longrightarrow> event_key x = event_key e)
      \<and> separate w (p_ProcessorFamily e) (p_ProcessorEventID e))"
| "agrees (ClaimEventOp f i k now lease) s w =
     (exact_times s [now, now + lease] \<and> exact_uuids s (map p_ProcessingActionID (vals (procEvents w)))
      \<and> (\<forall>y. map_of (procEvents w) (procKey f i) = Some y \<longrightarrow>
           p_ProcessingState y \<notin> {''processed'', ''quarantined'', ''manual_review''})
      \<and> claimable_lease (map_of (leases w) k) now \<and> separate w f i)"
| "agrees (FinishEventOp f i t n st r now) s w = (exact_uuids s [t] \<and> exact_times s [now] \<and> separate w f i)"
| "agrees (ReleaseLeaseOp k t n) s w = exact_uuids s [t]"
| "agrees (InsertActionOp a) s w = (fresh_action a \<and> exact_uuids s [a_ActionID a] \<and> exact_times s [a_TargetAt a, a_DueAt a])"
| "agrees (ClaimActionOp i now lease) s w =
     (exact_uuids s [i] \<and> exact_times s [now, now + lease] \<and> (\<forall>a\<in>set (vals (actions w)). a_LeaseUntil a \<noteq> Some now))"
| "agrees (ClaimDueActionOp now lease st ks) s w =
     (exact_uuids s (map a_ActionID (vals (actions w))) \<and> exact_times s [now, now + lease] \<and> locked s = []
      \<and> (\<forall>a\<in>set (vals (actions w)). a_LeaseUntil a \<noteq> Some now \<and> (a_Status a = ''running'' \<longrightarrow> a_DueAt a \<le> now))
      \<and> (ks = [] \<or> (\<exists>k. ks = [k] \<and> k \<noteq> [])))"
| "agrees (FinishActionOp i t n st due ec) s w =
     (exact_uuids s [i, t] \<and> exact_times s (case due of None \<Rightarrow> [] | Some d \<Rightarrow> [d]))"
| "agrees (ForceFinishActionOp i st due ec) s w =
     (exact_uuids s [i] \<and> exact_times s (case due of None \<Rightarrow> [] | Some d \<Rightarrow> [d]) \<and> map_of (actions w) i \<noteq> None)"
| "agrees (CancelActionsOp ref k) s w = True"
| "agrees (InsertAttemptOp a) s w =
     (fresh_attempt a \<and> exact_uuids s [t_AttemptID a, t_ActionID a] \<and> exact_times s [t_PeriodStart a, t_PeriodEnd a])"
| "agrees (UpdateAttemptOp a) s w =
     (map_option bind_attempt (map_of (attempts w) (t_AttemptID a)) = Some (bind_attempt a)
      \<and> map_option unwritten (map_of (attempts w) (t_AttemptID a)) = Some (unwritten a)
      \<and> exact_uuids s (t_AttemptID a # (case t_ClaimToken a of None \<Rightarrow> [] | Some t \<Rightarrow> [t])) \<and> exact_times s (attempt_times a))"
| "agrees (ClaimAttemptOp i j t n now lease rd) s w = True"
| "agrees (InsertAuditOp u) s w =
     (exact_uuids s [u_AuditID u] \<and> jsonb_fields (dbms_of s) (u_Metadata u) = Some (u_Metadata u))"

lemma exact_optional:
  "exact_times s (case v of None \<Rightarrow> [] | Some t \<Rightarrow> [t]) \<longleftrightarrow> map_option (stored_time s) v = v"
  "exact_uuids s (i # (case c of None \<Rightarrow> [] | Some t \<Rightarrow> [t]))
     \<longleftrightarrow> uuid_text (dbms_of s) i = Some i \<and> (\<forall>t. c = Some t \<longrightarrow> uuid_text (dbms_of s) t = Some t)"
  by (auto simp: exact_times_def exact_uuids_def split: option.splits)

lemma follows_InsertAudit:
  assumes "pgInsertAudit a s = (Inr u, s')" and "sim s w" and "uuid_text (dbms_of s) (u_AuditID a) = Some (u_AuditID a)"
    and "jsonb_fields (dbms_of s) (u_Metadata a) = Some (u_Metadata a)"
  shows "follows s' (InsertAudit a) w"
  unfolding pgInsertAudit_run [OF assms(1,3,4)]
  by (rule followsI [OF _ sim_put(8) [OF assms(2)]]) (simp add: InsertAudit_def)

lemmas exactly = exact_times_def exact_uuids_def list_all_iff

lemmas follows_ops = follows_InsertCheckout follows_ExpireDueCheckouts
  follows_ClaimDueOutbound follows_CompleteOutbound follows_RetryOutbound follows_DeadLetterOutbound
  follows_AbandonOutbound follows_RequeueOutbound follows_InsertProcessorEvent follows_ClaimProcessorEvent
  follows_FinishProcessorEvent follows_ReleaseProcessorLease follows_InsertAction follows_ClaimAction
  follows_ClaimDueAction follows_CancelActions follows_InsertAttempt follows_InsertAudit

lemma follows_exec:
  assumes "pg_exec op s = (Inr u, s')" and "sim s w" and "store_ok w" and "documented (dbms_of s)"
    and "agrees op s w"
  shows "follows s' (exec op) w"
proof (cases op)
  case (ClaimAttemptOp i j t n now lease rd)
  with assms(1) show ?thesis by (simp add: discardS_def bindT_eq_Inr claim_attempt_Inr)
next
  case (InsertSubscriptionOp r)
  with assms show ?thesis by (auto simp: exact_times_def intro: follows_InsertSubscription)
next
  case (UpdateSubscriptionOp r)
  with assms show ?thesis
    using follows_UpdateSubscription [of r s "()" s' w] by (simp add: exact_times_def pinned_def)
next
  case (InsertOutboundOp e)
  with assms show ?thesis by (auto simp: exact_optional intro: follows_InsertOutbound)
next
  case (FinishActionOp i t n st due ec)
  with assms show ?thesis by (auto simp: exact_optional(1)) (auto simp: exactly intro: follows_FinishAction)
next
  case (ForceFinishActionOp i st due ec)
  with assms show ?thesis by (auto simp: exact_optional(1)) (auto simp: exactly intro: follows_ForceFinishAction)
next
  case (UpdateAttemptOp a)
  with assms show ?thesis
    using follows_UpdateAttempt [of a s "()" s' w] by (simp add: exact_optional(2) exact_times_def pinned_def)
next
  case (UpdateCheckoutOp c)
  with assms show ?thesis
    using follows_UpdateCheckout [of c s "()" s' w] by (simp add: exact_times_def pinned_def)
qed (use assms in \<open>auto simp: exactly intro!: follows_ops\<close>)+

lemma agrees_lawful: "agrees op s w \<Longrightarrow> lawful op (w\<lparr>ent := es\<rparr>)"
  by (cases op) (simp_all add: pinned_def)

text \<open>
  C10. The two stores agree: between a database and a memory with the same contents, but for the times of the
  bookkeeping, every operation that succeeds on PostgreSQL succeeds in memory too, with some randomness, and
  leaves the same contents and a well-formed store, provided that the server reads and makes UUIDs and reads an
  empty document as documented, and that the operation meets the conditions listed under \<open>agrees\<close>:
  the server stores its times and identifiers as they are; a row is inserted as new; an update writes back the
  identity of the stored row (as every caller in the code does); and none of the cases is met in which the two
  decide differently.
\<close>

theorem postgres_refines_memory:
  assumes "pg_exec op s = (Inr (), s')" and "sim s w" and "store_ok w" and "documented (dbms_of s)"
    and "agrees op s w"
  shows "\<exists>es w'. exec op (w\<lparr>ent := es\<rparr>) = (Inr (), w') \<and> sim s' w' \<and> store_ok w'"
proof -
  obtain es w' where run: "exec op (w\<lparr>ent := es\<rparr>) = (Inr (), w')" "sim s' w'"
    using follows_exec [OF assms] by (auto simp: follows_def)
  have "winv {} (w\<lparr>ent := es\<rparr>)" using assms(3) by (simp add: winv_def store_ok_def)
  moreover have "lawful op (w\<lparr>ent := es\<rparr>)" using assms(5) by (rule agrees_lawful)
  ultimately have "store_ok w'" using exec_keeps [OF _ _ run(1), of "{}"] by (simp add: winv_def)
  with run show ?thesis by blast
qed

text \<open>A held lease, in both stores.\<close>

definition lease_database :: database where
  "lease_database = empty_database\<lparr>sb_processing_leases := [held_lease]\<rparr>"

definition lease_world :: world where
  "lease_world = set_leases [(''k'', held_lease)] \<lparr>mem = NewMemory, clk = 0, ent = []\<rparr>"

lemma documented_sample: "documented sample_dbms"
  by (auto simp: documented_def sample_dbms_def)

lemma release_runs:
  "pg_exec (ReleaseLeaseOp ''k'' ''t'' 1) (fresh_session lease_database)
     = (Inr (), fresh_session (lease_database\<lparr>sb_processing_leases :=
         [held_lease\<lparr>l_Status := ''idle'', l_ActiveActionID := None, l_ClaimToken := None, l_LeaseUntil := None\<rparr>]\<rparr>)
         \<lparr>statements := 1\<rparr>)"
  by (simp add: pgReleaseProcessorLease_def statement_Inr leases_table_def fresh_session_def sample_dbms_def
      lease_database_def empty_database_def held_lease_def lease_accepts_def)

theorem postgres_refines_memory_witness:
  "\<exists>es w'. exec (ReleaseLeaseOp ''k'' ''t'' 1) (lease_world\<lparr>ent := es\<rparr>) = (Inr (), w')
     \<and> sim (fresh_session (lease_database\<lparr>sb_processing_leases :=
         [held_lease\<lparr>l_Status := ''idle'', l_ActiveActionID := None, l_ClaimToken := None, l_LeaseUntil := None\<rparr>]\<rparr>)
         \<lparr>statements := 1\<rparr>) w' \<and> store_ok w'"
proof (rule postgres_refines_memory [OF release_runs])
  show "sim (fresh_session lease_database) lease_world"
    by (simp add: sim_def fresh_session_def lease_database_def empty_database_def lease_world_def set_table_defs NewMemory_def vals_def)
  show "store_ok lease_world"
    by (simp add: store_ok_def lease_world_def set_table_defs NewMemory_def keyed_by_def well_keyed_def vals_def held_lease_def)
  show "documented (dbms_of (fresh_session lease_database))" by (simp add: fresh_session_def documented_sample)
  show "agrees (ReleaseLeaseOp ''k'' ''t'' 1) (fresh_session lease_database) lease_world"
    by (simp add: exact_uuids_def fresh_session_def sample_dbms_def)
qed

end
