(* ===== verification/Rows.thy ===== *)
theory Rows
  imports Postgres
begin

text \<open>
  The state machine against the table it is stored in: when the row a decision writes satisfies every constraint
  of \<^verbatim>\<open>sb_subscriptions\<close> (\<open>sub_accepts\<close>, from \<^verbatim>\<open>migrations/001_init.sql\<close>), and the histories of a row in it.
\<close>

section \<open>The constraints of the table\<close>

lemma utc_second_TruncateUTC [simp]: "utc_second (TruncateUTC t)"
  by (simp add: utc_second_def)

text \<open>The constraints beyond \<open>row_ok\<close>.\<close>

definition sub_domains :: "subscription \<Rightarrow> bool" where
  "sub_domains s \<longleftrightarrow>
     utc_second (s_CurrentPeriodStart s) \<and> utc_second (s_CurrentPeriodEnd s) \<and> utc_second (s_StateChangedAt s)
     \<and> (case s_CanceledAt s of None \<Rightarrow> True | Some t \<Rightarrow> utc_second t)"

lemma candidate_domains:
  assumes "sub_domains c"
  shows "sub_domains (candidate c ob (TruncateUTC now))"
  using assms by (auto simp: sub_domains_def candidate_def Let_def)

lemma moved_domains [simp]: "sub_domains (moved c n st flag) = sub_domains n"
  by (simp add: sub_domains_def moved_def)

lemma Decide_domains:
  assumes "Decide c ob now = Inr d" "\<not> d_Noop d" "row_ok c" "s_StateVersion c < 2 ^ 63 - 1" "sub_domains c"
  shows "sub_domains (d_Next d)"
proof -
  have n: "sub_domains (candidate c ob (TruncateUTC now))" using assms(5) by (rule candidate_domains)
  have *: "sub_domains (m\<lparr>s_CanceledAt := Some (TruncateUTC now)\<rparr>)" "sub_domains (m\<lparr>s_PastDueSince := v\<rparr>)"
    "sub_domains (cleared m)" if "sub_domains m" for m v
    using that by (simp_all add: sub_domains_def cleared_def)
  show ?thesis by (rule Decide_shapes [OF assms(1-4)]) (simp_all add: n *)
qed

lemma sub_accepts_parts:
  "sub_accepts s \<longleftrightarrow> row_ok s \<and> sub_domains s \<and> 1 \<le> length (s_PlanID s) \<and> length (s_PlanID s) \<le> 128
     \<and> int8 (s_StateVersion s) \<and> sb_valid_id (s_SubscriptionRef s) ''sub_''
     \<and> s_ProcessorFamily s \<in> {ProcessorStripe, ProcessorAdyen}
     \<and> all_or_none (s_PaymentMethodCiphertext s) (s_PaymentMethodNonce s) (s_PaymentMethodKeyVersion s)"
  unfolding sub_accepts_def sub_domains_def by blast

lemma Decide_accepts_iff:
  assumes d: "Decide c ob now = Inr d" "\<not> d_Noop d" and ok: "sub_accepts c" and v: "s_StateVersion c < 2 ^ 63 - 1"
  shows "sub_accepts (d_Next d) \<longleftrightarrow>
    length (ob_PlanID ob) \<le> 128 \<and> (s_AutomaticChargingBlocked c \<longrightarrow> d_EventType d = EventRenewed)"
proof -
  have row: "row_ok c" and dom: "sub_domains c" and len: "1 \<le> length (s_PlanID c)" "length (s_PlanID c) \<le> 128"
    and low: "- (2 ^ 63) \<le> s_StateVersion c"
    using ok by (simp_all add: sub_accepts_parts)
  have plan: "s_PlanID (d_Next d) = (if ob_PlanID ob = [] then s_PlanID c else ob_PlanID ob)"
    and ver: "s_StateVersion (d_Next d) = s_StateVersion c + 1"
    using Decide_extends [OF d] row_ok_known [OF row v] by (simp_all add: extends_candidate_def candidate_period)
  have "1 \<le> length (s_PlanID (d_Next d))" using len(1) by (simp add: plan Suc_le_eq)
  moreover have "length (s_PlanID (d_Next d)) \<le> 128 \<longleftrightarrow> length (ob_PlanID ob) \<le> 128" using len(2) by (simp add: plan)
  ultimately show ?thesis
    using Decide_row_ok_iff [OF d row v] Decide_domains [OF d row v dom] Decide_identity [OF d] ok v low
    by (auto simp: sub_accepts_parts same_identity_def ver)
qed

section \<open>Histories\<close>

lemma absorb_accepts:
  assumes "history_inv c k s" "sub_accepts s" "s_StateVersion s < 2 ^ 63 - 1" "length (ob_PlanID (fst p)) \<le> 128"
  shows "sub_accepts (absorb s p)"
proof (cases "\<exists>d. Decide s (fst p) (snd p) = Inr d \<and> \<not> d_Noop d")
  case False
  then have "absorb s p = s" by (auto simp: absorb_def split: sum.splits)
  with assms(2) show ?thesis by simp
next
  case True
  then obtain d where d: "Decide s (fst p) (snd p) = Inr d" "\<not> d_Noop d" by blast
  moreover have "\<not> s_AutomaticChargingBlocked s" using assms(1) by (simp add: history_inv_def)
  ultimately show ?thesis using Decide_accepts_iff [OF d assms(2,3)] assms(4) by (simp add: absorb_def)
qed

lemma history_accepts:
  "history_inv c k s \<Longrightarrow> sub_accepts s \<Longrightarrow> s_StateVersion c + k + int (length ps) < 2 ^ 63 - 1 \<Longrightarrow>
   list_all (\<lambda>p. length (ob_PlanID (fst p)) \<le> 128) ps \<Longrightarrow> sub_accepts (foldl absorb s ps)"
proof (induction ps arbitrary: s k)
  case (Cons p ps)
  have v: "s_StateVersion s < 2 ^ 63 - 1" using Cons.prems(1,3) by (simp add: history_inv_def)
  show ?case
    using Cons.IH [OF absorb_inv [OF Cons.prems(1) v] absorb_accepts [OF Cons.prems(1,2) v]] Cons.prems(3,4)
    by (simp add: algebra_simps)
qed simp

section \<open>Properties\<close>

text \<open>A row of the table; its identifiers are valid.\<close>

lemma sample_sub_accepts: "sub_accepts sample_sub"
proof -
  have "sb_valid_id ''sub_a8f3c1d2'' ''sub_''" by code_simp
  then show ?thesis
    by (simp add: sub_accepts_def sample_sub_def zero_subscription_def row_ok_def second_def all_or_none_def utc_second_def
        TruncateUTC_def zero_time_def)
qed

text \<open>
  C20. Constraints of the table: an effective decision on a row that satisfies every \<^verbatim>\<open>CHECK\<close> and domain of
  \<^verbatim>\<open>sb_subscriptions\<close> writes a row that satisfies them all again exactly when the observed plan has at
  most 128 bytes and automatic charging was not blocked or the decision is a renewal; ending or canceling a
  subscription whose charging is blocked leaves the block set on a row that is no longer past due.
\<close>

theorem Decide_row_checks:
  assumes "sub_accepts c" and "s_StateVersion c < 2 ^ 63 - 1" and "Decide c ob now = Inr d" and "\<not> d_Noop d"
  shows "sub_accepts (d_Next d) \<longleftrightarrow>
    length (ob_PlanID ob) \<le> 128 \<and> (s_AutomaticChargingBlocked c \<longrightarrow> d_EventType d = EventRenewed)"
  by (rule Decide_accepts_iff [OF assms(3,4,1,2)])

theorem Decide_row_checks_witness:
  "\<exists>d. Decide sample_sub sample_failure 0 = Inr d \<and> sub_accepts (d_Next d)"
proof -
  obtain d where d: "Decide sample_sub sample_failure 0 = Inr d" "\<not> d_Noop d"
    using sample_failure_decides by blast
  have "length (ob_PlanID sample_failure) \<le> 128" by (simp add: sample_failure_def zero_observation_def)
  with d Decide_row_checks [OF sample_sub_accepts _ d] sample_sub_ok show ?thesis by auto
qed

text \<open>
  C3. Every history of observations, in any order and with any clock readings, of plans of at most 128 bytes,
  started from a row of the table whose charging is not blocked: the row keeps every \<^verbatim>\<open>CHECK\<close> and domain of
  \<^verbatim>\<open>sb_subscriptions\<close> and its identity, its version never decreases and grows by at most one per observation, its
  status only moves along the state machine, and once expired it never changes again.
\<close>

theorem history_invariant:
  assumes "sub_accepts c" and "\<not> s_AutomaticChargingBlocked c" and "list_all (\<lambda>p. length (ob_PlanID (fst p)) \<le> 128) ps"
    and "s_StateVersion c + int (length ps) < 2 ^ 63 - 1"
  defines "s \<equiv> foldl absorb c ps"
  shows "sub_accepts s \<and> same_identity s c
    \<and> s_StateVersion c \<le> s_StateVersion s \<and> s_StateVersion s \<le> s_StateVersion c + int (length ps)
    \<and> some_step\<^sup>*\<^sup>* (s_Status c) (s_Status s) \<and> (s_Status c = StatusExpired \<longrightarrow> s = c)"
proof -
  have start: "history_inv c 0 c" using assms(1,2) by (intro history_start) (simp_all add: sub_accepts_parts)
  with history_foldl [OF this, of ps] history_accepts [OF start assms(1), of ps] assms(3,4)
  show ?thesis by (simp add: history_inv_def s_def)
qed

theorem history_invariant_witness:
  "sub_accepts (foldl absorb sample_sub [(sample_failure, 0), (sample_cancel, 7), (sample_failure, 8)])"
proof -
  have "list_all (\<lambda>p. length (ob_PlanID (fst p)) \<le> 128) [(sample_failure, 0 :: gotime), (sample_cancel, 7), (sample_failure, 8)]"
    by (simp add: sample_failure_def sample_cancel_def zero_observation_def)
  with history_invariant [OF sample_sub_accepts, of "[(sample_failure, 0), (sample_cancel, 7), (sample_failure, 8)]"] sample_sub_ok
  show ?thesis by simp
qed

end
