(* ===== verification/PgFencing.thy ===== *)
theory PgFencing
  imports PgStore Rows
begin

text \<open>
  What the updates of the PostgreSQL store that need an owner do, row by row; and the one of them that never
  succeeds, the claim of an attempt with its action, which every submission of a renewal starts with.
\<close>

section \<open>Updates under an owner\<close>

text \<open>An update of one key touches the row that has the key, and no other.\<close>

lemma updated_alone:
  assumes "no_clash c xs" and "\<And>y z. key y = key z \<Longrightarrow> c y z" and "\<And>y. p y \<Longrightarrow> key y = k"
    and "filter p xs \<noteq> []"
  shows "map (\<lambda>r. if p r then g r else r) xs = map (\<lambda>r. if key r = k then g r else r) xs"
proof -
  obtain x where x: "x \<in> set xs" "p x" using assms(4) by (auto simp: filter_empty_conv)
  have "filter (\<lambda>r. key r = k) xs = [y]" if "y \<in> set xs" "key y = k" for y
    using no_clash_filter [of c xs "\<lambda>r. key r = k" y] assms(1,2) that by simp
  then have "p r" if "r \<in> set xs" "key r = k" for r using x assms(3) that by (metis list.inject)
  then show ?thesis using assms(3) by (auto intro: map_cong)
qed

lemma updateT_alone:
  assumes "schema_table T sk" and "schema_ok (db s)" and "updateT ps T p g s = (Inr rs, s')" and "rs \<noteq> []"
    and "\<And>y z. key y = key z \<Longrightarrow> clash T y z" and "\<And>y. p s y \<Longrightarrow> key y = k"
  shows "(\<exists>x\<in>set (rows_of T (db s)). p s x) \<and> list_all (param_ok (dbms_of s)) ps
    \<and> db s' = put_rows T (map (\<lambda>r. if key r = k then g s r else r) (rows_of T (db s))) (db s)"
proof -
  let ?xs = "rows_of T (db s)"
  from assms(3) have rs: "rs = map (g s) (filter (p s) ?xs)" and ps: "list_all (param_ok (dbms_of s)) ps"
    and d: "db s' = put_rows T (map (\<lambda>r. if p s r then g s r else r) ?xs) (db s)"
    by (auto simp: updateT_def sqlT_eq_Inr update_set_Inr)
  have "no_clash (clash T) ?xs" using schema_table.table [OF assms(1,2)] by (simp add: table_ok_def)
  moreover have ne: "filter (p s) ?xs \<noteq> []" using rs assms(4) by simp
  ultimately have "map (\<lambda>r. if p s r then g s r else r) ?xs = map (\<lambda>r. if key r = k then g s r else r) ?xs"
    by (intro updated_alone [where c = "clash T"]) (use assms(5,6) in auto)
  with d ps ne show ?thesis by (auto simp: filter_empty_conv)
qed

lemma outbound_owned:
  assumes "schema_ok (db s)" and "ownedT (updateT ps outbound_events_table (outbound_owner i token fence) g) s = (Inr (), s')"
    and "Uuid token \<in> set ps"
  shows "(\<exists>e. e \<in> set (sb_outbound_events (db s)) \<and> o_EventID e = i \<and> o_DeliveryState e = ''pending''
       \<and> o_ClaimToken e = uuid_text (dbms_of s) token \<and> o_FencingToken e = fence)
    \<and> db s' = (db s)\<lparr>sb_outbound_events := map (\<lambda>e. if o_EventID e = i then g s e else e) (sb_outbound_events (db s))\<rparr>"
proof -
  from assms(2) obtain rs where up: "rs \<noteq> []" "updateT ps outbound_events_table (outbound_owner i token fence) g s = (Inr rs, s')"
    by (auto simp: ownedT_eq_Inr)
  have tok: "Some (stored_uuid s token) = uuid_text (dbms_of s) token" if "list_all (param_ok (dbms_of s)) ps"
    using that assms(3) by (force simp: list_all_iff)
  show ?thesis
    using updateT_alone [OF outbound_t.schema_table_axioms assms(1) up(2,1), where key = o_EventID and k = i] tok
    by (auto simp: outbound_events_table_def outbound_clash_def outbound_owner_def)
qed

lemma event_owned:
  assumes "schema_ok (db s)" and "pgFinishProcessorEvent family i token fence state ref now s = (Inr (), s')"
  shows "(\<exists>e. e \<in> set (sb_processor_events (db s)) \<and> p_ProcessorFamily e = family \<and> p_ProcessorEventID e = i
       \<and> p_ProcessingState e = ''running'' \<and> p_ClaimToken e = uuid_text (dbms_of s) token \<and> p_FencingToken e = fence)
    \<and> db s' = (db s)\<lparr>sb_processor_events := map (\<lambda>e. if (p_ProcessorFamily e, p_ProcessorEventID e) = (family, i)
        then e\<lparr>p_ProcessingState := state, p_ClaimToken := None, p_LeaseUntil := None, p_SubscriptionRef := ref,
          p_ProcessedAt := (if state = ''processed'' then Some (stored_time s now) else p_ProcessedAt e)\<rparr>
        else e) (sb_processor_events (db s))\<rparr>"
proof -
  from assms(2) obtain rs where up: "rs \<noteq> []"
    "updateT ([Text family, Text i, Uuid token, Text state] @ nullable Text ref) processor_events_table
     (\<lambda>s e. p_ProcessorFamily e = family \<and> p_ProcessorEventID e = i \<and> p_ProcessingState e = ''running''
        \<and> p_ClaimToken e = Some (stored_uuid s token) \<and> p_FencingToken e = fence)
     (\<lambda>s e. e\<lparr>p_ProcessingState := state, p_ClaimToken := None, p_LeaseUntil := None, p_SubscriptionRef := ref,
        p_ProcessedAt := (if state = ''processed'' then Some (stored_time s now) else p_ProcessedAt e)\<rparr>) s = (Inr rs, s')"
    unfolding pgFinishProcessorEvent_def ownedT_eq_Inr by blast
  show ?thesis
    using updateT_alone [OF events_t.schema_table_axioms assms(1) up(2,1),
        where key = "\<lambda>e. (p_ProcessorFamily e, p_ProcessorEventID e)" and k = "(family, i)"]
    by (auto simp: processor_events_table_def event_clash_def)
qed

lemma lease_owned:
  assumes "schema_ok (db s)" and "pgReleaseProcessorLease key token fence s = (Inr (), s')"
  shows "(\<exists>l. l \<in> set (sb_processing_leases (db s)) \<and> l_ProcessingKey l = key
       \<and> l_ClaimToken l = uuid_text (dbms_of s) token \<and> l_FencingToken l = fence)
    \<and> db s' = (db s)\<lparr>sb_processing_leases := map (\<lambda>l. if l_ProcessingKey l = key
        then l\<lparr>l_Status := ''idle'', l_ActiveActionID := None, l_ClaimToken := None, l_LeaseUntil := None\<rparr>
        else l) (sb_processing_leases (db s))\<rparr>"
proof -
  from assms(2) obtain rs where up: "rs \<noteq> []" "updateT [Text key, Uuid token] leases_table
     (\<lambda>s l. l_ProcessingKey l = key \<and> l_ClaimToken l = Some (stored_uuid s token) \<and> l_FencingToken l = fence)
     (\<lambda>_ l. l\<lparr>l_Status := ''idle'', l_ActiveActionID := None, l_ClaimToken := None, l_LeaseUntil := None\<rparr>) s = (Inr rs, s')"
    unfolding pgReleaseProcessorLease_def ownedT_eq_Inr by blast
  show ?thesis
    using updateT_alone [OF leases_t.schema_table_axioms assms(1) up(2,1), where key = l_ProcessingKey and k = key]
    by (auto simp: leases_table_def lease_clash_def)
qed

lemma action_owned:
  assumes "schema_ok (db s)" and "ownedT (updateT ps scheduled_actions_table (action_owner i token fence) g) s = (Inr (), s')"
    and "Uuid i \<in> set ps" and "Uuid token \<in> set ps"
  shows "(\<exists>a. a \<in> set (sb_scheduled_actions (db s)) \<and> Some (a_ActionID a) = uuid_text (dbms_of s) i
       \<and> a_Status a = ''running'' \<and> a_ClaimToken a = uuid_text (dbms_of s) token \<and> a_FencingToken a = fence)
    \<and> db s' = (db s)\<lparr>sb_scheduled_actions := map (\<lambda>a. if Some (a_ActionID a) = uuid_text (dbms_of s) i
        then g s a else a) (sb_scheduled_actions (db s))\<rparr>"
proof -
  from assms(2) obtain rs where up: "rs \<noteq> []"
    "updateT ps scheduled_actions_table (action_owner i token fence) g s = (Inr rs, s')"
    by (auto simp: ownedT_eq_Inr)
  have "list_all (param_ok (dbms_of s)) ps" using up(2) by (auto simp: updateT_def sqlT_eq_Inr)
  with assms(3,4) have "uuid_text (dbms_of s) i \<noteq> None" "uuid_text (dbms_of s) token \<noteq> None"
    by (force simp: list_all_iff)+
  then obtain u v where "uuid_text (dbms_of s) i = Some u" "uuid_text (dbms_of s) token = Some v" by blast
  then show ?thesis
    using updateT_alone [OF actions_t.schema_table_axioms assms(1) up(2,1), where key = a_ActionID and k = u]
    by (auto simp: scheduled_actions_table_def action_clash_def action_owner_def)
qed

lemmas owned_rows = outbound_owned event_owned lease_owned action_owned

text \<open>
  C11. Fencing in production: completing, retrying or giving up a delivery, finishing a provider event,
  releasing a processing lease and finishing an action succeed only if the row of that key is still held,
  running or pending, by exactly the given token and fence; what they write is that row alone, in the stated
  way, and everything else in the database stays as it was.
\<close>

theorem postgres_fenced:
  assumes "schema_ok (db s)" and "pg_exec op s = (Inr (), s')"
  shows "case op of
      CompleteOutboundOp i token fence now \<Rightarrow>
        (\<exists>e. e \<in> set (sb_outbound_events (db s)) \<and> o_EventID e = i \<and> o_DeliveryState e = ''pending''
           \<and> o_ClaimToken e = uuid_text (dbms_of s) token \<and> o_FencingToken e = fence)
        \<and> db s' = (db s)\<lparr>sb_outbound_events := map (\<lambda>e. if o_EventID e = i
            then e\<lparr>o_DeliveryState := ''delivered'', o_DeliveredAt := Some (stored_time s now), o_NextAttemptAt := None,
              o_ClaimToken := None, o_LeaseUntil := None, o_AttemptCount := o_AttemptCount e + 1\<rparr>
            else e) (sb_outbound_events (db s))\<rparr>
    | RetryOutboundOp i token fence nxt ec \<Rightarrow>
        (\<exists>e. e \<in> set (sb_outbound_events (db s)) \<and> o_EventID e = i \<and> o_DeliveryState e = ''pending''
           \<and> o_ClaimToken e = uuid_text (dbms_of s) token \<and> o_FencingToken e = fence)
        \<and> db s' = (db s)\<lparr>sb_outbound_events := map (\<lambda>e. if o_EventID e = i
            then e\<lparr>o_NextAttemptAt := Some (stored_time s nxt), o_LastErrorClass := Some ec,
              o_ClaimToken := None, o_LeaseUntil := None, o_AttemptCount := o_AttemptCount e + 1\<rparr>
            else e) (sb_outbound_events (db s))\<rparr>
    | DeadLetterOutboundOp i token fence now ec \<Rightarrow>
        (\<exists>e. e \<in> set (sb_outbound_events (db s)) \<and> o_EventID e = i \<and> o_DeliveryState e = ''pending''
           \<and> o_ClaimToken e = uuid_text (dbms_of s) token \<and> o_FencingToken e = fence)
        \<and> db s' = (db s)\<lparr>sb_outbound_events := map (\<lambda>e. if o_EventID e = i
            then e\<lparr>o_DeliveryState := ''dead_lettered'', o_DeadLetteredAt := Some (stored_time s now),
              o_NextAttemptAt := None, o_ClaimToken := None, o_LeaseUntil := None, o_LastErrorClass := Some ec,
              o_AttemptCount := o_AttemptCount e + 1\<rparr>
            else e) (sb_outbound_events (db s))\<rparr>
    | FinishEventOp family i token fence state ref now \<Rightarrow>
        (\<exists>e. e \<in> set (sb_processor_events (db s)) \<and> p_ProcessorFamily e = family \<and> p_ProcessorEventID e = i
           \<and> p_ProcessingState e = ''running'' \<and> p_ClaimToken e = uuid_text (dbms_of s) token \<and> p_FencingToken e = fence)
        \<and> db s' = (db s)\<lparr>sb_processor_events := map (\<lambda>e. if (p_ProcessorFamily e, p_ProcessorEventID e) = (family, i)
            then e\<lparr>p_ProcessingState := state, p_ClaimToken := None, p_LeaseUntil := None, p_SubscriptionRef := ref,
              p_ProcessedAt := (if state = ''processed'' then Some (stored_time s now) else p_ProcessedAt e)\<rparr>
            else e) (sb_processor_events (db s))\<rparr>
    | ReleaseLeaseOp key token fence \<Rightarrow>
        (\<exists>l. l \<in> set (sb_processing_leases (db s)) \<and> l_ProcessingKey l = key
           \<and> l_ClaimToken l = uuid_text (dbms_of s) token \<and> l_FencingToken l = fence)
        \<and> db s' = (db s)\<lparr>sb_processing_leases := map (\<lambda>l. if l_ProcessingKey l = key
            then l\<lparr>l_Status := ''idle'', l_ActiveActionID := None, l_ClaimToken := None, l_LeaseUntil := None\<rparr>
            else l) (sb_processing_leases (db s))\<rparr>
    | FinishActionOp i token fence status due ec \<Rightarrow>
        (\<exists>a. a \<in> set (sb_scheduled_actions (db s)) \<and> Some (a_ActionID a) = uuid_text (dbms_of s) i
           \<and> a_Status a = ''running'' \<and> a_ClaimToken a = uuid_text (dbms_of s) token \<and> a_FencingToken a = fence)
        \<and> db s' = (db s)\<lparr>sb_scheduled_actions := map (\<lambda>a. if Some (a_ActionID a) = uuid_text (dbms_of s) i
            then a\<lparr>a_Status := status, a_DueAt := (case due of None \<Rightarrow> a_DueAt a | Some t \<Rightarrow> stored_time s t),
              a_LastErrorClass := ec, a_ClaimToken := None, a_LeaseUntil := None\<rparr>
            else a) (sb_scheduled_actions (db s))\<rparr>
    | _ \<Rightarrow> True"
  using assms
  by (cases op) (auto simp only: pg_exec.simps store_op.case pgCompleteOutbound_def pgRetryOutbound_def pgDeadLetterOutbound_def
    pgFinishAction_def ended_action_def list.set set_append Un_iff insert_iff dest!: owned_rows [OF assms(1)])

theorem postgres_fenced_witness:
  "\<exists>s'. pg_exec (FinishEventOp ProcessorStripe ''a'' ''t'' 1 ''processed'' None 0) (fresh_session held_database) = (Inr (), s')
     \<and> sb_processor_events (db s') = [running_event\<lparr>p_ProcessingState := ''processed'', p_ClaimToken := None,
          p_LeaseUntil := None, p_ProcessedAt := Some 0\<rparr>, pending_event ''b'']"
proof -
  let ?op = "FinishEventOp ProcessorStripe ''a'' ''t'' 1 ''processed'' None 0" and ?s = "fresh_session held_database"
  have ok: "schema_ok (db ?s)" using held_database_ok by (simp add: fresh_session_def)
  have "\<exists>s'. pg_exec ?op ?s = (Inr (), s')"
    by (simp add: pgFinishProcessorEvent_def statement_Inr processor_events_table_def fresh_session_def sample_dbms_def
        held_database_def running_event_def pending_event_def zero_processor_event_def event_accepts_def all_or_none_def
        event_clash_def nullable_def)
  then obtain s' where run: "pg_exec ?op ?s = (Inr (), s')" by blast
  from postgres_fenced [OF ok run] run show ?thesis
    by (intro exI [of _ s'])
      (simp add: fresh_session_def sample_dbms_def held_database_def running_event_def pending_event_def zero_processor_event_def)
qed

text \<open>
  C17. No renewal is charged in production: claiming an attempt together with its action, which the scheduler does
  before every submission, never succeeds on PostgreSQL.  Whatever runs before and after it in its
  transaction, the transaction returns an error and leaves the database as it was; and where the action is
  held by exactly the caller, the error is the server's, which cannot decide between its functions named
  \<^verbatim>\<open>date_trunc\<close> for a parameter without a type.
\<close>

theorem charge_claim_fails:
  assumes "schema_ok (db s)" and "\<not> busy s" and "\<not> failed s" and "a \<in> set (sb_scheduled_actions (db s))"
    and "uuid_text (dbms_of s) actionID = Some (a_ActionID a)" and "a_Status a = ''running''"
    and "uuid_text (dbms_of s) token = Some tok" and "a_ClaimToken a = Some tok" and "a_FencingToken a = fence"
  shows "fst (pgClaimAttemptWithAction actionID attemptID token fence now lease deadline s) = Inl AmbiguousFunction
    \<and> (let tx = PgInTx (thenT (pg_transaction before)
             (bindT (pgClaimAttemptWithAction i j t n now' lease' deadline') after)) s'
       in isl (fst tx) \<and> db (snd tx) = db s')"
proof -
  let ?g = "\<lambda>a. a\<lparr>a_LeaseUntil := Some (stored_time s (now + lease))\<rparr>"
  let ?new = "map (\<lambda>a. if action_owner actionID token fence s a then ?g a else a) (sb_scheduled_actions (db s))"
  have "no_clash action_clash ?new = no_clash action_clash (sb_scheduled_actions (db s))"
    by (rule no_clash_map) (auto simp: action_clash_def)
  then have clash: "no_clash action_clash ?new" using assms(1) by (simp add: schema_defs)
  have rows: "action_accepts x \<and> has_sub (db s) (a_SubscriptionRef x)" if "x \<in> set (sb_scheduled_actions (db s))" for x
    using assms(1) that by (simp add: schema_defs list_all_iff)
  have "action_accepts (?g x)" if "x \<in> set (sb_scheduled_actions (db s))" "action_owner actionID token fence s x" for x
    using rows [OF that(1)] that(2) by (simp add: action_owner_def action_accepts_def)
  then have written: "update_set scheduled_actions_table (action_owner actionID token fence s) ?g (db s)
      = Inr (map ?g (filter (action_owner actionID token fence s) (sb_scheduled_actions (db s))), (db s)\<lparr>sb_scheduled_actions := ?new\<rparr>)"
    using clash rows by (simp add: update_set_Inr scheduled_actions_table_def has_sub_def)
  have "a \<in> set (filter (action_owner actionID token fence s) (sb_scheduled_actions (db s)))"
    using assms(4-9) by (simp add: action_owner_def)
  then have "filter (action_owner actionID token fence s) (sb_scheduled_actions (db s)) \<noteq> []" by (metis empty_iff empty_set)
  then have "fst (pgClaimAttemptWithAction actionID attemptID token fence now lease deadline s) = Inl AmbiguousFunction"
    using assms(2,3,5,7)
    by (simp add: pgClaimAttemptWithAction_def no_date_trunc Let_def ownedT_def updateT_def sqlT_def bindT_def
        thenT_def execT_def written)
  moreover have "thenT (pg_transaction before) (bindT (pgClaimAttemptWithAction i j t n now' lease' deadline') after) v \<noteq> (Inr x, v')"
    for v x v'
    by (simp add: thenT_eq_Inr bindT_eq_Inr claim_attempt_Inr)
  ultimately show ?thesis by (auto simp: Let_def PgInTx_def split: prod.splits sum.splits)
qed


text \<open>A database with a renewal that a worker holds.\<close>

definition claimed_action :: scheduled_action where
  "claimed_action = sample_action\<lparr>a_SubscriptionRef := s_SubscriptionRef sample_sub, a_Status := ''running'',
     a_ClaimToken := Some ''t'', a_FencingToken := 1, a_LeaseUntil := Some 60\<rparr>"

definition paid_checkout :: checkout where
  "paid_checkout = zero_checkout\<lparr>c_CheckoutID := s_CheckoutID sample_sub, c_PlanID := ''pro'',
     c_ProcessorFamily := ProcessorStripe, c_RequestFingerprint := replicate 32 (CHR ''x''), c_Status := ''completed'',
     c_ExpiresAt := 0\<rparr>"

definition renewal_database :: database where
  "renewal_database = empty_database\<lparr>sb_checkouts := [paid_checkout], sb_subscriptions := [sample_sub],
     sb_scheduled_actions := [claimed_action]\<rparr>"

lemma renewal_database_ok: "schema_ok renewal_database"
proof -
  have "sb_valid_id ''subchk_7f3a9c2e'' ''subchk_''" by code_simp
  then have "checkout_accepts paid_checkout"
    by (simp add: checkout_accepts_def paid_checkout_def sample_sub_def zero_checkout_def utc_second_def TruncateUTC_def)
  moreover have "action_accepts claimed_action"
    by (simp add: action_accepts_def claimed_action_def sample_action_def utc_second_def TruncateUTC_def)
  ultimately show ?thesis
    by (simp add: schema_simps renewal_database_def empty_database_def sample_sub_accepts claimed_action_def)
      (simp add: paid_checkout_def)
qed

theorem charge_claim_fails_witness:
  "fst (PgInTx (pgClaimAttemptWithAction ''a'' ''t1'' ''t'' 1 0 60 0) (fresh_session renewal_database)) = Inl AmbiguousFunction
   \<and> db (snd (PgInTx (thenT (pg_transaction [ExpireCheckoutsOp 0])
       (bindT (pgClaimAttemptWithAction ''a'' ''t1'' ''t'' 1 0 60 0) retT)) (fresh_session renewal_database))) = renewal_database"
proof -
  let ?s = "fresh_session renewal_database"
  have "fst (pgClaimAttemptWithAction ''a'' ''t1'' ''t'' 1 0 60 0 ?s) = Inl AmbiguousFunction
    \<and> (let tx = PgInTx (thenT (pg_transaction [ExpireCheckoutsOp 0])
             (bindT (pgClaimAttemptWithAction ''a'' ''t1'' ''t'' 1 0 60 0) retT)) ?s
       in isl (fst tx) \<and> db (snd tx) = db ?s)"
  proof (rule charge_claim_fails [where a = claimed_action and tok = "''t''"])
    show "schema_ok (db ?s)" using renewal_database_ok by (simp add: fresh_session_def)
  qed (simp_all add: fresh_session_def sample_dbms_def renewal_database_def claimed_action_def sample_action_def)
  moreover have "?s\<lparr>failed := False\<rparr> = ?s" "db ?s = renewal_database" by (simp_all add: fresh_session_def)
  ultimately show ?thesis by (auto simp: Let_def PgInTx_def split: prod.splits sum.splits)
qed

end
