(* ===== verification/Startup.thy ===== *)
theory Startup
  imports Service PgWork
begin

text \<open>
  How the service is put together: the environment and the plan file into a configuration
  (\<^verbatim>\<open>internal/config/config.go\<close>), and the configuration into the adapters, the server, the notifier and the
  scheduler that \<^verbatim>\<open>cmd/bridge/main.go\<close> runs.  A \<open>host\<close> is what surrounds the process: environment, files, the
  YAML and URL libraries, the database it opens, and the transports to the processors, which are given the
  credentials and, for a checkout, the number of the call.
\<close>

section \<open>The host\<close>

record host =
  h_Getenv :: "string \<Rightarrow> string"
  h_ReadFile :: "string \<Rightarrow> gerr + bytes"
  h_Yaml :: "bytes \<Rightarrow> gerr + string \<times> (string \<times> plan) list option"
  h_ParseDuration :: "string \<Rightarrow> gerr + duration"
  h_URL :: urllib
  h_Pool :: "string \<Rightarrow> gerr + session"
  h_StripePost :: "string \<Rightarrow> nat \<Rightarrow> form_transport"
  h_StripeGet :: "string \<Rightarrow> string \<Rightarrow> gerr + int \<times> bytes"
  h_Adyen :: "string \<Rightarrow> nat \<Rightarrow> transport"
  h_MapOrder :: "(string \<times> string) list \<Rightarrow> (string \<times> string) list"
  h_Timeout :: "gerr \<Rightarrow> bool"
  h_Number :: "string \<Rightarrow> int"
  h_Sprint :: "json \<Rightarrow> string"
  h_Asset :: "string \<Rightarrow> bytes option"

section \<open>Configuration\<close>

definition getenv :: "host \<Rightarrow> string \<Rightarrow> string \<Rightarrow> string" where
  "getenv h key fallback = (let v = TrimSpace (h_Getenv h key) in if v \<noteq> [] then v else fallback)"

text \<open>Addresses that are neither loopback nor unspecified pass too.\<close>

definition ValidateCore :: "urllib \<Rightarrow> config \<Rightarrow> gerr + unit" where
  "ValidateCore ul c =
     bindR (ParsePairingRoot (g_PairingRoot c)) (\<lambda>_.
     bindR (IsHTTPSPublicURL ul (g_PublicURL c)) (\<lambda>_.
     bindR (IsHTTPSPublicURL ul (g_ConsumerWebhookURL c)) (\<lambda>_.
     bindR (guardR (g_DatabaseURL c \<noteq> []) (ErrOther ''BRIDGE_DATABASE_URL is required'')) (\<lambda>_.
     case SplitHostPort (g_Listen c) of None \<Rightarrow> Inl (ErrOther ''BRIDGE_LISTEN'') | Some _ \<Rightarrow> Inr ()))))"

definition env_config :: "host \<Rightarrow> config" where
  "env_config h =
     (let env = (\<lambda>key. TrimSpace (h_Getenv h key))
      in \<lparr>g_PublicURL = env ''BRIDGE_PUBLIC_URL'',
          g_ConsumerWebhookURL = env ''CONSUMER_WEBHOOK_URL'',
          g_PairingRoot = env ''BRIDGE_CONSUMER_PAIRING_ROOT'',
          g_DefaultProcessor = env ''BRIDGE_DEFAULT_PROCESSOR'',
          g_StripeSecretKey = env ''STRIPE_SECRET_KEY'',
          g_StripeWebhookSecret = env ''STRIPE_WEBHOOK_SECRET'',
          g_AdyenAPIKey = env ''ADYEN_API_KEY'',
          g_AdyenHMACKey = env ''ADYEN_HMAC_KEY'',
          g_AdyenClientKey = env ''ADYEN_CLIENT_KEY'',
          g_AdyenLivePrefix = env ''ADYEN_LIVE_PREFIX'',
          g_AdyenEnvironment = getenv h ''ADYEN_ENVIRONMENT'' ''test'',
          g_AdyenDataEncryptionKey = env ''ADYEN_DATA_ENCRYPTION_KEY'',
          g_Listen = getenv h ''BRIDGE_LISTEN'' ''127.0.0.1:8081'',
          g_DatabaseURL = env ''BRIDGE_DATABASE_URL'',
          g_LogLevel = getenv h ''BRIDGE_LOG_LEVEL'' ''info'',
          g_SchedulerEnabled = (getenv h ''BRIDGE_SCHEDULER_ENABLED'' ''true'' \<noteq> ''false''),
          g_RenewalRetryDelays = [], g_DunningTermination = 0, g_AdyenResolutionDeadline = 0,
          g_QuarantineEnabled = (getenv h ''BRIDGE_PROVIDER_PAYLOAD_QUARANTINE_ENABLED'' ''false'' = ''true''),
          g_QuarantineMaxRetention = 0,
          g_PlansPath = getenv h ''BRIDGE_PLANS_PATH'' ''config/plans.yaml'',
          g_Catalog = \<lparr>cat_DefaultProcessor = [], cat_Plans = []\<rparr>, g_DevMode = False\<rparr>)"

definition Load :: "host \<Rightarrow> gerr + config" where
  "Load h =
     (let pd = h_ParseDuration h
      in bindR (parseDurations pd (getenv h ''BRIDGE_RENEWAL_RETRY_DELAYS'' ''24h,72h,120h'')) (\<lambda>delays.
         bindR (parseBoundedDuration pd (getenv h ''BRIDGE_DUNNING_TERMINATION_DELAY'' ''0s'') 0 (168 * hour)) (\<lambda>dunning.
         bindR (parseBoundedDuration pd (getenv h ''BRIDGE_ADYEN_RESOLUTION_DEADLINE'' ''144h'') hour (144 * hour)) (\<lambda>resolution.
         bindR (parseBoundedDuration pd (getenv h ''BRIDGE_PROVIDER_PAYLOAD_QUARANTINE_MAX_RETENTION'' ''168h'') hour (168 * hour)) (\<lambda>quarantine.
         let cfg = (env_config h)\<lparr>g_RenewalRetryDelays := delays, g_DunningTermination := dunning,
                     g_AdyenResolutionDeadline := resolution, g_QuarantineMaxRetention := quarantine\<rparr>
         in bindR (ValidateCore (h_URL h) cfg) (\<lambda>_. Inr cfg))))))"

definition ParseCatalog :: "(bytes \<Rightarrow> gerr + string \<times> (string \<times> plan) list option) \<Rightarrow> bytes \<Rightarrow> gerr + catalog" where
  "ParseCatalog yaml raw =
     bindR (yaml raw) (\<lambda>(def, plans).
     Inr \<lparr>cat_DefaultProcessor = def, cat_Plans = (case plans of None \<Rightarrow> [] | Some ps \<Rightarrow> ps)\<rparr>)"

definition LoadCatalogFile :: "host \<Rightarrow> config \<Rightarrow> gerr + config" where
  "LoadCatalogFile h c = LoadCatalog c (bindR (h_ReadFile h (g_PlansPath c)) (ParseCatalog (h_Yaml h)))"

definition load_config :: "host \<Rightarrow> gerr + config" where
  "load_config h = bindR (Load h) (LoadCatalogFile h)"

text \<open>\<open>path_of\<close> is the decoded path of \<open>url.Parse\<close>.\<close>

definition ConsumerWebhookPath :: "(string \<Rightarrow> gerr + string) \<Rightarrow> string \<Rightarrow> gerr + string" where
  "ConsumerWebhookPath path_of raw = bindR (path_of raw) (\<lambda>p. Inr (if p = [] then ''/'' else p))"

section \<open>The service\<close>

definition stripe_adapter :: "config \<Rightarrow> stripe option" where
  "stripe_adapter c =
     (if g_StripeSecretKey c \<noteq> []
      then Some \<lparr>st_SecretKey = g_StripeSecretKey c, st_WebhookSecret = g_StripeWebhookSecret c,
                 st_APIBase = ''https://api.stripe.com''\<rparr>
      else None)"

definition adyen_adapter :: "config \<Rightarrow> adyen option" where
  "adyen_adapter c =
     (if g_AdyenAPIKey c \<noteq> []
      then Some \<lparr>ad_APIKey = g_AdyenAPIKey c, ad_HMACKey = g_AdyenHMACKey c, ad_Environment = g_AdyenEnvironment c,
                 ad_LivePrefix = g_AdyenLivePrefix c\<rparr>
      else None)"

definition build_engine :: "config \<Rightarrow> box option \<Rightarrow> engine" where
  "build_engine c bx = \<lparr>e_RenewalRetryDelays = g_RenewalRetryDelays c, e_DunningTermination = g_DunningTermination c,
     e_StripePriceMap = StripePriceMap c, e_Box = bx\<rparr>"

text \<open>The adapters by family, as the engine and the server call them.\<close>

definition checkout_adapters :: "host \<Rightarrow> config \<Rightarrow> string \<Rightarrow> checkout_adapter option" where
  "checkout_adapters h c family =
     (if family = ProcessorStripe then
        map_option (\<lambda>st n. StripeCreateCheckout (h_StripePost h (st_SecretKey st) n) (h_MapOrder h) (h_Timeout h)) (stripe_adapter c)
      else if family = ProcessorAdyen then
        map_option (\<lambda>ad n. AdyenCreateCheckout (h_Timeout h) ad (h_Adyen h (ad_APIKey ad) n)) (adyen_adapter c)
      else None)"

definition webhook_adapters ::
  "host \<Rightarrow> config \<Rightarrow> gotime \<Rightarrow> string \<Rightarrow> (string \<Rightarrow> string) \<Rightarrow> bytes \<Rightarrow> (gerr + normalized_event list) option" where
  "webhook_adapters h c now family header body =
     (if family = ProcessorStripe then
        map_option (\<lambda>st. StripeParseWebhook st now (header ''Stripe-Signature'') body) (stripe_adapter c)
      else if family = ProcessorAdyen then
        map_option (\<lambda>ad. ParseWebhook (h_Number h) (h_Sprint h) ad now body) (adyen_adapter c)
      else None)"

definition state_adapters :: "host \<Rightarrow> config \<Rightarrow> string \<Rightarrow> string \<Rightarrow> gerr + subscription_state option" where
  "state_adapters h c family subID =
     (case (if family = ProcessorStripe
            then map_option (\<lambda>st. StripeGetSubscription (h_Number h) (h_StripeGet h (st_SecretKey st)) subID) (stripe_adapter c)
            else if family = ProcessorAdyen then map_option (\<lambda>ad. AdyenGetSubscription family subID) (adyen_adapter c)
            else None) of
        None \<Rightarrow> Inl (ErrOther ''no adapter'') | Some r \<Rightarrow> r)"

definition build_server :: "host \<Rightarrow> config \<Rightarrow> keys \<Rightarrow> box option \<Rightarrow> bool \<Rightarrow> gotime \<Rightarrow> server" where
  "build_server h c keys bx healthy now =
     \<lparr>hs_URL = h_URL h, hs_Keys = keys, hs_Config = c, hs_Engine = build_engine c bx,
      hs_Checkout = checkout_adapters h c, hs_Webhook = webhook_adapters h c now, hs_State = state_adapters h c,
      hs_StripePortal = map_option (\<lambda>st. StripeCreatePortalSession (h_StripePost h (st_SecretKey st) 0) (h_MapOrder h)) (stripe_adapter c),
      hs_AdyenSession = map_option (\<lambda>ad. CreatePaymentUpdateSession ad (h_Adyen h (ad_APIKey ad) 0)) (adyen_adapter c),
      hs_Asset = h_Asset h, hs_Healthy = healthy, hs_EnableMock = False\<rparr>"

text \<open>What runs once the process is up; \<open>br_Server\<close> is the server at a time and with an answer to its database's ping.\<close>

record bridge =
  br_DB :: session
  br_Keys :: keys
  br_Config :: config
  br_Box :: "box option"
  br_Server :: "bool \<Rightarrow> gotime \<Rightarrow> server"
  br_Notifier :: notifier
  br_WebhookURL :: string
  br_Scheduler :: "scheduler option"

definition build_bridge :: "host \<Rightarrow> config \<Rightarrow> keys \<Rightarrow> session \<Rightarrow> box option \<Rightarrow> bridge" where
  "build_bridge h c keys s bx =
     \<lparr>br_DB = s, br_Keys = keys, br_Config = c, br_Box = bx, br_Server = build_server h c keys bx,
      br_Notifier = \<lparr>nt_Keys = keys, nt_Lease = 0, nt_RetryAt = None\<rparr>,
      br_WebhookURL = g_ConsumerWebhookURL c,
      br_Scheduler = (if g_SchedulerEnabled c
         then Some \<lparr>sc_Engine = build_engine c bx, sc_Adyen = adyen_adapter c, sc_Box = bx, sc_Config = c, sc_Lease = 0\<rparr>
         else None)\<rparr>"

text \<open>\<open>main\<close>: the subject of the log line with which the process exits, or the service it runs.\<close>

definition or_exit :: "string \<Rightarrow> gerr + 'a \<Rightarrow> ('a \<Rightarrow> string + 'b) \<Rightarrow> string + 'b" where
  "or_exit subject r k = (case r of Inl _ \<Rightarrow> Inl subject | Inr x \<Rightarrow> k x)"

definition open_box :: "config \<Rightarrow> gerr + box option" where
  "open_box c = (if g_AdyenDataEncryptionKey c = [] then Inr None
     else bindR (NewBox (g_AdyenDataEncryptionKey c)) (\<lambda>bx. Inr (Some bx)))"

definition bridge_main :: "host \<Rightarrow> string + bridge" where
  "bridge_main h =
     or_exit ''config'' (Load h) (\<lambda>cfg.
     or_exit ''plans'' (LoadCatalogFile h cfg) (\<lambda>cfg.
     or_exit ''pairing_root'' (DeriveKeys (g_PairingRoot cfg)) (\<lambda>keys.
     or_exit ''database'' (h_Pool h (g_DatabaseURL cfg)) (\<lambda>s.
     or_exit ''schema'' (CheckSchema s) (\<lambda>_.
     or_exit ''encryption_key'' (open_box cfg) (\<lambda>bx.
     Inr (build_bridge h cfg keys s bx)))))))"

section \<open>What a started service is\<close>

lemma or_exit_Inr: "or_exit t r k = Inr b \<longleftrightarrow> (\<exists>x. r = Inr x \<and> k x = Inr b)"
  by (auto simp: or_exit_def split: sum.splits)

lemma bridge_main_Inr:
  assumes "bridge_main h = Inr b"
  obtains c0 c keys s bx where "Load h = Inr c0" "LoadCatalogFile h c0 = Inr c" "DeriveKeys (g_PairingRoot c) = Inr keys"
    "CheckSchema s = Inr ()" "open_box c = Inr bx" "b = build_bridge h c keys s bx"
  using assms by (auto simp: bridge_main_def or_exit_Inr)

lemma build_bridge_simps:
  "br_Config (build_bridge h c keys s bx) = c" "br_Keys (build_bridge h c keys s bx) = keys"
  "br_Box (build_bridge h c keys s bx) = bx"
  "br_Server (build_bridge h c keys s bx) = build_server h c keys bx"
  "br_Scheduler (build_bridge h c keys s bx) = (if g_SchedulerEnabled c
     then Some \<lparr>sc_Engine = build_engine c bx, sc_Adyen = adyen_adapter c, sc_Box = bx, sc_Config = c, sc_Lease = 0\<rparr> else None)"
  by (simp_all add: build_bridge_def)

text \<open>Loading the catalog changes the catalog and a missing default processor, and checks every plan.\<close>

lemma LoadCatalogFile_Inr:
  "LoadCatalogFile h c0 = Inr c \<Longrightarrow>
     ValidatePlans c = Inr () \<and> (\<exists>d cat. c = c0\<lparr>g_DefaultProcessor := d, g_Catalog := cat\<rparr>)"
  by (cases c0) (auto simp: LoadCatalogFile_def LoadCatalog_def bindR_eq_Inr Let_def split: if_split_asm)

lemma collect_durations_positive: "collect_durations pd ps = Inr ds \<Longrightarrow> list_all (\<lambda>d. 0 < d) ds"
  by (induction pd ps arbitrary: ds rule: collect_durations.induct)
    (auto simp: Let_def bindR_eq_Inr split: if_split_asm sum.splits)

text \<open>
  What \<open>IsHTTPSPublicURL\<close> asks: a URL whose normal form is \<^verbatim>\<open>https\<close> with any host, or \<^verbatim>\<open>http\<close> with a loopback one.
\<close>

definition usable_url :: "urllib \<Rightarrow> string \<Rightarrow> bool" where
  "usable_url ul raw \<longleftrightarrow>
     (\<exists>scheme host port rest. NormalizeReturnURL ul raw = Inr (scheme @ ''://'' @ url_authority host port @ rest)
        \<and> host \<noteq> [] \<and> has_prefix rest ''/'' \<and> (scheme = ''https'' \<or> scheme = ''http'' \<and> isLoopbackHost ul host))"

lemma usable: "IsHTTPSPublicURL ul raw = Inr () \<Longrightarrow> usable_url ul raw"
proof -
  assume "IsHTTPSPublicURL ul raw = Inr ()"
  then obtain url where url: "NormalizeReturnURL ul raw = Inr url" by (auto simp: IsHTTPSPublicURL_def bindR_eq_Inr)
  from NormalizeReturnURL_shape [OF this] url show ?thesis unfolding usable_url_def return_url_def by blast
qed

lemma Load_Inr:
  assumes "Load h = Inr c"
  shows "\<exists>r. ParsePairingRoot (g_PairingRoot c) = Inr r"
    and "usable_url (h_URL h) (g_PublicURL c)" "usable_url (h_URL h) (g_ConsumerWebhookURL c)"
    and "g_RenewalRetryDelays c \<noteq> [] \<and> list_all (\<lambda>d. 0 < d) (g_RenewalRetryDelays c)"
    and "0 \<le> g_DunningTermination c \<and> g_DunningTermination c \<le> 168 * hour"
    and "hour \<le> g_AdyenResolutionDeadline c \<and> g_AdyenResolutionDeadline c \<le> 144 * hour"
proof -
  obtain ds dn rs q where c: "c = (env_config h)\<lparr>g_RenewalRetryDelays := ds, g_DunningTermination := dn,
      g_AdyenResolutionDeadline := rs, g_QuarantineMaxRetention := q\<rparr>"
    and ds: "parseDurations (h_ParseDuration h) (getenv h ''BRIDGE_RENEWAL_RETRY_DELAYS'' ''24h,72h,120h'') = Inr ds"
    and dn: "parseBoundedDuration (h_ParseDuration h) (getenv h ''BRIDGE_DUNNING_TERMINATION_DELAY'' ''0s'') 0 (168 * hour) = Inr dn"
    and rs: "parseBoundedDuration (h_ParseDuration h) (getenv h ''BRIDGE_ADYEN_RESOLUTION_DEADLINE'' ''144h'') hour (144 * hour) = Inr rs"
    and core: "ValidateCore (h_URL h) c = Inr ()"
    using assms by (auto simp: Load_def Let_def bindR_eq_Inr)
  from core show "\<exists>r. ParsePairingRoot (g_PairingRoot c) = Inr r"
    "usable_url (h_URL h) (g_PublicURL c)" "usable_url (h_URL h) (g_ConsumerWebhookURL c)"
    by (auto simp: ValidateCore_def bindR_eq_Inr intro: usable)
  from ds have "ds \<noteq> []" "list_all (\<lambda>d. 0 < d) ds"
    by (auto simp: parseDurations_def bindR_eq_Inr split: if_split_asm dest: collect_durations_positive)
  with c show "g_RenewalRetryDelays c \<noteq> [] \<and> list_all (\<lambda>d. 0 < d) (g_RenewalRetryDelays c)" by simp
  from dn rs c show "0 \<le> g_DunningTermination c \<and> g_DunningTermination c \<le> 168 * hour"
    "hour \<le> g_AdyenResolutionDeadline c \<and> g_AdyenResolutionDeadline c \<le> 144 * hour"
    by (auto simp: parseBoundedDuration_def bindR_eq_Inr split: if_split_asm)
qed

text \<open>A plan of a checked catalog resolves to a processor whose credentials are there.\<close>

lemma resolved_plan:
  assumes "ValidatePlans c = Inr ()" and "ResolvePlan c i = Inr (p, proc)"
  shows "0 < pl_AmountMinor p \<and> pl_Currency p \<noteq> []
    \<and> (proc = ProcessorStripe \<and> sp_PriceID (pl_Stripe p) \<noteq> [] \<and> g_StripeSecretKey c \<noteq> [] \<and> g_StripeWebhookSecret c \<noteq> []
     \<or> proc = ProcessorAdyen \<and> ap_MerchantAccount (pl_Adyen p) \<noteq> [] \<and> g_AdyenAPIKey c \<noteq> [] \<and> g_AdyenHMACKey c \<noteq> []
       \<and> g_AdyenClientKey c \<noteq> [] \<and> g_AdyenDataEncryptionKey c \<noteq> [])"
proof -
  let ?def = "if g_DefaultProcessor c = [] then cat_DefaultProcessor (g_Catalog c) else g_DefaultProcessor c"
  obtain q where q: "map_of (cat_Plans (g_Catalog c)) i = Some q"
    "proc = (if pl_Processor q = [] then ?def else pl_Processor q)" "p = q\<lparr>pl_Processor := proc\<rparr>"
    using assms(2) by (auto simp: ResolvePlan_def Let_def split: option.splits)
  obtain selected where sel: "plan_checks ?def (cat_Plans (g_Catalog c)) = Inr selected"
    and stripe: "ProcessorStripe \<in> set selected \<Longrightarrow> g_StripeSecretKey c \<noteq> [] \<and> g_StripeWebhookSecret c \<noteq> []"
    and adyen: "ProcessorAdyen \<in> set selected \<Longrightarrow> g_AdyenAPIKey c \<noteq> [] \<and> g_AdyenHMACKey c \<noteq> [] \<and> g_AdyenClientKey c \<noteq> []
        \<and> g_AdyenDataEncryptionKey c \<noteq> []"
    using assms(1) by (auto simp: ValidatePlans_def Let_def bindR_eq_Inr split: if_split_asm)
  obtain proc' where check: "proc' \<in> set selected" "plan_check ?def (i, q) = Inr proc'"
    using plan_checks_Inr [OF sel] map_of_SomeD [OF q(1)] by blast
  then have "proc' = proc" by (simp add: plan_check_Inr q(2))
  with check stripe adyen show ?thesis by (auto simp: plan_check_Inr q(3))
qed

lemma started_configured:
  assumes "bridge_main h = Inr b"
  shows "length (g_PairingRoot (br_Config b)) = 64 \<and> list_all is_lower_hex (g_PairingRoot (br_Config b))
      \<and> DeriveKeys (g_PairingRoot (br_Config b)) = Inr (br_Keys b)"
    and "usable_url (h_URL h) (g_PublicURL (br_Config b)) \<and> usable_url (h_URL h) (g_ConsumerWebhookURL (br_Config b))"
    and "g_RenewalRetryDelays (br_Config b) \<noteq> [] \<and> list_all (\<lambda>d. 0 < d) (g_RenewalRetryDelays (br_Config b))
      \<and> 0 \<le> g_DunningTermination (br_Config b) \<and> g_DunningTermination (br_Config b) \<le> 168 * hour
      \<and> hour \<le> g_AdyenResolutionDeadline (br_Config b) \<and> g_AdyenResolutionDeadline (br_Config b) \<le> 144 * hour"
    and "\<forall>i p proc. ResolvePlan (br_Config b) i = Inr (p, proc) \<longrightarrow>
      0 < pl_AmountMinor p \<and> hs_Checkout (br_Server b healthy now) proc \<noteq> None
      \<and> (proc = ProcessorStripe \<and> sp_PriceID (pl_Stripe p) \<noteq> []
       \<or> proc = ProcessorAdyen \<and> br_Box b \<noteq> None \<and> hs_AdyenSession (br_Server b healthy now) \<noteq> None
         \<and> (\<forall>sc. br_Scheduler b = Some sc \<longrightarrow> sc_Adyen sc \<noteq> None \<and> sc_Box sc = br_Box b))"
proof -
  obtain c0 c keys s bx where m: "Load h = Inr c0" "LoadCatalogFile h c0 = Inr c" "DeriveKeys (g_PairingRoot c) = Inr keys"
    "open_box c = Inr bx" "b = build_bridge h c keys s bx"
    using assms by (rule bridge_main_Inr)
  obtain d cat where c: "c = c0\<lparr>g_DefaultProcessor := d, g_Catalog := cat\<rparr>" and plans: "ValidatePlans c = Inr ()"
    using LoadCatalogFile_Inr [OF m(2)] by blast
  show "length (g_PairingRoot (br_Config b)) = 64 \<and> list_all is_lower_hex (g_PairingRoot (br_Config b))
      \<and> DeriveKeys (g_PairingRoot (br_Config b)) = Inr (br_Keys b)"
    using m(3,5) Load_Inr(1) [OF m(1)] by (simp add: build_bridge_simps c ParsePairingRoot_iff)
  show "usable_url (h_URL h) (g_PublicURL (br_Config b)) \<and> usable_url (h_URL h) (g_ConsumerWebhookURL (br_Config b))"
    using Load_Inr(2,3) [OF m(1)] by (simp add: m(5) c build_bridge_simps)
  show "g_RenewalRetryDelays (br_Config b) \<noteq> [] \<and> list_all (\<lambda>d. 0 < d) (g_RenewalRetryDelays (br_Config b))
      \<and> 0 \<le> g_DunningTermination (br_Config b) \<and> g_DunningTermination (br_Config b) \<le> 168 * hour
      \<and> hour \<le> g_AdyenResolutionDeadline (br_Config b) \<and> g_AdyenResolutionDeadline (br_Config b) \<le> 144 * hour"
    using Load_Inr(4-6) [OF m(1)] by (simp add: m(5) c build_bridge_simps)
  have box: "g_AdyenDataEncryptionKey c \<noteq> [] \<Longrightarrow> bx \<noteq> None" using m(4) by (auto simp: open_box_def bindR_eq_Inr)
  show "\<forall>i p proc. ResolvePlan (br_Config b) i = Inr (p, proc) \<longrightarrow>
      0 < pl_AmountMinor p \<and> hs_Checkout (br_Server b healthy now) proc \<noteq> None
      \<and> (proc = ProcessorStripe \<and> sp_PriceID (pl_Stripe p) \<noteq> []
       \<or> proc = ProcessorAdyen \<and> br_Box b \<noteq> None \<and> hs_AdyenSession (br_Server b healthy now) \<noteq> None
         \<and> (\<forall>sc. br_Scheduler b = Some sc \<longrightarrow> sc_Adyen sc \<noteq> None \<and> sc_Box sc = br_Box b))"
    using resolved_plan [OF plans] box
    by (fastforce simp: m(5) build_bridge_simps build_server_def checkout_adapters_def stripe_adapter_def adyen_adapter_def
        split: if_split_asm)
qed

text \<open>
  C35.  A service that starts can serve: its keys are derived from the configured root, which is 64 lowercase
  hexadecimal digits; its own and the consumer's URL have a normal form, over HTTPS or, for a loopback host
  only, over HTTP; there is at least one retry delay and all are positive, the dunning delay is between nothing
  and 168 hours and the resolution deadline between one and 144 hours; and every plan that can be resolved
  has a price and an adapter for its processor, with a box and an update session for Adyen, for which the
  scheduler then has an adapter too.
\<close>

theorem started_service_configured:
  assumes "bridge_main h = Inr b"
  shows "length (g_PairingRoot (br_Config b)) = 64 \<and> list_all is_lower_hex (g_PairingRoot (br_Config b))
    \<and> DeriveKeys (g_PairingRoot (br_Config b)) = Inr (br_Keys b)
    \<and> usable_url (h_URL h) (g_PublicURL (br_Config b)) \<and> usable_url (h_URL h) (g_ConsumerWebhookURL (br_Config b))
    \<and> g_RenewalRetryDelays (br_Config b) \<noteq> [] \<and> list_all (\<lambda>d. 0 < d) (g_RenewalRetryDelays (br_Config b))
    \<and> 0 \<le> g_DunningTermination (br_Config b) \<and> g_DunningTermination (br_Config b) \<le> 168 * hour
    \<and> hour \<le> g_AdyenResolutionDeadline (br_Config b) \<and> g_AdyenResolutionDeadline (br_Config b) \<le> 144 * hour
    \<and> (\<forall>i p proc. ResolvePlan (br_Config b) i = Inr (p, proc) \<longrightarrow>
        0 < pl_AmountMinor p \<and> hs_Checkout (br_Server b healthy now) proc \<noteq> None
        \<and> (proc = ProcessorStripe \<and> sp_PriceID (pl_Stripe p) \<noteq> []
         \<or> proc = ProcessorAdyen \<and> br_Box b \<noteq> None \<and> hs_AdyenSession (br_Server b healthy now) \<noteq> None
           \<and> (\<forall>sc. br_Scheduler b = Some sc \<longrightarrow> sc_Adyen sc \<noteq> None \<and> sc_Box sc = br_Box b)))"
  using started_configured [OF assms] by blast

text \<open>
  How a start ends once the environment and the catalog load: it stops because the database cannot be opened,
  because the query of the schema's version fails or finds another one, or because the encryption key that is
  configured is not a key.
\<close>

lemma startup_cases:
  assumes "load_config h = Inr c"
  shows "case h_Pool h (g_DatabaseURL c) of
      Inl _ \<Rightarrow> bridge_main h = Inl ''database''
    | Inr s \<Rightarrow>
        if pgSchemaVersion s \<noteq> Inr CurrentSchemaVersion then bridge_main h = Inl ''schema''
        else if g_AdyenDataEncryptionKey c = [] then \<exists>b. bridge_main h = Inr b \<and> br_Box b = None
        else if length (g_AdyenDataEncryptionKey c) = 64 \<and> list_all is_lower_hex (g_AdyenDataEncryptionKey c)
          then \<exists>b bx. bridge_main h = Inr b \<and> br_Box b = Some bx \<and> hex_encode (b_key bx) = g_AdyenDataEncryptionKey c
        else bridge_main h = Inl ''encryption_key''"
proof -
  obtain c0 where c0: "Load h = Inr c0" "LoadCatalogFile h c0 = Inr c" using assms by (auto simp: load_config_def bindR_eq_Inr)
  obtain d cat where "c = c0\<lparr>g_DefaultProcessor := d, g_Catalog := cat\<rparr>" using LoadCatalogFile_Inr [OF c0(2)] by blast
  then obtain keys where keys: "DeriveKeys (g_PairingRoot c) = Inr keys" using Load_Inr(1) [OF c0(1)] DeriveKeys_ok by auto
  note main = bridge_main_def or_exit_def c0 keys open_box_def build_bridge_simps
  have bad: "\<exists>e. NewBox k = Inl e" if "\<not> (length k = 64 \<and> list_all is_lower_hex k)" for k
    using that by (auto simp: NewBox_def)
  have schema: "CheckSchema s = (if pgSchemaVersion s = Inr CurrentSchemaVersion then Inr () else Inl ErrSchemaMismatch)" for s
    by (simp add: CheckSchema_def split: sum.split)
  show ?thesis
  proof (cases "h_Pool h (g_DatabaseURL c)")
    case (Inr s)
    show ?thesis
    proof (cases "length (g_AdyenDataEncryptionKey c) = 64 \<and> list_all is_lower_hex (g_AdyenDataEncryptionKey c)")
      case True
      then obtain bx where "NewBox (g_AdyenDataEncryptionKey c) = Inr bx" using NewBox_accepts by blast
      with NewBox_Inr [OF this] True Inr show ?thesis by (auto simp: main schema)
    next
      case False
      obtain e where "NewBox (g_AdyenDataEncryptionKey c) = Inl e" using bad [OF False] by blast
      with False Inr show ?thesis by (auto simp: main schema)
    qed
  qed (simp add: main)
qed

subsection \<open>Webhooks\<close>

text \<open>What it takes for the adapter of a family to answer a body with events.\<close>

definition authentic :: "host \<Rightarrow> config \<Rightarrow> gotime \<Rightarrow> string \<Rightarrow> (string \<Rightarrow> string) \<Rightarrow> bytes \<Rightarrow> bool" where
  "authentic h c now family header body \<longleftrightarrow>
     family = ProcessorStripe \<and> g_StripeWebhookSecret c \<noteq> []
       \<and> (case signature_parts (header ''Stripe-Signature'') of (ts, v1) \<Rightarrow>
            list_ex (\<lambda>got. to_lower got = stripe_mac (g_StripeWebhookSecret c) ts body) v1
            \<and> (case parse_int64 ts of None \<Rightarrow> False | Some unix \<Rightarrow> ValidateReplayWindow unix now = Inr ()))
     \<or> family = ProcessorAdyen
       \<and> (case notification_items body of None \<Rightarrow> False
          | Some is \<Rightarrow> list_all (signed_item (h_Number h) (h_Sprint h) (g_AdyenHMACKey c)) (List.map_filter (\<lambda>i. i) is))"

lemma TrimSpace_Nil: "TrimSpace [] = []"
  by code_simp

lemma webhook_adapters_authentic:
  assumes "webhook_adapters h c now family header body = Some (Inr evs)"
  shows "authentic h c now family header body"
proof (cases "family = ProcessorStripe")
  case True
  with assms have "StripeParseWebhook (the (stripe_adapter c)) now (header ''Stripe-Signature'') body = Inr evs"
    and st: "st_WebhookSecret (the (stripe_adapter c)) = g_StripeWebhookSecret c"
    by (auto simp: webhook_adapters_def stripe_adapter_def split: if_split_asm)
  then have "TrimSpace (g_StripeWebhookSecret c) \<noteq> []"
    and v: "verifyStripeSignature (header ''Stripe-Signature'') body (g_StripeWebhookSecret c) now = Inr ()"
    by (auto simp: StripeParseWebhook_def bindR_eq_Inr)
  then have "g_StripeWebhookSecret c \<noteq> []" using TrimSpace_Nil by auto
  with v True verify_iff [OF this] show ?thesis by (fastforce simp: authentic_def list_ex_iff)
next
  case False
  with assms show ?thesis
    by (auto simp: webhook_adapters_def authentic_def adyen_adapter_def ParseWebhook_def normalize_items_signed
        split: if_split_asm option.splits)
qed

lemma webhook_adapters_refused:
  assumes "\<not> authentic h c now family header body"
  shows "webhook_adapters h c now family header body = None
    \<or> (\<exists>e. webhook_adapters h c now family header body = Some (Inl e))"
  using assms webhook_adapters_authentic [of h c now family header body]
  by (cases "webhook_adapters h c now family header body"; cases "the (webhook_adapters h c now family header body)") auto

text \<open>
  C36.  A started service believes its processors alone: a webhook whose body, cut to the size that is read, does
  not carry the signature of the configured secret, for Stripe within the replay window, for Adyen on every
  item, is answered with an error and changes nothing in the store.
\<close>

theorem started_service_authentic:
  assumes "bridge_main h = Inr b" and "handle (br_Server b healthy now) (Webhook family header body) w = (Inr resp, w')"
    and "\<not> authentic h (br_Config b) now family header (readBody maxWebhookBody body)"
  shows "resp \<in> {Status 400, Status 404, Status 500} \<and> w' = w"
proof -
  obtain c keys s bx where b: "b = build_bridge h c keys s bx" using assms(1) by (rule bridge_main_Inr)
  note refused = webhook_adapters_refused [OF assms(3)]
  show ?thesis using assms(2) refused
    by (auto simp: b build_bridge_simps build_server_def handle_def webhook_handler_def respond_def IngestAndProcess_def
        bindT_def attemptT_def liftT_def retT_def errT_def split: if_split_asm)
qed

section \<open>A host\<close>

text \<open>An environment with one plan at Stripe, a database with the schema, and an encryption key of the caller's.\<close>

definition sample_env :: "string \<Rightarrow> string \<Rightarrow> string" where
  "sample_env key k =
     (if k = ''BRIDGE_CONSUMER_PAIRING_ROOT'' then sample_key
      else if k = ''BRIDGE_PUBLIC_URL'' then ''https://shop'' else if k = ''CONSUMER_WEBHOOK_URL'' then ''https://shop''
      else if k = ''BRIDGE_DATABASE_URL'' then ''db'' else if k = ''BRIDGE_DEFAULT_PROCESSOR'' then ''stripe''
      else if k = ''STRIPE_SECRET_KEY'' then ''sk'' else if k = ''STRIPE_WEBHOOK_SECRET'' then ''wh''
      else if k = ''ADYEN_DATA_ENCRYPTION_KEY'' then key else [])"

definition sample_session :: session where
  "sample_session = \<lparr>db = \<lparr>sb_checkouts = [], sb_subscriptions = [], sb_outbound_events = [], sb_processor_events = [],
     sb_processing_leases = [], sb_scheduled_actions = [], sb_charge_attempts = [], sb_operator_audit = [],
     sb_schema_migrations = [1]\<rparr>,
     dbms_of = \<lparr>timestamptz = (\<lambda>t. t), uuid_text = Some, text_ok = (\<lambda>_. True), jsonb_ok = (\<lambda>_. True), jsonb_fields = Some,
       gen_random_uuid = (\<lambda>_. []), version_error = None\<rparr>,
     pg_clock = 0, tx_now = 0, rand = [], failed = False, busy = False, statements = 0, locked = []\<rparr>"

definition sample_host :: "string \<Rightarrow> host" where
  "sample_host key = \<lparr>h_Getenv = sample_env key, h_ReadFile = (\<lambda>_. Inr []),
     h_Yaml = (\<lambda>_. Inr (ProcessorStripe, Some [(''pro'', sample_plan)])),
     h_ParseDuration = (\<lambda>_. Inr hour), h_URL = sample_urllib, h_Pool = (\<lambda>_. Inr sample_session),
     h_StripePost = (\<lambda>_ _ _ _ _. Inr (200, [])), h_StripeGet = (\<lambda>_ _. Inr (200, [])), h_Adyen = (\<lambda>_ _ _ _ _. Answered 200 []),
     h_MapOrder = (\<lambda>fs. fs), h_Timeout = (\<lambda>_. False), h_Number = (\<lambda>_. 0), h_Sprint = (\<lambda>_. []), h_Asset = (\<lambda>_. None)\<rparr>"

lemma sample_root: "length sample_key = 64" "list_all is_lower_hex sample_key" "sample_key \<noteq> []"
  by (simp_all add: sample_key_def eval_nat_numeral is_lower_hex_def ord_def)

lemma TrimSpace_graphic:
  assumes "list_all (\<lambda>c. 33 \<le> ord c \<and> ord c < 127) s"
  shows "TrimSpace s = s"
proof (cases "s = []")
  case False
  then have "33 \<le> ord (hd s)" "ord (hd s) < 127" "33 \<le> ord (last s)" "ord (last s) < 127"
    using assms by (auto simp: list_all_iff)
  with False show ?thesis by (intro TrimSpace_ascii) (auto simp: is_space_def)
qed (simp add: TrimSpace_Nil)

lemma sample_trims: "TrimSpace sample_key = sample_key" "TrimSpace ''https://shop'' = ''https://shop''" "TrimSpace ''db'' = ''db''"
  "TrimSpace ''stripe'' = ''stripe''" "TrimSpace ''sk'' = ''sk''" "TrimSpace ''wh'' = ''wh''" "TrimSpace ''k'' = ''k''"
proof -
  show "TrimSpace sample_key = sample_key"
    by (rule TrimSpace_graphic) (use sample_root(2) in \<open>auto simp: list_all_iff is_lower_hex_def\<close>)
qed (rule TrimSpace_graphic, simp add: ord_def)+

lemma sample_url: "IsHTTPSPublicURL sample_urllib ''https://shop'' = Inr ()"
proof -
  have "NormalizeReturnURL sample_urllib ''https://shop'' = Inr ''https://shop/''" by code_simp
  then show ?thesis by (simp add: IsHTTPSPublicURL_def sample_urllib_def)
qed

lemma sample_delays: "parseDurations (\<lambda>_. Inr hour) ''24h,72h,120h'' = Inr [hour, hour, hour]"
proof -
  have "TrimSpace ''24h'' = ''24h''" "TrimSpace ''72h'' = ''72h''" "TrimSpace ''120h'' = ''120h''"
    by (rule TrimSpace_graphic, simp add: ord_def)+
  then show ?thesis by (simp add: parseDurations_def hour_def minute_def second_def)
qed

lemma sample_listen: "SplitHostPort ''127.0.0.1:8081'' = Some (''127.0.0.1'', ''8081'')"
  by code_simp

lemma sample_bounds: "parseBoundedDuration (\<lambda>_. Inr hour) r 0 (168 * hour) = Inr hour"
  "parseBoundedDuration (\<lambda>_. Inr hour) r hour (144 * hour) = Inr hour"
  "parseBoundedDuration (\<lambda>_. Inr hour) r hour (168 * hour) = Inr hour"
  by (simp_all add: parseBoundedDuration_def hour_def minute_def second_def)

lemma sample_loads:
  assumes "TrimSpace key = key"
  shows "\<exists>c. load_config (sample_host key) = Inr c \<and> g_AdyenDataEncryptionKey c = key \<and> g_DatabaseURL c = ''db''
    \<and> g_StripeWebhookSecret c = ''wh'' \<and> g_StripeSecretKey c = ''sk''"
proof -
  obtain root where root: "ParsePairingRoot sample_key = Inr root"
    using sample_root(1,2) hex_decode_lower [of sample_key] by (auto simp: ParsePairingRoot_iff intro: hex_encode_decode)
  note env = sample_host_def sample_env_def env_config_def getenv_def assms sample_trims TrimSpace_Nil
  obtain c where c: "Load (sample_host key) = Inr c" "g_AdyenDataEncryptionKey c = key" "g_DatabaseURL c = ''db''"
    "g_DefaultProcessor c = ProcessorStripe" "g_StripeSecretKey c = ''sk''" "g_StripeWebhookSecret c = ''wh''"
    by (simp add: Load_def env sample_delays sample_bounds ValidateCore_def root sample_url sample_listen)
  have "plan_check ProcessorStripe (''pro'', sample_plan) = Inr ProcessorStripe"
    by (simp add: plan_check_Inr ValidatePlanID_pro sample_plan_def)
  then have "LoadCatalogFile (sample_host key) c
      = Inr (c\<lparr>g_Catalog := \<lparr>cat_DefaultProcessor = ProcessorStripe, cat_Plans = [(''pro'', sample_plan)]\<rparr>\<rparr>)"
    using c(4-6) by (simp add: LoadCatalogFile_def LoadCatalog_def ParseCatalog_def ValidatePlans_def sample_host_def)
  with c show ?thesis by (simp add: load_config_def)
qed

lemma sample_schema: "h_Pool (sample_host key) u = Inr sample_session" "pgSchemaVersion sample_session = Inr CurrentSchemaVersion"
  by (simp_all add: sample_host_def sample_session_def pgSchemaVersion_def CurrentSchemaVersion_def)

lemma sample_starts: "\<exists>b. bridge_main (sample_host []) = Inr b \<and> g_StripeWebhookSecret (br_Config b) = ''wh''
    \<and> g_StripeSecretKey (br_Config b) = ''sk''"
proof -
  obtain c0 c where c: "Load (sample_host []) = Inr c0" "LoadCatalogFile (sample_host []) c0 = Inr c"
    "g_AdyenDataEncryptionKey c = []" "g_StripeWebhookSecret c = ''wh''" "g_StripeSecretKey c = ''sk''"
    using sample_loads [of "[]"] by (auto simp: TrimSpace_Nil load_config_def bindR_eq_Inr)
  obtain d cat where "c = c0\<lparr>g_DefaultProcessor := d, g_Catalog := cat\<rparr>" using LoadCatalogFile_Inr [OF c(2)] by blast
  then obtain keys where "DeriveKeys (g_PairingRoot c) = Inr keys" using Load_Inr(1) [OF c(1)] DeriveKeys_ok by auto
  then show ?thesis
    by (simp add: bridge_main_def or_exit_def c sample_schema CheckSchema_def open_box_def build_bridge_simps)
qed

theorem started_service_configured_witness:
  "\<exists>b. bridge_main (sample_host []) = Inr b \<and> DeriveKeys (g_PairingRoot (br_Config b)) = Inr (br_Keys b)"
  using sample_starts started_service_configured [of "sample_host []"] by blast

theorem started_service_authentic_witness:
  "\<exists>b w'. bridge_main (sample_host []) = Inr b
     \<and> handle (br_Server b True 0) (Webhook ProcessorStripe (\<lambda>_. []) ''{}'') sample_world = (Inr (Status 400), w')
     \<and> w' = sample_world"
proof -
  obtain b where b: "bridge_main (sample_host []) = Inr b" "g_StripeWebhookSecret (br_Config b) = ''wh''"
      "g_StripeSecretKey (br_Config b) = ''sk''"
    using sample_starts by blast
  obtain c keys s bx where m: "b = build_bridge (sample_host []) c keys s bx" using b(1) by (rule bridge_main_Inr)
  let ?body = "readBody maxWebhookBody ''{}''"
  have no: "\<not> authentic (sample_host []) (br_Config b) 0 ProcessorStripe (\<lambda>_. []) ?body"
    by (simp add: authentic_def signature_parts_empty)
  have "\<exists>w'. handle (br_Server b True 0) (Webhook ProcessorStripe (\<lambda>_. []) ''{}'') sample_world = (Inr (Status 400), w')"
    using b(2,3) sample_trims(6)
    by (simp add: m build_bridge_simps build_server_def handle_def webhook_handler_def respond_def IngestAndProcess_def
        webhook_adapters_def stripe_adapter_def StripeParseWebhook_def verifyStripeSignature_def bindT_def)
  with started_service_authentic [OF b(1) _ no] b(1) show ?thesis by blast
qed

end
