(* ===== verification/Fake.thy ===== *)
theory Fake
  imports Startup
begin

text \<open>
  \<^verbatim>\<open>internal/adapters/fake/fake.go\<close>, the processor that answers by itself, and \<^verbatim>\<open>cmd/mock-bridge/main.go\<close>,
  the service built on it that consumers test against.  The adapter's fields are a record that every operation
  threads; its tests set \<open>FailNext\<close>, \<open>Uncertain\<close> and \<open>ChargeResult\<close> directly.
\<close>

section \<open>The adapter\<close>

record fake =
  fk_FamilyName :: string
  fk_Sessions :: "(string \<times> string) list"
  fk_Subs :: "(string \<times> subscription_state) list"
  fk_FailNext :: "gerr option"
  fk_Uncertain :: bool
  fk_LastCharge :: renewal_request
  fk_LastPaymentUpdate :: payment_update_request
  fk_ChargeResult :: "renewal_result option"

definition zero_payment_update :: payment_update_request where
  "zero_payment_update = \<lparr>pu_CheckoutID = [], pu_ShopperRef = [], pu_ReturnURL = [], pu_IdempotencyKey = [],
     pu_AmountMinor = 0, pu_Currency = [], pu_MerchantAccount = [], pu_CountryCode = []\<rparr>"

definition NewFake :: "string \<Rightarrow> fake" where
  "NewFake family = \<lparr>fk_FamilyName = family, fk_Sessions = [], fk_Subs = [], fk_FailNext = None, fk_Uncertain = False,
     fk_LastCharge = zero_renewal_request, fk_LastPaymentUpdate = zero_payment_update, fk_ChargeResult = None\<rparr>"

definition fake_url :: "string \<Rightarrow> string" where
  "fake_url checkoutID = ''https://processor.example/checkout/'' @ checkoutID"

definition fake_result :: "checkout_request \<Rightarrow> string \<Rightarrow> checkout_result" where
  "fake_result rq url = zero_checkout_result\<lparr>rs_RedirectURL := url, rs_ProcessorCheckoutID := rq_CheckoutID rq,
     rs_ExpiresAt := rq_ExpiresAt rq\<rparr>"

definition FakeCreateCheckout :: "checkout_request \<Rightarrow> fake \<Rightarrow> (checkout_result \<times> gerr option) \<times> fake" where
  "FakeCreateCheckout rq f =
     (case fk_FailNext f of
        Some e \<Rightarrow> ((zero_checkout_result\<lparr>rs_Uncertain := fk_Uncertain f\<rparr>, Some e), f\<lparr>fk_FailNext := None\<rparr>)
      | None \<Rightarrow>
          (case map_of (fk_Sessions f) (rq_IdempotencyKey rq) of
             Some url \<Rightarrow> ((fake_result rq url, None), f)
           | None \<Rightarrow>
               let url = fake_url (rq_CheckoutID rq)
               in ((fake_result rq url, None), f\<lparr>fk_Sessions := AList.update (rq_IdempotencyKey rq) url (fk_Sessions f)\<rparr>)))"

definition FakeCreatePortalSession :: "string \<Rightarrow> string \<Rightarrow> gerr + string" where
  "FakeCreatePortalSession customer returnURL = Inr (returnURL @ ''/portal'')"

definition FakeCreatePaymentUpdateSession ::
  "payment_update_request \<Rightarrow> fake \<Rightarrow> (gerr + payment_update_session) \<times> fake" where
  "FakeCreatePaymentUpdateSession rq f =
     (let f = f\<lparr>fk_LastPaymentUpdate := rq\<rparr>
      in case fk_FailNext f of
           Some e \<Rightarrow> (Inl e, f\<lparr>fk_FailNext := None\<rparr>)
         | None \<Rightarrow>
             (if pu_ShopperRef rq = [] \<or> pu_CheckoutID rq = [] then Inl (ErrOther ''missing shopper or checkout'')
              else Inr \<lparr>us_ID = ''CS_fake'', us_SessionData = ''session_fake''\<rparr>, f))"

text \<open>The fixture of a webhook: a struct of strings and one boolean; a member of another type is an error.\<close>

fun bool_members :: "(string \<times> json) list \<Rightarrow> string \<Rightarrow> bool \<Rightarrow> gerr + bool" where
  "bool_members [] name b = Inr b"
| "bool_members ((k, v) # ms) name b =
     (if fold_name k \<noteq> fold_name name then bool_members ms name b
      else case v of
             JNull \<Rightarrow> bool_members ms name b
           | JBool c \<Rightarrow> bool_members ms name c
           | _ \<Rightarrow> Inl ErrInvalidJSON)"

fun all_strings :: "(string \<times> json) list \<Rightarrow> string list \<Rightarrow> gerr + string list" where
  "all_strings ms [] = Inr []"
| "all_strings ms (n # ns) = bindR (string_members ms n []) (\<lambda>s. bindR (all_strings ms ns) (\<lambda>ss. Inr (s # ss)))"

definition fixture_members :: "bytes \<Rightarrow> gerr + (string \<times> json) list" where
  "fixture_members body =
     (case json_document body of
        Some (JObj ms) \<Rightarrow> Inr ms | Some JNull \<Rightarrow> Inr [] | _ \<Rightarrow> Inl ErrInvalidJSON)"

definition optional_field :: "string \<Rightarrow> string \<Rightarrow> (string \<times> anyval) list" where
  "optional_field name v = (if v = [] then [] else [(name, AStr v)])"

definition FakeParseWebhook :: "gotime \<Rightarrow> bytes \<Rightarrow> fake \<Rightarrow> gerr + normalized_event list" where
  "FakeParseWebhook now body f =
     bindR (fixture_members body) (\<lambda>ms.
     bindR (all_strings ms [''kind'', ''event_id'', ''checkout_id'', ''processor_subscription_id'', ''processor_customer_id'',
        ''attempt_reference'', ''processor_payment_id'', ''provider_status'', ''token'']) (\<lambda>fs.
     bindR (bool_members ms ''success'' False) (\<lambda>success.
     let kind0 = fs ! 0; subID = fs ! 3;
         kind = (if kind0 \<noteq> [] then kind0
                 else if fk_FamilyName f = ProcessorStripe then KindStripeCheckoutChanged else KindAdyenInitialAuthorisation)
     in Inr [\<lparr>n_ProcessorFamily = fk_FamilyName f, n_ProcessorEventID = fs ! 1, n_ProviderEventType = kind0,
              n_NormalizedKind = kind, n_PayloadHash = sha256 body, n_OccurredAt = now,
              n_Fields = [(''provider_occurred_at'', AStr (FormatUTC now))]
                @ optional_field ''checkout_id'' (fs ! 2)
                @ (if subID = [] then []
                   else [(''processor_subscription_id'', AStr subID), (''authoritative_refresh_required'', ABool True)])
                @ optional_field ''processor_customer_id'' (fs ! 4)
                @ optional_field ''attempt_reference'' (fs ! 5)
                @ optional_field ''processor_payment_id'' (fs ! 6)
                @ optional_field ''provider_status'' (fs ! 7)
                @ [(''success'', ABool success)],
              n_SensitivePlain = fs ! 8\<rparr>])))"

definition FakeGetSubscription :: "gotime \<Rightarrow> string \<Rightarrow> string \<Rightarrow> fake \<Rightarrow> gerr + subscription_state option" where
  "FakeGetSubscription clock subID customer f =
     Inr (Some (case map_of (fk_Subs f) subID of
       Some st \<Rightarrow> st
     | None \<Rightarrow>
         let now = TruncateUTC clock
         in \<lparr>ss_Status = StatusActive, ss_PlanPriceID = [], ss_CurrentPeriodStart = now,
             ss_CurrentPeriodEnd = AddCalendarMonths now 1, ss_CancelAtPeriodEnd = False,
             ss_ProcessorCustomerID = customer, ss_ProcessorSubID = subID, ss_ImmediateCancel = False, ss_Deleted = False\<rparr>))"

definition FakeCancelSubscription :: "string \<Rightarrow> bool \<Rightarrow> fake \<Rightarrow> fake" where
  "FakeCancelSubscription subID atPeriodEnd f =
     (case map_of (fk_Subs f) subID of
        None \<Rightarrow> f
      | Some st \<Rightarrow>
          let st = st\<lparr>ss_CancelAtPeriodEnd := atPeriodEnd\<rparr>;
              st = (if \<not> atPeriodEnd then st\<lparr>ss_ImmediateCancel := True, ss_Status := StatusExpired\<rparr>
                    else st\<lparr>ss_CancelAtPeriodEnd := True, ss_Status := StatusCanceled\<rparr>)
          in f\<lparr>fk_Subs := AList.update subID st (fk_Subs f)\<rparr>)"

text \<open>\<open>timeout\<close> is \<open>IsTimeout\<close>.\<close>

definition FakeChargeRenewal ::
  "(gerr \<Rightarrow> bool) \<Rightarrow> renewal_request \<Rightarrow> fake \<Rightarrow> (renewal_result \<times> gerr option) \<times> fake" where
  "FakeChargeRenewal timeout rq f =
     (let f = f\<lparr>fk_LastCharge := rq\<rparr>
      in if fk_FamilyName f = ProcessorStripe then ((zero_renewal_result, Some ErrProviderManaged), f)
         else case fk_FailNext f of
           Some e \<Rightarrow> ((zero_renewal_result\<lparr>rw_Uncertain := fk_Uncertain f \<or> timeout e\<rparr>, Some e), f\<lparr>fk_FailNext := None\<rparr>)
         | None \<Rightarrow>
             ((if fk_Uncertain f then zero_renewal_result\<lparr>rw_Uncertain := True\<rparr>
               else case fk_ChargeResult f of
                 Some r \<Rightarrow> r
               | None \<Rightarrow> zero_renewal_result\<lparr>rw_Status := ''authorized'', rw_ProcessorPaymentID := ''pay_fake''\<rparr>, None), f))"

definition FakeResolveRenewalAttempt ::
  "(gerr \<Rightarrow> bool) \<Rightarrow> renewal_attempt \<Rightarrow> fake \<Rightarrow> (renewal_result \<times> gerr option) \<times> fake" where
  "FakeResolveRenewalAttempt timeout att f =
     FakeChargeRenewal timeout (zero_renewal_request\<lparr>rr_Endpoint := ra_Endpoint att, rr_APIVersion := ra_APIVersion att,
       rr_IdempotencyKey := ra_IdempotencyKey att, rr_CanonicalBody := ra_CanonicalBody att,
       rr_AttemptReference := ra_AttemptRef att\<rparr>) f"

definition SetSub :: "string \<Rightarrow> subscription_state \<Rightarrow> fake \<Rightarrow> fake" where
  "SetSub i st f = f\<lparr>fk_Subs := AList.update i st (fk_Subs f)\<rparr>"

section \<open>The mock service\<close>

definition mock_plan :: plan where
  "mock_plan = \<lparr>pl_Processor = ProcessorStripe, pl_Currency = ''USD'', pl_AmountMinor = 500, pl_Interval = ''month'',
     pl_Stripe = \<lparr>sp_PriceID = ''price_fake''\<rparr>, pl_Adyen = \<lparr>ap_MerchantAccount = [], ap_CountryCode = []\<rparr>\<rparr>"

text \<open>Unlike the service's own, the mock's environment values are not trimmed.\<close>

definition raw_getenv :: "(string \<Rightarrow> string) \<Rightarrow> string \<Rightarrow> string \<Rightarrow> string" where
  "raw_getenv env k d = (if env k \<noteq> [] then env k else d)"

definition mock_root :: "(string \<Rightarrow> string) \<Rightarrow> string" where
  "mock_root env = raw_getenv env ''BRIDGE_CONSUMER_PAIRING_ROOT''
     ''000102030405060708090a0b0c0d0e0f101112131415161718191a1b1c1d1e1f''"

definition mock_config :: "(string \<Rightarrow> string) \<Rightarrow> config" where
  "mock_config env =
     \<lparr>g_PublicURL = ''http://127.0.0.1:8081'',
      g_ConsumerWebhookURL = raw_getenv env ''CONSUMER_WEBHOOK_URL'' ''http://127.0.0.1:9/webhook'',
      g_PairingRoot = mock_root env, g_DefaultProcessor = ProcessorStripe,
      g_StripeSecretKey = [], g_StripeWebhookSecret = [], g_AdyenAPIKey = [], g_AdyenHMACKey = [], g_AdyenClientKey = [],
      g_AdyenLivePrefix = [], g_AdyenEnvironment = [], g_AdyenDataEncryptionKey = [], g_Listen = [], g_DatabaseURL = [],
      g_LogLevel = [], g_SchedulerEnabled = False, g_RenewalRetryDelays = [], g_DunningTermination = 0,
      g_AdyenResolutionDeadline = 0, g_QuarantineEnabled = False, g_QuarantineMaxRetention = 0, g_PlansPath = [],
      g_Catalog = \<lparr>cat_DefaultProcessor = ProcessorStripe, cat_Plans = [(''plan_500gb'', mock_plan)]\<rparr>, g_DevMode = False\<rparr>"

text \<open>
  The server with the two fakes as they are now, one for each family; what a request does to a fake's memory of
  sessions is \<open>FakeCreateCheckout\<close>.
\<close>

definition mock_server :: "host \<Rightarrow> keys \<Rightarrow> gotime \<Rightarrow> fake \<Rightarrow> fake \<Rightarrow> server" where
  "mock_server h keys now fs fa =
     (let fakes = (\<lambda>family. if family = ProcessorStripe then Some fs else if family = ProcessorAdyen then Some fa else None)
      in \<lparr>hs_URL = h_URL h, hs_Keys = keys, hs_Config = mock_config (h_Getenv h), hs_Engine = build_engine (mock_config (h_Getenv h)) None,
          hs_Checkout = (\<lambda>family. map_option (\<lambda>f n rq. fst (FakeCreateCheckout rq f)) (fakes family)),
          hs_Webhook = (\<lambda>family header body. map_option (FakeParseWebhook now body) (fakes family)),
          hs_State = (\<lambda>family subID. case fakes family of None \<Rightarrow> Inl (ErrOther ''no adapter'')
             | Some f \<Rightarrow> FakeGetSubscription now subID [] f),
          hs_StripePortal = Some FakeCreatePortalSession,
          hs_AdyenSession = Some (\<lambda>rq. fst (FakeCreatePaymentUpdateSession rq fa)),
          hs_Asset = h_Asset h, hs_Healthy = True, hs_EnableMock = True\<rparr>)"

definition mock_main :: "host \<Rightarrow> gotime \<Rightarrow> gerr + server" where
  "mock_main h now =
     bindR (DeriveKeys (mock_root (h_Getenv h))) (\<lambda>keys.
     Inr (mock_server h keys now (NewFake ProcessorStripe) (NewFake ProcessorAdyen)))"

section \<open>The memory of the fake\<close>

datatype fake_op =
    CheckoutCall checkout_request | UpdateCall payment_update_request | ChargeCall renewal_request
  | ResolveCall renewal_attempt | CancelCall string bool | SetSubCall string subscription_state
  | Arrange "gerr option" bool "renewal_result option"

fun fake_step :: "(gerr \<Rightarrow> bool) \<Rightarrow> fake_op \<Rightarrow> fake \<Rightarrow> fake" where
  "fake_step timeout (CheckoutCall rq) f = snd (FakeCreateCheckout rq f)"
| "fake_step timeout (UpdateCall rq) f = snd (FakeCreatePaymentUpdateSession rq f)"
| "fake_step timeout (ChargeCall rq) f = snd (FakeChargeRenewal timeout rq f)"
| "fake_step timeout (ResolveCall att) f = snd (FakeResolveRenewalAttempt timeout att f)"
| "fake_step timeout (CancelCall i e) f = FakeCancelSubscription i e f"
| "fake_step timeout (SetSubCall i st) f = SetSub i st f"
| "fake_step timeout (Arrange e u r) f = f\<lparr>fk_FailNext := e, fk_Uncertain := u, fk_ChargeResult := r\<rparr>"

definition fake_run :: "(gerr \<Rightarrow> bool) \<Rightarrow> fake_op list \<Rightarrow> fake \<Rightarrow> fake" where
  "fake_run timeout ops f = fold (fake_step timeout) ops f"

text \<open>A session once recorded stays under its key.\<close>

lemma sessions_charge: "fk_Sessions (snd (FakeChargeRenewal timeout rq f)) = fk_Sessions f"
  by (simp add: FakeChargeRenewal_def Let_def split: option.splits)

lemma session_step:
  assumes "map_of (fk_Sessions f) k = Some url"
  shows "map_of (fk_Sessions (fake_step timeout op f)) k = Some url"
proof (cases op)
  case (CheckoutCall rq)
  with assms show ?thesis by (auto simp: FakeCreateCheckout_def Let_def map_of_update split: option.splits)
qed (simp_all add: assms sessions_charge FakeResolveRenewalAttempt_def SetSub_def
      FakeCreatePaymentUpdateSession_def FakeCancelSubscription_def Let_def split: option.splits)

lemma session_run: "map_of (fk_Sessions f) k = Some url \<Longrightarrow> map_of (fk_Sessions (fake_run timeout ops f)) k = Some url"
  by (induction ops arbitrary: f) (simp_all add: fake_run_def session_step)

text \<open>
  C40. The mock's processor is idempotent as the real ones are: once it has opened a checkout under a key, then
  whatever was asked of it and arranged in it since, a request with the same key, if no failure is arranged
  for it, is answered with the same page, even when it names another checkout, and opens nothing.
\<close>

theorem fake_is_idempotent:
  assumes "FakeCreateCheckout rq f = ((r, None), f1)" and "fk_FailNext (fake_run timeout ops f1) = None"
    and "rq_IdempotencyKey rq' = rq_IdempotencyKey rq"
  shows "\<exists>r'. FakeCreateCheckout rq' (fake_run timeout ops f1) = ((r', None), fake_run timeout ops f1)
    \<and> rs_RedirectURL r' = rs_RedirectURL r \<and> rs_ProcessorCheckoutID r' = rq_CheckoutID rq'
    \<and> rs_ExpiresAt r' = rq_ExpiresAt rq' \<and> \<not> rs_Uncertain r'"
proof -
  have "map_of (fk_Sessions f1) (rq_IdempotencyKey rq) = Some (rs_RedirectURL r)"
    using assms(1) by (auto simp: FakeCreateCheckout_def fake_result_def Let_def map_of_update split: option.splits)
  from session_run [OF this] have "map_of (fk_Sessions (fake_run timeout ops f1)) (rq_IdempotencyKey rq') = Some (rs_RedirectURL r)"
    by (simp add: assms(3))
  then show ?thesis by (simp add: FakeCreateCheckout_def assms(2) fake_result_def zero_checkout_result_def)
qed

definition sample_request :: checkout_request where
  "sample_request = checkoutRequest sample_config (new_checkout sample_claims [] ProcessorStripe None) sample_plan"

theorem fake_is_idempotent_witness:
  "\<exists>r f1 r'. FakeCreateCheckout sample_request (NewFake ProcessorStripe) = ((r, None), f1)
     \<and> FakeCreateCheckout (sample_request\<lparr>rq_CheckoutID := ''other''\<rparr>) (fake_run (\<lambda>_. False) [CancelCall ''sub'' True] f1)
         = ((r', None), fake_run (\<lambda>_. False) [CancelCall ''sub'' True] f1)
     \<and> rs_RedirectURL r' = rs_RedirectURL r"
proof -
  obtain r f1 where first: "FakeCreateCheckout sample_request (NewFake ProcessorStripe) = ((r, None), f1)"
    by (simp add: FakeCreateCheckout_def NewFake_def Let_def)
  have "fk_FailNext (fake_run (\<lambda>_. False) [CancelCall ''sub'' True] f1) = None"
    using first by (auto simp: fake_run_def FakeCancelSubscription_def FakeCreateCheckout_def NewFake_def Let_def split: option.splits)
  with fake_is_idempotent [OF first this, of "sample_request\<lparr>rq_CheckoutID := ''other''\<rparr>"] first show ?thesis by auto
qed

end
