(* ===== verification/Cli.thy ===== *)
theory Cli
  imports Startup PgStore
begin

text \<open>
  \<^verbatim>\<open>cmd/bridge-cli/main.go\<close>, the operator's command line on the production database.  A run takes the arguments
  (the program's name first) and the host, and yields the exit code, what is printed and the database afterwards,
  \<open>None\<close> when none was opened.  What is printed is the value given to the JSON encoder.  The errors that the
  program prints are all the line \<^verbatim>\<open>error\<close>, so only the exit code is kept.  Resolving an attempt runs the engine, whose
  operations the development has on the in-memory store: it has a definition of its own.
\<close>

section \<open>Arguments and output\<close>

datatype shown =
    ShownNull | ShownText string | ShownInt int | ShownBool bool | ShownTime gotime
  | ShownObject "(string \<times> shown) list" | ShownArray "shown list"

definition shown_option :: "string option \<Rightarrow> shown" where
  "shown_option v = (case v of None \<Rightarrow> ShownNull | Some t \<Rightarrow> ShownText t)"

datatype printed = OkLine | UsageLine | Json_output shown

record cli_run =
  cli_code :: int
  cli_output :: "printed list"
  cli_db :: "session option"

record operator_host =
  oh_Host :: host
  oh_Ping :: "gerr + unit"
  oh_Migrations :: "(string \<times> bytes) list"
  oh_RunSQL :: "bytes \<Rightarrow> database \<Rightarrow> gerr + database"

fun flagValue :: "string \<Rightarrow> string \<Rightarrow> string list \<Rightarrow> string" where
  "flagValue name fallback (a # b # rest) = (if a = name then b else flagValue name fallback (b # rest))"
| "flagValue name fallback _ = fallback"

abbreviation finished :: "printed list \<Rightarrow> session \<Rightarrow> cli_run" where
  "finished out s \<equiv> \<lparr>cli_code = 0, cli_output = out, cli_db = Some s\<rparr>"

abbreviation failed_run :: "session option \<Rightarrow> cli_run" where
  "failed_run s \<equiv> \<lparr>cli_code = 1, cli_output = [], cli_db = s\<rparr>"

definition usage :: cli_run where
  "usage = \<lparr>cli_code = 2, cli_output = [UsageLine], cli_db = None\<rparr>"

definition mustPool :: "host \<Rightarrow> gerr + session" where
  "mustPool h = (let url = h_Getenv h ''BRIDGE_DATABASE_URL''
     in if url = [] then Inl (ErrOther ''BRIDGE_DATABASE_URL required'') else h_Pool h url)"

definition onPool :: "host \<Rightarrow> (session \<Rightarrow> cli_run) \<Rightarrow> cli_run" where
  "onPool h k = (case mustPool h of Inl _ \<Rightarrow> failed_run None | Inr s \<Rightarrow> k s)"

text \<open>A transaction whose result is what it prints.\<close>

definition withTx :: "host \<Rightarrow> (session, printed list) tx \<Rightarrow> cli_run" where
  "withTx h fn = onPool h (\<lambda>s. case PgInTx fn s of
     (Inl _, s') \<Rightarrow> failed_run (Some s') | (Inr out, s') \<Rightarrow> finished out s')"

definition requireArgs :: "int \<Rightarrow> string list \<Rightarrow> cli_run \<Rightarrow> cli_run" where
  "requireArgs n args k = (if int (length args) < n then usage else k)"

section \<open>What is shown\<close>

definition show_checkout :: "string \<Rightarrow> (session, printed list) tx" where
  "show_checkout i = bindT (pgGetCheckout i) (\<lambda>c. retT [Json_output (ShownObject
     [(''checkout_id'', ShownText (c_CheckoutID c)), (''status'', ShownText (c_Status c)),
      (''plan_id'', ShownText (c_PlanID c)), (''subscription_ref'', shown_option (c_SubscriptionRef c))])])"

definition show_subscription :: "string \<Rightarrow> (session, printed list) tx" where
  "show_subscription i = bindT (pgGetSubscription i) (\<lambda>s. retT [Json_output (ShownObject
     [(''subscription_ref'', ShownText (s_SubscriptionRef s)), (''status'', ShownText (s_Status s)),
      (''state_version'', ShownInt (s_StateVersion s)), (''plan_id'', ShownText (s_PlanID s)),
      (''processor_family'', ShownText (s_ProcessorFamily s)),
      (''processor_customer_id'', shown_option (s_ProcessorCustomerID s)),
      (''processor_subscription_id'', shown_option (s_ProcessorSubscriptionID s)),
      (''processor_initial_payment_id'', shown_option (s_ProcessorInitialPaymentID s)),
      (''automatic_charging_blocked'', ShownBool (s_AutomaticChargingBlocked s))])])"

definition list_events :: "string \<Rightarrow> (session, printed list) tx" where
  "list_events state = bindT (pgListOutbound state 100) (\<lambda>ev. retT [Json_output (ShownArray
     (map (\<lambda>e. ShownText (o_EventID e @ '':'' @ o_DeliveryState e)) ev))])"

definition summarizeActions :: "scheduled_action list \<Rightarrow> shown" where
  "summarizeActions as = ShownArray (map (\<lambda>a. ShownObject
     [(''action_id'', ShownText (a_ActionID a)), (''subscription_ref'', ShownText (a_SubscriptionRef a)),
      (''action_type'', ShownText (a_ActionType a)), (''status'', ShownText (a_Status a)),
      (''due_at'', ShownTime (a_DueAt a)), (''fencing_token'', ShownInt (a_FencingToken a))]) as)"

definition summarizeAttempts :: "charge_attempt list \<Rightarrow> shown" where
  "summarizeAttempts as = ShownArray (map (\<lambda>a. ShownObject
     [(''attempt_id'', ShownText (t_AttemptID a)), (''subscription_ref'', ShownText (t_SubscriptionRef a)),
      (''status'', ShownText (t_Status a)), (''attempt_number'', ShownInt (t_AttemptNumber a))]) as)"

definition scheduler_status :: "(session, printed list) tx" where
  "scheduler_status =
     bindT (pgListActions 200) (\<lambda>actions.
     bindT (pgListAttempts [''uncertain'', ''manual_review'', ''running'', ''prepared''] 200) (\<lambda>attempts.
     retT [Json_output (ShownObject [(''actions'', summarizeActions actions), (''attempts'', summarizeAttempts attempts)])]))"

text \<open>The row of a subscription beside what its processor says of it; a processor that fails is passed over.\<close>

definition reconcile_row :: "(string \<Rightarrow> string \<Rightarrow> gerr + subscription_state option) \<Rightarrow> subscription \<Rightarrow> shown" where
  "reconcile_row get_state s = ShownObject
     ([(''subscription_ref'', ShownText (s_SubscriptionRef s)), (''local_status'', ShownText (s_Status s)),
       (''state_version'', ShownInt (s_StateVersion s))]
      @ (case s_ProcessorSubscriptionID s of
           None \<Rightarrow> []
         | Some i \<Rightarrow> (case get_state (s_ProcessorFamily s) i of
              Inr (Some st) \<Rightarrow> [(''provider_status'', ShownText (ss_Status st))] | _ \<Rightarrow> [])))"

definition reconcile :: "host \<Rightarrow> config \<Rightarrow> (session, printed list) tx" where
  "reconcile h cfg = bindT (pgListSubscriptions 200) (\<lambda>ss.
     retT [Json_output (ShownArray (map (reconcile_row (state_adapters h cfg)) ss))])"

section \<open>The program\<close>

text \<open>The configuration of \<open>mustEngine\<close>: a catalog that does not load is passed over.\<close>

definition with_catalog :: "config \<Rightarrow> catalog \<Rightarrow> config" where
  "with_catalog c cat =
     (if g_DefaultProcessor c = [] then c\<lparr>g_DefaultProcessor := cat_DefaultProcessor cat\<rparr> else c)\<lparr>g_Catalog := cat\<rparr>"

definition engine_config :: "host \<Rightarrow> gerr + config" where
  "engine_config h = bindR (Load h) (\<lambda>cfg.
     Inr (case bindR (h_ReadFile h (g_PlansPath cfg)) (ParseCatalog (h_Yaml h)) of
            Inl _ \<Rightarrow> cfg | Inr cat \<Rightarrow> with_catalog cfg cat))"

definition mustEngine :: "host \<Rightarrow> gerr + config \<times> engine \<times> session" where
  "mustEngine h = bindR (engine_config h) (\<lambda>cfg. bindR (mustPool h) (\<lambda>s. Inr (cfg, build_engine cfg None, s)))"

definition argument :: "string list \<Rightarrow> nat \<Rightarrow> string" where
  "argument args n = (if n < length args then args ! n else [])"

definition operator_event :: "(string \<Rightarrow> string \<Rightarrow> string \<Rightarrow> gotime \<Rightarrow> (session, unit) tx) \<Rightarrow> host \<Rightarrow> string list \<Rightarrow> cli_run" where
  "operator_event change h args = requireArgs 3 args (
     let reason = flagValue ''--reason'' ''operator'' args
     in withTx h (\<lambda>s. bindT (change (argument args 2) reason ''cli'' (PgNow s)) (\<lambda>_. retT []) s))"

definition checkConfig :: "host \<Rightarrow> gerr + unit" where
  "checkConfig h = bindR (Load h) (\<lambda>cfg. bindR (LoadCatalogFile h cfg) (\<lambda>_. Inr ()))"

text \<open>\<^verbatim>\<open>resolve-attempt\<close>: the exit code, and the store afterwards.\<close>

definition resolve_attempt :: "host \<Rightarrow> string list \<Rightarrow> world \<Rightarrow> int \<times> world" where
  "resolve_attempt h args w =
     (if int (length args) < 3 then (2, w)
      else case mustEngine h of
        Inl _ \<Rightarrow> (1, w)
      | Inr (_, eng, _) \<Rightarrow>
          (case ResolveAttempt eng (argument args 2) (flagValue ''--outcome'' [] args) (flagValue ''--reason'' ''operator'' args)
                  ''cli'' (flagValue ''--payment-id'' [] args) w of
             (Inl _, w') \<Rightarrow> (1, w') | (Inr _, w') \<Rightarrow> (0, w')))"

text \<open>What a command is: a run on the database, or one of the engine on its store.\<close>

datatype program = Ran cli_run | OnStore "world \<Rightarrow> int \<times> world"

definition cli_main :: "operator_host \<Rightarrow> string list \<Rightarrow> program" where
  "cli_main oh args =
     (let h = oh_Host oh; command = argument args 1 in
      if length args < 2 then Ran usage
      else if command = ''resolve-attempt'' then OnStore (resolve_attempt h args)
      else Ran (
      if command = ''check-config'' then
        (case checkConfig h of Inl _ \<Rightarrow> failed_run None | Inr _ \<Rightarrow> \<lparr>cli_code = 0, cli_output = [OkLine], cli_db = None\<rparr>)
      else if command = ''migrate'' then
        onPool h (\<lambda>s. case ApplyMigrations (oh_RunSQL oh) (oh_Migrations oh) s of
          (Inl _, s') \<Rightarrow> failed_run (Some s') | (Inr _, s') \<Rightarrow> finished [OkLine] s')
      else if command = ''health'' then
        onPool h (\<lambda>s. case bindR (oh_Ping oh) (\<lambda>_. CheckSchema s) of
          Inl _ \<Rightarrow> failed_run (Some s) | Inr _ \<Rightarrow> finished [OkLine] s)
      else if command = ''show-checkout'' then requireArgs 3 args (withTx h (show_checkout (argument args 2)))
      else if command = ''show-subscription'' then requireArgs 3 args (withTx h (show_subscription (argument args 2)))
      else if command = ''list-events'' then
        withTx h (list_events (if 2 < length args \<and> argument args 2 \<noteq> ''--reason'' then argument args 2 else []))
      else if command = ''requeue-event'' then operator_event pgRequeueOutbound h args
      else if command = ''abandon-event'' then operator_event pgAbandonOutbound h args
      else if command = ''scheduler-status'' then withTx h scheduler_status
      else if command = ''reconcile'' then
        (case mustEngine h of Inl _ \<Rightarrow> failed_run None
         | Inr (cfg, _, s) \<Rightarrow> (case PgInTx (reconcile h cfg) s of
             (Inl _, s') \<Rightarrow> failed_run (Some s') | (Inr out, s') \<Rightarrow> finished out s'))
      else usage))"


section \<open>What the operator can rely on\<close>

lemma withTx_run:
  assumes "mustPool h = Inr s"
  shows "(\<exists>s'. withTx h fn = failed_run (Some s') \<and> db s' = db s)
    \<or> (\<exists>out s'. withTx h fn = finished out s' \<and> fn (s\<lparr>failed := False\<rparr>) = (Inr out, s'))"
  using assms by (auto simp: withTx_def onPool_def PgInTx_def split: prod.splits sum.splits)

lemma auditedT_Inr:
  assumes "auditedT what i reason actor (updateT ps outbound_events_table p g) s = (Inr u, s')"
  shows "\<exists>e a. e \<in> set (sb_outbound_events (db s)) \<and> p s e
    \<and> sb_outbound_events (db s') = map (\<lambda>r. if p s r then g s r else r) (sb_outbound_events (db s))
    \<and> sb_operator_audit (db s') = sb_operator_audit (db s) @ [a]
    \<and> u_Action a = what \<and> u_TargetType a = ''event'' \<and> u_TargetID a = i \<and> u_Actor a = actor \<and> u_Reason a = reason"
proof -
  obtain rs s1 s2 t where rs: "rs \<noteq> []" and up: "updateT ps outbound_events_table p g s = (Inr rs, s1)"
    and tok: "mustPGToken s1 = (Inr t, s2)"
    and ins: "pgInsertAudit \<lparr>u_AuditID = t, u_Action = what, u_TargetType = ''event'', u_TargetID = i,
       u_Actor = actor, u_Reason = reason, u_Metadata = []\<rparr> s2 = (Inr u, s')"
    using assms by (auto simp: auditedT_def bindT_eq_Inr split: if_split_asm)
  have s1: "db s1 = (db s)\<lparr>sb_outbound_events := map (\<lambda>r. if p s r then g s r else r) (sb_outbound_events (db s))\<rparr>"
    and "rs = map (g s) (filter (p s) (sb_outbound_events (db s)))"
    using up by (auto simp: statement_Inr outbound_events_table_def)
  with rs obtain e where "e \<in> set (sb_outbound_events (db s))" "p s e" by (auto simp: filter_empty_conv)
  moreover have "db s2 = db s1" using mustPGToken_eq_Inr [OF tok] by auto
  ultimately show ?thesis using ins s1 by (auto simp: pgInsertAudit_def statement_Inr audit_table_def)
qed

text \<open>What an operator's change of an event leaves in the database.\<close>

definition audited_change :: "string \<Rightarrow> string \<Rightarrow> string \<Rightarrow> (outbound_event \<Rightarrow> bool) \<Rightarrow> string \<Rightarrow> database \<Rightarrow> database \<Rightarrow> bool" where
  "audited_change what i reason allowed state d d' \<longleftrightarrow>
     (\<exists>e\<in>set (sb_outbound_events d). o_EventID e = i \<and> allowed e)
     \<and> list_all2 (\<lambda>x y. if o_EventID x = i \<and> allowed x then o_DeliveryState y = state \<and> o_PayloadBody y = o_PayloadBody x else y = x)
         (sb_outbound_events d) (sb_outbound_events d')
     \<and> (\<exists>a. sb_operator_audit d' = sb_operator_audit d @ [a] \<and> u_Action a = what \<and> u_TargetID a = i
           \<and> u_Actor a = ''cli'' \<and> u_Reason a = reason)"

lemma audited_change_Inr:
  assumes "auditedT what i reason ''cli'' (updateT ps outbound_events_table (\<lambda>_ e. o_EventID e = i \<and> allowed e) g) s = (Inr u, s')"
    and "\<And>e. o_DeliveryState (g s e) = state \<and> o_PayloadBody (g s e) = o_PayloadBody e"
  shows "audited_change what i reason allowed state (db s) (db s')"
  using auditedT_Inr [OF assms(1)] assms(2) by (auto simp: audited_change_def list_all2_conv_all_nth)

lemma operator_event_run:
  assumes "mustPool h = Inr s"
    and "\<And>reason now s' s''. change i reason ''cli'' now s' = (Inr (), s'') \<Longrightarrow> Q reason (db s') (db s'')"
  shows "\<exists>s'. cli_db (operator_event change h (prog # c # i # flags)) = Some s'
    \<and> (cli_code (operator_event change h (prog # c # i # flags)) = 1 \<and> db s' = db s
       \<or> cli_code (operator_event change h (prog # c # i # flags)) = 0
         \<and> Q (flagValue ''--reason'' ''operator'' (prog # c # i # flags)) (db s) (db s'))"
proof -
  let ?reason = "flagValue ''--reason'' ''operator'' (prog # c # i # flags)"
  let ?fn = "\<lambda>s. bindT (change i ?reason ''cli'' (PgNow s)) (\<lambda>_. retT []) s"
  have "operator_event change h (prog # c # i # flags) = withTx h ?fn"
    by (simp add: operator_event_def requireArgs_def Let_def argument_def)
  with withTx_run [OF assms(1), of ?fn] show ?thesis
    using assms(2) [where s' = "s\<lparr>failed := False\<rparr>"] by (auto simp: bindT_eq_Inr)
qed

text \<open>
  C38.  The operator's changes of events are audited and exact: the command returns with code 1 and the database as it
  was, or with code 0 after the event with that identifier, which was dead-lettered or abandoned and is now
  pending (to abandon it: was pending and is now abandoned), has kept its body, no other event has changed, and
  exactly one audit row names the command, the event, the operator's tool and the reason given.
\<close>

theorem operator_events_audited:
  assumes "mustPool (oh_Host oh) = Inr s"
  shows "(\<exists>r s'. cli_main oh (prog # ''requeue-event'' # i # flags) = Ran r \<and> cli_db r = Some s'
      \<and> (cli_code r = 1 \<and> db s' = db s
         \<or> cli_code r = 0 \<and> audited_change ''requeue-event'' i (flagValue ''--reason'' ''operator'' (prog # ''requeue-event'' # i # flags))
             (\<lambda>e. o_DeliveryState e = ''dead_lettered'' \<or> o_DeliveryState e = ''abandoned'') ''pending'' (db s) (db s')))
    \<and> (\<exists>r s'. cli_main oh (prog # ''abandon-event'' # i # flags) = Ran r \<and> cli_db r = Some s'
      \<and> (cli_code r = 1 \<and> db s' = db s
         \<or> cli_code r = 0 \<and> audited_change ''abandon-event'' i (flagValue ''--reason'' ''operator'' (prog # ''abandon-event'' # i # flags))
             (\<lambda>e. o_DeliveryState e = ''pending'') ''abandoned'' (db s) (db s')))"
proof -
  let ?args = "\<lambda>c. prog # c # i # flags"
  have arg: "argument (?args c) (Suc 0) = c" "argument (?args c) 2 = i" for c by (simp_all add: argument_def)
  have main: "cli_main oh (?args ''requeue-event'') = Ran (operator_event pgRequeueOutbound (oh_Host oh) (?args ''requeue-event''))"
    "cli_main oh (?args ''abandon-event'') = Ran (operator_event pgAbandonOutbound (oh_Host oh) (?args ''abandon-event''))"
    by (simp_all add: cli_main_def arg Let_def)
  have requeued: "audited_change ''requeue-event'' i reason (\<lambda>e. o_DeliveryState e = ''dead_lettered'' \<or> o_DeliveryState e = ''abandoned'')
      ''pending'' (db s') (db s'')" if "pgRequeueOutbound i reason ''cli'' now s' = (Inr (), s'')" for reason now s' s''
    by (rule audited_change_Inr [OF that [unfolded pgRequeueOutbound_def]]) simp
  have abandoned: "audited_change ''abandon-event'' i reason (\<lambda>e. o_DeliveryState e = ''pending'') ''abandoned'' (db s') (db s'')"
    if "pgAbandonOutbound i reason ''cli'' now s' = (Inr (), s'')" for reason now s' s''
    by (rule audited_change_Inr [OF that [unfolded pgAbandonOutbound_def]]) simp
  show ?thesis unfolding main
  proof
    show "\<exists>r s'. Ran (operator_event pgRequeueOutbound (oh_Host oh) (?args ''requeue-event'')) = Ran r \<and> cli_db r = Some s'
      \<and> (cli_code r = 1 \<and> db s' = db s \<or> cli_code r = 0 \<and> audited_change ''requeue-event'' i
          (flagValue ''--reason'' ''operator'' (?args ''requeue-event''))
          (\<lambda>e. o_DeliveryState e = ''dead_lettered'' \<or> o_DeliveryState e = ''abandoned'') ''pending'' (db s) (db s'))"
      using operator_event_run [of "oh_Host oh" s pgRequeueOutbound i "\<lambda>reason. audited_change ''requeue-event'' i reason
        (\<lambda>e. o_DeliveryState e = ''dead_lettered'' \<or> o_DeliveryState e = ''abandoned'') ''pending''"] assms requeued by blast
    show "\<exists>r s'. Ran (operator_event pgAbandonOutbound (oh_Host oh) (?args ''abandon-event'')) = Ran r \<and> cli_db r = Some s'
      \<and> (cli_code r = 1 \<and> db s' = db s \<or> cli_code r = 0 \<and> audited_change ''abandon-event'' i
          (flagValue ''--reason'' ''operator'' (?args ''abandon-event'')) (\<lambda>e. o_DeliveryState e = ''pending'') ''abandoned'' (db s) (db s'))"
      using operator_event_run [of "oh_Host oh" s pgAbandonOutbound i "\<lambda>reason. audited_change ''abandon-event'' i reason
        (\<lambda>e. o_DeliveryState e = ''pending'') ''abandoned''"] assms abandoned by blast
  qed
qed

text \<open>An operator's host whose database is in a given session.\<close>

definition sample_operator :: "session \<Rightarrow> operator_host" where
  "sample_operator s = \<lparr>oh_Host = (sample_host [])\<lparr>h_Pool := (\<lambda>_. Inr s)\<rparr>, oh_Ping = Inr (), oh_Migrations = [],
     oh_RunSQL = (\<lambda>_ d. Inr d)\<rparr>"

lemma sample_pool: "mustPool (oh_Host (sample_operator s)) = Inr s"
  by (simp add: mustPool_def sample_operator_def sample_host_def sample_env_def)

definition pending_session :: session where
  "pending_session = sample_session\<lparr>rand := [0], db := (db sample_session)\<lparr>
     sb_subscriptions := [sample_sub], sb_checkouts := [zero_checkout\<lparr>c_CheckoutID := s_CheckoutID sample_sub\<rparr>],
     sb_outbound_events := [zero_outbound_event\<lparr>o_EventID := ''evt_1'', o_SubscriptionRef := s_SubscriptionRef sample_sub,
       o_CheckoutID := s_CheckoutID sample_sub, o_StateVersion := 1, o_PayloadBody := ''{}'', o_DeliveryState := ''pending'',
       o_NextAttemptAt := Some 0\<rparr>]\<rparr>\<rparr>"

lemma pending_parts:
  "busy pending_session = False" "dbms_of pending_session = dbms_of sample_session" "pg_clock pending_session = 0"
  "rand pending_session = [0]" "sb_operator_audit (db pending_session) = []"
  by (simp_all add: pending_session_def sample_session_def)

lemma pending_id: "sb_valid_id ''evt_1'' ''evt_''"
  by code_simp

lemma pending_abandoned: "\<exists>rs d. update_set outbound_events_table (\<lambda>e. o_EventID e = ''evt_1'' \<and> o_DeliveryState e = ''pending'')
    (\<lambda>e. e\<lparr>o_DeliveryState := ''abandoned'', o_AbandonedAt := Some t, o_NextAttemptAt := None, o_ClaimToken := None,
       o_LeaseUntil := None\<rparr>) (db pending_session) = Inr (rs, d) \<and> rs \<noteq> [] \<and> sb_operator_audit d = []"
  by (simp add: update_set_def pending_session_def sample_session_def outbound_events_table_def outbound_accepts_def
    zero_outbound_event_def has_sub_def has_checkout_def pending_id Let_def)

lemma pending_token: "\<exists>i s'. mustPGToken s = (Inr i, s') \<and> s' = s\<lparr>rand := []\<rparr>" if "rand s = [0]"
  using that by (simp add: mustPGToken_def newUUID_def RandomClaimToken_def bindT_def rand_read_def retT_def)

theorem operator_events_audited_witness:
  "\<exists>r s'. cli_main (sample_operator pending_session) [''bridge-cli'', ''abandon-event'', ''evt_1''] = Ran r \<and> cli_db r = Some s'
     \<and> cli_code r = 0 \<and> audited_change ''abandon-event'' ''evt_1'' ''operator'' (\<lambda>e. o_DeliveryState e = ''pending'') ''abandoned''
         (db pending_session) (db s')"
proof -
  let ?s = "pending_session\<lparr>failed := False\<rparr>"
  obtain rs d where up: "update_set outbound_events_table (\<lambda>e. o_EventID e = ''evt_1'' \<and> o_DeliveryState e = ''pending'')
    (\<lambda>e. e\<lparr>o_DeliveryState := ''abandoned'', o_AbandonedAt := Some (PgNow ?s), o_NextAttemptAt := None, o_ClaimToken := None,
       o_LeaseUntil := None\<rparr>) (db pending_session) = Inr (rs, d)" and ne: "rs \<noteq> []" "sb_operator_audit d = []"
    using pending_abandoned by blast
  let ?s1 = "?s\<lparr>db := d, statements := Suc (statements ?s)\<rparr>"
  obtain i where tok: "mustPGToken ?s1 = (Inr i, ?s1\<lparr>rand := []\<rparr>)"
    using pending_token [of ?s1] by (auto simp: pending_parts)
  have "\<exists>s'. pgAbandonOutbound ''evt_1'' ''operator'' ''cli'' (PgNow ?s) ?s = (Inr (), s') \<and> \<not> failed s'"
    using up ne tok
    by (simp add: pgAbandonOutbound_def auditedT_def bindT_def updateT_def sqlT_def pending_parts sample_session_def
        pgInsertAudit_def insertT_def insert_into_def audit_table_def)
  then have "cli_main (sample_operator pending_session) [''bridge-cli'', ''abandon-event'', ''evt_1''] = Ran r \<Longrightarrow> cli_code r = 0" for r
    by (auto simp: cli_main_def argument_def operator_event_def requireArgs_def withTx_def onPool_def sample_pool PgInTx_def bindT_def retT_def)
  with operator_events_audited [OF sample_pool, of pending_session "''bridge-cli''" "''evt_1''" "[]"] show ?thesis by force
qed

lemma listing_fails:
  assumes "m s = (Inr rs, s1)" and "rs \<noteq> []"
  shows "fst (overRowsT m (\<lambda>t. pgGetAttempt (f t)) s) = Inl ConnBusy"
proof -
  obtain r rest where rs: "rs = r # rest" using assms(2) by (cases rs) auto
  have "pgGetAttempt (f r) (s1\<lparr>busy := True\<rparr>) = (Inl ConnBusy, s1\<lparr>busy := True\<rparr>)"
    by (simp add: pgGetAttempt_def attempt_ofT_def scanT_def queryRowT_def selectT_def sqlT_def bindT_def mapErrT_def mapErr_def)
  then show ?thesis using assms(1) by (simp add: overRowsT_def bindT_def rs)
qed

lemma pgListAttempts_fails:
  assumes "t \<in> set (sb_charge_attempts (db s))" and "t_Status t \<in> set sts" and "0 < limit"
  shows "pgListAttempts sts limit s \<noteq> (Inr xs, s')"
proof
  let ?m = "order_limitT (\<lambda>t. - t_CreatedAt t) limit (selectT (map Text sts) charge_attempts_table (\<lambda>_ t. t_Status t \<in> set sts))"
  have sts: "sts \<noteq> []" using assms(2) by auto
  assume run: "pgListAttempts sts limit s = (Inr xs, s')"
  then obtain rs s1 where m: "?m s = (Inr rs, s1)"
    using sts by (auto simp: pgListAttempts_def overRowsT_def bindT_eq_Inr)
  then have rs: "rs = take (nat limit) (sort_key (\<lambda>t. - t_CreatedAt t) (filter (\<lambda>t. t_Status t \<in> set sts) (sb_charge_attempts (db s))))"
    using assms(3) by (auto simp: order_limitT_def bindT_eq_Inr selectT_def sqlT_eq_Inr charge_attempts_table_def split: if_split_asm)
  define ys where "ys = filter (\<lambda>t. t_Status t \<in> set sts) (sb_charge_attempts (db s))"
  have "ys \<noteq> []" using assms(1,2) by (auto simp: ys_def filter_empty_conv)
  moreover have "length rs = min (length ys) (nat limit)" by (simp add: rs ys_def)
  ultimately have "rs \<noteq> []" using assms(3) by (metis length_0_conv length_greater_0_conv min_less_iff_conj zero_less_nat_eq)
  with m have "fst (overRowsT ?m (\<lambda>t. pgGetAttempt (t_AttemptID t)) s) = Inl ConnBusy" by (rule listing_fails)
  with run sts show False by (auto simp: pgListAttempts_def)
qed

text \<open>
  C39.  The operator cannot see the scheduler's work: as soon as a charge attempt is prepared, running, uncertain or
  under review, the command that lists them exits with code 1 and prints nothing.
\<close>

theorem scheduler_status_fails:
  assumes "mustPool (oh_Host oh) = Inr s" and "t \<in> set (sb_charge_attempts (db s))"
    and "t_Status t \<in> {''prepared'', ''running'', ''uncertain'', ''manual_review''}"
  shows "\<exists>r s'. cli_main oh (prog # ''scheduler-status'' # flags) = Ran r
    \<and> cli_code r = 1 \<and> cli_output r = [] \<and> cli_db r = Some s' \<and> db s' = db s"
proof -
  have main: "cli_main oh (prog # ''scheduler-status'' # flags) = Ran (withTx (oh_Host oh) scheduler_status)"
    by (simp add: cli_main_def argument_def)
  have "scheduler_status (s\<lparr>failed := False\<rparr>) \<noteq> (Inr out, s')" for out s'
  proof
    assume "scheduler_status (s\<lparr>failed := False\<rparr>) = (Inr out, s')"
    then obtain as s1 xs s2 where l: "pgListActions 200 (s\<lparr>failed := False\<rparr>) = (Inr as, s1)"
      "pgListAttempts [''uncertain'', ''manual_review'', ''running'', ''prepared''] 200 s1 = (Inr xs, s2)"
      by (auto simp: scheduler_status_def bindT_eq_Inr)
    have "db s1 = db s"
      using l(1) by (auto simp: pgListActions_def order_limitT_def bindT_eq_Inr selectT_def sqlT_eq_Inr split: if_split_asm)
    with assms(2,3) pgListAttempts_fails [of t s1] l(2) show False by auto
  qed
  with withTx_run [OF assms(1), of scheduler_status] main show ?thesis by auto
qed

theorem scheduler_status_fails_witness:
  "\<exists>r. cli_main (sample_operator (fresh_session (empty_database\<lparr>sb_charge_attempts := [sample_attempt\<lparr>t_Status := ''running''\<rparr>]\<rparr>)))
      [''bridge-cli'', ''scheduler-status''] = Ran r \<and> cli_code r = 1 \<and> cli_output r = []"
  using scheduler_status_fails [OF sample_pool, where t = "sample_attempt\<lparr>t_Status := ''running''\<rparr>" and flags = "[]"
      and s = "fresh_session (empty_database\<lparr>sb_charge_attempts := [sample_attempt\<lparr>t_Status := ''running''\<rparr>]\<rparr>)" and prog = "''bridge-cli''"]
  by (force simp: fresh_session_def)

subsection \<open>The check of the configuration\<close>





lemma ValidateCore_key: "ValidateCore ul (c\<lparr>g_AdyenDataEncryptionKey := key\<rparr>) = ValidateCore ul c"
  by (simp add: ValidateCore_def)








end
