(* ===== verification/Spec2Isabelle.thy ===== *)
theory Spec2Isabelle
  imports Service Stores PgFencing Fake Cli
begin

text \<open>
  A model of SubscriptionBridge, a service that stands between payment processors (Stripe, Adyen) and
  a consumer application: it opens checkouts, follows each subscription through a state machine,
  renews and expires it on schedule, and reports every change to the consumer as a signed callback.

  The theories follow the packages of the code, bottom up.

  \<^item> \<open>Prelude\<close>: types, the sentinel errors (\<^verbatim>\<open>internal/protocol/errors.go\<close>), the transaction monad in
    which everything stateful is written, its weakest-precondition calculus and the rules \<open>keeps\<close> for
    invariants.  \<open>Text\<close>, \<open>GoTime\<close>, \<open>Sha256\<close> and \<open>Aes\<close> define what the code takes from Go's library:
    strings, UTF-8 and number formats, the proleptic Gregorian calendar of package \<open>time\<close>, HMAC-SHA-256
    and AES-256-GCM.
  \<^item> \<open>ProtoTime\<close>, \<open>Identifiers\<close>, \<open>ProtoTypes\<close>: \<^verbatim>\<open>internal/protocol\<close>, that is, canonical timestamps, token
    lifetimes and anniversaries (\<^verbatim>\<open>time.go\<close>), opaque identifiers (\<^verbatim>\<open>identifiers.go\<close>, \<^verbatim>\<open>ids.go\<close>), callbacks and
    snapshots with their validation (\<^verbatim>\<open>types.go\<close>) and their JSON encoding (\<^verbatim>\<open>json.go\<close>).
  \<^item> \<open>Models\<close>, \<open>Memory\<close>: the rows of the store (\<^verbatim>\<open>internal/store/models.go\<close>) as records and the in-memory
    store (\<^verbatim>\<open>memory.go\<close>), every operation of the interface \<open>Tx\<close>.  The tables are association lists, one
    field of \<open>memory\<close> each; a transaction runs on a \<open>world\<close> (memory, clock, random source) and
    \<open>InTx\<close> rolls it back when it fails.  Every \<open>map\<close> iteration is in list order, and the theorems hold for
    every list.
  \<^item> \<open>Transition\<close>: the state machine \<open>Decide\<close> (\<^verbatim>\<open>internal/engine/transition.go\<close>).
  \<^item> \<open>Envelope\<close>: the encryption of payment methods (\<^verbatim>\<open>internal/envelope/envelope.go\<close>).
  \<^item> \<open>StoreRuns\<close>: runs of the store, that is, any interleaving of transactions of any workers.
  \<^item> \<open>Engine\<close>: the operations of \<^verbatim>\<open>internal/engine/engine.go\<close> and \<^verbatim>\<open>refusal.go\<close>.  \<open>Outbox\<close>: that every
    one of them keeps the transactional outbox.
  \<^item> \<open>Hmac\<close>: keys, signature headers and tokens (\<^verbatim>\<open>internal/hmac\<close>).  \<open>Json\<close>: a parser of JSON documents
    and the strict decoder (\<^verbatim>\<open>internal/protocol/json.go\<close>).  \<open>Claims\<close>: the claims in tokens and the
    normalisation of return URLs (\<^verbatim>\<open>types.go\<close>, \<^verbatim>\<open>url.go\<close>).
  \<^item> \<open>Config\<close>: plans and their validation (\<^verbatim>\<open>internal/config/config.go\<close>).  \<open>Processor\<close>, \<open>Adyen\<close>: the
    interface of the processors and the adapter of Adyen (\<^verbatim>\<open>internal/adapters\<close>), with the decoding of a
    notification into Go's values: repeated members are merged, and a number outside the range of a
    \<^verbatim>\<open>float64\<close> is an error.
  \<^item> \<open>Scheduler\<close>: expiry, renewal charges and their resolution (\<^verbatim>\<open>internal/scheduler\<close>).  \<open>Notify\<close>:
    the delivery of callbacks (\<^verbatim>\<open>internal/notify\<close>).
  \<^item> \<open>Checkout\<close>: \<open>StartCheckout\<close> of \<^verbatim>\<open>engine.go\<close>.  \<open>Stripe\<close>: the adapter of Stripe
    (\<^verbatim>\<open>internal/adapters/stripe\<close>).  \<open>Page\<close>, \<open>Http\<close>: the portal's page and the routes of the server
    (\<^verbatim>\<open>internal/httpapi\<close>).
  \<^item> \<open>Service\<close>: the transactions of all of them as the steps of one system, with the composed operations
    as its runs.

  \<^item> \<open>Sql\<close>, \<open>Postgres\<close>, \<open>PgWork\<close>: the production store (\<^verbatim>\<open>internal/store/postgres.go\<close>, \<^verbatim>\<open>migrate.go\<close>):
    statements on a database under the constraints of \<^verbatim>\<open>migrations/001_init.sql\<close>, a \<open>session\<close> whose
    transaction fails with its first failing statement, and each operation of the interface as the
    statements it sends.  The server and its driver are the parameter \<open>dbms\<close>.  \<open>Rows\<close>: the state machine
    against every constraint of the table it writes.  \<open>PgStore\<close>: the invariant of the schema and the
    operations that behave in their own way there.  \<open>PgFencing\<close>: what the updates that need an owner write,
    and the one that the server refuses.  \<open>PgRefines\<close>, \<open>PgAgrees\<close>,
    \<open>Stores\<close>: the production store against the in-memory one.
  \<^item> \<open>Startup\<close>: the environment and the plan file into a configuration (\<open>Load\<close>, \<open>ValidateCore\<close>, \<open>ParseCatalog\<close> of
    \<^verbatim>\<open>config.go\<close>), and the configuration into the adapters, server, notifier and scheduler that
    \<^verbatim>\<open>cmd/bridge/main.go\<close> runs; the surroundings of the process are the record \<open>host\<close>.  \<open>Fake\<close>: the processor
    that answers by itself (\<^verbatim>\<open>internal/adapters/fake\<close>) and the mock service on it (\<^verbatim>\<open>cmd/mock-bridge\<close>).
    \<open>Cli\<close>: the operator's commands (\<^verbatim>\<open>cmd/bridge-cli\<close>) on the production database; resolving an attempt
    runs the engine on the in-memory store.

  What the lemmas show.  In \<open>Transition\<close>, that \<open>Decide\<close> is sound, refines the diagram of \<^verbatim>\<open>SPEC.md\<close> 7.2
  (\<open>status_step\<close>), ignores replays and fails only on unordered periods; in \<open>Rows\<close>, when it keeps the
  constraints of \<^verbatim>\<open>sb_subscriptions\<close>, all of them, and the invariant of every history of observations.  In
  \<open>Memory\<close> and \<open>StoreRuns\<close>, the invariant \<open>store_ok\<close> of the tables, kept by every operation and hence by every
  run, the finality of delivered callbacks, and the fencing that makes claims exclusive; a run of the store may
  use the updates that rewrite a row only to write back its identity (\<open>lawful\<close>), which \<open>Service\<close> proves of the
  running service instead of assuming it.  In \<open>ProtoTime\<close>, \<open>ProtoTypes\<close> and \<open>Envelope\<close>, the round trips and
  bounds of what is exchanged.  In \<open>Claims\<close>, \<open>Checkout\<close>, \<open>Stripe\<close>, \<open>Adyen\<close> and \<open>Http\<close>, what a token, a
  signature or a processor's answer must be for an operation to act on it, and what it then does.  In
  \<open>PgStore\<close>, that every history of transactions keeps the constraints of the schema (\<open>schema_ok\<close>, through the
  locale \<open>schema_table\<close>), and ways in which the production store fails or differs; in \<open>PgFencing\<close>, that what
  is settled under a token and a fence was held under exactly them and nothing else is written, and that no
  attempt is ever claimed, so no renewal submitted, because the server refuses a statement of the claim.  In
  \<open>Stores\<close>, that an operation that succeeds on PostgreSQL does what the in-memory store does, under conditions
  (\<open>agrees\<close>) that list where the two differ.  In \<open>Service\<close>, through the locale \<open>service_invariant\<close>, that the
  outbox is complete and what rows were inserted with is fixed whatever the interleaving, so that what is
  pushed, what is pulled and what is charged again agree.  In \<open>Startup\<close>, that a service that starts has keys,
  delays within their bounds and an adapter with its credentials for every plan, and serves only authentic
  webhooks.  In \<open>Cli\<close>, that an operator's change of an event is exact and audited, and what the check of the
  configuration promises of a start.  In \<open>Fake\<close>, that the mock's processor answers a repeated key as before.

  Bounds.  Fencing tokens are 64-bit integers and wrap; the theorems on fencing bound the number of
  transactions between two claims by \<open>2 ^ 64\<close>.  Versions are Go's \<open>int64\<close>; theorems on steps assume that
  a version is not the largest one.  No definition needs fuel.

  Not modelled: the connection to the database server (opening, pinging and losing it, but that the query of
  the schema's version may fail) and the interleaving of its transactions, which are serial here apart from
  locked rows; HTTP transport, logging, the
  embedded files of the portal; the goroutines, signals and the listener of a running process (what its loops
  do is modelled, when they run is not); the encoding of what the operator's commands print, and the loader of
  test fixtures (\<^verbatim>\<open>internal/testdata\<close>).  What a processor answers is a parameter of the operations that ask it.
\<close>

end
